(* ===== verification/Prelude.thy ===== *)
theory Prelude
  imports
    Main
    "HOL-Library.Product_Lexorder"
    "HOL-Library.List_Lexorder"
    "HOL-Library.Char_ord"
begin

text \<open>
  Shared vocabulary of the development: the collections of facts the component theories
  contribute to, the queries and updates that SQL statements become on a table held as a list of
  rows in insertion order, and the laws of those queries that every component uses.

  A table is a list of row records. A SELECT that fetches one row is \<open>List.find\<close>, a SELECT
  that fetches all is \<open>filter\<close> under \<open>order_by\<close>, an UPDATE is \<open>update_where\<close>,
  a COUNT is \<open>row_count\<close>, and an INSERT appends the row at the end.
\<close>

named_theorems wp_rules \<open>weakest-precondition equations of the program combinators\<close>
named_theorems keeps_rules \<open>introduction rules for invariant preservation\<close>
named_theorems commits_rules \<open>introduction rules for invariant preservation by a normal return\<close>
named_theorems audit_payload_rules \<open>facts that show an audit payload well formed\<close>

section \<open>Queries and updates on tables\<close>

definition update_where :: "('r \<Rightarrow> bool) \<Rightarrow> ('r \<Rightarrow> 'r) \<Rightarrow> 'r list \<Rightarrow> 'r list" where
  "update_where P f rows = map (\<lambda>r. if P r then f r else r) rows"

definition row_count :: "('r \<Rightarrow> bool) \<Rightarrow> 'r list \<Rightarrow> nat" where
  "row_count P rows = length (filter P rows)"

definition row_exists :: "('r \<Rightarrow> bool) \<Rightarrow> 'r list \<Rightarrow> bool" where
  "row_exists P rows = list_ex P rows"

definition order_by :: "('r \<Rightarrow> 'k::linorder) \<Rightarrow> 'r list \<Rightarrow> 'r list" where
  "order_by key rows = sort_key key rows"

definition order_by_desc :: "('r \<Rightarrow> 'k::linorder) \<Rightarrow> 'r list \<Rightarrow> 'r list" where
  "order_by_desc key rows = rev (sort_key key rows)"

definition delete_where :: "('r \<Rightarrow> bool) \<Rightarrow> 'r list \<Rightarrow> 'r list" where
  "delete_where P rows = filter (\<lambda>r. \<not> P r) rows"

section \<open>Laws of the queries\<close>

lemma row_exists_iff: "row_exists P rows \<longleftrightarrow> (\<exists>r \<in> set rows. P r)"
  by (simp add: row_exists_def list_ex_iff)

lemma length_update_where [simp]: "length (update_where P f rows) = length rows"
  by (simp add: update_where_def)

lemma update_where_Nil [simp]: "update_where P f [] = []"
  by (simp add: update_where_def)

lemma update_where_Cons [simp]:
  "update_where P f (r # rows) = (if P r then f r else r) # update_where P f rows"
  by (simp add: update_where_def)

lemma update_where_append [simp]:
  "update_where P f (xs @ ys) = update_where P f xs @ update_where P f ys"
  by (simp add: update_where_def)

lemma set_update_where: "set (update_where P f rows) = (\<lambda>r. if P r then f r else r) ` set rows"
  by (simp add: update_where_def)

lemma update_where_id: "(\<And>r. r \<in> set rows \<Longrightarrow> \<not> P r) \<Longrightarrow> update_where P f rows = rows"
  by (induction rows) auto

lemma row_count_0_iff: "row_count P rows = 0 \<longleftrightarrow> (\<forall>r \<in> set rows. \<not> P r)"
  by (simp add: row_count_def filter_empty_conv)

lemma row_count_le: "(\<And>r. r \<in> set rows \<Longrightarrow> P r \<Longrightarrow> Q r) \<Longrightarrow> row_count P rows \<le> row_count Q rows"
  by (induction rows) (auto simp: row_count_def)

lemma row_count_append [simp]: "row_count P (xs @ ys) = row_count P xs + row_count P ys"
  by (simp add: row_count_def)

lemma row_count_Cons [simp]: "row_count P (x # xs) = (if P x then 1 else 0) + row_count P xs"
  by (simp add: row_count_def)

lemma row_count_Nil [simp]: "row_count P [] = 0"
  by (simp add: row_count_def)

lemma row_count_delete_where: "row_count Q (delete_where P rows) = row_count (\<lambda>r. Q r \<and> \<not> P r) rows"
  by (simp add: row_count_def delete_where_def conj_commute)

lemma length_delete_where: "length (delete_where P rows) + row_count P rows = length rows"
  by (induction rows) (auto simp: delete_where_def)

lemma set_delete_where [simp]: "set (delete_where P rows) = {r \<in> set rows. \<not> P r}"
  by (simp add: delete_where_def)

lemma set_order_by [simp]: "set (order_by key rows) = set rows"
  by (simp add: order_by_def)

lemma length_order_by [simp]: "length (order_by key rows) = length rows"
  by (simp add: order_by_def)

lemma set_order_by_desc [simp]: "set (order_by_desc key rows) = set rows"
  by (simp add: order_by_desc_def)

lemma sorted_order_by: "sorted (map key (order_by key rows))"
  by (simp add: order_by_def)

lemma find_SomeD: "List.find P xs = Some x \<Longrightarrow> x \<in> set xs \<and> P x"
  by (auto simp: find_Some_iff)

lemma find_None_iff_row: "List.find P xs = None \<longleftrightarrow> (\<forall>x \<in> set xs. \<not> P x)"
  by (auto simp: find_None_iff)

lemma find_append_None: "List.find P xs = None \<Longrightarrow> List.find P (xs @ ys) = List.find P ys"
  by (induction xs) (auto split: if_splits)

lemma find_snoc_new:
  "\<forall>x \<in> set xs. \<not> P x \<Longrightarrow> P y \<Longrightarrow> List.find P (xs @ [y]) = Some y"
  by (induction xs) auto

section \<open>Keyed tables\<close>

text \<open>
  A primary key: no two rows agree on it. The interface below is what every UPDATE of the program
  promises about its table, namely that it does not write the primary key; its consequences (the
  key stays unique, a look-up by key commutes with the update, at most one row is matched) are
  proved once and reused through an interpretation per UPDATE statement.
\<close>

definition key_unique :: "('r \<Rightarrow> 'k) \<Rightarrow> 'r list \<Rightarrow> bool" where
  "key_unique key rows \<longleftrightarrow> distinct (map key rows)"

lemma key_unique_Nil [simp]: "key_unique key []"
  by (simp add: key_unique_def)

lemma key_unique_snoc [simp]:
  "key_unique key (rows @ [r]) \<longleftrightarrow> key_unique key rows \<and> key r \<notin> key ` set rows"
  by (auto simp: key_unique_def)

lemma key_unique_delete: "key_unique key rows \<Longrightarrow> key_unique key (delete_where P rows)"
  by (induction rows) (auto simp: key_unique_def delete_where_def)

lemma key_unique_eq:
  "key_unique key rows \<Longrightarrow> r \<in> set rows \<Longrightarrow> s \<in> set rows \<Longrightarrow> key r = key s \<Longrightarrow> r = s"
  by (auto simp: key_unique_def distinct_map dest: inj_onD)

lemma key_unique_find:
  assumes "key_unique key rows" and "r \<in> set rows"
  shows "List.find (\<lambda>x. key x = key r) rows = Some r"
proof -
  obtain s where s: "List.find (\<lambda>x. key x = key r) rows = Some s"
    using assms(2) by (cases "List.find (\<lambda>x. key x = key r) rows") (auto simp: find_None_iff)
  then have "s \<in> set rows" and "key s = key r"
    using find_SomeD [OF s] by auto
  with assms have "s = r" by (blast intro: key_unique_eq)
  with s show ?thesis by simp
qed

lemma key_unique_row_count:
  assumes "key_unique key rows"
  shows "row_count (\<lambda>r. key r = k \<and> P r) rows \<le> 1"
  using assms
proof (induction rows)
  case (Cons r rows)
  then have IH: "row_count (\<lambda>r. key r = k \<and> P r) rows \<le> 1"
    by (simp add: key_unique_def)
  from Cons.prems have "row_count (\<lambda>s. key s = k \<and> P s) rows = 0" if "key r = k"
    using that by (auto simp: row_count_0_iff key_unique_def) (metis image_eqI)
  with IH show ?case by auto
qed simp

locale keyed_update =
  fixes key :: "'r \<Rightarrow> 'k"
    and upd :: "'r \<Rightarrow> 'r"
  assumes upd_key: "key (upd r) = key r"
begin

lemma upd_keys: "map key (update_where P upd rows) = map key rows"
  by (induction rows) (auto simp: upd_key)

lemma upd_key_unique: "key_unique key rows \<Longrightarrow> key_unique key (update_where P upd rows)"
  by (simp add: key_unique_def upd_keys)

lemma upd_find:
  "List.find (\<lambda>r. key r = k) (update_where P upd rows) =
     map_option (\<lambda>r. if P r then upd r else r) (List.find (\<lambda>r. key r = k) rows)"
  by (induction rows) (auto simp: upd_key)

lemma upd_find_other:
  assumes "\<And>r. P r \<Longrightarrow> key r \<noteq> k"
  shows "List.find (\<lambda>r. key r = k) (update_where P upd rows) = List.find (\<lambda>r. key r = k) rows"
  using assms find_SomeD [of "\<lambda>r. key r = k" rows]
  by (cases "List.find (\<lambda>r. key r = k) rows") (auto simp: upd_find)

lemma upd_row_count_key:
  "row_count (\<lambda>r. key r = k) (update_where P upd rows) = row_count (\<lambda>r. key r = k) rows"
  by (induction rows) (auto simp: upd_key)

end

section \<open>Options and sums\<close>

lemma Inl_or_Inr: "(\<exists>e. x = Inl e) \<or> (\<exists>y. x = Inr y)"
  by (cases x) auto

lemma filter_cong_set: "(\<And>x. x \<in> set xs \<Longrightarrow> P x = Q x) \<Longrightarrow> filter P xs = filter Q xs"
  by (rule filter_cong) auto

end
