(* ===== verification/Py_Text.thy ===== *)
theory Py_Text
  imports Prelude
begin

text \<open>
  The operations of Python strings the program uses. A \<open>str\<close> is a \<^typ>\<open>string\<close> whose
  characters are the code points below 256; this is where the model is bounded, and every
  operation below is Python's on that range except that \<open>casefold\<close> leaves the micro sign
  alone (its folding lies outside the range). The theory holds whitespace stripping, case
  folding, UTF-8 encoding and fixed-width decimal numerals, with the laws the components use.
\<close>

section \<open>Whitespace\<close>

definition code :: "char \<Rightarrow> nat" where
  "code c = of_char c"

definition py_space :: "char \<Rightarrow> bool" where
  "py_space c \<longleftrightarrow> (let n = code c in
     9 \<le> n \<and> n \<le> 13 \<or> 28 \<le> n \<and> n \<le> 32 \<or> n = 133 \<or> n = 160)"

definition strip :: "string \<Rightarrow> string" where
  "strip s = rev (dropWhile py_space (rev (dropWhile py_space s)))"

lemma length_strip_le: "length (strip s) \<le> length s"
  unfolding strip_def by (metis length_dropWhile_le length_rev order_trans)

lemma strip_last: "strip s \<noteq> [] \<Longrightarrow> \<not> py_space (last (strip s))"
  unfolding strip_def by (metis hd_dropWhile last_rev rev_is_Nil_conv)

lemma strip_Nil_iff: "strip s = [] \<longleftrightarrow> (\<forall>c \<in> set s. py_space c)"
proof -
  have "dropWhile py_space (rev t) = [] \<longleftrightarrow> (\<forall>c \<in> set t. py_space c)" for t
    by (simp add: dropWhile_eq_Nil_conv)
  moreover have "(\<forall>c \<in> set (dropWhile py_space s). py_space c) \<longleftrightarrow> (\<forall>c \<in> set s. py_space c)"
    by (induction s) auto
  ultimately show ?thesis by (simp add: strip_def)
qed

lemma dropWhile_hd_id: "xs \<noteq> [] \<Longrightarrow> \<not> P (hd xs) \<Longrightarrow> dropWhile P xs = xs"
  by (cases xs) auto

lemma strip_hd: "strip s \<noteq> [] \<Longrightarrow> \<not> py_space (hd (strip s))"
proof -
  assume ne: "strip s \<noteq> []"
  let ?d = "dropWhile py_space s"
  obtain ys where split: "?d = strip s @ ys"
    unfolding strip_def by (metis rev_append rev_rev_ident takeWhile_dropWhile_id)
  have "?d \<noteq> []" using ne split by auto
  then have "\<not> py_space (hd ?d)" by (rule hd_dropWhile)
  with ne split show ?thesis by simp
qed

lemma strip_strip [simp]: "strip (strip s) = strip s"
proof (cases "strip s = []")
  case True
  then show ?thesis by (simp add: strip_def [of "[]"])
next
  case False
  then have "dropWhile py_space (strip s) = strip s"
    using strip_hd dropWhile_hd_id by blast
  moreover have "dropWhile py_space (rev (strip s)) = rev (strip s)"
    using False strip_last [of s] by (intro dropWhile_hd_id) (auto simp: hd_rev)
  ultimately show ?thesis by (simp add: strip_def [of "strip s"])
qed

section \<open>Case folding\<close>

definition lower_char :: "char \<Rightarrow> char" where
  "lower_char c = (let n = code c in
     if 65 \<le> n \<and> n \<le> 90 \<or> 192 \<le> n \<and> n \<le> 222 \<and> n \<noteq> 215 then char_of (n + 32) else c)"

definition lower :: "string \<Rightarrow> string" where
  "lower s = map lower_char s"

definition casefold :: "string \<Rightarrow> string" where
  "casefold s = concat (map (\<lambda>c. if code c = 223 then ''ss'' else [lower_char c]) s)"

lemma lower_char_idem [simp]: "lower_char (lower_char c) = lower_char c"
proof -
  have "code (char_of m) = m" if "m < 256" for m :: nat
    using that by (simp add: code_def)
  then show ?thesis by (auto simp: lower_char_def Let_def)
qed

lemma lower_lower [simp]: "lower (lower s) = lower s"
  by (simp add: lower_def)

section \<open>UTF-8\<close>

definition utf8_char :: "char \<Rightarrow> string" where
  "utf8_char c = (let n = code c in
     if n < 128 then [c] else [char_of (192 + n div 64), char_of (128 + n mod 64)])"

definition utf8 :: "string \<Rightarrow> string" where
  "utf8 s = concat (map utf8_char s)"

lemma code_char_of [simp]: "n < 256 \<Longrightarrow> code (char_of n) = n"
  by (simp add: code_def)

lemma code_less [simp]: "code c < 256"
  by (simp add: code_def)

lemma code_inject [simp]: "code c = code d \<longleftrightarrow> c = d"
  by (simp add: code_def)

lemma char_of_code [simp]: "char_of (code c) = c"
  by (simp add: code_def)

lemma utf8_char_nonempty: "utf8_char c \<noteq> []"
  by (simp add: utf8_char_def Let_def)

lemma utf8_char_cases:
  "(code c < 128 \<and> utf8_char c = [c]) \<or>
   (128 \<le> code c \<and> utf8_char c = [char_of (192 + code c div 64), char_of (128 + code c mod 64)])"
  by (simp add: utf8_char_def Let_def)

lemma utf8_char_append_inject:
  assumes "utf8_char c @ s = utf8_char d @ t"
  shows "c = d \<and> s = t"
proof -
  have div4: "code x div 64 < 4" for x
    using code_less [of x] by (simp add: less_mult_imp_div_less)
  have first: "code (hd (utf8_char x)) = (if code x < 128 then code x else 192 + code x div 64)" for x
    using div4 [of x] by (simp add: utf8_char_def Let_def)
  have hd_eq: "hd (utf8_char c) = hd (utf8_char d)"
    using assms utf8_char_nonempty by (metis hd_append2)
  show ?thesis
  proof (cases "code c < 128")
    case True
    then have "code d < 128" using hd_eq first [of c] first [of d] by (auto split: if_splits)
    with True assms show ?thesis by (simp add: utf8_char_def Let_def)
  next
    case False
    then have d: "\<not> code d < 128" using hd_eq first [of c] first [of d] by (auto split: if_splits)
    have "code (char_of (128 + code x mod 64)) = 128 + code x mod 64" for x
      by simp
    with False d assms have "code c mod 64 = code d mod 64" and "s = t"
      by (auto simp: utf8_char_def Let_def)
    moreover have "code c div 64 = code d div 64"
      using False d hd_eq first [of c] first [of d] by simp
    ultimately have "code c div 64 = code d div 64" "code c mod 64 = code d mod 64" "s = t"
      by blast+
    then have "code c = code d" by (metis div_mult_mod_eq)
    with \<open>s = t\<close> show ?thesis by simp
  qed
qed

lemma utf8_inject: "utf8 s = utf8 t \<Longrightarrow> s = t"
proof (induction s arbitrary: t)
  case Nil
  then show ?case using utf8_char_nonempty by (cases t) (auto simp: utf8_def)
next
  case (Cons c s)
  then obtain d t' where t: "t = d # t'"
    using utf8_char_nonempty by (cases t) (auto simp: utf8_def)
  with Cons.prems have "c = d \<and> utf8 s = utf8 t'"
    using utf8_char_append_inject by (simp add: utf8_def)
  with Cons.IH t show ?case by blast
qed

lemma length_utf8_ge: "length s \<le> length (utf8 s)"
proof (induction s)
  case (Cons c s)
  then show ?case using utf8_char_cases [of c] by (auto simp: utf8_def)
qed (simp add: utf8_def)

section \<open>Fixed-width decimal numerals\<close>

definition digit :: "nat \<Rightarrow> char" where
  "digit n = char_of (48 + n mod 10)"

fun fixed_digits :: "nat \<Rightarrow> nat \<Rightarrow> string" where
  "fixed_digits 0 n = []"
| "fixed_digits (Suc w) n = fixed_digits w (n div 10) @ [digit n]"

lemma code_digit [simp]: "code (digit n) = 48 + n mod 10"
proof -
  have "48 + n mod 10 < 256" using mod_less_divisor [of 10 n] by linarith
  then show ?thesis unfolding digit_def by (rule code_char_of)
qed

lemma digit_eq_iff: "digit m = digit n \<longleftrightarrow> m mod 10 = n mod 10"
  using code_inject [of "digit m" "digit n"] by simp

lemma char_less_code: "c < d \<longleftrightarrow> code c < code d"
  by (simp add: code_def less_char_def)

lemma length_fixed_digits [simp]: "length (fixed_digits w n) = w"
  by (induction w arbitrary: n) auto

lemma fixed_digits_inject:
  "m < 10 ^ w \<Longrightarrow> n < 10 ^ w \<Longrightarrow> fixed_digits w m = fixed_digits w n \<longleftrightarrow> m = n"
proof (induction w arbitrary: m n)
  case (Suc w)
  have "m div 10 < 10 ^ w" "n div 10 < 10 ^ w"
    using Suc.prems by (simp_all add: less_mult_imp_div_less mult.commute)
  then have "fixed_digits (Suc w) m = fixed_digits (Suc w) n \<longleftrightarrow> m div 10 = n div 10 \<and> m mod 10 = n mod 10"
    using Suc.IH by (simp add: digit_eq_iff)
  also have "\<dots> \<longleftrightarrow> m = n"
    by (metis div_mult_mod_eq)
  finally show ?case .
qed simp

lemma append_less_eq_length:
  fixes a b x y :: "'a::linorder list"
  assumes "length a = length b"
  shows "a @ x < b @ y \<longleftrightarrow> a < b \<or> a = b \<and> x < y"
  using assms by (induction a b rule: list_induct2) (auto simp: less_imp_not_less)

lemma single_less: "[c] < [d] \<longleftrightarrow> c < (d :: 'a::linorder)"
  by simp

lemma nat_div_mod_less:
  fixes m n k :: nat
  assumes "0 < k"
  shows "m < n \<longleftrightarrow> m div k < n div k \<or> m div k = n div k \<and> m mod k < n mod k"
proof -
  have *: "a < b" if "a div k < b div k" for a b :: nat
    using that by (meson div_le_mono leD leI)
  have "m < n \<longleftrightarrow> m mod k < n mod k" if eq: "m div k = n div k"
  proof -
    have "m = (n div k) * k + m mod k" using eq by (metis div_mult_mod_eq)
    moreover have "n = (n div k) * k + n mod k" by simp
    ultimately show ?thesis by linarith
  qed
  then show ?thesis using * by (metis linorder_neq_iff not_less_iff_gr_or_eq)
qed

lemma fixed_digits_less:
  "m < 10 ^ w \<Longrightarrow> n < 10 ^ w \<Longrightarrow> fixed_digits w m < fixed_digits w n \<longleftrightarrow> m < n"
proof (induction w arbitrary: m n)
  case (Suc w)
  have bounds: "m div 10 < 10 ^ w" "n div 10 < 10 ^ w"
    using Suc.prems by (simp_all add: less_mult_imp_div_less mult.commute)
  have "fixed_digits (Suc w) m < fixed_digits (Suc w) n \<longleftrightarrow>
      m div 10 < n div 10 \<or> m div 10 = n div 10 \<and> m mod 10 < n mod 10"
    using Suc.IH [OF bounds] fixed_digits_inject [OF bounds]
    by (auto simp: append_less_eq_length char_less_code)
  also have "\<dots> \<longleftrightarrow> m < n"
    by (rule nat_div_mod_less [symmetric]) simp
  finally show ?case .
qed simp

end
