(* ===== verification/Timestamps.thy ===== *)
theory Timestamps
  imports Py_Text
begin

text \<open>
  Clocks and stored timestamps. A Python \<open>datetime\<close> is either naive or aware; an aware one
  is the instant it denotes, in microseconds since 0001-01-01T00:00:00 UTC, because every use in
  the program converts to UTC first. The function \<open>_utc_text\<close> of \<open>standalone/store.py\<close>
  writes an instant as fixed-width text, and SQL statements compare those texts. The tables of
  this development hold the instant itself; the theorems below are what makes that faithful:
  on the years 1 to 9999 the text determines the instant (it parses back to it) and texts compare
  exactly as instants do.
\<close>

datatype datetime = Naive int | Aware int

type_synonym instant = int

section \<open>The proleptic Gregorian calendar\<close>

definition leap :: "nat \<Rightarrow> bool" where
  "leap y \<longleftrightarrow> y mod 4 = 0 \<and> (y mod 100 \<noteq> 0 \<or> y mod 400 = 0)"

definition year_len :: "nat \<Rightarrow> nat" where
  "year_len y = (if leap y then 366 else 365)"

definition month_len :: "nat \<Rightarrow> nat \<Rightarrow> nat" where
  "month_len y m = (if m = 2 then (if leap y then 29 else 28)
     else if m \<in> {4, 6, 9, 11} then 30 else 31)"

function split_year :: "nat \<Rightarrow> nat \<Rightarrow> nat \<times> nat" where
  "split_year y d = (if d < year_len y then (y, d) else split_year (Suc y) (d - year_len y))"
  by pat_completeness auto
termination
  by (relation "measure (\<lambda>(y, d). d)") (auto simp: year_len_def split: if_splits)

function split_month :: "nat \<Rightarrow> nat \<Rightarrow> nat \<Rightarrow> nat \<times> nat" where
  "split_month y m d =
     (if m < 12 \<and> month_len y m \<le> d then split_month y (Suc m) (d - month_len y m) else (m, d))"
  by pat_completeness auto
termination
  by (relation "measure (\<lambda>(y, m, d). 12 - m)") auto

declare split_year.simps [simp del] split_month.simps [simp del]

definition day_us :: nat where "day_us = 86400000000"

type_synonym civil = "nat \<times> nat \<times> nat \<times> nat \<times> nat \<times> nat \<times> nat"

definition date_of_days :: "nat \<Rightarrow> nat \<times> nat \<times> nat" where
  "date_of_days n = (let (y, r) = split_year 1 n; (m, d) = split_month y 1 r in (y, m, Suc d))"

definition time_of_us :: "nat \<Rightarrow> nat \<times> nat \<times> nat \<times> nat" where
  "time_of_us n = (n div 3600000000, n mod 3600000000 div 60000000,
     n mod 60000000 div 1000000, n mod 1000000)"

definition civil_of :: "nat \<Rightarrow> civil" where
  "civil_of n = (let (y, m, d) = date_of_days (n div day_us);
     (h, mi, s, us) = time_of_us (n mod day_us) in (y, m, d, h, mi, s, us))"

fun iso_of_civil :: "civil \<Rightarrow> string" where
  "iso_of_civil (y, m, d, h, mi, s, us) =
     fixed_digits 4 y @ ''-'' @ fixed_digits 2 m @ ''-'' @ fixed_digits 2 d @ ''T'' @
     fixed_digits 2 h @ '':'' @ fixed_digits 2 mi @ '':'' @ fixed_digits 2 s @ ''.'' @
     fixed_digits 6 us @ ''Z''"

definition iso_text :: "instant \<Rightarrow> string" where
  "iso_text t = iso_of_civil (civil_of (nat t))"

definition datetime_add :: "datetime \<Rightarrow> int \<Rightarrow> datetime" where
  "datetime_add t us = (case t of Naive x \<Rightarrow> Naive (x + us) | Aware x \<Rightarrow> Aware (x + us))"

definition seconds :: "int \<Rightarrow> int" where "seconds n = n * 1000000"
definition minutes :: "int \<Rightarrow> int" where "minutes n = n * 60000000"
definition hours :: "int \<Rightarrow> int" where "hours n = n * 3600000000"
definition days :: "int \<Rightarrow> int" where "days n = n * 86400000000"

lemmas duration_defs = seconds_def minutes_def hours_def days_def

section \<open>Days to dates is strictly monotone\<close>

definition days_before :: "nat \<Rightarrow> nat" where
  "days_before y = (\<Sum>i < y. year_len i)"

definition days_in_year_before :: "nat \<Rightarrow> nat \<Rightarrow> nat" where
  "days_in_year_before y m = (\<Sum>i \<in> {1..<m}. month_len y i)"

definition max_instant :: int where
  "max_instant = int ((days_before 10000 - days_before 1) * day_us)"

lemma year_len_pos: "0 < year_len y"
  by (simp add: year_len_def)

lemma split_year_spec:
  "case split_year y d of (y', r) \<Rightarrow>
     y \<le> y' \<and> r < year_len y' \<and> days_before y' + r = days_before y + d"
proof (induction y d rule: split_year.induct)
  case (1 y d)
  show ?case
  proof (cases "d < year_len y")
    case True
    then show ?thesis by (simp add: split_year.simps [of y d])
  next
    case False
    with "1.IH" show ?thesis
      by (auto simp: split_year.simps [of y d] days_before_def split: prod.splits)
  qed
qed

lemma days_before_mono: "y \<le> y' \<Longrightarrow> days_before y \<le> days_before y'"
  unfolding days_before_def by (rule sum_mono2) auto

lemma days_before_less: "y < y' \<Longrightarrow> days_before y + year_len y \<le> days_before y'"
  using days_before_mono [of "Suc y" y'] by (simp add: days_before_def)

lemma split_month_spec:
  assumes "1 \<le> m" "m \<le> 12"
  shows "case split_month y m d of (m', r) \<Rightarrow>
     m \<le> m' \<and> m' \<le> 12 \<and> (m' < 12 \<longrightarrow> r < month_len y m') \<and>
     days_in_year_before y m' + r = days_in_year_before y m + d"
  using assms
proof (induction y m d rule: split_month.induct)
  case (1 y m d)
  show ?case
  proof (cases "m < 12 \<and> month_len y m \<le> d")
    case True
    have "days_in_year_before y (Suc m) = days_in_year_before y m + month_len y m"
      using "1.prems" by (simp add: days_in_year_before_def sum.atLeastLessThan_Suc)
    with True "1.IH" show ?thesis
      by (auto simp: split_month.simps [of y m d] split: prod.splits)
  next
    case False
    then show ?thesis using "1.prems" by (auto simp: split_month.simps [of y m d])
  qed
qed

lemma days_in_year_before_mono: "m \<le> m' \<Longrightarrow> days_in_year_before y m \<le> days_in_year_before y m'"
  unfolding days_in_year_before_def by (rule sum_mono2) auto

lemma days_in_year_before_less:
  "1 \<le> m \<Longrightarrow> m < m' \<Longrightarrow> days_in_year_before y m + month_len y m \<le> days_in_year_before y m'"
  using days_in_year_before_mono [of "Suc m" m' y]
  by (simp add: days_in_year_before_def sum.atLeastLessThan_Suc)

lemma days_in_year_before_13: "days_in_year_before y 13 = year_len y"
  by (simp add: days_in_year_before_def month_len_def year_len_def numeral_eq_Suc)

lemma date_of_days_spec:
  assumes "date_of_days n = (y, m, d)"
  shows "1 \<le> y \<and> 1 \<le> m \<and> m \<le> 12 \<and> 1 \<le> d \<and> d \<le> month_len y m \<and>
     days_before y + days_in_year_before y m + (d - 1) = days_before 1 + n"
proof -
  obtain r where y: "split_year 1 n = (y, r)"
    using assms by (auto simp: date_of_days_def split: prod.splits)
  obtain r' where m: "split_month y 1 r = (m, r')" and d: "d = Suc r'"
    using assms y by (auto simp: date_of_days_def split: prod.splits)
  from split_year_spec [of 1 n] y
  have Y: "1 \<le> y" "r < year_len y" "days_before y + r = days_before 1 + n" by auto
  from split_month_spec [of 1 y r] m
  have M: "1 \<le> m" "m \<le> 12" "m < 12 \<longrightarrow> r' < month_len y m" "days_in_year_before y m + r' = r"
    by (auto simp: days_in_year_before_def)
  have "r' < month_len y m"
  proof (cases "m < 12")
    case False
    with M have "m = 12" by simp
    then have "days_in_year_before y m + month_len y m = year_len y"
      using days_in_year_before_13 [of y] by (simp add: days_in_year_before_def numeral_eq_Suc)
    with M(4) Y(2) show ?thesis by linarith
  qed (use M in simp)
  with Y M d show ?thesis by auto
qed

lemma month_len_bounds: "28 \<le> month_len y m" "month_len y m \<le> 31"
  by (auto simp: month_len_def)

lemma date_of_days_mono:
  assumes "n < n'"
  shows "date_of_days n < date_of_days n'"
proof -
  obtain y m d where c: "date_of_days n = (y, m, d)" by (cases "date_of_days n") auto
  obtain y' m' d' where c': "date_of_days n' = (y', m', d')" by (cases "date_of_days n'") auto
  note s = date_of_days_spec [OF c] and s' = date_of_days_spec [OF c']
  have whole: "days_in_year_before z k + (e - 1) < year_len z"
    if "1 \<le> k" "k \<le> 12" "1 \<le> e" "e \<le> month_len z k" for z k e
    using days_in_year_before_less [of k 13 z] days_in_year_before_13 [of z] that by linarith
  have "\<not> y' < y"
  proof
    assume "y' < y"
    then have "days_before y' + year_len y' \<le> days_before y" by (rule days_before_less)
    with whole [of m' d' y'] s s' assms show False by linarith
  qed
  moreover have "\<not> (y' = y \<and> m' < m)"
  proof
    assume *: "y' = y \<and> m' < m"
    then have "days_in_year_before y m' + month_len y m' \<le> days_in_year_before y m"
      using s' by (intro days_in_year_before_less) auto
    with * s s' assms show False by auto
  qed
  moreover have "\<not> (y' = y \<and> m' = m \<and> d' \<le> d)"
    using s s' assms by auto
  ultimately show ?thesis unfolding c c' by auto
qed

lemma split_units_mono:
  fixes n n' a b c :: nat
  assumes "n < n'" "0 < a" "0 < b" "0 < c" "b dvd a" "c dvd b"
  shows "(n div a, n mod a div b, n mod b div c, n mod c) <
         (n' div a, n' mod a div b, n' mod b div c, n' mod c)"
proof -
  have "m mod a mod b = m mod b" "m mod b mod c = m mod c" for m
    using assms by (simp_all add: mod_mod_cancel)
  then show ?thesis
    using assms(1-4) nat_div_mod_less [of a n n'] nat_div_mod_less [of b "n mod a" "n' mod a"]
      nat_div_mod_less [of c "n mod b" "n' mod b"]
    by (auto simp: less_prod_simp)
qed

lemma time_of_us_mono: "n < n' \<Longrightarrow> time_of_us n < time_of_us n'"
  unfolding time_of_us_def by (rule split_units_mono) simp_all

lemma civil_of_mono:
  assumes "n < n'"
  shows "civil_of n < civil_of n'"
proof -
  from assms nat_div_mod_less [of day_us n n'] consider
      (day) "n div day_us < n' div day_us"
    | (time) "n div day_us = n' div day_us" "n mod day_us < n' mod day_us"
    by (auto simp: day_us_def)
  then show ?thesis
  proof cases
    case day
    from date_of_days_mono [OF day] show ?thesis
      by (auto simp: civil_of_def split: prod.splits)
  next
    case time
    from time_of_us_mono [OF time(2)] time(1) show ?thesis
      by (auto simp: civil_of_def split: prod.splits)
  qed
qed

section \<open>Texts compare as instants do\<close>

fun civil_ok :: "civil \<Rightarrow> bool" where
  "civil_ok (y, m, d, h, mi, s, us) \<longleftrightarrow>
     1 \<le> y \<and> y < 10000 \<and> 1 \<le> m \<and> m \<le> 12 \<and> 1 \<le> d \<and> d \<le> month_len y m \<and>
     h < 24 \<and> mi < 60 \<and> s < 60 \<and> us < 1000000"

lemma civil_of_ok:
  assumes "0 \<le> t" "t < max_instant"
  shows "civil_ok (civil_of (nat t))"
proof -
  let ?n = "nat t"
  obtain y m d where c: "date_of_days (?n div day_us) = (y, m, d)"
    by (cases "date_of_days (?n div day_us)") auto
  note s = date_of_days_spec [OF c]
  have "?n < (days_before 10000 - days_before 1) * day_us"
    using assms nat_less_iff unfolding max_instant_def by blast
  then have "?n div day_us < days_before 10000 - days_before 1"
    by (simp add: less_mult_imp_div_less)
  then have "days_before y < days_before 10000" using s by linarith
  then have y: "y < 10000" using days_before_mono [of 10000 y] by (meson leD leI)
  have "?n mod day_us < 24 * 3600000000" by (simp add: day_us_def)
  then have "?n mod day_us div 3600000000 < 24" by (simp add: less_mult_imp_div_less)
  moreover have "(x::nat) mod 3600000000 div 60000000 < 60" for x
    by (rule less_mult_imp_div_less) simp
  moreover have "(x::nat) mod 60000000 div 1000000 < 60" for x
    by (rule less_mult_imp_div_less) simp
  ultimately show ?thesis
    using s y by (simp add: civil_of_def c time_of_us_def Let_def)
qed

lemma civil_fields_bounded:
  "civil_ok (y, m, d, h, mi, s, us) \<Longrightarrow>
     y < 10 ^ 4 \<and> m < 10 ^ 2 \<and> d < 10 ^ 2 \<and> h < 10 ^ 2 \<and> mi < 10 ^ 2 \<and> s < 10 ^ 2 \<and> us < 10 ^ 6"
  using month_len_bounds(2) [of y m] by auto

lemma fixed_digits_append_less:
  assumes "m < 10 ^ w" "n < 10 ^ w"
  shows "fixed_digits w m @ x < fixed_digits w n @ y \<longleftrightarrow> m < n \<or> m = n \<and> x < y"
  using assms by (auto simp: append_less_eq_length fixed_digits_less fixed_digits_inject)

lemma iso_of_civil_less:
  assumes "civil_ok f" "civil_ok g" "f < g"
  shows "iso_of_civil f < iso_of_civil g"
proof -
  obtain y m d h mi s us where f: "f = (y, m, d, h, mi, s, us)" by (cases f) auto
  obtain y' m' d' h' mi' s' us' where g: "g = (y', m', d', h', mi', s', us')" by (cases g) auto
  note b = civil_fields_bounded [OF assms(1) [unfolded f]] civil_fields_bounded [OF assms(2) [unfolded g]]
  from assms(3) b show ?thesis
    unfolding f g iso_of_civil.simps
    by (auto simp: fixed_digits_append_less less_prod_simp simp del: fixed_digits.simps)
qed

lemma iso_text_strict_mono:
  assumes "0 \<le> t" "t < t'" "t' < max_instant"
  shows "iso_text t < iso_text t'"
  unfolding iso_text_def
  using assms by (intro iso_of_civil_less civil_of_ok civil_of_mono) auto

lemma iso_text_less_iff:
  assumes "0 \<le> t" "t < max_instant" "0 \<le> t'" "t' < max_instant"
  shows "iso_text t < iso_text t' \<longleftrightarrow> t < t'"
  using iso_text_strict_mono [of t t'] iso_text_strict_mono [of t' t] assms
  by (metis less_asym linorder_neq_iff)

lemma iso_text_inject:
  assumes "0 \<le> t" "t < max_instant" "0 \<le> t'" "t' < max_instant"
  shows "iso_text t = iso_text t' \<longleftrightarrow> t = t'"
  using iso_text_strict_mono [of t t'] iso_text_strict_mono [of t' t] assms
  by (metis less_irrefl linorder_neq_iff)

lemma length_iso_text [simp]: "length (iso_text t) = 27"
  by (cases "civil_of (nat t)") (simp add: iso_text_def)

section \<open>Reading timestamps back\<close>

text \<open>
  The grammar of \<open>datetime.fromisoformat\<close> (CPython 3.9 and 3.10): a date, and after one
  separator character a time of one to three two-digit fields, an optional fraction of three or
  six digits and an optional offset.
\<close>

definition is_digit :: "char \<Rightarrow> bool" where
  "is_digit c \<longleftrightarrow> 48 \<le> code c \<and> code c \<le> 57"

definition digits_val :: "string \<Rightarrow> nat option" where
  "digits_val s = (if s \<noteq> [] \<and> list_all is_digit s
     then Some (foldl (\<lambda>n c. 10 * n + (code c - 48)) 0 s) else None)"

definition parse_date :: "string \<Rightarrow> (nat \<times> nat \<times> nat) option" where
  "parse_date s = (case s of
     [a, b, c, d, x, e, f, z, g, h] \<Rightarrow>
       (if x = CHR ''-'' \<and> z = CHR ''-'' then
          (case (digits_val [a, b, c, d], digits_val [e, f], digits_val [g, h]) of
             (Some y, Some m, Some dd) \<Rightarrow>
               (if 1 \<le> y \<and> 1 \<le> m \<and> m \<le> 12 \<and> 1 \<le> dd \<and> dd \<le> month_len y m
                then Some (y, m, dd) else None)
           | _ \<Rightarrow> None)
        else None)
   | _ \<Rightarrow> None)"

definition parse_fraction :: "string \<Rightarrow> nat option" where
  "parse_fraction s = (case s of [] \<Rightarrow> Some 0
     | c # r \<Rightarrow> if c \<noteq> CHR ''.'' then None
         else if length r = 6 then digits_val r
         else if length r = 3 then map_option ((*) 1000) (digits_val r) else None)"

definition parse_clock :: "string \<Rightarrow> (nat \<times> nat \<times> nat \<times> nat) option" where
  "parse_clock s = (case s of
       [a, b] \<Rightarrow> map_option (\<lambda>h. (h, 0, 0, 0)) (digits_val [a, b])
     | [a, b, x, c, d] \<Rightarrow>
         (if x = CHR '':'' then
            (case (digits_val [a, b], digits_val [c, d]) of
               (Some h, Some m) \<Rightarrow> Some (h, m, 0, 0) | _ \<Rightarrow> None)
          else None)
     | a # b # x # c # d # y # e # f # r \<Rightarrow>
         (if x = CHR '':'' \<and> y = CHR '':'' then
            (case (digits_val [a, b], digits_val [c, d], digits_val [e, f], parse_fraction r) of
               (Some h, Some m, Some s, Some us) \<Rightarrow> Some (h, m, s, us) | _ \<Rightarrow> None)
          else None)
     | _ \<Rightarrow> None)"

definition us_of_clock :: "nat \<times> nat \<times> nat \<times> nat \<Rightarrow> int" where
  "us_of_clock c = (case c of (h, m, s, us) \<Rightarrow>
     int (h * 3600000000 + m * 60000000 + s * 1000000 + us))"

definition is_sign :: "char \<Rightarrow> bool" where
  "is_sign c \<longleftrightarrow> c = CHR ''+'' \<or> c = CHR ''-''"

definition parse_offset :: "string \<Rightarrow> int option option" where
  "parse_offset s = (case s of [] \<Rightarrow> Some None
     | c # r \<Rightarrow> if length r \<notin> {5, 8, 15} then None
         else map_option (\<lambda>k. Some ((if c = CHR ''-'' then -1 else 1) * us_of_clock k))
           (parse_clock r))"

definition days_of_date :: "nat \<times> nat \<times> nat \<Rightarrow> int" where
  "days_of_date c = (case c of (y, m, d) \<Rightarrow>
     int (days_before y + days_in_year_before y m + d) - int (days_before 1) - 1)"

definition clock_ok :: "nat \<times> nat \<times> nat \<times> nat \<Rightarrow> bool" where
  "clock_ok c \<longleftrightarrow> (case c of (h, m, s, us) \<Rightarrow> h < 24 \<and> m < 60 \<and> s < 60)"

definition split_sign :: "string \<Rightarrow> string \<times> string" where
  "split_sign s = (if CHR ''-'' \<in> set s
     then (takeWhile (\<lambda>c. c \<noteq> CHR ''-'') s, dropWhile (\<lambda>c. c \<noteq> CHR ''-'') s)
     else (takeWhile (\<lambda>c. c \<noteq> CHR ''+'') s, dropWhile (\<lambda>c. c \<noteq> CHR ''+'') s))"

definition fromisoformat :: "string \<Rightarrow> datetime option" where
  "fromisoformat s = (case parse_date (take 10 s) of None \<Rightarrow> None
     | Some date \<Rightarrow>
         if drop 11 s = [] then Some (Naive (days_of_date date * int day_us))
         else (case split_sign (drop 11 s) of (clock, offset) \<Rightarrow>
           (case (parse_clock clock, parse_offset offset) of
              (Some c, Some off) \<Rightarrow>
                if \<not> clock_ok c then None
                else (let local = days_of_date date * int day_us + us_of_clock c in
                  (case off of None \<Rightarrow> Some (Naive local)
                   | Some o' \<Rightarrow>
                       if abs o' < int day_us then Some (Aware (local - o')) else None))
            | _ \<Rightarrow> None)))"

definition replace_z :: "string \<Rightarrow> string" where
  "replace_z s = concat (map (\<lambda>c. if c = CHR ''Z'' then ''+00:00'' else [c]) s)"

definition parse_stamp :: "string \<Rightarrow> datetime option" where
  "parse_stamp s = fromisoformat (replace_z s)"

lemma digits_val_fixed: "0 < w \<Longrightarrow> n < 10 ^ w \<Longrightarrow> digits_val (fixed_digits w n) = Some n"
proof -
  have d: "is_digit (digit k)" for k
    using mod_less_divisor [of 10 k] by (simp add: is_digit_def)
  have all: "list_all is_digit (fixed_digits w n)" for w n
    by (induction w arbitrary: n) (auto simp: d)
  have "foldl (\<lambda>n c. 10 * n + (code c - 48)) 0 (fixed_digits w n) = n mod 10 ^ w" for w n
  proof (induction w arbitrary: n)
    case (Suc w)
    then show ?case by (simp add: mod_mult2_eq)
  qed simp
  moreover assume "0 < w" "n < 10 ^ w"
  moreover from \<open>0 < w\<close> have "fixed_digits w n \<noteq> []"
    using length_fixed_digits [of w n] by (metis length_greater_0_conv)
  ultimately show ?thesis using all by (simp add: digits_val_def)
qed

lemma digit_not_mark:
  "digit n \<noteq> CHR ''Z''" "digit n \<noteq> CHR ''-''" "digit n \<noteq> CHR ''+''"
proof -
  have "code (digit n) \<le> 57" "48 \<le> code (digit n)" using mod_less_divisor [of 10 n] by auto
  then show "digit n \<noteq> CHR ''Z''" "digit n \<noteq> CHR ''-''" "digit n \<noteq> CHR ''+''"
    by (auto simp: code_def)
qed

lemma fixed_digits_2: "fixed_digits 2 n = [digit (n div 10), digit n]"
proof -
  have "fixed_digits (Suc (Suc 0)) n = [digit (n div 10), digit n]" by simp
  moreover have "Suc (Suc 0) = 2" by simp
  ultimately show ?thesis by metis
qed

lemma fixed_digits_4:
  "fixed_digits 4 n = [digit (n div 1000), digit (n div 100), digit (n div 10), digit n]"
proof -
  have "fixed_digits (Suc (Suc (Suc (Suc 0)))) n =
      [digit (n div 1000), digit (n div 100), digit (n div 10), digit n]"
    by (simp add: div_mult2_eq [symmetric])
  moreover have "Suc (Suc (Suc (Suc 0))) = 4" by simp
  ultimately show ?thesis by metis
qed

lemma fixed_digits_6:
  "fixed_digits 6 n = [digit (n div 100000), digit (n div 10000), digit (n div 1000),
     digit (n div 100), digit (n div 10), digit n]"
proof -
  have "fixed_digits (Suc (Suc (Suc (Suc (Suc (Suc 0)))))) n =
      [digit (n div 100000), digit (n div 10000), digit (n div 1000),
       digit (n div 100), digit (n div 10), digit n]"
    by (simp add: div_mult2_eq [symmetric])
  moreover have "Suc (Suc (Suc (Suc (Suc (Suc 0))))) = 6" by simp
  ultimately show ?thesis by metis
qed

lemma iso_of_civil_chars:
  "iso_of_civil (y, m, d, h, mi, s, us) =
     [digit (y div 1000), digit (y div 100), digit (y div 10), digit y, CHR ''-'',
      digit (m div 10), digit m, CHR ''-'', digit (d div 10), digit d, CHR ''T'',
      digit (h div 10), digit h, CHR '':'', digit (mi div 10), digit mi, CHR '':'',
      digit (s div 10), digit s, CHR ''.'',
      digit (us div 100000), digit (us div 10000), digit (us div 1000), digit (us div 100),
      digit (us div 10), digit us, CHR ''Z'']"
  by (simp add: fixed_digits_2 fixed_digits_4 fixed_digits_6)

lemma digits_val_2: "n < 100 \<Longrightarrow> digits_val [digit (n div 10), digit n] = Some n"
  using digits_val_fixed [of 2 n] by (simp add: fixed_digits_2)

lemma digits_val_4:
  "n < 10000 \<Longrightarrow>
     digits_val [digit (n div 1000), digit (n div 100), digit (n div 10), digit n] = Some n"
  using digits_val_fixed [of 4 n] by (simp add: fixed_digits_4)

lemma digits_val_6:
  "n < 1000000 \<Longrightarrow>
     digits_val [digit (n div 100000), digit (n div 10000), digit (n div 1000), digit (n div 100),
       digit (n div 10), digit n] = Some n"
  using digits_val_fixed [of 6 n] by (simp add: fixed_digits_6)

lemmas digits_val_fields = digits_val_2 digits_val_4 digits_val_6

lemma parse_stamp_civil:
  assumes "civil_ok (y, m, d, h, mi, s, us)"
  shows "parse_stamp (iso_of_civil (y, m, d, h, mi, s, us)) =
     Some (Aware (days_of_date (y, m, d) * int day_us + us_of_clock (h, mi, s, us)))"
proof -
  have b: "y < 10000" "m < 100" "d < 100" "h < 100" "mi < 100" "s < 100" "us < 1000000"
    using civil_fields_bounded [OF assms] by simp_all
  let ?clock = "[digit (h div 10), digit h, CHR '':'', digit (mi div 10), digit mi, CHR '':'',
      digit (s div 10), digit s, CHR ''.'',
      digit (us div 100000), digit (us div 10000), digit (us div 1000), digit (us div 100),
      digit (us div 10), digit us]"
  have r: "replace_z (iso_of_civil (y, m, d, h, mi, s, us)) =
      [digit (y div 1000), digit (y div 100), digit (y div 10), digit y, CHR ''-'',
       digit (m div 10), digit m, CHR ''-'', digit (d div 10), digit d, CHR ''T''] @ ?clock @ ''+00:00''"
    unfolding iso_of_civil_chars replace_z_def by (simp add: digit_not_mark)
  have sp: "split_sign (?clock @ ''+00:00'') = (?clock, ''+00:00'')"
    by (simp add: split_sign_def digit_not_mark digit_not_mark [symmetric])
  have cl: "parse_clock ?clock = Some (h, mi, s, us)"
    by (simp add: parse_clock_def parse_fraction_def digits_val_fields b)
  have off: "parse_offset ''+00:00'' = Some (Some 0)"
    by (simp add: parse_offset_def parse_clock_def digits_val_def is_digit_def code_def us_of_clock_def)
  have date: "parse_date [digit (y div 1000), digit (y div 100), digit (y div 10), digit y, CHR ''-'',
       digit (m div 10), digit m, CHR ''-'', digit (d div 10), digit d] = Some (y, m, d)"
    using assms by (simp add: parse_date_def digits_val_fields b)
  have "clock_ok (h, mi, s, us)" using assms by (simp add: clock_ok_def)
  moreover have "drop 11 (replace_z (iso_of_civil (y, m, d, h, mi, s, us))) = ?clock @ ''+00:00''"
    unfolding r by simp
  moreover have "parse_date (take 10 (replace_z (iso_of_civil (y, m, d, h, mi, s, us)))) = Some (y, m, d)"
    unfolding r by (simp add: date)
  moreover have "?clock @ ''+00:00'' \<noteq> []" by simp
  ultimately show ?thesis
    unfolding parse_stamp_def fromisoformat_def
    by (simp only: sp cl off option.case prod.case if_False Let_def not_True_eq_False)
      (simp add: day_us_def)
qed

lemma us_of_clock_time_of_us:
  "n < day_us \<Longrightarrow> us_of_clock (time_of_us n) = int n"
proof -
  have *: "n = n div a * a + n mod a div b * b + n mod b div c * c + n mod c"
    if "b dvd a" "c dvd b" for n a b c :: nat
  proof -
    have "n mod a mod b = n mod b" "n mod b mod c = n mod c"
      using that by (simp_all add: mod_mod_cancel)
    then show ?thesis by (metis div_mult_mod_eq add.assoc)
  qed
  show ?thesis
    using * [of 60000000 3600000000 1000000 n]
    by (simp add: us_of_clock_def time_of_us_def)
qed

lemma days_of_date_of_days: "days_of_date (date_of_days n) = int n"
proof -
  obtain y m d where c: "date_of_days n = (y, m, d)" by (cases "date_of_days n") auto
  from date_of_days_spec [OF c] have "1 \<le> d"
    and "days_before y + days_in_year_before y m + (d - 1) = days_before 1 + n" by auto
  then show ?thesis unfolding c days_of_date_def prod.case by linarith
qed

lemma parse_stamp_iso_text:
  assumes "0 \<le> t" "t < max_instant"
  shows "parse_stamp (iso_text t) = Some (Aware t)"
proof -
  let ?n = "nat t"
  obtain y m d where dt: "date_of_days (?n div day_us) = (y, m, d)"
    by (cases "date_of_days (?n div day_us)") auto
  obtain h mi s us where cl: "time_of_us (?n mod day_us) = (h, mi, s, us)"
    by (cases "time_of_us (?n mod day_us)") auto
  have c: "civil_of ?n = (y, m, d, h, mi, s, us)" by (simp add: civil_of_def dt cl)
  have "days_of_date (y, m, d) = int (?n div day_us)"
    using days_of_date_of_days [of "?n div day_us"] dt by simp
  moreover have "us_of_clock (h, mi, s, us) = int (?n mod day_us)"
    using us_of_clock_time_of_us [of "?n mod day_us"] cl by (simp add: day_us_def)
  ultimately have "days_of_date (y, m, d) * int day_us + us_of_clock (h, mi, s, us) = t"
    using assms(1) by (metis div_mult_mod_eq int_nat_eq of_nat_add of_nat_mult)
  with parse_stamp_civil [of y m d h mi s us] civil_of_ok [OF assms] show ?thesis
    by (simp add: iso_text_def c)
qed

lemma max_instant_ge: "365 * 9998 * 86400000000 \<le> max_instant"
proof -
  have 365: "365 * y \<le> days_before y" for y
    by (induction y) (auto simp: days_before_def year_len_def)
  have one: "days_before 1 = 366" by (simp add: days_before_def year_len_def leap_def)
  have "365 * 9998 \<le> days_before 10000 - days_before 1"
    using 365 [of 10000] unfolding one by linarith
  then have "365 * 9998 * day_us \<le> (days_before 10000 - days_before 1) * day_us"
    by (rule mult_le_mono1)
  then have "int (365 * 9998 * day_us) \<le> max_instant"
    unfolding max_instant_def by (rule of_nat_mono)
  then show ?thesis by (simp add: day_us_def)
qed

text \<open>The closed form of the calendar, so that the end of the year 9999 is a number.\<close>

lemma leap_count: "(if n dvd Suc y then 1 else 0) = int (Suc y div n) - int (y div n)" if "0 < n" for n y :: nat
  using that by (cases "n dvd Suc y") (auto simp: div_Suc dvd_eq_mod_eq_0)

lemma days_before_closed:
  "int (days_before (Suc y)) = 366 + 365 * int y + int (y div 4) - int (y div 100) + int (y div 400)"
proof (induction y)
  case 0
  then show ?case by (simp add: days_before_def year_len_def leap_def)
next
  case (Suc y)
  have leap: "leap (Suc y) \<longleftrightarrow> 4 dvd Suc y \<and> (\<not> 100 dvd Suc y \<or> 400 dvd Suc y)"
    by (simp add: leap_def dvd_eq_mod_eq_0)
  have dv: "400 dvd Suc y \<Longrightarrow> 100 dvd Suc y" "100 dvd Suc y \<Longrightarrow> 4 dvd Suc y"
    by (auto elim: dvd_trans [rotated])
  have len: "int (year_len (Suc y)) = 365 + (if 4 dvd Suc y then 1 else 0) - (if 100 dvd Suc y then 1 else 0) +
      (if 400 dvd Suc y then 1 else 0)"
    using dv by (auto simp: year_len_def leap)
  have "int (days_before (Suc (Suc y))) = int (days_before (Suc y)) + int (year_len (Suc y))"
    by (simp add: days_before_def)
  then show ?case
    using Suc.IH leap_count [of 4 y] leap_count [of 100 y] leap_count [of 400 y] len by simp
qed

lemma max_instant_code [code]: "max_instant = 315537897600000000"
proof -
  have "int (days_before 10000) = 3652425"
    using days_before_closed [of 9999] by simp
  moreover have "days_before 1 = 366" using days_before_closed [of 0] by simp
  ultimately have "days_before 10000 - days_before 1 = 3652059" by linarith
  then show ?thesis by (simp add: max_instant_def day_us_def)
qed

end
