(* ===== verification/Json.thy ===== *)
theory Json
  imports Timestamps
begin

text \<open>
  Canonical JSON, as \<open>json.dumps(..., separators=(",", ":"), sort_keys=True)\<close> writes it and
  \<open>json.loads\<close> reads it. The flag \<open>asc\<close> is \<open>ensure_ascii\<close>. A float is kept as
  the text of its literal (no payload the program writes holds one), and a four-digit escape above
  255 lies outside the modelled strings, so reading it fails. The theorem of the theory is the
  round trip: reading what was written gives the value back.
\<close>

datatype json =
    JNull
  | JBool bool
  | JInt int
  | JFloat string
  | JStr string
  | JList "json list"
  | JObj "(string \<times> json) list"

section \<open>Writing\<close>

fun show_nat :: "nat \<Rightarrow> string" where
  "show_nat n = (if n < 10 then [digit n] else show_nat (n div 10) @ [digit n])"

declare show_nat.simps [simp del]

definition show_int :: "int \<Rightarrow> string" where
  "show_int i = (if i < 0 then CHR ''-'' # show_nat (nat (- i)) else show_nat (nat i))"

definition hex_digit :: "nat \<Rightarrow> char" where
  "hex_digit n = (if n < 10 then char_of (48 + n) else char_of (87 + n))"

definition json_escape :: "bool \<Rightarrow> char \<Rightarrow> string" where
  "json_escape asc c = (let n = code c in
     if n = 34 then [CHR 0x5C, CHR 0x22]
     else if n = 92 then [CHR 0x5C, CHR 0x5C]
     else if n = 10 then [CHR 0x5C, CHR ''n'']
     else if n = 13 then [CHR 0x5C, CHR ''r'']
     else if n = 9 then [CHR 0x5C, CHR ''t'']
     else if n = 8 then [CHR 0x5C, CHR ''b'']
     else if n = 12 then [CHR 0x5C, CHR ''f'']
     else if n < 32 \<or> asc \<and> 126 < n then
       [CHR 0x5C, CHR ''u'', CHR ''0'', CHR ''0'', hex_digit (n div 16), hex_digit (n mod 16)]
     else [c])"

definition json_string :: "bool \<Rightarrow> string \<Rightarrow> string" where
  "json_string asc s = [CHR 0x22] @ concat (map (json_escape asc) s) @ [CHR 0x22]"

fun join_comma :: "string list \<Rightarrow> string" where
  "join_comma [] = []"
| "join_comma [x] = x"
| "join_comma (x # y # xs) = x @ [CHR '',''] @ join_comma (y # xs)"

fun dumps :: "bool \<Rightarrow> json \<Rightarrow> string" where
  "dumps asc JNull = ''null''"
| "dumps asc (JBool b) = (if b then ''true'' else ''false'')"
| "dumps asc (JInt i) = show_int i"
| "dumps asc (JFloat s) = s"
| "dumps asc (JStr s) = json_string asc s"
| "dumps asc (JList vs) = ''['' @ join_comma (map (dumps asc) vs) @ '']''"
| "dumps asc (JObj kvs) = ''{'' @ join_comma (map snd (sort_key fst
     (map (\<lambda>(k, v). (k, json_string asc k @ '':'' @ dumps asc v)) kvs))) @ ''}''"

section \<open>Reading\<close>

definition json_space :: "char \<Rightarrow> bool" where
  "json_space c \<longleftrightarrow> code c \<in> {9, 10, 13, 32}"

definition skip_ws :: "string \<Rightarrow> string" where
  "skip_ws s = dropWhile json_space s"

definition hex_val :: "char \<Rightarrow> nat option" where
  "hex_val c = (let n = code c in
     if 48 \<le> n \<and> n \<le> 57 then Some (n - 48)
     else if 97 \<le> n \<and> n \<le> 102 then Some (n - 87)
     else if 65 \<le> n \<and> n \<le> 70 then Some (n - 55) else None)"

definition hex4 :: "char \<Rightarrow> char \<Rightarrow> char \<Rightarrow> char \<Rightarrow> char option" where
  "hex4 a b c d = (case (hex_val a, hex_val b, hex_val c, hex_val d) of
     (Some w, Some x, Some y, Some z) \<Rightarrow>
       (let n = ((w * 16 + x) * 16 + y) * 16 + z in if n < 256 then Some (char_of n) else None)
   | _ \<Rightarrow> None)"

definition plain_escape :: "char \<Rightarrow> char option" where
  "plain_escape e = (if e \<in> {CHR 0x22, CHR 0x5C, CHR ''/''} then Some e
     else if e = CHR ''n'' then Some (char_of (10::nat)) else if e = CHR ''r'' then Some (char_of (13::nat))
     else if e = CHR ''t'' then Some (char_of (9::nat)) else if e = CHR ''b'' then Some (char_of (8::nat))
     else if e = CHR ''f'' then Some (char_of (12::nat)) else None)"

fun parse_chars :: "string \<Rightarrow> (string \<times> string) option" where
  "parse_chars [] = None"
| "parse_chars (c # cs) =
     (if c = CHR 0x22 then Some ([], cs)
      else if c = CHR 0x5C then
        (case cs of
           [] \<Rightarrow> None
         | e # r \<Rightarrow>
             (if e = CHR ''u'' then
                (case r of
                   x1 # x2 # x3 # x4 # r' \<Rightarrow>
                     (case hex4 x1 x2 x3 x4 of None \<Rightarrow> None
                      | Some x \<Rightarrow> map_option (\<lambda>(s, t). (x # s, t)) (parse_chars r'))
                 | _ \<Rightarrow> None)
              else (case plain_escape e of None \<Rightarrow> None
                 | Some x \<Rightarrow> map_option (\<lambda>(s, t). (x # s, t)) (parse_chars r))))
      else if code c < 32 then None
      else map_option (\<lambda>(s, t). (c # s, t)) (parse_chars cs))"

definition int_part :: "string \<Rightarrow> (string \<times> string) option" where
  "int_part s = (case s of [] \<Rightarrow> None
     | c # r \<Rightarrow> if c = CHR ''0'' then Some ([c], r)
         else if is_digit c then Some (takeWhile is_digit s, dropWhile is_digit s) else None)"

definition frac_part :: "string \<Rightarrow> string \<times> string" where
  "frac_part s = (case s of
       c # d # r \<Rightarrow> (if c = CHR ''.'' \<and> is_digit d
         then (c # takeWhile is_digit (d # r), dropWhile is_digit (d # r)) else ([], s))
     | _ \<Rightarrow> ([], s))"

definition exp_part :: "string \<Rightarrow> string \<times> string" where
  "exp_part s = (case s of
       [] \<Rightarrow> ([], s)
     | c # r \<Rightarrow>
         (if c \<in> {CHR ''e'', CHR ''E''} then
            (let sg = (case r of x # _ \<Rightarrow> if is_sign x then [x] else [] | [] \<Rightarrow> []);
                 r' = drop (length sg) r
             in if r' \<noteq> [] \<and> is_digit (hd r')
                then (c # sg @ takeWhile is_digit r', dropWhile is_digit r') else ([], s))
          else ([], s)))"

definition parse_number :: "string \<Rightarrow> (json \<times> string) option" where
  "parse_number s = (let (neg, r) = (case s of c # r \<Rightarrow> (if c = CHR ''-'' then ([c], r) else ([], s))
                                   | [] \<Rightarrow> ([], s))
     in (case int_part r of None \<Rightarrow> None
         | Some (ds, r1) \<Rightarrow>
             (let (fr, r2) = frac_part r1; (ex, r3) = exp_part r2 in
              if fr = [] \<and> ex = [] then
                map_option (\<lambda>n. (JInt (if neg = [] then int n else - int n), r3)) (digits_val ds)
              else Some (JFloat (neg @ ds @ fr @ ex), r3))))"

definition obj_put :: "(string \<times> json) list \<Rightarrow> string \<Rightarrow> json \<Rightarrow> (string \<times> json) list" where
  "obj_put kvs k v = (if k \<in> fst ` set kvs then map (\<lambda>(k', v'). (k', if k' = k then v else v')) kvs
     else kvs @ [(k, v)])"

definition strip_prefix :: "string \<Rightarrow> string \<Rightarrow> string option" where
  "strip_prefix p s = (if take (length p) s = p then Some (drop (length p) s) else None)"

fun parse_literal :: "(string \<times> json) list \<Rightarrow> string \<Rightarrow> (json \<times> string) option" where
  "parse_literal [] s = None"
| "parse_literal ((w, v) # ws) s =
     (case strip_prefix w s of Some r \<Rightarrow> Some (v, r) | None \<Rightarrow> parse_literal ws s)"

definition literals :: "(string \<times> json) list" where
  "literals = [(''null'', JNull), (''true'', JBool True), (''false'', JBool False),
     (''NaN'', JFloat ''NaN''), (''Infinity'', JFloat ''Infinity''),
     (''-Infinity'', JFloat ''-Infinity'')]"

fun parse_value :: "nat \<Rightarrow> string \<Rightarrow> (json \<times> string) option"
  and parse_elements :: "nat \<Rightarrow> json list \<Rightarrow> string \<Rightarrow> (json \<times> string) option"
  and parse_members :: "nat \<Rightarrow> (string \<times> json) list \<Rightarrow> string \<Rightarrow> (json \<times> string) option" where
  "parse_value 0 s = None"
| "parse_value (Suc n) s =
     (case s of [] \<Rightarrow> None
      | c # r \<Rightarrow>
         (if c = CHR 0x22 then map_option (\<lambda>(t, r'). (JStr t, r')) (parse_chars r)
          else if c = CHR ''{'' then
            (case skip_ws r of
               [] \<Rightarrow> None
             | d # r' \<Rightarrow> if d = CHR ''}'' then Some (JObj [], r') else parse_members n [] (d # r'))
          else if c = CHR ''['' then
            (case skip_ws r of
               [] \<Rightarrow> None
             | d # r' \<Rightarrow> if d = CHR '']'' then Some (JList [], r') else parse_elements n [] (d # r'))
          else (case parse_literal literals s of
                  Some v \<Rightarrow> Some v
                | None \<Rightarrow> parse_number s)))"
| "parse_elements 0 acc s = None"
| "parse_elements (Suc n) acc s =
     (case parse_value n s of None \<Rightarrow> None
      | Some (v, r) \<Rightarrow>
          (case skip_ws r of [] \<Rightarrow> None
           | c # r' \<Rightarrow>
               (if c = CHR '']'' then Some (JList (acc @ [v]), r')
                else if c = CHR '','' then parse_elements n (acc @ [v]) (skip_ws r')
                else None)))"
| "parse_members 0 acc s = None"
| "parse_members (Suc n) acc s =
     (case s of [] \<Rightarrow> None
      | q # s' \<Rightarrow>
          (if q \<noteq> CHR 0x22 then None
           else (case parse_chars s' of None \<Rightarrow> None
             | Some (k, r) \<Rightarrow>
                 (case skip_ws r of [] \<Rightarrow> None
                  | c # r' \<Rightarrow>
                      (if c \<noteq> CHR '':'' then None
                       else (case parse_value n (skip_ws r') of None \<Rightarrow> None
                         | Some (v, t) \<Rightarrow>
                             (case skip_ws t of [] \<Rightarrow> None
                              | e # t' \<Rightarrow>
                                  (if e = CHR ''}'' then Some (JObj (obj_put acc k v), t')
                                   else if e = CHR '','' then
                                     parse_members n (obj_put acc k v) (skip_ws t')
                                   else None))))))))"

definition loads :: "string \<Rightarrow> json option" where
  "loads s = (case parse_value (Suc (length s)) (skip_ws s) of
     Some (v, r) \<Rightarrow> if skip_ws r = [] then Some v else None | None \<Rightarrow> None)"

section \<open>Reading a written string\<close>

lemma char_of_eqI: "code c = n \<Longrightarrow> c = char_of n"
  using char_of_code by metis

lemma code_literals:
  "code c = 34 \<longleftrightarrow> c = CHR 0x22" "code c = 92 \<longleftrightarrow> c = CHR 0x5C" "code c = 10 \<longleftrightarrow> c = CHR 0x0A"
  "code c = 13 \<longleftrightarrow> c = CHR 0x0D" "code c = 9 \<longleftrightarrow> c = CHR 0x09" "code c = 8 \<longleftrightarrow> c = CHR 0x08"
  "code c = 12 \<longleftrightarrow> c = CHR 0x0C" "code c = 48 \<longleftrightarrow> c = CHR ''0''"
  using code_inject [of c "CHR 0x22"] code_inject [of c "CHR 0x5C"] code_inject [of c "CHR 0x0A"]
    code_inject [of c "CHR 0x0D"] code_inject [of c "CHR 0x09"] code_inject [of c "CHR 0x08"]
    code_inject [of c "CHR 0x0C"] code_inject [of c "CHR ''0''"]
  by (simp_all add: code_def)

lemma char_of_literals:
  "char_of (10::nat) = CHR 0x0A" "char_of (13::nat) = CHR 0x0D" "char_of (9::nat) = CHR 0x09"
  "char_of (8::nat) = CHR 0x08" "char_of (12::nat) = CHR 0x0C" "char_of (48::nat) = CHR ''0''"
  by (simp_all flip: code_literals)

lemma hex_val_digit: "n < 16 \<Longrightarrow> hex_val (hex_digit n) = Some n"
  by (auto simp: hex_val_def hex_digit_def Let_def)

lemma hex4_code: "hex4 CHR ''0'' CHR ''0'' (hex_digit (code c div 16)) (hex_digit (code c mod 16)) = Some c"
proof -
  have "code c div 16 < 16" using code_less [of c] by (simp add: less_mult_imp_div_less)
  moreover have "hex_val CHR ''0'' = Some 0" by (simp add: hex_val_def code_def)
  ultimately show ?thesis by (simp add: hex4_def hex_val_digit)
qed

lemma parse_chars_escape:
  "parse_chars (json_escape asc c @ t) = map_option (\<lambda>(s, r). (c # s, r)) (parse_chars t)"
proof -
  consider (short) "code c \<in> {34, 92, 10, 13, 9, 8, 12}"
    | (long) "code c \<notin> {34, 92, 10, 13, 9, 8, 12}" "code c < 32 \<or> asc \<and> 126 < code c"
    | (raw) "code c \<notin> {34, 92, 10, 13, 9, 8, 12}" "\<not> (code c < 32 \<or> asc \<and> 126 < code c)"
    by blast
  then show ?thesis
  proof cases
    case short
    then have "c \<in> {CHR 0x22, CHR 0x5C, CHR 0x0A, CHR 0x0D, CHR 0x09, CHR 0x08, CHR 0x0C}"
      by (simp add: code_literals)
    then show ?thesis
      by (elim insertE emptyE; simp add: json_escape_def plain_escape_def Let_def code_literals char_of_literals)
  next
    case long
    then show ?thesis by (simp add: json_escape_def Let_def hex4_code)
  next
    case raw
    then have "c \<noteq> CHR 0x22" "c \<noteq> CHR 0x5C" by (auto simp: code_def)
    with raw show ?thesis by (auto simp: json_escape_def Let_def)
  qed
qed

lemma parse_chars_escapes:
  "parse_chars (concat (map (json_escape asc) s) @ CHR 0x22 # rest) = Some (s, rest)"
  by (induction s) (auto simp: parse_chars_escape simp del: parse_chars.simps(2), simp)

lemma parse_json_string:
  "parse_value (Suc n) (json_string asc s @ rest) = Some (JStr s, rest)"
  by (simp add: json_string_def parse_chars_escapes)

section \<open>Reading a written number\<close>

definition stops :: "string \<Rightarrow> bool" where
  "stops rest \<longleftrightarrow> rest = [] \<or> hd rest \<in> {CHR '','', CHR '']'', CHR ''}''}"

lemma is_digit_digit [simp]: "is_digit (digit n)"
  using mod_less_divisor [of 10 n] by (simp add: is_digit_def)

lemma show_nat_digits: "list_all is_digit (show_nat n) \<and> show_nat n \<noteq> []"
proof (induction n rule: show_nat.induct)
  case (1 n)
  then show ?case by (cases "n < 10") (auto simp: show_nat.simps [of n])
qed

lemma digits_val_show_nat: "digits_val (show_nat n) = Some n"
proof -
  have "foldl (\<lambda>n c. 10 * n + (code c - 48)) 0 (show_nat n) = n"
  proof (induction n rule: show_nat.induct)
    case (1 n)
    then show ?case by (cases "n < 10") (auto simp: show_nat.simps [of n])
  qed
  then show ?thesis using show_nat_digits [of n] by (simp add: digits_val_def)
qed

lemma show_nat_zero: "hd (show_nat n) = CHR ''0'' \<longleftrightarrow> n = 0"
proof (induction n rule: show_nat.induct)
  case (1 n)
  show ?case
  proof (cases "n < 10")
    case True
    have "digit n = CHR ''0'' \<longleftrightarrow> code (digit n) = 48"
      by (rule code_literals(8) [symmetric])
    with True show ?thesis by (simp add: show_nat.simps [of n])
  next
    case False
    then show ?thesis
      using 1 show_nat_digits [of "n div 10"] by (simp add: show_nat.simps [of n])
  qed
qed

lemma stops_not_digit: "stops rest \<Longrightarrow> takeWhile is_digit rest = [] \<and> dropWhile is_digit rest = rest"
  by (cases rest) (auto simp: stops_def is_digit_def code_def)

lemma takeWhile_show_nat:
  "stops rest \<Longrightarrow> takeWhile is_digit (show_nat n @ rest) = show_nat n \<and>
     dropWhile is_digit (show_nat n @ rest) = rest"
  using show_nat_digits [of n] stops_not_digit [of rest]
  by (simp add: takeWhile_append dropWhile_append list_all_iff)

lemma int_part_show_nat:
  assumes "stops rest"
  shows "int_part (show_nat n @ rest) = Some (show_nat n, rest)"
proof (cases "n = 0")
  case True
  then show ?thesis
    by (simp add: show_nat.simps [of 0] int_part_def digit_def char_of_literals)
next
  case False
  obtain c r where s: "show_nat n = c # r" using show_nat_digits [of n] by (cases "show_nat n") auto
  with False show_nat_zero [of n] have "c \<noteq> CHR ''0''" by auto
  moreover have "is_digit c" using s show_nat_digits [of n] by simp
  ultimately show ?thesis
    using takeWhile_show_nat [OF assms, of n] s by (simp add: int_part_def)
qed

lemma stops_no_fraction: "stops rest \<Longrightarrow> frac_part rest = ([], rest) \<and> exp_part rest = ([], rest)"
  by (cases rest; cases "tl rest") (auto simp: stops_def frac_part_def exp_part_def)

lemma digit_not_minus: "is_digit c \<Longrightarrow> c \<noteq> CHR ''-''"
  by (auto simp: is_digit_def code_def)

lemma parse_number_show_int:
  assumes "stops rest"
  shows "parse_number (show_int i @ rest) = Some (JInt i, rest)"
proof -
  note facts = int_part_show_nat [OF assms] stops_no_fraction [OF assms] digits_val_show_nat
  show ?thesis
  proof (cases "i < 0")
    case True
    then show ?thesis by (simp add: parse_number_def show_int_def facts)
  next
    case False
    obtain c r where s: "show_nat (nat i) = c # r"
      using show_nat_digits [of "nat i"] by (cases "show_nat (nat i)") auto
    then have "c \<noteq> CHR ''-''" using show_nat_digits [of "nat i"] digit_not_minus by auto
    with False s facts(1) [of "nat i"] digits_val_show_nat [of "nat i"] show ?thesis
      by (simp add: parse_number_def show_int_def facts(2))
  qed
qed

lemma show_int_shape:
  "\<exists>c r. show_int i = c # r \<and> (is_digit c \<or> c = CHR ''-'' \<and> r \<noteq> [] \<and> is_digit (hd r))"
proof -
  obtain c r where "show_nat (nat (abs i)) = c # r" "is_digit c"
    using show_nat_digits [of "nat (abs i)"] by (cases "show_nat (nat (abs i))") auto
  then show ?thesis by (auto simp: show_int_def)
qed

lemma digit_no_literal:
  "is_digit c \<Longrightarrow> c \<noteq> CHR ''n'' \<and> c \<noteq> CHR ''t'' \<and> c \<noteq> CHR ''f'' \<and> c \<noteq> CHR ''N'' \<and> c \<noteq> CHR ''I''
     \<and> c \<noteq> CHR 0x22 \<and> c \<noteq> CHR ''{'' \<and> c \<noteq> CHR ''['' \<and> c \<noteq> CHR '']'' \<and> c \<noteq> CHR ''}'' \<and> \<not> json_space c"
  by (auto simp: is_digit_def code_def json_space_def)

lemma strip_prefix_simps:
  "strip_prefix [] s = Some s"
  "strip_prefix (p # ps) (c # cs) = (if c = p then strip_prefix ps cs else None)"
  "strip_prefix (p # ps) [] = None"
  by (auto simp: strip_prefix_def)

lemma parse_literal_digit: "is_digit c \<Longrightarrow> parse_literal literals (c # r) = None"
  using digit_no_literal [of c] digit_not_minus [of c]
  by (simp add: literals_def strip_prefix_simps)

lemma parse_literal_minus: "is_digit c \<Longrightarrow> parse_literal literals (CHR ''-'' # c # r) = None"
  using digit_no_literal [of c] by (simp add: literals_def strip_prefix_simps)

lemma parse_value_show_int:
  assumes "stops rest"
  shows "parse_value (Suc n) (show_int i @ rest) = Some (JInt i, rest)"
proof -
  obtain c r where s: "show_int i = c # r"
    and sh: "is_digit c \<or> c = CHR ''-'' \<and> r \<noteq> [] \<and> is_digit (hd r)"
    using show_int_shape by blast
  then have "parse_literal literals (c # r @ rest) = None"
    by (cases r) (auto simp: parse_literal_digit parse_literal_minus simp del: parse_literal.simps)
  moreover have "c \<noteq> CHR 0x22" "c \<noteq> CHR ''{''" "c \<noteq> CHR ''[''"
    using sh digit_no_literal by auto
  ultimately show ?thesis
    using parse_number_show_int [OF assms, of i] s by (simp del: parse_literal.simps)
qed

section \<open>Reading a written value\<close>

fun json_ok :: "json \<Rightarrow> bool" where
  "json_ok (JFloat s) \<longleftrightarrow> False"
| "json_ok (JList vs) \<longleftrightarrow> (\<forall>v \<in> set vs. json_ok v)"
| "json_ok (JObj kvs) \<longleftrightarrow> distinct (map fst kvs) \<and> (\<forall>kv \<in> set kvs. json_ok (snd kv))"
| "json_ok _ \<longleftrightarrow> True"

fun canon :: "json \<Rightarrow> json" where
  "canon (JList vs) = JList (map canon vs)"
| "canon (JObj kvs) = JObj (sort_key fst (map (\<lambda>(k, v). (k, canon v)) kvs))"
| "canon v = v"

definition member_text :: "bool \<Rightarrow> string \<times> json \<Rightarrow> string" where
  "member_text asc kv = json_string asc (fst kv) @ '':'' @ dumps asc (snd kv)"

lemma sort_key_map_commute: "sort_key k (map f xs) = map f (sort_key (\<lambda>x. k (f x)) xs)"
proof -
  have "insort_key k (f x) (map f xs) = map f (insort_key (\<lambda>x. k (f x)) x xs)" for x xs
    by (induction xs) auto
  then show ?thesis by (induction xs) auto
qed

lemma dumps_obj:
  "dumps asc (JObj kvs) = ''{'' @ join_comma (map (member_text asc) (sort_key fst kvs)) @ ''}''"
  by (simp add: sort_key_map_commute member_text_def [abs_def] case_prod_beta comp_def)

lemma canon_obj: "canon (JObj kvs) = JObj (map (\<lambda>kv. (fst kv, canon (snd kv))) (sort_key fst kvs))"
  by (simp add: sort_key_map_commute case_prod_beta comp_def)

lemma dumps_head:
  "json_ok j \<Longrightarrow> \<exists>c r. dumps asc j = c # r \<and> \<not> json_space c \<and> c \<noteq> CHR '']'' \<and> c \<noteq> CHR ''}''"
proof (cases j)
  case (JInt i)
  obtain c r where "show_int i = c # r" "is_digit c \<or> c = CHR ''-''" using show_int_shape by blast
  then show ?thesis
    using JInt digit_no_literal [of c] by (auto simp: json_space_def code_def)
qed (auto simp: json_string_def json_space_def code_def simp flip: append_assoc)

lemma skip_ws_dumps: "json_ok j \<Longrightarrow> skip_ws (dumps asc j @ rest) = dumps asc j @ rest"
  using dumps_head [of j asc] by (auto simp: skip_ws_def)

lemma skip_ws_mark: "\<not> json_space c \<Longrightarrow> skip_ws (c # r) = c # r"
  by (simp add: skip_ws_def)

lemma marks_not_space:
  "\<not> json_space (CHR '']'')" "\<not> json_space (CHR ''}'')" "\<not> json_space (CHR '','')"
  "\<not> json_space (CHR '':'')" "\<not> json_space (CHR 0x22)"
  by (simp_all add: json_space_def code_def)

lemma skip_ws_string: "skip_ws (json_string asc k @ r) = json_string asc k @ r"
  by (simp add: json_string_def skip_ws_mark marks_not_space)

lemma parse_elements_dumps:
  assumes "vs \<noteq> []"
    and "length (join_comma (map (dumps asc) vs)) < n"
    and "\<forall>v \<in> set vs. json_ok v"
    and IH: "\<And>v n rest. v \<in> set vs \<Longrightarrow> stops rest \<Longrightarrow> length (dumps asc v) < n \<Longrightarrow>
      parse_value n (dumps asc v @ rest) = Some (canon v, rest)"
  shows "parse_elements (Suc n) acc (join_comma (map (dumps asc) vs) @ CHR '']'' # rest) =
     Some (JList (acc @ map canon vs), rest)"
  using assms
proof (induction vs arbitrary: n acc)
  case (Cons v vs)
  show ?case
  proof (cases vs)
    case Nil
    then show ?thesis
      using Cons.prems(2) Cons.prems(4) [of v "CHR '']'' # rest" n]
      by (simp add: stops_def skip_ws_mark marks_not_space)
  next
    case (Cons w ws)
    let ?more = "join_comma (map (dumps asc) vs) @ CHR '']'' # rest"
    have len: "length (dumps asc v) < n" "length (join_comma (map (dumps asc) vs)) < n - 1"
      using Cons.prems(2) Cons by auto
    then obtain m where n: "n = Suc m" by (cases n) auto
    have "parse_value n (dumps asc v @ CHR '','' # ?more) = Some (canon v, CHR '','' # ?more)"
      using Cons.prems(4) [of v "CHR '','' # ?more" n] len by (simp add: stops_def)
    moreover have "skip_ws ?more = ?more"
      using Cons.prems(3) Cons skip_ws_dumps [of w asc]
      by (cases ws) (auto simp: skip_ws_dumps)
    moreover have "parse_elements (Suc m) (acc @ [canon v]) ?more =
        Some (JList ((acc @ [canon v]) @ map canon vs), rest)"
      using Cons.prems len n Cons by (intro Cons.IH) auto
    ultimately show ?thesis
      using Cons by (simp add: skip_ws_mark marks_not_space n)
  qed
qed simp

lemma obj_put_new: "k \<notin> fst ` set acc \<Longrightarrow> obj_put acc k v = acc @ [(k, v)]"
  by (simp add: obj_put_def)

lemma parse_members_dumps:
  assumes "ms \<noteq> []"
    and "length (join_comma (map (member_text asc) ms)) < n"
    and "distinct (map fst ms)" "fst ` set acc \<inter> fst ` set ms = {}"
    and "\<forall>kv \<in> set ms. json_ok (snd kv)"
    and IH: "\<And>kv n rest. kv \<in> set ms \<Longrightarrow> stops rest \<Longrightarrow> length (dumps asc (snd kv)) < n \<Longrightarrow>
      parse_value n (dumps asc (snd kv) @ rest) = Some (canon (snd kv), rest)"
  shows "parse_members (Suc n) acc (join_comma (map (member_text asc) ms) @ CHR ''}'' # rest) =
     Some (JObj (acc @ map (\<lambda>kv. (fst kv, canon (snd kv))) ms), rest)"
  using assms
proof (induction ms arbitrary: n acc)
  case (Cons kv ms)
  obtain k v where kv: "kv = (k, v)" by (cases kv)
  have new: "k \<notin> fst ` set acc" using Cons.prems(4) kv by auto
  have key: "parse_chars (concat (map (json_escape asc) k) @ CHR 0x22 # t) = Some (k, t)" for t
    by (rule parse_chars_escapes)
  have ok: "json_ok v" using Cons.prems(5) kv by simp
  have size: "length (dumps asc v) + 2 < length (member_text asc kv)"
    by (simp add: member_text_def json_string_def kv)
  have mem: "member_text asc kv @ t =
      CHR 0x22 # concat (map (json_escape asc) k) @ CHR 0x22 # CHR '':'' # dumps asc v @ t" for t
    by (simp add: member_text_def json_string_def kv)
  show ?case
  proof (cases ms)
    case Nil
    have "length (dumps asc v) < n" using Cons.prems(2) Nil kv by (simp add: member_text_def)
    then have "parse_value n (dumps asc v @ CHR ''}'' # rest) = Some (canon v, CHR ''}'' # rest)"
      using Cons.prems(6) [of kv "CHR ''}'' # rest" n] kv by (simp add: stops_def)
    moreover have "join_comma (map (member_text asc) (kv # ms)) @ CHR ''}'' # rest =
        CHR 0x22 # concat (map (json_escape asc) k) @ CHR 0x22 # CHR '':'' # dumps asc v @ CHR ''}'' # rest"
      using Nil mem [of "CHR ''}'' # rest"] by simp
    ultimately show ?thesis
      using Nil new ok
      by (simp add: key skip_ws_mark marks_not_space skip_ws_dumps obj_put_new kv
          del: map_eq_Cons_conv)
  next
    case (Cons kv' ms')
    let ?more = "join_comma (map (member_text asc) ms) @ CHR ''}'' # rest"
    have len: "length (dumps asc v) < n" "length (join_comma (map (member_text asc) ms)) < n - 1"
      using Cons.prems(2) Cons size by auto
    then obtain m where n: "n = Suc m" by (cases n) auto
    have val: "parse_value n (dumps asc v @ CHR '','' # ?more) = Some (canon v, CHR '','' # ?more)"
      using Cons.prems(6) [of kv "CHR '','' # ?more" n] len kv by (simp add: stops_def)
    have skip: "skip_ws ?more = ?more"
      using Cons by (cases ms') (simp_all add: member_text_def skip_ws_string)
    have more: "parse_members n (acc @ [(k, canon v)]) ?more =
        Some (JObj ((acc @ [(k, canon v)]) @ map (\<lambda>kv. (fst kv, canon (snd kv))) ms), rest)"
      unfolding n using Cons.prems len n Cons kv by (intro Cons.IH) auto
    have shape: "join_comma (map (member_text asc) (kv # ms)) @ CHR ''}'' # rest =
        CHR 0x22 # concat (map (json_escape asc) k) @ CHR 0x22 # CHR '':'' # dumps asc v @ CHR '','' # ?more"
      using Cons mem [of "CHR '','' # ?more"] by simp
    show ?thesis
      unfolding shape
      using new ok val more skip
      by (simp add: key skip_ws_mark marks_not_space skip_ws_dumps obj_put_new kv)
  qed
qed simp

lemma parse_value_dumps:
  "json_ok j \<Longrightarrow> stops rest \<Longrightarrow> length (dumps asc j) < n \<Longrightarrow>
     parse_value n (dumps asc j @ rest) = Some (canon j, rest)"
proof (induction j arbitrary: n rest)
  case (JInt i)
  then show ?case using parse_value_show_int by (cases n) auto
next
  case (JStr s)
  then show ?case using parse_json_string by (cases n) auto
next
  case (JList vs)
  then obtain m where n: "n = Suc (Suc m)" by (cases n; cases "n - 1") auto
  show ?case
  proof (cases vs)
    case Nil
    then show ?thesis using n by (simp add: skip_ws_mark marks_not_space)
  next
    case (Cons v ws)
    let ?t = "join_comma (map (dumps asc) vs) @ CHR '']'' # rest"
    have body: "parse_elements (Suc m) [] ?t = Some (JList ([] @ map canon vs), rest)"
      using JList n Cons by (intro parse_elements_dumps) auto
    obtain c r where c: "?t = c # r" "c \<noteq> CHR '']''" "\<not> json_space c"
      using JList.prems(1) Cons dumps_head [of v asc] by (cases ws) auto
    then show ?thesis using body n by (simp add: skip_ws_mark)
  qed
next
  case (JObj kvs)
  then obtain m where n: "n = Suc (Suc m)" by (cases n; cases "n - 1") auto
  let ?ms = "sort_key fst kvs"
  show ?case
  proof (cases "kvs = []")
    case True
    then show ?thesis using n by (simp add: skip_ws_mark marks_not_space)
  next
    case False
    let ?t = "join_comma (map (member_text asc) ?ms) @ CHR ''}'' # rest"
    have "distinct (map fst ?ms)"
      using JObj.prems(1) by (metis distinct_map distinct_sort json_ok.simps(3) set_sort)
    moreover have "parse_value k (dumps asc (snd kv) @ r) = Some (canon (snd kv), r)"
      if "kv \<in> set ?ms" "stops r" "length (dumps asc (snd kv)) < k" for kv k r
      using that JObj.IH [of kv "snd kv"] JObj.prems(1) by (auto simp: prod_set_defs)
    moreover have "?ms \<noteq> []" using False by (metis set_empty2 set_sort)
    ultimately have body: "parse_members (Suc m) [] ?t =
        Some (JObj ([] @ map (\<lambda>kv. (fst kv, canon (snd kv))) ?ms), rest)"
      using JObj.prems n unfolding dumps_obj by (intro parse_members_dumps) auto
    obtain r where "?t = CHR 0x22 # r"
      using \<open>?ms \<noteq> []\<close> by (cases ?ms; cases "tl ?ms") (auto simp: member_text_def json_string_def)
    then show ?thesis
      using body n unfolding dumps_obj canon_obj by (simp add: skip_ws_mark marks_not_space)
  qed
next
  case (JBool b)
  then show ?case by (cases n; cases b) (auto simp: literals_def strip_prefix_simps)
next
  case JNull
  then show ?case by (cases n) (auto simp: literals_def strip_prefix_simps)
qed simp

lemma loads_dumps: "json_ok j \<Longrightarrow> loads (dumps asc j) = Some (canon j)"
  using parse_value_dumps [of j "[]" asc "Suc (length (dumps asc j))"] skip_ws_dumps [of j asc "[]"]
  by (simp add: loads_def stops_def skip_ws_def)

declare dumps.simps [simp del]

end
