(* ===== verification/Schema.thy ===== *)
theory Schema
  imports Json
begin

text \<open>
  The state of the appliance: one record per table of \<open>standalone/migrations.py\<close>, with the
  columns of the final schema (the ALTER TABLE statements of the later migrations applied), and the
  record \<open>db\<close> of all tables. A column under a CHECK (... IN ...) constraint is a datatype with
  the listed values; a nullable column is an option; a timestamp column is the instant its text
  denotes (theory \<open>Timestamps\<close>); a JSON column is its text. A table is the list of its rows in
  insertion order. The record \<open>world\<close> adds what is not rolled back: whether the connection is in
  a transaction, and the supply of random identifiers the standard library draws from.
\<close>

section \<open>Exceptions\<close>

datatype exc_class =
    ValueError | TypeError | RuntimeError | AssertionError | IntegrityError
  | AuditError
  | IdentityError | BootstrapError | ChallengeError | SessionError | HumanAuthorizationError
  | HumanInviteError
  | CaseNotFoundError | CaseTransitionError | CaseValidationError
  | ResponseNotFoundError | ResponseConflictError | ResponseExpiredError | ResponseValidationError
  | DeviceActionBindingError
  | CollectorAuthenticationError | CollectorReplayError | CollectorIngestionError
  | DeviceBindingError
  | EventIdentityConflict | LeaseOwnershipError
  | EnrollmentError | CredentialRotationEnvelopeError | RetentionError | NetworkError | NetworkConflictError
  | OverflowError | OwnerSetupError | PasswordError | PasswordBusyError | ReplayError | PresentationError
  | PublicRateLimitError | AccountRateLimitError

type_synonym exn = "exc_class \<times> string"

section \<open>Values under CHECK constraints\<close>

datatype tenant_status = TenantActive | TenantSuspended
datatype role = Viewer | Analyst | Responder | Admin
datatype user_status = UserInvited | UserActive | UserDisabled
datatype challenge_purpose = PBootstrap | PRegistration | PAuthentication
datatype device_status = DeviceEnrolling | DeviceActive | DeviceRevoked
datatype job_status = JobPending | JobLeased | JobRetry | JobSucceeded | JobDead
datatype severity = Informational | SevLow | SevMedium | SevHigh | SevCritical
datatype priority = PrioLow | PrioMedium | PrioHigh | PrioCritical
datatype case_status = CaseOpen | CaseInvestigating | CaseContained | CaseClosed
datatype disposition_status = TruePositive | FalsePositive | Benign | Inconclusive
datatype action_status =
    Proposed | Approved | Rejected | Dispatched | Succeeded | Failed | Expired
datatype target_type = TargetDevice | TargetIdentity | TargetIndicator
datatype risk_level = RiskReadOnly | RiskActive | RiskHighImpact
datatype rotation_status = RotPending | RotDelivered | RotAcknowledged | RotCancelled
datatype account_status = AccountActive | AccountDisabled

section \<open>Rows\<close>

record tenant_row =
  t_id :: string
  t_slug :: string
  t_name :: string
  t_status :: tenant_status
  t_created :: instant

record user_row =
  us_tenant :: string
  us_id :: string
  us_email :: string
  us_name :: string
  us_role :: role
  us_status :: user_status
  us_created :: instant

record session_row =
  se_tenant :: string
  se_id :: string
  se_user :: string
  se_secret_hash :: string
  se_csrf_hash :: string
  se_created :: instant
  se_expires :: instant
  se_last_seen :: instant
  se_revoked :: "instant option"

record passkey_row =
  pk_tenant :: string
  pk_user :: string
  pk_credential :: string
  pk_public_key :: string
  pk_sign_count :: int
  pk_label :: string
  pk_created :: instant
  pk_last_used :: "instant option"
  pk_revoked :: "instant option"

record bootstrap_row =
  bt_hash :: string
  bt_created :: instant
  bt_expires :: instant
  bt_used :: "instant option"
  bt_revoked :: "instant option"

record challenge_row =
  ac_id :: string
  ac_tenant :: "string option"
  ac_user :: "string option"
  ac_purpose :: challenge_purpose
  ac_challenge :: string
  ac_context :: string
  ac_created :: instant
  ac_expires :: instant
  ac_consumed :: "instant option"

record recovery_row =
  rc_tenant :: string
  rc_user :: string
  rc_hash :: string
  rc_created :: instant
  rc_used :: "instant option"

record invite_row =
  hi_id :: string
  hi_tenant :: string
  hi_hash :: string
  hi_email :: string
  hi_name :: string
  hi_role :: role
  hi_created_by :: string
  hi_created :: instant
  hi_expires :: instant
  hi_consumed :: "instant option"
  hi_revoked :: "instant option"

record invite_challenge_row =
  hc_id :: string
  hc_invite :: string
  hc_user :: string
  hc_challenge :: string
  hc_created :: instant
  hc_expires :: instant
  hc_consumed :: "instant option"

record owner_row =
  po_home :: string
  po_user :: string
  po_created :: instant

record membership_row =
  om_tenant :: string
  om_user :: string
  om_home :: string

record device_row =
  dv_tenant :: string
  dv_id :: string
  dv_name :: string
  dv_platform :: string
  dv_status :: device_status
  dv_enrolled :: "instant option"
  dv_last_seen :: "instant option"
  dv_revoked :: "instant option"

record credential_row =
  dc_id :: string
  dc_tenant :: string
  dc_device :: string
  dc_name :: string
  dc_ciphertext :: string
  dc_iv :: string
  dc_created :: instant
  dc_expires :: instant
  dc_last_used :: "instant option"
  dc_revoked :: "instant option"
  dc_activated :: "instant option"

record nonce_row =
  nn_credential :: string
  nn_nonce :: string
  nn_expires :: instant

record enrollment_row =
  et_id :: string
  et_tenant :: string
  et_hash :: string
  et_expected :: "string option"
  et_created_by :: string
  et_created :: instant
  et_expires :: instant
  et_used :: "instant option"
  et_revoked :: "instant option"
  et_claimed :: "string option"

record event_row =
  ev_tenant :: string
  ev_id :: string
  ev_type :: string
  ev_occurred :: instant
  ev_received :: instant
  ev_actor :: string
  ev_source_ip :: "string option"
  ev_target :: "string option"
  ev_device :: "string option"
  ev_payload :: string
  ev_sha256 :: string

record job_row =
  jb_tenant :: string
  jb_id :: string
  jb_event :: string
  jb_status :: job_status
  jb_attempts :: int
  jb_available :: instant
  jb_owner :: "string option"
  jb_lease_expires :: "instant option"
  jb_error :: "string option"
  jb_created :: instant
  jb_updated :: instant

record alert_row =
  al_tenant :: string
  al_id :: string
  al_event :: string
  al_rule :: string
  al_rule_version :: string
  al_rule_digest :: string
  al_rule_snapshot :: string
  al_fingerprint_version :: string
  al_detector_version :: string
  al_title :: string
  al_severity :: severity
  al_actor :: string
  al_reasons :: string
  al_tags :: string
  al_evidence :: string
  al_created :: instant

record case_row =
  cs_tenant :: string
  cs_id :: string
  cs_title :: string
  cs_priority :: priority
  cs_status :: case_status
  cs_assignee :: "string option"
  cs_opened :: instant
  cs_updated :: instant
  cs_closed :: "instant option"
  cs_version :: int
  cs_cycle :: int
  cs_semantic_key :: "string option"

record case_alert_row =
  ca_tenant :: string
  ca_case :: string
  ca_alert :: string
  ca_linked :: instant

record activity_row =
  cv_tenant :: string
  cv_id :: string
  cv_case :: string
  cv_type :: string
  cv_actor :: string
  cv_body :: string
  cv_created :: instant

record disposition_row =
  dp_tenant :: string
  dp_id :: string
  dp_case :: string
  dp_status :: disposition_status
  dp_rationale :: string
  dp_rule_version :: string
  dp_created_by :: string
  dp_created :: instant
  dp_fp_reason :: "string option"
  dp_cycle :: int

record action_row =
  ra_tenant :: string
  ra_id :: string
  ra_case :: string
  ra_type :: string
  ra_target_type :: target_type
  ra_target :: string
  ra_rationale :: string
  ra_risk :: risk_level
  ra_status :: action_status
  ra_proposed_by :: string
  ra_proposed_at :: instant
  ra_approved_by :: "string option"
  ra_approved_at :: "instant option"
  ra_expires :: instant
  ra_result_json :: "string option"
  ra_completed :: "instant option"
  ra_rejected_by :: "string option"
  ra_rejected_at :: "instant option"
  ra_rejection_reason :: "string option"
  ra_dispatch_count :: int
  ra_dispatched :: "instant option"
  ra_result_device :: "string option"

record audit_row =
  au_sequence :: int
  au_id :: string
  au_tenant :: string
  au_action :: string
  au_actor_type :: string
  au_actor :: string
  au_resource_type :: string
  au_resource :: string
  au_payload :: string
  au_previous :: "string option"
  au_hmac :: string
  au_created :: instant

record checkpoint_row =
  cp_id :: string
  cp_tenant :: string
  cp_through :: int
  cp_terminal :: string
  cp_signature :: string
  cp_created :: instant

record policy_row =
  rp_tenant :: string
  rp_days :: int
  rp_updated_by :: string
  rp_updated :: instant

record run_row =
  rr_tenant :: string
  rr_id :: string
  rr_cutoff :: instant
  rr_jobs :: int
  rr_events :: int
  rr_by :: string
  rr_at :: instant

record rotation_row =
  ro_id :: string
  ro_tenant :: string
  ro_device :: string
  ro_predecessor :: string
  ro_replacement :: string
  ro_status :: rotation_status
  ro_created_by :: string
  ro_created :: instant
  ro_delivery_expires :: instant
  ro_delivered :: "instant option"
  ro_acknowledged :: "instant option"
  ro_cancelled :: "instant option"
  ro_envelope_ciphertext :: "string option"
  ro_envelope_iv :: "string option"
  ro_delivery_count :: int

record account_row =
  ea_tenant :: string
  ea_id :: string
  ea_username :: string
  ea_name :: string
  ea_password_hash :: string
  ea_password_version :: int
  ea_initial_expires :: "instant option"
  ea_setup_completed :: "instant option"
  ea_status :: account_status
  ea_created :: instant

record account_grant_row =
  ag_token :: string
  ag_tenant :: string
  ag_account :: string
  ag_password_version :: int

record namespace_row =
  nm_tenant :: string
  nm_domain :: string
  nm_created :: instant

record endpoint_session_row =
  es_hash :: string
  es_tenant :: string
  es_account :: string
  es_password_version :: int
  es_expires :: instant

record reset_row =
  pw_request :: string
  pw_tenant :: string
  pw_account :: string
  pw_requested :: instant
  pw_resolved :: "instant option"
  pw_resolved_by :: "string option"

record network_revision_row =
  nr_tenant :: string
  nr_revision :: int

datatype managed_kind = ManagedUser | ManagedAccount

record management_revision_row =
  mr_tenant :: string
  mr_kind :: managed_kind
  mr_identity :: string
  mr_revision :: int

record route_row =
  rt_tenant :: string
  rt_enabled :: bool
  rt_updated :: instant

section \<open>Tables and the world\<close>

record db =
  tenants :: "tenant_row list"
  users :: "user_row list"
  sessions :: "session_row list"
  passkeys :: "passkey_row list"
  bootstrap_tokens :: "bootstrap_row list"
  auth_challenges :: "challenge_row list"
  recovery_codes :: "recovery_row list"
  human_invites :: "invite_row list"
  invite_challenges :: "invite_challenge_row list"
  platform_owners :: "owner_row list"
  owner_memberships :: "membership_row list"
  devices :: "device_row list"
  device_credentials :: "credential_row list"
  auth_nonces :: "nonce_row list"
  enrollment_tokens :: "enrollment_row list"
  account_grants :: "account_grant_row list"
  endpoint_accounts :: "account_row list"
  rotations :: "rotation_row list"
  events :: "event_row list"
  detection_jobs :: "job_row list"
  alerts :: "alert_row list"
  cases :: "case_row list"
  case_alerts :: "case_alert_row list"
  case_activity :: "activity_row list"
  dispositions :: "disposition_row list"
  response_actions :: "action_row list"
  audit_log :: "audit_row list"
  audit_sequence :: int
  audit_checkpoints :: "checkpoint_row list"
  retention_policies :: "policy_row list"
  retention_runs :: "run_row list"
  namespaces :: "namespace_row list"
  endpoint_sessions :: "endpoint_session_row list"
  password_resets :: "reset_row list"
  network_revisions :: "network_revision_row list"
  management_revisions :: "management_revision_row list"
  network_routes :: "route_row list"

definition empty_db :: db where
  "empty_db = \<lparr>tenants = [], users = [], sessions = [], passkeys = [], bootstrap_tokens = [],
     auth_challenges = [], recovery_codes = [], human_invites = [], invite_challenges = [],
     platform_owners = [], owner_memberships = [], devices = [], device_credentials = [],
     auth_nonces = [], enrollment_tokens = [], account_grants = [], endpoint_accounts = [],
     rotations = [], events = [], detection_jobs = [], alerts = [], cases = [], case_alerts = [],
     case_activity = [], dispositions = [], response_actions = [], audit_log = [],
     audit_sequence = 0, audit_checkpoints = [], retention_policies = [], retention_runs = [],
     namespaces = [], endpoint_sessions = [], password_resets = [], network_revisions = [],
     management_revisions = [], network_routes = []\<rparr>"

record world =
  tables :: db
  in_tx :: bool
  random_id :: "nat \<Rightarrow> string"
  drawn :: nat

section \<open>Parameters of the appliance\<close>

text \<open>
  The cryptographic primitives (their code is not part of the repository) and the values the
  services are constructed with: digests and message authentication codes in hexadecimal, the
  AES-GCM cipher of one key, the host's conversion of a local time to UTC, and the secrets and bounds of the constructors.
\<close>

record env =
  sha256_hex :: "string \<Rightarrow> string"
  hmac_hex :: "string \<Rightarrow> string \<Rightarrow> string"
  aead_encrypt :: "string \<Rightarrow> string \<Rightarrow> string \<Rightarrow> string"
  aead_decrypt :: "string \<Rightarrow> string \<Rightarrow> string \<Rightarrow> string option"
  local_utc :: "int \<Rightarrow> int"
  audit_key :: string
  session_pepper :: string
  recovery_pepper :: string
  identity_audited :: bool
  session_ttl_seconds :: int
  challenge_ttl_seconds :: int
  max_clock_skew_seconds :: int
  max_dispatch_attempts :: int

text \<open>\<open>now.astimezone(timezone.utc)\<close>: a naive time is taken as local time.\<close>

definition astimezone_utc :: "env \<Rightarrow> datetime \<Rightarrow> instant" where
  "astimezone_utc E t = (case t of Aware u \<Rightarrow> u | Naive u \<Rightarrow> local_utc E u)"

end
