(* ===== verification/Transactions.thy ===== *)
theory Transactions
  imports Schema
begin

text \<open>
  Programs over the appliance state. A method of a service is a function from the world to an
  outcome (a value, or the exception it raises) and the new world; the tables written before an
  exception stay written unless a transaction is rolled back. \<open>atomically\<close> is the pattern
  \<^verbatim>\<open>BEGIN IMMEDIATE ... COMMIT / except: ROLLBACK; raise\<close> that every service repeats (and the
  \<^verbatim>\<open>with connection\<close> block, which does the same): an exception restores the tables, but not the
  identifiers already drawn.

  The theory gives the two calculi the component proofs use: weakest preconditions (\<open>wp\<close>,
  collected in \<open>wp_rules\<close>), which turn a statement about a run into a statement about the
  tables, and preservation of a table invariant (\<open>keeps\<close>, collected in \<open>keeps_rules\<close>),
  which composes by introduction rules alone.
\<close>

type_synonym 'a prog = "world \<Rightarrow> (exn + 'a) \<times> world"

section \<open>Combinators\<close>

definition ret :: "'a \<Rightarrow> 'a prog" where
  "ret x = (\<lambda>w. (Inr x, w))"

definition raise :: "exc_class \<Rightarrow> string \<Rightarrow> 'a prog" where
  "raise c msg = (\<lambda>w. (Inl (c, msg), w))"

definition bind :: "'a prog \<Rightarrow> ('a \<Rightarrow> 'b prog) \<Rightarrow> 'b prog" where
  "bind m f = (\<lambda>w. case m w of (Inl e, w') \<Rightarrow> (Inl e, w') | (Inr x, w') \<Rightarrow> f x w')"

definition andthen :: "'a prog \<Rightarrow> 'b prog \<Rightarrow> 'b prog" where
  "andthen m k = bind m (\<lambda>_. k)"

definition raise_if :: "bool \<Rightarrow> exc_class \<Rightarrow> string \<Rightarrow> unit prog" where
  "raise_if b c msg = (if b then raise c msg else ret ())"

definition query :: "(db \<Rightarrow> 'a) \<Rightarrow> 'a prog" where
  "query f = (\<lambda>w. (Inr (f (tables w)), w))"

definition execute :: "(db \<Rightarrow> db) \<Rightarrow> unit prog" where
  "execute f = (\<lambda>w. (Inr (), w\<lparr>tables := f (tables w)\<rparr>))"

definition insert_checked :: "(db \<Rightarrow> bool) \<Rightarrow> (db \<Rightarrow> db) \<Rightarrow> unit prog" where
  "insert_checked ok f = bind (query ok) (\<lambda>b.
     if b then execute f else raise IntegrityError ''constraint failed'')"

definition in_transaction :: "bool prog" where
  "in_transaction = (\<lambda>w. (Inr (in_tx w), w))"

definition fresh :: "string prog" where
  "fresh = (\<lambda>w. (Inr (random_id w (drawn w)), w\<lparr>drawn := Suc (drawn w)\<rparr>))"

definition atomically :: "'a prog \<Rightarrow> 'a prog" where
  "atomically m = (\<lambda>w. case m (w\<lparr>in_tx := True\<rparr>) of
     (Inr x, w') \<Rightarrow> (Inr x, w'\<lparr>in_tx := False\<rparr>)
   | (Inl e, w') \<Rightarrow> (Inl e, w'\<lparr>in_tx := False, tables := tables w\<rparr>))"

definition catch :: "'a prog \<Rightarrow> (exn \<Rightarrow> 'a prog) \<Rightarrow> 'a prog" where
  "catch m h = (\<lambda>w. case m w of (Inl e, w') \<Rightarrow> h e w' | (Inr x, w') \<Rightarrow> (Inr x, w'))"

definition on_integrity_error :: "'a prog \<Rightarrow> exc_class \<Rightarrow> string \<Rightarrow> 'a prog" where
  "on_integrity_error m c msg =
     catch m (\<lambda>e. if fst e = IntegrityError then raise c msg else raise (fst e) (snd e))"

fun for_each :: "('a \<Rightarrow> unit prog) \<Rightarrow> 'a list \<Rightarrow> unit prog" where
  "for_each f [] = ret ()"
| "for_each f (x # xs) = andthen (f x) (for_each f xs)"

fun map_prog :: "('a \<Rightarrow> 'b prog) \<Rightarrow> 'a list \<Rightarrow> 'b list prog" where
  "map_prog f [] = ret []"
| "map_prog f (x # xs) = bind (f x) (\<lambda>y. bind (map_prog f xs) (\<lambda>ys. ret (y # ys)))"

text \<open>
  UPDATE: the rows matched by the WHERE clause are rewritten and their number is the cursor's
  \<open>rowcount\<close>. A BEFORE UPDATE trigger that aborts is the guard \<open>violates\<close> on the old and
  the new row. DELETE likewise returns how many rows it removed.
\<close>

definition update_rows ::
  "(db \<Rightarrow> 'r list) \<Rightarrow> (('r list \<Rightarrow> 'r list) \<Rightarrow> db \<Rightarrow> db) \<Rightarrow> (db \<Rightarrow> 'r \<Rightarrow> 'r \<Rightarrow> bool) \<Rightarrow>
     ('r \<Rightarrow> bool) \<Rightarrow> ('r \<Rightarrow> 'r) \<Rightarrow> nat prog" where
  "update_rows rows_of upd violates P f =
     bind (query (\<lambda>d. list_ex (\<lambda>r. P r \<and> violates d r (f r)) (rows_of d))) (\<lambda>bad.
     bind (query (\<lambda>d. row_count P (rows_of d))) (\<lambda>n.
     andthen (raise_if bad IntegrityError ''constraint failed'')
     (andthen (execute (\<lambda>d. upd (\<lambda>_. update_where P f (rows_of d)) d)) (ret n))))"

definition no_trigger :: "db \<Rightarrow> 'r \<Rightarrow> 'r \<Rightarrow> bool" where
  "no_trigger d old new = False"

definition delete_rows ::
  "(db \<Rightarrow> 'r list) \<Rightarrow> (('r list \<Rightarrow> 'r list) \<Rightarrow> db \<Rightarrow> db) \<Rightarrow> ('r \<Rightarrow> bool) \<Rightarrow> nat prog" where
  "delete_rows rows_of upd P =
     bind (query (\<lambda>d. row_count P (rows_of d))) (\<lambda>n.
     andthen (execute (\<lambda>d. upd (\<lambda>_. delete_where P (rows_of d)) d)) (ret n))"

definition utc_text :: "datetime \<Rightarrow> instant prog" where
  "utc_text t = (case t of Naive _ \<Rightarrow> raise ValueError ''timestamps must be timezone-aware''
     | Aware u \<Rightarrow> ret u)"

text \<open>A run that returns normally, as a decidable test on concrete inputs.\<close>

definition succeeds :: "'a prog \<Rightarrow> world \<Rightarrow> bool" where
  "succeeds m w = (case fst (m w) of Inr _ \<Rightarrow> True | Inl _ \<Rightarrow> False)"

definition after :: "'a prog \<Rightarrow> world \<Rightarrow> world" where
  "after m w = snd (m w)"

lemma succeedsD: "succeeds m w \<Longrightarrow> \<exists>x. m w = (Inr x, after m w)"
  by (cases "m w") (auto simp: succeeds_def after_def split: sum.splits)

lemma bind_ret: "bind (ret x) f = f x"
  by (simp add: bind_def ret_def)

lemma bind_apply: "bind m f w = (case m w of (Inl e, w') \<Rightarrow> (Inl e, w') | (Inr x, w') \<Rightarrow> f x w')"
  by (simp add: bind_def)

lemma query_run: "query f w = (Inr (f (tables w)), w)"
  by (simp add: query_def)

section \<open>Weakest preconditions\<close>

definition wp :: "'a prog \<Rightarrow> ('a \<Rightarrow> world \<Rightarrow> bool) \<Rightarrow> (exn \<Rightarrow> world \<Rightarrow> bool) \<Rightarrow> world \<Rightarrow> bool" where
  "wp m Q E w = (case m w of (Inr x, w') \<Rightarrow> Q x w' | (Inl e, w') \<Rightarrow> E e w')"

lemma wp_Inr: "wp m Q E w \<Longrightarrow> m w = (Inr x, w') \<Longrightarrow> Q x w'"
  by (simp add: wp_def)

lemma wp_Inl: "wp m Q E w \<Longrightarrow> m w = (Inl e, w') \<Longrightarrow> E e w'"
  by (simp add: wp_def)

lemma wpI:
  "(\<And>x w'. m w = (Inr x, w') \<Longrightarrow> Q x w') \<Longrightarrow> (\<And>e w'. m w = (Inl e, w') \<Longrightarrow> E e w') \<Longrightarrow> wp m Q E w"
  by (auto simp: wp_def split: prod.splits sum.splits)

lemma wp_mono:
  assumes "wp m Q E w" "\<And>x w'. Q x w' \<Longrightarrow> Q' x w'" "\<And>e w'. E e w' \<Longrightarrow> E' e w'"
  shows "wp m Q' E' w"
  using assms by (auto simp: wp_def split: prod.splits sum.splits)

lemma wp_conj: "wp m (\<lambda>x w. Q x w \<and> Q' x w) (\<lambda>e w. E e w \<and> E' e w) w \<longleftrightarrow> wp m Q E w \<and> wp m Q' E' w"
  by (auto simp: wp_def split: prod.splits sum.splits)

lemma wp_ret [wp_rules]: "wp (ret x) Q E w = Q x w"
  by (simp add: wp_def ret_def)

lemma wp_raise [wp_rules]: "wp (raise c msg) Q E w = E (c, msg) w"
  by (simp add: wp_def raise_def)

lemma wp_bind [wp_rules]: "wp (bind m f) Q E w = wp m (\<lambda>x. wp (f x) Q E) E w"
  by (auto simp: wp_def bind_def split: prod.splits sum.splits)

lemma wp_andthen [wp_rules]: "wp (andthen m k) Q E w = wp m (\<lambda>_. wp k Q E) E w"
  by (simp add: andthen_def wp_bind)

lemma wp_raise_if [wp_rules]:
  "wp (raise_if b c msg) Q E w = ((b \<longrightarrow> E (c, msg) w) \<and> (\<not> b \<longrightarrow> Q () w))"
  by (simp add: raise_if_def wp_raise wp_ret)

lemma wp_query [wp_rules]: "wp (query f) Q E w = Q (f (tables w)) w"
  by (simp add: wp_def query_def)

lemma wp_execute [wp_rules]: "wp (execute f) Q E w = Q () (w\<lparr>tables := f (tables w)\<rparr>)"
  by (simp add: wp_def execute_def)

lemma wp_insert_checked [wp_rules]:
  "wp (insert_checked ok f) Q E w =
     ((ok (tables w) \<longrightarrow> Q () (w\<lparr>tables := f (tables w)\<rparr>)) \<and>
      (\<not> ok (tables w) \<longrightarrow> E (IntegrityError, ''constraint failed'') w))"
  by (simp add: insert_checked_def wp_bind wp_query wp_execute wp_raise)

lemma wp_in_transaction [wp_rules]: "wp in_transaction Q E w = Q (in_tx w) w"
  by (simp add: wp_def in_transaction_def)

lemma wp_fresh [wp_rules]:
  "wp fresh Q E w = Q (random_id w (drawn w)) (w\<lparr>drawn := Suc (drawn w)\<rparr>)"
  by (simp add: wp_def fresh_def)

lemma wp_atomically [wp_rules]:
  "wp (atomically m) Q E w =
     wp m (\<lambda>x w'. Q x (w'\<lparr>in_tx := False\<rparr>)) (\<lambda>e w'. E e (w'\<lparr>in_tx := False, tables := tables w\<rparr>))
       (w\<lparr>in_tx := True\<rparr>)"
  by (auto simp: wp_def atomically_def split: prod.splits sum.splits)

lemma wp_catch [wp_rules]: "wp (catch m h) Q E w = wp m Q (\<lambda>e. wp (h e) Q E) w"
  by (auto simp: wp_def catch_def split: prod.splits sum.splits)

lemma wp_on_integrity_error [wp_rules]:
  "wp (on_integrity_error m c msg) Q E w =
     wp m Q (\<lambda>e w'. if fst e = IntegrityError then E (c, msg) w' else E e w') w"
proof -
  have "(\<lambda>e. wp (if fst e = IntegrityError then raise c msg else raise (fst e) (snd e)) Q E) =
      (\<lambda>e w'. if fst e = IntegrityError then E (c, msg) w' else E e w')"
    by (auto simp: fun_eq_iff wp_raise)
  then show ?thesis by (simp add: on_integrity_error_def wp_catch del: split_paired_All)
qed

lemma wp_utc_text [wp_rules]:
  "wp (utc_text t) Q E w = (case t of Naive _ \<Rightarrow> E (ValueError, ''timestamps must be timezone-aware'') w
     | Aware u \<Rightarrow> Q u w)"
  by (simp add: utc_text_def wp_raise wp_ret split: datetime.splits)

lemma wp_update_rows [wp_rules]:
  "wp (update_rows rows_of upd violates P f) Q E w =
     ((list_ex (\<lambda>r. P r \<and> violates (tables w) r (f r)) (rows_of (tables w)) \<longrightarrow>
         E (IntegrityError, ''constraint failed'') w) \<and>
      (\<not> list_ex (\<lambda>r. P r \<and> violates (tables w) r (f r)) (rows_of (tables w)) \<longrightarrow>
         Q (row_count P (rows_of (tables w))) (w\<lparr>tables := upd (\<lambda>_. update_where P f (rows_of (tables w))) (tables w)\<rparr>)))"
  by (simp add: update_rows_def wp_bind wp_andthen wp_query wp_raise_if wp_execute wp_ret)

lemma no_trigger_False [simp, wp_rules]: "no_trigger d old new = False" "\<not> list_ex (\<lambda>r. False) rows"
  by (simp_all add: no_trigger_def list_ex_iff)

lemma wp_delete_rows [wp_rules]:
  "wp (delete_rows rows_of upd P) Q E w =
     Q (row_count P (rows_of (tables w))) (w\<lparr>tables := upd (\<lambda>_. delete_where P (rows_of (tables w))) (tables w)\<rparr>)"
  by (simp add: delete_rows_def wp_bind wp_andthen wp_query wp_execute wp_ret)

lemma wp_if [wp_rules]:
  "wp (if b then m else k) Q E w = ((b \<longrightarrow> wp m Q E w) \<and> (\<not> b \<longrightarrow> wp k Q E w))"
  by simp

lemma wp_case_option [wp_rules]:
  "wp (case x of None \<Rightarrow> m | Some y \<Rightarrow> f y) Q E w =
     (case x of None \<Rightarrow> wp m Q E w | Some y \<Rightarrow> wp (f y) Q E w)"
  by (simp split: option.splits)

lemma wp_case_prod [wp_rules]:
  "wp (case x of (a, b) \<Rightarrow> f a b) Q E w = (case x of (a, b) \<Rightarrow> wp (f a b) Q E w)"
  by (simp split: prod.splits)

lemma wp_let [wp_rules]: "wp (let x = a in f x) Q E w = wp (f a) Q E w"
  by simp

text \<open>Updates of the world are kept in one order.\<close>

lemma world_order [wp_rules]:
  "w\<lparr>tables := a, drawn := b\<rparr> = w\<lparr>drawn := b, tables := a\<rparr>"
  "w\<lparr>tables := a, in_tx := c\<rparr> = w\<lparr>in_tx := c, tables := a\<rparr>"
  "w\<lparr>drawn := b, in_tx := c\<rparr> = w\<lparr>in_tx := c, drawn := b\<rparr>"
  by simp_all

lemma succeeds_wp: "succeeds m w \<longleftrightarrow> wp m (\<lambda>_ _. True) (\<lambda>_ _. False) w"
  by (auto simp: succeeds_def wp_def split: prod.splits sum.splits)

lemma succeeds_bind: "m w = (Inr x, w') \<Longrightarrow> succeeds (f x) w' \<Longrightarrow> succeeds (bind m f) w"
  by (simp add: succeeds_def bind_def)

lemma wp_succeeds: "succeeds m w \<Longrightarrow> wp m Q (\<lambda>_ _. True) w \<Longrightarrow> wp m Q Er w"
  by (auto simp: succeeds_def wp_def split: prod.splits sum.splits)

lemma wp_map_prog_collect:
  assumes step: "\<And>x w. x \<in> set xs \<Longrightarrow> J (tables w) \<Longrightarrow>
      wp (f x) (\<lambda>y w'. J (tables w') \<and> R x y (tables w') \<and> (\<forall>z y. R z y (tables w) \<longrightarrow> R z y (tables w'))) (\<lambda>_ _. True) w"
    and J: "J (tables w)"
  shows "wp (map_prog f xs) (\<lambda>ys w'. J (tables w') \<and> list_all2 (\<lambda>x y. R x y (tables w')) xs ys \<and>
      (\<forall>z y. R z y (tables w) \<longrightarrow> R z y (tables w'))) (\<lambda>_ _. True) w"
  using assms
proof (induction xs arbitrary: w)
  case (Cons x xs)
  have "wp (map_prog f xs) (\<lambda>ys. wp (ret (y # ys)) (\<lambda>ys w'. J (tables w') \<and> list_all2 (\<lambda>x y. R x y (tables w')) (x # xs) ys \<and>
      (\<forall>z y. R z y (tables w) \<longrightarrow> R z y (tables w'))) (\<lambda>_ _. True)) (\<lambda>_ _. True) v"
    if "J (tables v)" "R x y (tables v)" "\<forall>z y. R z y (tables w) \<longrightarrow> R z y (tables v)" for y v
    by (rule wp_mono [OF Cons.IH]) (use Cons.prems(1) that in \<open>simp_all add: wp_rules\<close>)
  then show ?case
    unfolding map_prog.simps wp_bind
    by (intro wp_mono [OF Cons.prems(1)]) (use Cons.prems(2) in auto)
qed (simp add: wp_rules)

section \<open>Preservation\<close>

definition keeps :: "(db \<Rightarrow> bool) \<Rightarrow> 'a prog \<Rightarrow> bool" where
  "keeps I m \<longleftrightarrow> (\<forall>w. I (tables w) \<longrightarrow> I (tables (snd (m w))))"

lemma keepsI: "(\<And>w. I (tables w) \<Longrightarrow> I (tables (snd (m w)))) \<Longrightarrow> keeps I m"
  by (simp add: keeps_def)

lemma keepsD: "keeps I m \<Longrightarrow> I (tables w) \<Longrightarrow> m w = (r, w') \<Longrightarrow> I (tables w')"
  unfolding keeps_def by (metis snd_conv)

lemma keeps_wp: "keeps I m \<Longrightarrow> I (tables w) \<Longrightarrow> wp m (\<lambda>_ w'. I (tables w')) (\<lambda>_ w'. I (tables w')) w"
  by (rule wpI) (auto dest: keepsD)

lemma wp_keepsI:
  "(\<And>w. I (tables w) \<Longrightarrow> wp m (\<lambda>_ w'. I (tables w')) (\<lambda>_ w'. I (tables w')) w) \<Longrightarrow> keeps I m"
  by (rule keepsI) (fastforce simp: wp_def split: prod.splits sum.splits)

lemma keeps_ret [keeps_rules]: "keeps I (ret x)"
  by (simp add: keeps_def ret_def)

lemma keeps_raise [keeps_rules]: "keeps I (raise c msg)"
  by (simp add: keeps_def raise_def)

lemma keeps_raise_if [keeps_rules]: "keeps I (raise_if b c msg)"
  by (simp add: raise_if_def keeps_ret keeps_raise)

lemma keeps_bind [keeps_rules]: "keeps I m \<Longrightarrow> (\<And>x. keeps I (f x)) \<Longrightarrow> keeps I (bind m f)"
  by (rule wp_keepsI, unfold wp_bind) (auto intro: wp_mono [OF keeps_wp] keeps_wp)

lemma keeps_andthen [keeps_rules]: "keeps I m \<Longrightarrow> keeps I k \<Longrightarrow> keeps I (andthen m k)"
  by (simp add: andthen_def keeps_bind)

lemma keeps_guard: "(\<not> b \<Longrightarrow> keeps I m) \<Longrightarrow> keeps I (andthen (raise_if b c msg) m)"
  by (auto simp: andthen_def raise_if_def bind_def ret_def raise_def keeps_def)

lemma keeps_query [keeps_rules]: "keeps I (query f)"
  by (simp add: keeps_def query_def)

lemma keeps_execute [keeps_rules]: "(\<And>d. I d \<Longrightarrow> I (f d)) \<Longrightarrow> keeps I (execute f)"
  by (simp add: keeps_def execute_def)

lemma keeps_insert_checked [keeps_rules]:
  "(\<And>d. I d \<Longrightarrow> ok d \<Longrightarrow> I (f d)) \<Longrightarrow> keeps I (insert_checked ok f)"
  by (rule wp_keepsI) (simp add: wp_rules)

lemma keeps_update_rows [keeps_rules]:
  "(\<And>d. I d \<Longrightarrow> \<forall>r \<in> set (rows_of d). P r \<longrightarrow> \<not> violates d r (f r) \<Longrightarrow> I (upd (\<lambda>_. update_where P f (rows_of d)) d)) \<Longrightarrow>
     keeps I (update_rows rows_of upd violates P f)"
  by (rule wp_keepsI) (auto simp: wp_rules list_ex_iff)

lemma keeps_delete_rows [keeps_rules]:
  "(\<And>d. I d \<Longrightarrow> I (upd (\<lambda>_. delete_where P (rows_of d)) d)) \<Longrightarrow> keeps I (delete_rows rows_of upd P)"
  by (rule wp_keepsI) (auto simp: wp_rules)

lemma keeps_in_transaction [keeps_rules]: "keeps I in_transaction"
  by (simp add: keeps_def in_transaction_def)

lemma keeps_fresh [keeps_rules]: "keeps I fresh"
  by (simp add: keeps_def fresh_def)

lemma keeps_utc_text [keeps_rules]: "keeps I (utc_text t)"
  by (simp add: utc_text_def keeps_ret keeps_raise split: datetime.splits)

lemma keeps_catch [keeps_rules]: "keeps I m \<Longrightarrow> (\<And>e. keeps I (h e)) \<Longrightarrow> keeps I (catch m h)"
proof (rule wp_keepsI)
  fix w :: world assume m: "keeps I m" and h: "\<And>e. keeps I (h e)" and I: "I (tables w)"
  from m I have "wp m (\<lambda>_ w'. I (tables w')) (\<lambda>_ w'. I (tables w')) w" by (rule keeps_wp)
  then show "wp (catch m h) (\<lambda>_ w'. I (tables w')) (\<lambda>_ w'. I (tables w')) w"
    unfolding wp_catch by (rule wp_mono) (use h in \<open>blast intro: keeps_wp\<close>)+
qed

lemma keeps_if [keeps_rules]:
  "(b \<Longrightarrow> keeps I m) \<Longrightarrow> (\<not> b \<Longrightarrow> keeps I k) \<Longrightarrow> keeps I (if b then m else k)"
  by simp

lemma keeps_on_integrity_error [keeps_rules]: "keeps I m \<Longrightarrow> keeps I (on_integrity_error m c msg)"
  unfolding on_integrity_error_def by (intro keeps_rules)

lemma keeps_case_option [keeps_rules]:
  "(x = None \<Longrightarrow> keeps I m) \<Longrightarrow> (\<And>y. x = Some y \<Longrightarrow> keeps I (f y)) \<Longrightarrow>
     keeps I (case x of None \<Rightarrow> m | Some y \<Rightarrow> f y)"
  by (simp split: option.splits)

lemma keeps_case_prod [keeps_rules]:
  "(\<And>a b. x = (a, b) \<Longrightarrow> keeps I (f a b)) \<Longrightarrow> keeps I (case x of (a, b) \<Rightarrow> f a b)"
  by (simp split: prod.splits)

lemma keeps_let [keeps_rules]: "keeps I (f a) \<Longrightarrow> keeps I (let x = a in f x)"
  by simp

lemma keeps_for_each [keeps_rules]: "(\<And>x. x \<in> set xs \<Longrightarrow> keeps I (f x)) \<Longrightarrow> keeps I (for_each f xs)"
  by (induction xs) (auto intro: keeps_rules)

lemma keeps_map_prog [keeps_rules]: "(\<And>x. x \<in> set xs \<Longrightarrow> keeps I (f x)) \<Longrightarrow> keeps I (map_prog f xs)"
  by (induction xs) (auto intro!: keeps_rules)

section \<open>Preservation by what commits\<close>

text \<open>
  Inside a transaction only a normal return has to restore the invariant: an exception rolls the
  tables back.
\<close>

definition commits :: "(db \<Rightarrow> bool) \<Rightarrow> 'a prog \<Rightarrow> bool" where
  "commits I m \<longleftrightarrow> (\<forall>w x w'. I (tables w) \<longrightarrow> m w = (Inr x, w') \<longrightarrow> I (tables w'))"

lemma commits_wp: "commits I m \<longleftrightarrow> (\<forall>w. I (tables w) \<longrightarrow> wp m (\<lambda>_ w'. I (tables w')) (\<lambda>_ _. True) w)"
  by (fastforce simp: commits_def wp_def split: prod.splits sum.splits)

lemma commitsI: "(\<And>w. I (tables w) \<Longrightarrow> wp m (\<lambda>_ w'. I (tables w')) (\<lambda>_ _. True) w) \<Longrightarrow> commits I m"
  by (simp add: commits_wp)

lemma commitsD: "commits I m \<Longrightarrow> I (tables w) \<Longrightarrow> wp m (\<lambda>_ w'. I (tables w')) (\<lambda>_ _. True) w"
  by (simp add: commits_wp)

lemma commits_run: "commits I m \<Longrightarrow> I (tables w) \<Longrightarrow> m w = (Inr x, w') \<Longrightarrow> I (tables w')"
  unfolding commits_def by blast

lemma keeps_commits: "keeps I m \<Longrightarrow> commits I m"
  by (auto simp: commits_def dest: keepsD)

lemmas commits_steps [commits_rules] =
  keeps_commits [OF keeps_ret] keeps_commits [OF keeps_raise] keeps_commits [OF keeps_raise_if]
  keeps_commits [OF keeps_query] keeps_commits [OF keeps_execute]
  keeps_commits [OF keeps_insert_checked] keeps_commits [OF keeps_update_rows]
  keeps_commits [OF keeps_delete_rows] keeps_commits [OF keeps_in_transaction]
  keeps_commits [OF keeps_fresh] keeps_commits [OF keeps_utc_text]

lemma commits_bind [commits_rules]: "commits I m \<Longrightarrow> (\<And>x. commits I (f x)) \<Longrightarrow> commits I (bind m f)"
  by (rule commitsI, unfold wp_bind) (auto intro: wp_mono [OF commitsD] commitsD)

lemma commits_andthen [commits_rules]: "commits I m \<Longrightarrow> commits I k \<Longrightarrow> commits I (andthen m k)"
  by (simp add: andthen_def commits_bind)

lemma commits_if [commits_rules]:
  "(b \<Longrightarrow> commits I m) \<Longrightarrow> (\<not> b \<Longrightarrow> commits I k) \<Longrightarrow> commits I (if b then m else k)"
  by simp

lemma commits_on_integrity_error [commits_rules]: "commits I m \<Longrightarrow> commits I (on_integrity_error m c msg)"
  by (rule commitsI) (auto simp: wp_on_integrity_error intro: wp_mono [OF commitsD])

lemma commits_case_option [commits_rules]:
  "(x = None \<Longrightarrow> commits I m) \<Longrightarrow> (\<And>y. x = Some y \<Longrightarrow> commits I (f y)) \<Longrightarrow>
     commits I (case x of None \<Rightarrow> m | Some y \<Rightarrow> f y)"
  by (simp split: option.splits)

lemma commits_case_prod [commits_rules]:
  "(\<And>a b. x = (a, b) \<Longrightarrow> commits I (f a b)) \<Longrightarrow> commits I (case x of (a, b) \<Rightarrow> f a b)"
  by (simp split: prod.splits)

lemma commits_let [commits_rules]: "commits I (f a) \<Longrightarrow> commits I (let x = a in f x)"
  by simp

lemma commits_for_each [commits_rules]:
  "(\<And>x. x \<in> set xs \<Longrightarrow> commits I (f x)) \<Longrightarrow> commits I (for_each f xs)"
  by (induction xs) (auto intro!: commits_rules)

lemma commits_map_prog [commits_rules]:
  "(\<And>x. x \<in> set xs \<Longrightarrow> commits I (f x)) \<Longrightarrow> commits I (map_prog f xs)"
  by (induction xs) (auto intro!: commits_rules)

lemma keeps_atomically [keeps_rules]: "commits I m \<Longrightarrow> keeps I (atomically m)"
  by (rule wp_keepsI, unfold wp_atomically) (auto intro!: wp_mono [OF commitsD])

section \<open>What a normal return establishes\<close>

text \<open>
  \<open>establishes J m\<close>: whenever \<open>m\<close> returns normally, \<open>J\<close> holds of the tables, whatever
  they were before. Some step establishes it and the rest keeps it.
\<close>

definition establishes :: "(db \<Rightarrow> bool) \<Rightarrow> 'a prog \<Rightarrow> bool" where
  "establishes J m \<longleftrightarrow> (\<forall>w. wp m (\<lambda>_ w'. J (tables w')) (\<lambda>_ _. True) w)"

lemma establishesD: "establishes J m \<Longrightarrow> wp m (\<lambda>_ w'. J (tables w')) (\<lambda>_ _. True) w"
  by (simp add: establishes_def)

lemma establishesI: "(\<And>w. wp m (\<lambda>_ w'. J (tables w')) (\<lambda>_ _. True) w) \<Longrightarrow> establishes J m"
  by (simp add: establishes_def)

lemma establishes_commits: "establishes J m \<Longrightarrow> commits J m"
  by (simp add: establishes_def commits_wp)

lemma establishes_later: "(\<And>x. establishes J (f x)) \<Longrightarrow> establishes J (bind m f)"
  unfolding establishes_def wp_bind by (blast intro: wpI)

lemma establishes_next: "establishes J k \<Longrightarrow> establishes J (andthen m k)"
  by (auto simp: andthen_def intro!: establishes_later)

lemma establishes_first: "establishes J m \<Longrightarrow> commits J k \<Longrightarrow> establishes J (andthen m k)"
  by (rule establishesI, unfold wp_andthen) (auto intro!: wp_mono [OF establishesD] commitsD)

lemma establishes_raise: "establishes J (raise c msg)"
  by (simp add: establishes_def wp_raise)

section \<open>Atomicity\<close>

text \<open>An exception inside a transaction leaves every table as it was.\<close>

lemma atomically_rollback:
  "atomically m w = (Inl e, w') \<Longrightarrow> tables w' = tables w"
  by (auto simp: atomically_def split: prod.splits sum.splits)

lemma atomically_commit:
  "atomically m w = (Inr x, w') \<longleftrightarrow>
     (\<exists>v. m (w\<lparr>in_tx := True\<rparr>) = (Inr x, v) \<and> w' = v\<lparr>in_tx := False\<rparr>)"
  by (auto simp: atomically_def split: prod.splits sum.splits)

end
