(* ===== verification/Sample_Data.thy ===== *)
theory Sample_Data
  imports Transactions
begin

text \<open>
  A small appliance on which the properties are exercised: one active network with an administrator, a
  responder and an analyst, each with a live session. The keyed hash and the cipher are concrete
  functions; identifiers are drawn from a counter.
\<close>

definition sample_env :: env where
  "sample_env = \<lparr>sha256_hex = (\<lambda>s. s), hmac_hex = (\<lambda>k m. take 4 (rev m)),
     aead_encrypt = (\<lambda>iv text aad. iv @ ''|'' @ text @ ''|'' @ aad),
     aead_decrypt = (\<lambda>iv body aad. if take (length iv + 1) body = iv @ ''|'' \<and>
        drop (length body - length aad - 1) body = ''|'' @ aad
        then Some (take (length body - length aad - length iv - 2) (drop (length iv + 1) body)) else None),
     local_utc = (\<lambda>n. n), audit_key = ''ak'', session_pepper = ''sp'', recovery_pepper = ''rp'',
     identity_audited = True, session_ttl_seconds = 28800, challenge_ttl_seconds = 300,
     max_clock_skew_seconds = 300, max_dispatch_attempts = 5\<rparr>"

definition sample_tenant :: tenant_row where
  "sample_tenant = \<lparr>t_id = ''t1'', t_slug = ''acme'', t_name = ''Acme'', t_status = TenantActive, t_created = 0\<rparr>"

definition sample_user :: "string \<Rightarrow> string \<Rightarrow> role \<Rightarrow> user_row" where
  "sample_user uid email r = \<lparr>us_tenant = ''t1'', us_id = uid, us_email = email, us_name = uid,
     us_role = r, us_status = UserActive, us_created = 0\<rparr>"

definition sample_session :: "string \<Rightarrow> string \<Rightarrow> session_row" where
  "sample_session sid uid = \<lparr>se_tenant = ''t1'', se_id = sid, se_user = uid, se_secret_hash = ''s'',
     se_csrf_hash = ''c'', se_created = 0, se_expires = 1000000000000, se_last_seen = 0, se_revoked = None\<rparr>"

definition sample_db :: db where
  "sample_db = empty_db\<lparr>tenants := [sample_tenant],
     users := [sample_user ''adm'' ''a@x.io'' Admin, sample_user ''rsp'' ''r@x.io'' Responder,
       sample_user ''ana'' ''n@x.io'' Analyst],
     sessions := [sample_session ''s1'' ''adm'', sample_session ''s2'' ''rsp'', sample_session ''s3'' ''ana'']\<rparr>"

definition world_at :: "db \<Rightarrow> world" where
  "world_at d = \<lparr>tables = d, in_tx = False, random_id = (\<lambda>n. ''id'' @ show_nat n), drawn = 0\<rparr>"

lemma world_at_simps [simp]:
  "tables (world_at d) = d" "in_tx (world_at d) = False" "drawn (world_at d) = 0"
  "random_id (world_at d) n = ''id'' @ show_nat n"
  by (simp_all add: world_at_def)

end
