(* ===== verification/Audit_Log.thy ===== *)
theory Audit_Log
  imports Sample_Data
begin

text \<open>
  The HMAC-chained audit log of \<open>standalone/audit.py\<close>: \<open>audit_append\<close> is
  \<open>StandaloneAuditLog.append\<close>, \<open>audit_verify\<close> is \<open>verify\<close>. The lemmas show that
  appending keeps the log verifiable, that verification accepts exactly the well-formed chains, and
  that two verified logs with the same terminal code hold the same entries unless the keyed hash
  collides. The interface \<open>audit_sink\<close> is what the other services rely on.
\<close>

section \<open>Entries\<close>

definition chain_version :: string where "chain_version = ''controlforge-audit-v1''"

definition max_payload_bytes :: nat where "max_payload_bytes = 65536"

definition entry_material ::
  "string \<Rightarrow> string \<Rightarrow> string \<Rightarrow> string \<Rightarrow> string \<Rightarrow> string \<Rightarrow> string \<Rightarrow> string \<Rightarrow> string option \<Rightarrow> string \<Rightarrow> json" where
  "entry_material tenant audit_id action actor_type actor_id resource_type resource_id payload_json
     previous_hmac created_at = JObj
       [(''action'', JStr action), (''actor_id'', JStr actor_id), (''actor_type'', JStr actor_type),
        (''audit_id'', JStr audit_id), (''chain_version'', JStr chain_version),
        (''created_at'', JStr created_at), (''payload_json'', JStr payload_json),
        (''previous_hmac'', case previous_hmac of None \<Rightarrow> JNull | Some h \<Rightarrow> JStr h),
        (''resource_id'', JStr resource_id), (''resource_type'', JStr resource_type),
        (''tenant_id'', JStr tenant)]"

definition entry_hmac ::
  "env \<Rightarrow> string \<Rightarrow> string \<Rightarrow> string \<Rightarrow> string \<Rightarrow> string \<Rightarrow> string \<Rightarrow> string \<Rightarrow> string \<Rightarrow> string option \<Rightarrow> string \<Rightarrow> string" where
  "entry_hmac E tenant audit_id action actor_type actor_id resource_type resource_id payload_json
     previous_hmac created_at =
       hmac_hex E (audit_key E) (utf8 (dumps True (entry_material tenant audit_id action actor_type
         actor_id resource_type resource_id payload_json previous_hmac created_at)))"

definition checkpoint_hmac :: "env \<Rightarrow> string \<Rightarrow> string \<Rightarrow> int \<Rightarrow> string \<Rightarrow> string \<Rightarrow> string" where
  "checkpoint_hmac E checkpoint_id tenant through_sequence terminal_hmac created_at =
     hmac_hex E (audit_key E) (utf8 (dumps True (JObj
       [(''chain_version'', JStr chain_version), (''checkpoint_id'', JStr checkpoint_id),
        (''created_at'', JStr created_at), (''tenant_id'', JStr tenant),
        (''terminal_hmac'', JStr terminal_hmac), (''through_sequence'', JInt through_sequence)])))"

fun has_nan :: "json \<Rightarrow> bool" where
  "has_nan (JFloat s) \<longleftrightarrow> s \<in> {''NaN'', ''Infinity'', ''-Infinity''}"
| "has_nan (JList vs) \<longleftrightarrow> list_ex has_nan vs"
| "has_nan (JObj kvs) \<longleftrightarrow> list_ex (\<lambda>kv. has_nan (snd kv)) kvs"
| "has_nan _ \<longleftrightarrow> False"

definition check_field :: "string \<times> string \<Rightarrow> unit prog" where
  "check_field nv = raise_if (snd nv = [] \<or> 256 < length (snd nv)) AuditError
     (''audit '' @ fst nv @ '' is invalid'')"

definition tenant_log :: "string \<Rightarrow> db \<Rightarrow> audit_row list" where
  "tenant_log tenant d = filter (\<lambda>r. au_tenant r = tenant) (audit_log d)"

definition previous_hmac :: "string \<Rightarrow> db \<Rightarrow> string option" where
  "previous_hmac tenant d = (case order_by_desc au_sequence (tenant_log tenant d) of
     [] \<Rightarrow> None | r # _ \<Rightarrow> Some (au_hmac r))"

definition insert_audit :: "audit_row \<Rightarrow> unit prog" where
  "insert_audit r = insert_checked
     (\<lambda>d. \<not> row_exists (\<lambda>x. au_id x = au_id r) (audit_log d) \<and>
          row_exists (\<lambda>t. t_id t = au_tenant r) (tenants d))
     (\<lambda>d. d\<lparr>audit_log := audit_log d @ [r], audit_sequence := au_sequence r\<rparr>)"

definition insert_checkpoint :: "checkpoint_row \<Rightarrow> unit prog" where
  "insert_checkpoint c = insert_checked
     (\<lambda>d. \<not> row_exists (\<lambda>x. cp_id x = cp_id c) (audit_checkpoints d) \<and>
          \<not> row_exists (\<lambda>x. cp_tenant x = cp_tenant c \<and> cp_through x = cp_through c) (audit_checkpoints d) \<and>
          row_exists (\<lambda>t. t_id t = cp_tenant c) (tenants d))
     (\<lambda>d. d\<lparr>audit_checkpoints := audit_checkpoints d @ [c]\<rparr>)"

definition audit_append ::
  "env \<Rightarrow> string \<Rightarrow> string \<Rightarrow> string \<Rightarrow> string \<Rightarrow> string \<Rightarrow> string \<Rightarrow> json \<Rightarrow> datetime \<Rightarrow> audit_row prog" where
  "audit_append E tenant action actor_type actor_id resource_type resource_id payload now =
     bind in_transaction (\<lambda>active.
     andthen (raise_if (\<not> active) AuditError ''audit append requires an active database transaction'')
     (andthen (for_each check_field
        [(''tenant_id'', tenant), (''action'', action), (''actor_type'', actor_type),
         (''actor_id'', actor_id), (''resource_type'', resource_type), (''resource_id'', resource_id)])
     (andthen (raise_if (has_nan payload) AuditError ''audit payload is not canonical JSON'')
     (let payload_json = dumps False payload in
     andthen (raise_if (max_payload_bytes < length (utf8 payload_json)) AuditError
        ''audit payload exceeds the bounded size'')
     (bind (query (previous_hmac tenant)) (\<lambda>prev.
     bind fresh (\<lambda>audit_id.
     bind (utc_text now) (\<lambda>created.
     bind (query audit_sequence) (\<lambda>last.
     let integrity = entry_hmac E tenant audit_id action actor_type actor_id resource_type
           resource_id payload_json prev (iso_text created);
         entry = \<lparr>au_sequence = last + 1, au_id = audit_id, au_tenant = tenant, au_action = action,
           au_actor_type = actor_type, au_actor = actor_id, au_resource_type = resource_type,
           au_resource = resource_id, au_payload = payload_json, au_previous = prev,
           au_hmac = integrity, au_created = created\<rparr>
     in andthen (insert_audit entry)
     (bind fresh (\<lambda>checkpoint_id.
     andthen (insert_checkpoint
        \<lparr>cp_id = checkpoint_id, cp_tenant = tenant, cp_through = last + 1, cp_terminal = integrity,
         cp_signature = checkpoint_hmac E checkpoint_id tenant (last + 1) integrity (iso_text created),
         cp_created = created\<rparr>)
     (ret entry))))))))))))"

section \<open>Verification\<close>

record verification =
  vf_valid :: bool
  vf_entries :: nat
  vf_checkpoints :: nat
  vf_terminal :: "string option"
  vf_failure :: "int option"
  vf_reason :: "string option"

definition invalid :: "nat \<Rightarrow> nat \<Rightarrow> string option \<Rightarrow> int option \<Rightarrow> string \<Rightarrow> verification" where
  "invalid entries checkpoints terminal sq reason =
     \<lparr>vf_valid = False, vf_entries = entries, vf_checkpoints = checkpoints, vf_terminal = terminal,
      vf_failure = sq, vf_reason = Some reason\<rparr>"

definition row_hmac :: "env \<Rightarrow> audit_row \<Rightarrow> string option \<Rightarrow> string" where
  "row_hmac E r prev = entry_hmac E (au_tenant r) (au_id r) (au_action r) (au_actor_type r)
     (au_actor r) (au_resource_type r) (au_resource r) (au_payload r) prev (iso_text (au_created r))"

fun verify_entries ::
  "env \<Rightarrow> nat \<Rightarrow> string option \<Rightarrow> (int \<rightharpoonup> string) \<Rightarrow> audit_row list \<Rightarrow>
     verification + string option \<times> (int \<rightharpoonup> string)" where
  "verify_entries E i prev seen [] = Inr (prev, seen)"
| "verify_entries E i prev seen (r # rs) =
     (case loads (au_payload r) of
        None \<Rightarrow> Inl (invalid i 0 prev (Some (au_sequence r)) ''payload is not JSON'')
      | Some payload \<Rightarrow>
          if \<not> (case payload of JObj _ \<Rightarrow> True | _ \<Rightarrow> False)
          then Inl (invalid i 0 prev (Some (au_sequence r)) ''payload is not an object'')
          else if au_previous r \<noteq> prev
          then Inl (invalid i 0 prev (Some (au_sequence r)) ''chain link mismatch'')
          else if au_hmac r \<noteq> row_hmac E r prev
          then Inl (invalid i 0 prev (Some (au_sequence r)) ''entry HMAC mismatch'')
          else verify_entries E (Suc i) (Some (au_hmac r)) (seen(au_sequence r \<mapsto> au_hmac r)) rs)"

definition row_signature :: "env \<Rightarrow> checkpoint_row \<Rightarrow> string" where
  "row_signature E c = checkpoint_hmac E (cp_id c) (cp_tenant c) (cp_through c) (cp_terminal c)
     (iso_text (cp_created c))"

fun verify_checkpoints ::
  "env \<Rightarrow> nat \<Rightarrow> nat \<Rightarrow> string option \<Rightarrow> (int \<rightharpoonup> string) \<Rightarrow> checkpoint_row list \<Rightarrow> verification option" where
  "verify_checkpoints E n i terminal seen [] = None"
| "verify_checkpoints E n i terminal seen (c # cs) =
     (if seen (cp_through c) \<noteq> Some (cp_terminal c)
      then Some (invalid n i terminal (Some (cp_through c)) ''checkpoint does not reference its audit entry'')
      else if cp_signature c \<noteq> row_signature E c
      then Some (invalid n i terminal (Some (cp_through c)) ''checkpoint HMAC mismatch'')
      else verify_checkpoints E n (Suc i) terminal seen cs)"

definition tenant_entries :: "string \<Rightarrow> db \<Rightarrow> audit_row list" where
  "tenant_entries tenant d = order_by au_sequence (tenant_log tenant d)"

definition tenant_checkpoints :: "string \<Rightarrow> db \<Rightarrow> checkpoint_row list" where
  "tenant_checkpoints tenant d =
     order_by cp_through (filter (\<lambda>c. cp_tenant c = tenant) (audit_checkpoints d))"

definition verify_log :: "env \<Rightarrow> string \<Rightarrow> db \<Rightarrow> verification" where
  "verify_log E tenant d =
     (let entries = tenant_entries tenant d; checkpoints = tenant_checkpoints tenant d in
      case verify_entries E 0 None Map.empty entries of
        Inl v \<Rightarrow> v
      | Inr (terminal, seen) \<Rightarrow>
          if length checkpoints \<noteq> length entries
          then invalid (length entries) 0 terminal None ''checkpoint count does not match entry count''
          else (case verify_checkpoints E (length entries) 0 terminal seen checkpoints of
                  Some v \<Rightarrow> v
                | None \<Rightarrow> \<lparr>vf_valid = True, vf_entries = length entries,
                    vf_checkpoints = length checkpoints, vf_terminal = terminal,
                    vf_failure = None, vf_reason = None\<rparr>))"

definition audit_verify :: "env \<Rightarrow> string \<Rightarrow> verification prog" where
  "audit_verify E tenant = query (verify_log E tenant)"

section \<open>Chains of authentication codes\<close>

text \<open>
  The abstract specification of a chained log: every row names the code of the row before it and
  carries the code of its own bytes. The interface \<open>tagged_chain\<close> asks that the bytes
  determine the predecessor and the visible fields; the conclusion is that two chains with the same
  last code show the same rows, or else two of their rows collide under the code.
\<close>

fun linked :: "('r \<Rightarrow> 't option) \<Rightarrow> ('r \<Rightarrow> 't) \<Rightarrow> ('r \<Rightarrow> 't) \<Rightarrow> 't option \<Rightarrow> 'r list \<Rightarrow> bool" where
  "linked prv tag expected p [] \<longleftrightarrow> True"
| "linked prv tag expected p (r # rs) \<longleftrightarrow>
     prv r = p \<and> tag r = expected r \<and> linked prv tag expected (Some (tag r)) rs"

definition last_tag :: "('r \<Rightarrow> 't) \<Rightarrow> 't option \<Rightarrow> 'r list \<Rightarrow> 't option" where
  "last_tag tag p rs = (if rs = [] then p else Some (tag (last rs)))"

lemma linked_append:
  "linked prv tag expected p (rs @ ss) \<longleftrightarrow>
     linked prv tag expected p rs \<and> linked prv tag expected (last_tag tag p rs) ss"
  by (induction rs arbitrary: p) (auto simp: last_tag_def)

locale tagged_chain =
  fixes prv :: "'r \<Rightarrow> 't option"
    and tag :: "'r \<Rightarrow> 't"
    and bytes :: "'r \<Rightarrow> 'm"
    and mac :: "'m \<Rightarrow> 't"
    and shown :: "'r \<Rightarrow> 'v"
  assumes bytes_determine: "bytes r = bytes s \<Longrightarrow> prv r = prv s \<and> shown r = shown s"
begin

lemma chain_determined:
  assumes "linked prv tag (\<lambda>r. mac (bytes r)) None rs"
    and "linked prv tag (\<lambda>r. mac (bytes r)) None ss"
    and "last_tag tag None rs = last_tag tag None ss"
  shows "map shown rs = map shown ss \<or>
    (\<exists>r \<in> set rs. \<exists>s \<in> set ss. bytes r \<noteq> bytes s \<and> mac (bytes r) = mac (bytes s))"
  using assms
proof (induction rs arbitrary: ss rule: rev_induct)
  case Nil
  then show ?case by (simp add: last_tag_def split: if_splits)
next
  case (snoc r rs)
  then obtain ss' s where ss: "ss = ss' @ [s]"
    by (cases ss rule: rev_cases) (auto simp: last_tag_def)
  with snoc.prems have same: "mac (bytes r) = mac (bytes s)"
    by (simp add: linked_append last_tag_def)
  show ?case
  proof (cases "bytes r = bytes s")
    case True
    then have prv: "prv r = prv s" and shown: "shown r = shown s"
      using bytes_determine [of r s] by simp_all
    from prv snoc.prems ss have "last_tag tag None rs = last_tag tag None ss'"
      by (simp add: linked_append)
    moreover have "linked prv tag (\<lambda>r. mac (bytes r)) None rs"
      "linked prv tag (\<lambda>r. mac (bytes r)) None ss'"
      using snoc.prems ss by (simp_all add: linked_append)
    ultimately have "map shown rs = map shown ss' \<or>
      (\<exists>r \<in> set rs. \<exists>s \<in> set ss'. bytes r \<noteq> bytes s \<and> mac (bytes r) = mac (bytes s))"
      by (rule snoc.IH [rotated 2])
    then show ?thesis using ss shown by auto
  next
    case False
    with same ss show ?thesis by auto
  qed
qed

end

section \<open>What the codes cover\<close>

definition row_bytes :: "audit_row \<Rightarrow> string" where
  "row_bytes r = utf8 (dumps True (entry_material (au_tenant r) (au_id r) (au_action r)
     (au_actor_type r) (au_actor r) (au_resource_type r) (au_resource r) (au_payload r)
     (au_previous r) (iso_text (au_created r))))"

record shown_entry =
  sh_tenant :: string
  sh_id :: string
  sh_action :: string
  sh_actor_type :: string
  sh_actor :: string
  sh_resource_type :: string
  sh_resource :: string
  sh_payload :: string
  sh_created :: string

definition shown_of :: "audit_row \<Rightarrow> shown_entry" where
  "shown_of r = \<lparr>sh_tenant = au_tenant r, sh_id = au_id r, sh_action = au_action r,
     sh_actor_type = au_actor_type r, sh_actor = au_actor r, sh_resource_type = au_resource_type r,
     sh_resource = au_resource r, sh_payload = au_payload r, sh_created = iso_text (au_created r)\<rparr>"

lemma dumps_member_determined:
  assumes "json_ok (JObj kvs)" "json_ok (JObj kvs')" "dumps asc (JObj kvs) = dumps asc (JObj kvs')"
    and "(k, v) \<in> set kvs" "(k, v') \<in> set kvs'"
  shows "canon v = canon v'"
proof -
  have "canon (JObj kvs) = canon (JObj kvs')"
    using loads_dumps [OF assms(1), of asc] loads_dumps [OF assms(2), of asc] assms(3) by simp
  then have "set (map (\<lambda>kv. (fst kv, canon (snd kv))) (sort_key fst kvs)) =
      set (map (\<lambda>kv. (fst kv, canon (snd kv))) (sort_key fst kvs'))"
    by (simp only: canon_obj json.inject)
  then have eq: "(\<lambda>kv. (fst kv, canon (snd kv))) ` set kvs = (\<lambda>kv. (fst kv, canon (snd kv))) ` set kvs'"
    by simp
  have "(k, canon v) \<in> (\<lambda>kv. (fst kv, canon (snd kv))) ` set kvs"
    using assms(4) by force
  with eq obtain w where w: "(k, w) \<in> set kvs'" "canon v = canon w" by auto
  from assms(2) have "distinct (map fst kvs')" by simp
  with w(1) assms(5) have "w = v'" by (meson eq_key_imp_eq_value)
  with w(2) show ?thesis by simp
qed

lemma json_ok_material:
  "json_ok (entry_material tenant audit_id action actor_type actor_id resource_type resource_id
     payload_json prev created_at)"
  by (simp add: entry_material_def split: option.splits)

lemma row_bytes_determine:
  assumes "row_bytes r = row_bytes s"
  shows "au_previous r = au_previous s \<and> shown_of r = shown_of s"
proof -
  let ?m = "\<lambda>r. entry_material (au_tenant r) (au_id r) (au_action r) (au_actor_type r) (au_actor r)
     (au_resource_type r) (au_resource r) (au_payload r) (au_previous r) (iso_text (au_created r))"
  have eq: "dumps True (?m r) = dumps True (?m s)"
    using assms by (auto simp: row_bytes_def dest: utf8_inject)
  note member = dumps_member_determined [OF json_ok_material [unfolded entry_material_def]
      json_ok_material [unfolded entry_material_def] eq [unfolded entry_material_def]]
  have "canon (case au_previous r of None \<Rightarrow> JNull | Some h \<Rightarrow> JStr h) =
      canon (case au_previous s of None \<Rightarrow> JNull | Some h \<Rightarrow> JStr h)"
    by (rule member [where k = "''previous_hmac''"]) simp_all
  then have "au_previous r = au_previous s" by (simp split: option.splits)
  moreover have "canon (JStr (au_tenant r)) = canon (JStr (au_tenant s))"
    by (rule member [where k = "''tenant_id''"]) simp_all
  moreover have "canon (JStr (au_id r)) = canon (JStr (au_id s))"
    by (rule member [where k = "''audit_id''"]) simp_all
  moreover have "canon (JStr (au_action r)) = canon (JStr (au_action s))"
    by (rule member [where k = "''action''"]) simp_all
  moreover have "canon (JStr (au_actor_type r)) = canon (JStr (au_actor_type s))"
    by (rule member [where k = "''actor_type''"]) simp_all
  moreover have "canon (JStr (au_actor r)) = canon (JStr (au_actor s))"
    by (rule member [where k = "''actor_id''"]) simp_all
  moreover have "canon (JStr (au_resource_type r)) = canon (JStr (au_resource_type s))"
    by (rule member [where k = "''resource_type''"]) simp_all
  moreover have "canon (JStr (au_resource r)) = canon (JStr (au_resource s))"
    by (rule member [where k = "''resource_id''"]) simp_all
  moreover have "canon (JStr (au_payload r)) = canon (JStr (au_payload s))"
    by (rule member [where k = "''payload_json''"]) simp_all
  moreover have "canon (JStr (iso_text (au_created r))) = canon (JStr (iso_text (au_created s)))"
    by (rule member [where k = "''created_at''"]) simp_all
  ultimately show ?thesis by (simp add: shown_of_def)
qed

interpretation audit_chain: tagged_chain au_previous au_hmac row_bytes "hmac_hex E (audit_key E)" shown_of
  for E
  by unfold_locales (rule row_bytes_determine)

section \<open>Verification accepts exactly the well-formed chains\<close>

definition payload_object :: "audit_row \<Rightarrow> bool" where
  "payload_object r \<longleftrightarrow> (case loads (au_payload r) of Some (JObj _) \<Rightarrow> True | _ \<Rightarrow> False)"

definition chain_ok :: "env \<Rightarrow> string option \<Rightarrow> audit_row list \<Rightarrow> bool" where
  "chain_ok E p rs \<longleftrightarrow>
     linked au_previous au_hmac (\<lambda>r. hmac_hex E (audit_key E) (row_bytes r)) p rs \<and>
     list_all payload_object rs"

definition checkpoint_ok :: "env \<Rightarrow> audit_row list \<Rightarrow> checkpoint_row \<Rightarrow> bool" where
  "checkpoint_ok E rs c \<longleftrightarrow>
     (\<exists>r \<in> set rs. au_sequence r = cp_through c \<and> au_hmac r = cp_terminal c) \<and>
     cp_signature c = row_signature E c"

definition seen_after :: "(int \<rightharpoonup> string) \<Rightarrow> audit_row list \<Rightarrow> (int \<rightharpoonup> string)" where
  "seen_after seen rs = foldl (\<lambda>m r. m(au_sequence r \<mapsto> au_hmac r)) seen rs"

lemma row_hmac_bytes: "au_previous r = p \<Longrightarrow> row_hmac E r p = hmac_hex E (audit_key E) (row_bytes r)"
  by (simp add: row_hmac_def entry_hmac_def row_bytes_def)

lemma verify_entries_accepts:
  "verify_entries E i p seen rs = Inr (t, m) \<longleftrightarrow>
     chain_ok E p rs \<and> t = last_tag au_hmac p rs \<and> m = seen_after seen rs"
  by (induction rs arbitrary: i p seen)
    (auto simp: chain_ok_def last_tag_def seen_after_def payload_object_def row_hmac_bytes
      split: option.splits json.splits)

lemma verify_entries_rejects: "verify_entries E i p seen rs = Inl v \<Longrightarrow> \<not> vf_valid v"
  by (induction rs arbitrary: i p seen) (auto simp: invalid_def split: option.splits if_splits)

lemma seen_after_lookup:
  assumes "distinct (map au_sequence rs)"
  shows "seen_after seen rs q = (if q \<in> au_sequence ` set rs
    then map_of (map (\<lambda>r. (au_sequence r, au_hmac r)) rs) q else seen q)"
  using assms by (induction rs arbitrary: seen) (auto simp: seen_after_def)

lemma seen_after_empty:
  assumes "distinct (map au_sequence rs)"
  shows "seen_after Map.empty rs q = Some h \<longleftrightarrow> (\<exists>r \<in> set rs. au_sequence r = q \<and> au_hmac r = h)"
proof -
  have "distinct (map fst (map (\<lambda>r. (au_sequence r, au_hmac r)) rs))"
    using assms by (simp add: comp_def)
  from map_of_eq_Some_iff [OF this, of q h]
  have lookup: "map_of (map (\<lambda>r. (au_sequence r, au_hmac r)) rs) q = Some h \<longleftrightarrow>
      (q, h) \<in> set (map (\<lambda>r. (au_sequence r, au_hmac r)) rs)" .
  show ?thesis
  proof (cases "q \<in> au_sequence ` set rs")
    case True
    then have "seen_after Map.empty rs q = map_of (map (\<lambda>r. (au_sequence r, au_hmac r)) rs) q"
      by (simp only: seen_after_lookup [OF assms] if_True)
    then have "seen_after Map.empty rs q = Some h \<longleftrightarrow>
        (q, h) \<in> set (map (\<lambda>r. (au_sequence r, au_hmac r)) rs)"
      by (simp only: lookup)
    then show ?thesis by auto
  next
    case False
    then have "seen_after Map.empty rs q = None"
      by (simp only: seen_after_lookup [OF assms] if_False)
    with False show ?thesis by auto
  qed
qed

lemma verify_checkpoints_accepts:
  "distinct (map au_sequence rs) \<Longrightarrow>
   verify_checkpoints E n i t (seen_after Map.empty rs) cs = None \<longleftrightarrow> list_all (checkpoint_ok E rs) cs"
  by (induction cs arbitrary: i) (auto simp: checkpoint_ok_def seen_after_empty)

lemma verify_checkpoints_rejects: "verify_checkpoints E n i t seen cs = Some v \<Longrightarrow> \<not> vf_valid v"
  by (induction cs arbitrary: i) (auto simp: invalid_def split: if_splits)

lemma verify_log_valid_iff:
  assumes "distinct (map au_sequence (tenant_entries tenant d))"
  shows "vf_valid (verify_log E tenant d) \<longleftrightarrow>
    chain_ok E None (tenant_entries tenant d) \<and>
    length (tenant_checkpoints tenant d) = length (tenant_entries tenant d) \<and>
    list_all (checkpoint_ok E (tenant_entries tenant d)) (tenant_checkpoints tenant d)"
proof (cases "verify_entries E 0 None Map.empty (tenant_entries tenant d)")
  case (Inl v)
  then have "\<not> chain_ok E None (tenant_entries tenant d)"
    using verify_entries_accepts [of E 0 None Map.empty "tenant_entries tenant d"] by auto
  with Inl show ?thesis by (auto simp: verify_log_def Let_def dest: verify_entries_rejects)
next
  case (Inr tm)
  then obtain t where "verify_entries E 0 None Map.empty (tenant_entries tenant d) =
      Inr (t, seen_after Map.empty (tenant_entries tenant d))"
    and "chain_ok E None (tenant_entries tenant d)"
    by (cases tm) (auto simp: verify_entries_accepts)
  then show ?thesis
    using verify_checkpoints_accepts [OF assms, of E "length (tenant_entries tenant d)" 0 t
        "tenant_checkpoints tenant d"]
    by (auto simp: verify_log_def Let_def invalid_def dest: verify_checkpoints_rejects split: option.splits)
qed

lemma verify_log_report:
  assumes "vf_valid (verify_log E tenant d)"
  shows "vf_entries (verify_log E tenant d) = length (tenant_entries tenant d) \<and>
    vf_checkpoints (verify_log E tenant d) = length (tenant_entries tenant d) \<and>
    vf_terminal (verify_log E tenant d) = last_tag au_hmac None (tenant_entries tenant d) \<and>
    chain_ok E None (tenant_entries tenant d)"
proof (cases "verify_entries E 0 None Map.empty (tenant_entries tenant d)")
  case (Inl v)
  with assms show ?thesis by (auto simp: verify_log_def Let_def dest: verify_entries_rejects)
next
  case (Inr tm)
  then obtain t where "verify_entries E 0 None Map.empty (tenant_entries tenant d) =
      Inr (t, seen_after Map.empty (tenant_entries tenant d))"
    and "chain_ok E None (tenant_entries tenant d)" "t = last_tag au_hmac None (tenant_entries tenant d)"
    by (cases tm) (auto simp: verify_entries_accepts)
  with assms show ?thesis
    by (auto simp: verify_log_def Let_def invalid_def dest: verify_checkpoints_rejects split: option.splits if_splits)
qed

section \<open>The invariant of the log\<close>

definition checkpoint_matches :: "env \<Rightarrow> audit_row \<Rightarrow> checkpoint_row \<Rightarrow> bool" where
  "checkpoint_matches E r c \<longleftrightarrow> cp_tenant c = au_tenant r \<and> cp_through c = au_sequence r \<and>
     cp_terminal c = au_hmac r \<and> cp_signature c = row_signature E c"

definition audit_inv :: "env \<Rightarrow> db \<Rightarrow> bool" where
  "audit_inv E d \<longleftrightarrow>
     sorted_wrt (<) (map au_sequence (audit_log d)) \<and>
     (\<forall>r \<in> set (audit_log d). au_sequence r \<le> audit_sequence d) \<and>
     list_all2 (checkpoint_matches E) (audit_log d) (audit_checkpoints d) \<and>
     (\<forall>tenant. chain_ok E None (tenant_log tenant d))"

lemma audit_inv_empty: "audit_inv E empty_db"
  by (simp add: audit_inv_def empty_db_def tenant_log_def chain_ok_def)

lemma sorted_wrt_filter_key: "sorted_wrt (<) (map f xs) \<Longrightarrow> sorted_wrt (<) (map f (filter P xs))"
  by (induction xs) auto

lemma order_by_strict_sorted:
  assumes "sorted_wrt (<) (map key rows)"
  shows "order_by key rows = rows"
proof -
  have "sorted (map key rows)" using assms by (rule strict_sorted_imp_sorted)
  then show ?thesis by (simp add: order_by_def sort_key_id_if_sorted)
qed

lemma tenant_entries_inv:
  assumes "audit_inv E d"
  shows "tenant_entries tenant d = tenant_log tenant d \<and> distinct (map au_sequence (tenant_log tenant d))"
proof -
  have "sorted_wrt (<) (map au_sequence (tenant_log tenant d))"
    using assms by (simp add: audit_inv_def tenant_log_def sorted_wrt_filter_key)
  then show ?thesis
    by (simp add: tenant_entries_def order_by_strict_sorted strict_sorted_iff)
qed

lemma list_all2_filter:
  assumes "list_all2 R xs ys" "\<And>x y. R x y \<Longrightarrow> P x = Q y"
  shows "list_all2 R (filter P xs) (filter Q ys)"
  using assms by (induction rule: list_all2_induct) auto

lemma audit_inv_verifies:
  assumes "audit_inv E d"
  shows "verify_log E tenant d = \<lparr>vf_valid = True, vf_entries = length (tenant_log tenant d),
    vf_checkpoints = length (tenant_log tenant d), vf_terminal = last_tag au_hmac None (tenant_log tenant d),
    vf_failure = None, vf_reason = None\<rparr>"
proof -
  note te = tenant_entries_inv [OF assms, of tenant]
  have "list_all2 (checkpoint_matches E) (audit_log d) (audit_checkpoints d)"
    using assms by (simp add: audit_inv_def)
  then have m: "list_all2 (checkpoint_matches E) (tenant_log tenant d)
      (filter (\<lambda>c. cp_tenant c = tenant) (audit_checkpoints d))"
    unfolding tenant_log_def by (rule list_all2_filter) (auto simp: checkpoint_matches_def)
  then have len: "length (tenant_checkpoints tenant d) = length (tenant_log tenant d)"
    by (simp add: tenant_checkpoints_def list_all2_lengthD)
  have ok: "list_all (checkpoint_ok E (tenant_log tenant d)) (tenant_checkpoints tenant d)"
    unfolding list_all_iff
  proof
    fix c assume "c \<in> set (tenant_checkpoints tenant d)"
    then have "c \<in> set (filter (\<lambda>c. cp_tenant c = tenant) (audit_checkpoints d))"
      by (simp add: tenant_checkpoints_def)
    with m obtain r where "r \<in> set (tenant_log tenant d)" "checkpoint_matches E r c"
      by (metis in_set_conv_nth list_all2_conv_all_nth)
    then show "checkpoint_ok E (tenant_log tenant d) c"
      by (auto simp: checkpoint_ok_def checkpoint_matches_def)
  qed
  have "chain_ok E None (tenant_log tenant d)" using assms by (simp add: audit_inv_def)
  then have "verify_entries E 0 None Map.empty (tenant_log tenant d) =
      Inr (last_tag au_hmac None (tenant_log tenant d), seen_after Map.empty (tenant_log tenant d))"
    by (simp add: verify_entries_accepts)
  moreover have "verify_checkpoints E n i t (seen_after Map.empty (tenant_log tenant d))
      (tenant_checkpoints tenant d) = None" for n i t
    using te ok by (simp only: verify_checkpoints_accepts)
  ultimately show ?thesis
    using te len by (simp add: verify_log_def Let_def)
qed

section \<open>Appending\<close>

text \<open>
  The interface the services rely on: an append either fails, changing at most the drawn identifiers
  and the audit tables, or adds exactly one entry with the caller's fields at the end of the log;
  no other table changes.
\<close>

definition with_audit :: "audit_row list \<Rightarrow> int \<Rightarrow> checkpoint_row list \<Rightarrow> db \<Rightarrow> db" where
  "with_audit log sq cps d = d\<lparr>audit_log := log, audit_sequence := sq, audit_checkpoints := cps\<rparr>"

lemma with_audit_frame [simp]:
  "tenants (with_audit l n c d) = tenants d"
  "users (with_audit l n c d) = users d"
  "sessions (with_audit l n c d) = sessions d"
  "passkeys (with_audit l n c d) = passkeys d"
  "bootstrap_tokens (with_audit l n c d) = bootstrap_tokens d"
  "auth_challenges (with_audit l n c d) = auth_challenges d"
  "recovery_codes (with_audit l n c d) = recovery_codes d"
  "human_invites (with_audit l n c d) = human_invites d"
  "invite_challenges (with_audit l n c d) = invite_challenges d"
  "platform_owners (with_audit l n c d) = platform_owners d"
  "owner_memberships (with_audit l n c d) = owner_memberships d"
  "devices (with_audit l n c d) = devices d"
  "device_credentials (with_audit l n c d) = device_credentials d"
  "auth_nonces (with_audit l n c d) = auth_nonces d"
  "enrollment_tokens (with_audit l n c d) = enrollment_tokens d"
  "account_grants (with_audit l n c d) = account_grants d"
  "endpoint_accounts (with_audit l n c d) = endpoint_accounts d"
  "rotations (with_audit l n c d) = rotations d"
  "events (with_audit l n c d) = events d"
  "detection_jobs (with_audit l n c d) = detection_jobs d"
  "alerts (with_audit l n c d) = alerts d"
  "cases (with_audit l n c d) = cases d"
  "case_alerts (with_audit l n c d) = case_alerts d"
  "case_activity (with_audit l n c d) = case_activity d"
  "dispositions (with_audit l n c d) = dispositions d"
  "response_actions (with_audit l n c d) = response_actions d"
  "retention_policies (with_audit l n c d) = retention_policies d"
  "retention_runs (with_audit l n c d) = retention_runs d"
  "namespaces (with_audit l n c d) = namespaces d"
  "endpoint_sessions (with_audit l n c d) = endpoint_sessions d"
  "password_resets (with_audit l n c d) = password_resets d"
  "network_revisions (with_audit l n c d) = network_revisions d"
  "management_revisions (with_audit l n c d) = management_revisions d"
  "network_routes (with_audit l n c d) = network_routes d"
  "audit_log (with_audit l n c d) = l"
  "audit_sequence (with_audit l n c d) = n"
  "audit_checkpoints (with_audit l n c d) = c"
  by (simp_all add: with_audit_def)

definition entry_of :: "string \<Rightarrow> string \<Rightarrow> string \<Rightarrow> string \<Rightarrow> string \<Rightarrow> string \<Rightarrow> json \<Rightarrow> datetime \<Rightarrow> audit_row \<Rightarrow> bool" where
  "entry_of tenant action actor_type actor_id resource_type resource_id payload now r \<longleftrightarrow>
     au_tenant r = tenant \<and> au_action r = action \<and> au_actor_type r = actor_type \<and>
     au_actor r = actor_id \<and> au_resource_type r = resource_type \<and> au_resource r = resource_id \<and>
     au_payload r = dumps False payload \<and> now = Aware (au_created r)"

definition extends_chain :: "env \<Rightarrow> db \<Rightarrow> audit_row \<Rightarrow> bool" where
  "extends_chain E d r \<longleftrightarrow> au_sequence r = audit_sequence d + 1 \<and>
     au_previous r = previous_hmac (au_tenant r) d \<and> au_hmac r = row_hmac E r (au_previous r)"

lemma wp_check_fields:
  assumes "Q () w" "\<And>e. Er e w"
  shows "wp (for_each check_field nvs) Q Er w"
  using assms by (induction nvs) (auto simp: check_field_def wp_rules)

lemma wp_audit_append_raw:
  fixes w :: world
  assumes Q: "\<And>r c k. in_tx w \<Longrightarrow>
      entry_of tenant action actor_type actor_id resource_type resource_id payload now r \<Longrightarrow>
      extends_chain E (tables w) r \<Longrightarrow> checkpoint_matches E r c \<Longrightarrow>
      Q r (w\<lparr>drawn := k, tables := with_audit (audit_log (tables w) @ [r]) (au_sequence r)
        (audit_checkpoints (tables w) @ [c]) (tables w)\<rparr>)"
    and Er: "\<And>e l n cps k. Er e (w\<lparr>drawn := k, tables := with_audit l n cps (tables w)\<rparr>)"
  shows "wp (audit_append E tenant action actor_type actor_id resource_type resource_id payload now) Q Er w"
proof -
  have Er0: "Er e (w\<lparr>drawn := k\<rparr>)" for e k
    using Er [of e "audit_log (tables w)" "audit_sequence (tables w)" "audit_checkpoints (tables w)" k]
    by (simp add: with_audit_def)
  have Er1: "Er e w" for e
    using Er0 [of e "drawn w"] by simp
  have Er2: "Er e (w\<lparr>drawn := k, tables := (tables w)\<lparr>audit_log := l, audit_sequence := n\<rparr>\<rparr>)" for e l n k
    using Er [of e l n "audit_checkpoints (tables w)" k] by (simp add: with_audit_def)
  have Q': "Q r (w\<lparr>drawn := k, tables := (tables w)\<lparr>audit_log := audit_log (tables w) @ [r], audit_sequence := n,
      audit_checkpoints := audit_checkpoints (tables w) @ [c]\<rparr>\<rparr>)"
    if "n = au_sequence r" "in_tx w" "extends_chain E (tables w) r" "checkpoint_matches E r c"
      "entry_of tenant action actor_type actor_id resource_type resource_id payload now r" for r n c k
    using Q [OF that(2,5,3,4)] that(1) by (simp add: with_audit_def)
  show ?thesis
    unfolding audit_append_def insert_audit_def insert_checkpoint_def Let_def
    apply (simp only: wp_rules)
    apply (cases "in_tx w")
     apply (simp_all only: Er1 simp_thms)
    apply (rule wp_check_fields)
     prefer 2 apply (rule Er1)
    apply (cases now)
     apply (simp_all add: wp_rules Er0 Er1)
    apply (auto simp: wp_rules Er0 Er1 Er2)
    apply (rule Q' [where c = "\<lparr>cp_id = _, cp_tenant = _, cp_through = _, cp_terminal = _,
       cp_signature = _, cp_created = _\<rparr>"])
    apply (simp_all add: entry_of_def extends_chain_def checkpoint_matches_def row_hmac_def row_signature_def)
    done
qed

locale audit_sink =
  fixes append :: "string \<Rightarrow> string \<Rightarrow> string \<Rightarrow> string \<Rightarrow> string \<Rightarrow> string \<Rightarrow> json \<Rightarrow> datetime \<Rightarrow> audit_row prog"
  assumes append_ok: "append tenant action actor_type actor_id resource_type resource_id payload now w = (Inr r, w') \<Longrightarrow>
      in_tx w \<and> entry_of tenant action actor_type actor_id resource_type resource_id payload now r \<and>
      (\<exists>n cps k. w' = w\<lparr>drawn := k, tables := with_audit (audit_log (tables w) @ [r]) n cps (tables w)\<rparr>)"
    and append_failed: "append tenant action actor_type actor_id resource_type resource_id payload now w = (Inl e, w') \<Longrightarrow>
      (\<exists>l n cps k. w' = w\<lparr>drawn := k, tables := with_audit l n cps (tables w)\<rparr>)"
begin

lemma wp_append:
  fixes w :: world
  assumes "\<And>r n cps k. in_tx w \<Longrightarrow>
      entry_of tenant action actor_type actor_id resource_type resource_id payload now r \<Longrightarrow>
      Q r (w\<lparr>drawn := k, tables := with_audit (audit_log (tables w) @ [r]) n cps (tables w)\<rparr>)"
    and "\<And>e l n cps k. Er e (w\<lparr>drawn := k, tables := with_audit l n cps (tables w)\<rparr>)"
  shows "wp (append tenant action actor_type actor_id resource_type resource_id payload now) Q Er w"
proof (rule wpI)
  fix r w' assume "append tenant action actor_type actor_id resource_type resource_id payload now w = (Inr r, w')"
  from append_ok [OF this] assms(1) show "Q r w'" by blast
next
  fix e w' assume "append tenant action actor_type actor_id resource_type resource_id payload now w = (Inl e, w')"
  from append_failed [OF this] assms(2) show "Er e w'" by blast
qed

lemma keeps_append:
  assumes "\<And>d l n cps. I d \<Longrightarrow> I (with_audit l n cps d)"
  shows "keeps I (append tenant action actor_type actor_id resource_type resource_id payload now)"
  by (rule wp_keepsI, rule wp_append) (simp_all add: assms)

end

interpretation auditing: audit_sink "audit_append E" for E
proof unfold_locales
  fix tenant action actor_type actor_id resource_type resource_id payload now r and w w' :: world
  assume "audit_append E tenant action actor_type actor_id resource_type resource_id payload now w = (Inr r, w')"
  moreover have "wp (audit_append E tenant action actor_type actor_id resource_type resource_id payload now)
    (\<lambda>r w'. in_tx w \<and> entry_of tenant action actor_type actor_id resource_type resource_id payload now r \<and>
      (\<exists>n cps k. w' = w\<lparr>drawn := k, tables := with_audit (audit_log (tables w) @ [r]) n cps (tables w)\<rparr>))
    (\<lambda>_ _. True) w"
    by (rule wp_audit_append_raw) blast+
  ultimately show "in_tx w \<and> entry_of tenant action actor_type actor_id resource_type resource_id payload now r \<and>
      (\<exists>n cps k. w' = w\<lparr>drawn := k, tables := with_audit (audit_log (tables w) @ [r]) n cps (tables w)\<rparr>)"
    using wp_Inr by fastforce
next
  fix tenant action actor_type actor_id resource_type resource_id payload now e and w w' :: world
  assume "audit_append E tenant action actor_type actor_id resource_type resource_id payload now w = (Inl e, w')"
  moreover have "wp (audit_append E tenant action actor_type actor_id resource_type resource_id payload now)
    (\<lambda>_ _. True)
    (\<lambda>_ w'. \<exists>l n cps k. w' = w\<lparr>drawn := k, tables := with_audit l n cps (tables w)\<rparr>) w"
    by (rule wp_audit_append_raw) blast+
  ultimately show "\<exists>l n cps k. w' = w\<lparr>drawn := k, tables := with_audit l n cps (tables w)\<rparr>"
    using wp_Inl by fastforce
qed

section \<open>Appending keeps the log verifiable\<close>

lemma previous_hmac_inv:
  assumes "audit_inv E d"
  shows "previous_hmac tenant d = last_tag au_hmac None (tenant_log tenant d)"
proof -
  have "sort_key au_sequence (tenant_log tenant d) = tenant_log tenant d"
    using tenant_entries_inv [OF assms, of tenant] by (simp add: tenant_entries_def order_by_def)
  then show ?thesis
    by (cases "tenant_log tenant d" rule: rev_cases)
      (simp_all add: previous_hmac_def order_by_desc_def last_tag_def)
qed

lemma chain_ok_snoc:
  "chain_ok E p (rs @ [r]) \<longleftrightarrow> chain_ok E p rs \<and> au_previous r = last_tag au_hmac p rs \<and>
     au_hmac r = hmac_hex E (audit_key E) (row_bytes r) \<and> payload_object r"
  by (auto simp: chain_ok_def linked_append)

lemma payload_object_dumps:
  assumes "json_ok (JObj kvs)" "au_payload r = dumps False (JObj kvs)"
  shows "payload_object r"
  unfolding payload_object_def assms(2) loads_dumps [OF assms(1)] canon_obj by simp

lemma audit_inv_frame:
  assumes "audit_log d' = audit_log d" "audit_sequence d' = audit_sequence d"
    "audit_checkpoints d' = audit_checkpoints d"
  shows "audit_inv E d' = audit_inv E d"
  using assms by (simp add: audit_inv_def tenant_log_def)

lemma audit_inv_other [simp]:
  "audit_inv E (d\<lparr>tenants := x0\<rparr>) = audit_inv E d"
  "audit_inv E (d\<lparr>users := x1\<rparr>) = audit_inv E d"
  "audit_inv E (d\<lparr>sessions := x2\<rparr>) = audit_inv E d"
  "audit_inv E (d\<lparr>passkeys := x3\<rparr>) = audit_inv E d"
  "audit_inv E (d\<lparr>bootstrap_tokens := x4\<rparr>) = audit_inv E d"
  "audit_inv E (d\<lparr>auth_challenges := x5\<rparr>) = audit_inv E d"
  "audit_inv E (d\<lparr>recovery_codes := x6\<rparr>) = audit_inv E d"
  "audit_inv E (d\<lparr>human_invites := x7\<rparr>) = audit_inv E d"
  "audit_inv E (d\<lparr>invite_challenges := x8\<rparr>) = audit_inv E d"
  "audit_inv E (d\<lparr>platform_owners := x9\<rparr>) = audit_inv E d"
  "audit_inv E (d\<lparr>owner_memberships := x10\<rparr>) = audit_inv E d"
  "audit_inv E (d\<lparr>devices := x11\<rparr>) = audit_inv E d"
  "audit_inv E (d\<lparr>device_credentials := x12\<rparr>) = audit_inv E d"
  "audit_inv E (d\<lparr>auth_nonces := x13\<rparr>) = audit_inv E d"
  "audit_inv E (d\<lparr>enrollment_tokens := x14\<rparr>) = audit_inv E d"
  "audit_inv E (d\<lparr>account_grants := x15\<rparr>) = audit_inv E d"
  "audit_inv E (d\<lparr>endpoint_accounts := x16\<rparr>) = audit_inv E d"
  "audit_inv E (d\<lparr>rotations := x17\<rparr>) = audit_inv E d"
  "audit_inv E (d\<lparr>events := x18\<rparr>) = audit_inv E d"
  "audit_inv E (d\<lparr>detection_jobs := x19\<rparr>) = audit_inv E d"
  "audit_inv E (d\<lparr>alerts := x20\<rparr>) = audit_inv E d"
  "audit_inv E (d\<lparr>cases := x21\<rparr>) = audit_inv E d"
  "audit_inv E (d\<lparr>case_alerts := x22\<rparr>) = audit_inv E d"
  "audit_inv E (d\<lparr>case_activity := x23\<rparr>) = audit_inv E d"
  "audit_inv E (d\<lparr>dispositions := x24\<rparr>) = audit_inv E d"
  "audit_inv E (d\<lparr>response_actions := x25\<rparr>) = audit_inv E d"
  "audit_inv E (d\<lparr>retention_policies := x26\<rparr>) = audit_inv E d"
  "audit_inv E (d\<lparr>retention_runs := x27\<rparr>) = audit_inv E d"
  "audit_inv E (d\<lparr>namespaces := x28\<rparr>) = audit_inv E d"
  "audit_inv E (d\<lparr>endpoint_sessions := x29\<rparr>) = audit_inv E d"
  "audit_inv E (d\<lparr>password_resets := x30\<rparr>) = audit_inv E d"
  "audit_inv E (d\<lparr>network_revisions := x31\<rparr>) = audit_inv E d"
  "audit_inv E (d\<lparr>management_revisions := x32\<rparr>) = audit_inv E d"
  "audit_inv E (d\<lparr>network_routes := x33\<rparr>) = audit_inv E d"
  by (rule audit_inv_frame; simp)+

lemma audit_inv_extend:
  assumes inv: "audit_inv E d"
    and r: "extends_chain E d r" "payload_object r"
    and c: "checkpoint_matches E r c"
  shows "audit_inv E (with_audit (audit_log d @ [r]) (au_sequence r) (audit_checkpoints d @ [c]) d)"
proof -
  let ?d = "with_audit (audit_log d @ [r]) (au_sequence r) (audit_checkpoints d @ [c]) d"
  have chain: "chain_ok E None (tenant_log tenant ?d)" for tenant
  proof -
    have "chain_ok E None (tenant_log tenant d)" using inv by (simp add: audit_inv_def)
    with r previous_hmac_inv [OF inv] show ?thesis
      by (auto simp: tenant_log_def chain_ok_snoc row_hmac_bytes extends_chain_def)
  qed
  moreover have "\<forall>x \<in> set (audit_log d). au_sequence x < au_sequence r"
    using inv r(1) by (auto simp: audit_inv_def extends_chain_def)
  ultimately show ?thesis
    using inv c by (auto simp: audit_inv_def sorted_wrt_append list_all2_appendI less_imp_le)
qed

lemma commits_audit_append:
  assumes "json_ok (JObj kvs)"
  shows "commits (audit_inv E)
    (audit_append E tenant action actor_type actor_id resource_type resource_id (JObj kvs) now)"
proof (rule commitsI, rule wp_audit_append_raw)
  fix w :: world and r c k
  assume "audit_inv E (tables w)" "extends_chain E (tables w) r" "checkpoint_matches E r c"
    and "entry_of tenant action actor_type actor_id resource_type resource_id (JObj kvs) now r"
  moreover from this(4) have "payload_object r"
    using payload_object_dumps [OF assms] by (simp add: entry_of_def)
  ultimately show "audit_inv E (tables (w\<lparr>drawn := k, tables := with_audit (audit_log (tables w) @ [r])
      (au_sequence r) (audit_checkpoints (tables w) @ [c]) (tables w)\<rparr>))"
    by (simp add: audit_inv_extend)
qed simp

section \<open>Properties\<close>

definition sample_append :: "audit_row prog" where
  "sample_append = audit_append sample_env ''t1'' ''case.noted'' ''user'' ''adm'' ''case'' ''c1''
     (JObj [(''note'', JStr ''x'')]) (Aware 7)"

definition sample_logged :: db where
  "sample_logged = tables (after sample_append (world_at sample_db\<lparr>in_tx := True\<rparr>))"

lemma audit_append_succeeds:
  assumes "in_tx w"
    and fields: "list_all (\<lambda>v. v \<noteq> [] \<and> length v \<le> 256) [tenant, action, actor_type, actor_id, resource_type, resource_id]"
    and payload: "\<not> has_nan payload" "length (utf8 (dumps False payload)) \<le> max_payload_bytes"
    and inv: "audit_inv E (tables w)" and known: "\<exists>t \<in> set (tenants (tables w)). t_id t = tenant"
    and new: "\<forall>r \<in> set (audit_log (tables w)). au_id r \<noteq> random_id w (drawn w)"
      "\<forall>c \<in> set (audit_checkpoints (tables w)). cp_id c \<noteq> random_id w (Suc (drawn w))"
  shows "succeeds (audit_append E tenant action actor_type actor_id resource_type resource_id payload (Aware t)) w"
proof -
  have "cp_through c \<noteq> audit_sequence (tables w) + 1" if c: "c \<in> set (audit_checkpoints (tables w))" for c
  proof -
    have "list_all2 (checkpoint_matches E) (audit_log (tables w)) (audit_checkpoints (tables w))"
      using inv by (simp add: audit_inv_def)
    with c obtain r where "r \<in> set (audit_log (tables w))" "cp_through c = au_sequence r"
      by (metis checkpoint_matches_def in_set_conv_nth list_all2_conv_all_nth)
    with inv show ?thesis by (auto simp: audit_inv_def)
  qed
  with assms show ?thesis
    unfolding succeeds_wp audit_append_def insert_audit_def insert_checkpoint_def Let_def
    by (simp add: wp_rules check_field_def row_exists_iff)
qed

lemma audit_inv_sample: "audit_inv E sample_db"
  by (simp add: sample_db_def audit_inv_empty)

lemma sample_append_succeeds: "succeeds sample_append (world_at sample_db\<lparr>in_tx := True\<rparr>)"
  unfolding sample_append_def
proof (rule audit_append_succeeds)
  have "length (utf8 (dumps False (JObj [(''note'', JStr ''x'')]))) = 12" by code_simp
  then show "length (utf8 (dumps False (JObj [(''note'', JStr ''x'')]))) \<le> max_payload_bytes"
    by (simp add: max_payload_bytes_def)
  show "\<exists>t \<in> set (tenants (tables (world_at sample_db\<lparr>in_tx := True\<rparr>))). t_id t = ''t1''" by code_simp
qed (simp_all add: audit_inv_sample, simp_all add: sample_db_def empty_db_def)

lemma sample_logged_inv: "audit_inv sample_env sample_logged"
proof -
  obtain r where run: "sample_append (world_at sample_db\<lparr>in_tx := True\<rparr>) =
      (Inr r, after sample_append (world_at sample_db\<lparr>in_tx := True\<rparr>))"
    using sample_append_succeeds by (blast dest: succeedsD)
  have "commits (audit_inv sample_env) sample_append"
    unfolding sample_append_def by (rule commits_audit_append) simp
  then show ?thesis
    unfolding sample_logged_def by (rule commits_run [where m = sample_append, OF _ _ run]) (simp add: audit_inv_sample)
qed

lemma last_tag_snoc [simp]: "last_tag tag p (rs @ [r]) = Some (tag r)"
  by (simp add: last_tag_def)

text \<open>
  C1. Appending keeps the log verifiable. From a well-formed log, a successful append leaves a log that
  \<open>verify\<close> accepts for its tenant with exactly one more entry and checkpoint and the new code as
  terminal, and that it accepts for every other tenant with the same report as before.
\<close>

theorem append_then_verify:
  assumes "audit_inv E (tables w)" and "json_ok (JObj kvs)"
    and "audit_append E tenant action actor_type actor_id resource_type resource_id (JObj kvs) now w = (Inr r, w')"
  shows "verify_log E tenant (tables w') = \<lparr>vf_valid = True, vf_entries = Suc (length (tenant_log tenant (tables w))),
      vf_checkpoints = Suc (length (tenant_log tenant (tables w))), vf_terminal = Some (au_hmac r),
      vf_failure = None, vf_reason = None\<rparr> \<and>
    (other \<noteq> tenant \<longrightarrow> verify_log E other (tables w') = verify_log E other (tables w))"
proof -
  have inv: "audit_inv E (tables w')"
    using wp_Inr [OF commitsD [OF commits_audit_append [OF assms(2)] assms(1)] assms(3)] .
  from auditing.append_ok [OF assms(3)] have log: "audit_log (tables w') = audit_log (tables w) @ [r]"
    and r: "au_tenant r = tenant"
    by (auto simp: entry_of_def)
  then have "tenant_log tenant (tables w') = tenant_log tenant (tables w) @ [r]"
    and "other \<noteq> tenant \<Longrightarrow> tenant_log other (tables w') = tenant_log other (tables w)"
    by (simp_all add: tenant_log_def)
  then show ?thesis
    by (simp add: audit_inv_verifies [OF inv] audit_inv_verifies [OF assms(1)])
qed

theorem append_then_verify_witness:
  "succeeds sample_append (world_at sample_db\<lparr>in_tx := True\<rparr>) \<and>
   vf_entries (verify_log sample_env ''t1'' sample_logged) = 1 \<and> vf_valid (verify_log sample_env ''t1'' sample_logged)"
proof -
  note ok = sample_append_succeeds
  then obtain r where "sample_append (world_at sample_db\<lparr>in_tx := True\<rparr>) =
      (Inr r, after sample_append (world_at sample_db\<lparr>in_tx := True\<rparr>))"
    by (blast dest: succeedsD)
  moreover have "audit_inv sample_env (tables (world_at sample_db\<lparr>in_tx := True\<rparr>))"
    by (simp add: audit_inv_sample)
  moreover have "tenant_log ''t1'' (tables (world_at sample_db\<lparr>in_tx := True\<rparr>)) = []" by code_simp
  ultimately show ?thesis
    using append_then_verify [of sample_env "world_at sample_db\<lparr>in_tx := True\<rparr>" "[(''note'', JStr ''x'')]"] ok
    unfolding sample_append_def sample_logged_def by simp
qed

text \<open>
  C3. Verification accepts exactly the well-formed logs: with distinct sequence numbers, \<open>verify\<close>
  reports a valid log if and only if every entry links to its predecessor and carries the code of its
  own fields with an object payload, there are as many checkpoints as entries, and every checkpoint
  names an entry and its code under a valid signature.
\<close>

theorem verify_exact:
  assumes "distinct (map au_sequence (tenant_entries tenant d))"
  shows "vf_valid (verify_log E tenant d) \<longleftrightarrow>
    chain_ok E None (tenant_entries tenant d) \<and>
    length (tenant_checkpoints tenant d) = length (tenant_entries tenant d) \<and>
    list_all (checkpoint_ok E (tenant_entries tenant d)) (tenant_checkpoints tenant d)"
  by (rule verify_log_valid_iff [OF assms])

theorem verify_exact_witness:
  "vf_valid (verify_log sample_env ''t1'' sample_logged) \<longleftrightarrow>
    chain_ok sample_env None (tenant_entries ''t1'' sample_logged) \<and>
    length (tenant_checkpoints ''t1'' sample_logged) = length (tenant_entries ''t1'' sample_logged) \<and>
    list_all (checkpoint_ok sample_env (tenant_entries ''t1'' sample_logged)) (tenant_checkpoints ''t1'' sample_logged)"
proof (rule verify_exact)
  show "distinct (map au_sequence (tenant_entries ''t1'' sample_logged))"
    using tenant_entries_inv [OF sample_logged_inv] by simp
qed

text \<open>
  C2. The log is tamper-evident: two logs that verify with the same terminal code show the same entries
  (every stored field but the sequence number, in the same order), unless two of their entries have
  different bytes with the same keyed code. So a change, removal, insertion or reordering of entries
  below a known terminal code is detected up to a forgery of the code.
\<close>

theorem verified_log_determined:
  assumes "vf_valid (verify_log E tenant d)" and "vf_valid (verify_log E tenant d')"
    and "vf_terminal (verify_log E tenant d) = vf_terminal (verify_log E tenant d')"
  shows "map shown_of (tenant_entries tenant d) = map shown_of (tenant_entries tenant d') \<or>
    (\<exists>r \<in> set (tenant_entries tenant d). \<exists>s \<in> set (tenant_entries tenant d').
       row_bytes r \<noteq> row_bytes s \<and>
       hmac_hex E (audit_key E) (row_bytes r) = hmac_hex E (audit_key E) (row_bytes s))"
proof (rule audit_chain.chain_determined)
  note v = verify_log_report [OF assms(1)] and v' = verify_log_report [OF assms(2)]
  show "linked au_previous au_hmac (\<lambda>r. hmac_hex E (audit_key E) (row_bytes r)) None (tenant_entries tenant d)"
    using v by (simp add: chain_ok_def)
  show "linked au_previous au_hmac (\<lambda>r. hmac_hex E (audit_key E) (row_bytes r)) None (tenant_entries tenant d')"
    using v' by (simp add: chain_ok_def)
  show "last_tag au_hmac None (tenant_entries tenant d) = last_tag au_hmac None (tenant_entries tenant d')"
    using v v' assms(3) by simp
qed

theorem verified_log_determined_witness:
  "map shown_of (tenant_entries ''t1'' sample_logged) = map shown_of (tenant_entries ''t1'' sample_logged) \<or>
    (\<exists>r \<in> set (tenant_entries ''t1'' sample_logged). \<exists>s \<in> set (tenant_entries ''t1'' sample_logged).
       row_bytes r \<noteq> row_bytes s \<and>
       hmac_hex sample_env (audit_key sample_env) (row_bytes r) = hmac_hex sample_env (audit_key sample_env) (row_bytes s))"
proof (rule verified_log_determined)
  show "vf_valid (verify_log sample_env ''t1'' sample_logged)"
    by (simp add: audit_inv_verifies [OF sample_logged_inv])
  show "vf_valid (verify_log sample_env ''t1'' sample_logged)"
    by (simp add: audit_inv_verifies [OF sample_logged_inv])
qed simp

end
