(* ===== verification/Base64.thy ===== *)
theory Base64
  imports Json
begin

text \<open>
  The standard library's \<^verbatim>\<open>base64.urlsafe_b64encode\<close> and \<^verbatim>\<open>base64.urlsafe_b64decode\<close>, with which
  challenges are stored as text. A byte string is a \<open>string\<close>. The decoder is the non-validating
  one: it skips characters outside the alphabet and stops at complete padding.
\<close>

definition b64_char :: "nat \<Rightarrow> char" where
  "b64_char n = (if n < 26 then char_of (n + 65) else if n < 52 then char_of (n + 71)
     else if n < 62 then char_of (n - 4) else if n = 62 then CHR ''-'' else CHR ''_'')"

fun urlsafe_b64encode :: "string \<Rightarrow> string" where
  "urlsafe_b64encode [] = []"
| "urlsafe_b64encode [a] =
     [b64_char (code a div 4), b64_char (code a mod 4 * 16), CHR ''='', CHR ''='']"
| "urlsafe_b64encode [a, b] =
     [b64_char (code a div 4), b64_char (code a mod 4 * 16 + code b div 16),
      b64_char (code b mod 16 * 4), CHR ''='']"
| "urlsafe_b64encode (a # b # c # r) =
     [b64_char (code a div 4), b64_char (code a mod 4 * 16 + code b div 16),
      b64_char (code b mod 16 * 4 + code c div 64), b64_char (code c mod 64)] @ urlsafe_b64encode r"

definition b64_val :: "char \<Rightarrow> nat option" where
  "b64_val ch = (let n = code ch in
     if 65 \<le> n \<and> n \<le> 90 then Some (n - 65) else if 97 \<le> n \<and> n \<le> 122 then Some (n - 71)
     else if 48 \<le> n \<and> n \<le> 57 then Some (n + 4) else if n = 43 \<or> n = 45 then Some 62
     else if n = 47 \<or> n = 95 then Some 63 else None)"

fun a2b :: "nat \<Rightarrow> nat \<Rightarrow> nat \<Rightarrow> string \<Rightarrow> string option" where
  "a2b quad left pads [] = (if quad = 0 then Some [] else None)"
| "a2b quad left pads (ch # r) =
     (if ch = CHR ''='' then
        (if 2 \<le> quad then (if 4 \<le> quad + Suc pads then Some [] else a2b quad left (Suc pads) r)
         else a2b quad left pads r)
      else (case b64_val ch of
        None \<Rightarrow> a2b quad left pads r
      | Some v \<Rightarrow>
          if quad = 0 then a2b 1 v 0 r
          else if quad = 1 then map_option ((#) (char_of (left * 4 + v div 16))) (a2b 2 (v mod 16) 0 r)
          else if quad = 2 then map_option ((#) (char_of (left * 16 + v div 4))) (a2b 3 (v mod 4) 0 r)
          else map_option ((#) (char_of (left * 64 + v))) (a2b 0 0 0 r)))"

definition urlsafe_b64decode :: "string \<Rightarrow> string option" where
  "urlsafe_b64decode s = a2b 0 0 0 s"

lemma code_b64_char:
  assumes "n < 64"
  shows "code (b64_char n) = (if n < 26 then n + 65 else if n < 52 then n + 71
     else if n < 62 then n - 4 else if n = 62 then 45 else 95)"
  using assms by (simp add: b64_char_def code_literals) (simp add: code_def)

lemma b64_val_char: "n < 64 \<Longrightarrow> b64_val (b64_char n) = Some n"
  by (auto simp: b64_val_def Let_def code_b64_char)

lemma code_pad: "code CHR ''='' = 61"
  by (simp add: code_def)

lemma b64_char_not_pad:
  assumes "n < 64"
  shows "b64_char n \<noteq> CHR ''=''"
proof
  assume "b64_char n = CHR ''=''"
  then have "code (b64_char n) = 61" by (simp add: code_pad)
  with code_b64_char [OF assms] show False by (auto split: if_splits)
qed

lemma a2b_char: "v < 64 \<Longrightarrow> a2b quad left pads (b64_char v # r) =
   (if quad = 0 then a2b 1 v 0 r
    else if quad = 1 then map_option ((#) (char_of (left * 4 + v div 16))) (a2b 2 (v mod 16) 0 r)
    else if quad = 2 then map_option ((#) (char_of (left * 16 + v div 4))) (a2b 3 (v mod 4) 0 r)
    else map_option ((#) (char_of (left * 64 + v))) (a2b 0 0 0 r))"
  by (simp add: b64_val_char b64_char_not_pad)

lemma a2b_pad:
  "a2b 2 left 0 [CHR ''='', CHR ''=''] = Some []" "a2b 3 left 0 [CHR ''=''] = Some []"
  by simp_all

lemma byte_pieces:
  fixes n m :: nat
  shows "m < 16 \<Longrightarrow> n div 4 * 4 + (n mod 4 * 16 + m) div 16 = n"
    and "m < 16 \<Longrightarrow> (n mod 4 * 16 + m) mod 16 = m"
    and "m < 4 \<Longrightarrow> (n mod 16 * 4 + m) mod 4 = m"
    and "m < 4 \<Longrightarrow> n div 16 * 16 + (n mod 16 * 4 + m) div 4 = n"
    and "n div 64 * 64 + n mod 64 = n"
  by simp_all

lemma sextets:
  fixes n m :: nat
  shows "n < 256 \<Longrightarrow> n div 4 < 64" and "n < 256 \<Longrightarrow> n div 16 < 16" and "n < 256 \<Longrightarrow> n div 64 < 4"
    and "m < 16 \<Longrightarrow> n mod 4 * 16 + m < 64" and "m < 4 \<Longrightarrow> n mod 16 * 4 + m < 64"
    and "n mod 4 * 16 < 64" and "n mod 16 * 4 < 64"
proof -
  have "n mod 4 < 4" "n mod 16 < 16" by simp_all
  then show "m < 16 \<Longrightarrow> n mod 4 * 16 + m < 64" "m < 4 \<Longrightarrow> n mod 16 * 4 + m < 64"
    "n mod 4 * 16 < 64" "n mod 16 * 4 < 64" by linarith+
qed (simp_all add: less_mult_imp_div_less)

lemma urlsafe_b64_round_trip: "urlsafe_b64decode (urlsafe_b64encode s) = Some s"
  unfolding urlsafe_b64decode_def
proof (induction s rule: urlsafe_b64encode.induct)
  case (2 a)
  have "code a < 256" by simp
  then have "code a div 4 < 64" "code a mod 4 * 16 < 64"
    by (simp_all add: sextets)
  then show ?case
    using byte_pieces(1) [of 0 "code a"] by (simp add: a2b_char a2b_pad del: a2b.simps(2))
next
  case (3 a b)
  have "code a < 256" "code b < 256" by simp_all
  then have "code a div 4 < 64" "code a mod 4 * 16 + code b div 16 < 64" "code b mod 16 * 4 < 64"
    "code b div 16 < 16"
    by (simp_all add: sextets)
  then show ?case
    using byte_pieces(1,2) [of "code b div 16" "code a"] byte_pieces(4) [of 0 "code b"]
    by (simp add: a2b_char a2b_pad del: a2b.simps(2))
next
  case (4 a b c r)
  have "code a < 256" "code b < 256" "code c < 256" by simp_all
  then have "code a div 4 < 64" "code a mod 4 * 16 + code b div 16 < 64"
    "code b mod 16 * 4 + code c div 64 < 64" "code c mod 64 < 64"
    "code b div 16 < 16" "code c div 64 < 4"
    by (simp_all add: sextets)
  then show ?case
    using 4 byte_pieces(1,2) [of "code b div 16" "code a"] byte_pieces(3,4) [of "code c div 64" "code b"]
      byte_pieces(5) [of "code c"]
    by (simp add: a2b_char del: a2b.simps(2))
qed simp

end
