(* ===== verification/Identity.thy ===== *)
theory Identity
  imports Audit_Log Base64
begin

text \<open>
  Human identity of \<open>standalone/identity.py\<close>: roles and capabilities, first-administrator
  bootstrap, passkey ceremonies, invitations, recovery codes and opaque sessions. Each operation of
  \<open>HumanIdentityService\<close> is a program over the tables; the WebAuthn library is the record
  \<open>passkey_adapter\<close>, and every identifier, token and challenge drawn from \<open>uuid\<close> or
  \<open>secrets\<close> comes from \<open>fresh\<close>.
\<close>

section \<open>Roles, principals and the passkey adapter\<close>

datatype capability = View | Triage | Disposition | Propose_Response | Approve_Response | Manage

fun role_capabilities :: "role \<Rightarrow> capability set" where
  "role_capabilities Viewer = {View}"
| "role_capabilities Analyst = {View, Triage, Disposition}"
| "role_capabilities Responder = {View, Triage, Disposition, Propose_Response, Approve_Response}"
| "role_capabilities Admin = {View, Triage, Disposition, Propose_Response, Approve_Response, Manage}"

fun role_name :: "role \<Rightarrow> string" where
  "role_name Viewer = ''viewer''"
| "role_name Analyst = ''analyst''"
| "role_name Responder = ''responder''"
| "role_name Admin = ''admin''"

record principal =
  pr_tenant :: string
  pr_user :: string
  pr_email :: string
  pr_name :: string
  pr_role :: role
  pr_session :: string
  pr_expires :: instant
  pr_csrf :: string

record session_issue =
  si_token :: string
  si_csrf :: string
  si_principal :: principal
  si_recovery :: "string list"

record ceremony =
  ce_challenge :: string
  ce_options :: json
  ce_expires :: datetime

record registration =
  rg_credential :: string
  rg_public_key :: string
  rg_sign_count :: int

record passkey_adapter =
  registration_options :: "string \<Rightarrow> string \<Rightarrow> string \<Rightarrow> string \<Rightarrow> string list \<Rightarrow> json"
  verify_registration :: "json \<Rightarrow> string \<Rightarrow> registration option"
  authentication_options :: "string \<Rightarrow> string list \<Rightarrow> json"
  response_credential_id :: "json \<Rightarrow> string option"
  verify_authentication :: "json \<Rightarrow> string \<Rightarrow> string \<Rightarrow> int \<Rightarrow> (string \<times> int) option"

section \<open>Helpers\<close>

definition keyed_hash :: "env \<Rightarrow> string \<Rightarrow> string \<Rightarrow> string \<Rightarrow> string" where
  "keyed_hash E key purpose value = hmac_hex E key (utf8 (purpose @ '':'' @ value))"

definition recovery_hash :: "env \<Rightarrow> string \<Rightarrow> string" where
  "recovery_hash E value = keyed_hash E (recovery_pepper E) ''recovery'' (strip value)"

definition csrf_token :: "env \<Rightarrow> string \<Rightarrow> string" where
  "csrf_token E session_id = keyed_hash E (session_pepper E) ''session-csrf-token-v1'' session_id"

definition slug_char :: "char \<Rightarrow> bool" where
  "slug_char ch \<longleftrightarrow> (CHR ''a'' \<le> ch \<and> ch \<le> CHR ''z'') \<or> (CHR ''0'' \<le> ch \<and> ch \<le> CHR ''9'')"

fun slug_from :: "bool \<Rightarrow> string \<Rightarrow> bool" where
  "slug_from after_char [] \<longleftrightarrow> after_char"
| "slug_from after_char (ch # r) \<longleftrightarrow>
     (if slug_char ch then slug_from True r else after_char \<and> ch = CHR ''-'' \<and> slug_from False r)"

definition slug_ok :: "string \<Rightarrow> bool" where
  "slug_ok s \<longleftrightarrow> slug_from False s"

definition normalize_email :: "string \<Rightarrow> string prog" where
  "normalize_email value =
     (let normalized = casefold (strip value);
          local = takeWhile (\<lambda>ch. ch \<noteq> CHR ''@'') normalized;
          domain = tl (dropWhile (\<lambda>ch. ch \<noteq> CHR ''@'') normalized) in
      if 320 < length normalized \<or> count_list normalized (CHR ''@'') \<noteq> 1
      then raise IdentityError ''email identity is invalid''
      else if local = [] \<or> domain = [] \<or> CHR ''.'' \<notin> set domain
      then raise IdentityError ''email identity is invalid''
      else ret normalized)"

definition context_text :: "(string \<times> json) list \<Rightarrow> string \<Rightarrow> string prog" where
  "context_text context key = (case map_of context key of
     Some (JStr value) \<Rightarrow>
       if value = [] then raise ChallengeError ''passkey challenge context is incomplete'' else ret value
   | _ \<Rightarrow> raise ChallengeError ''passkey challenge context is incomplete'')"

definition required_text :: "string option \<Rightarrow> string prog" where
  "required_text value = (case value of
     None \<Rightarrow> raise ChallengeError ''passkey challenge identity is incomplete''
   | Some s \<Rightarrow> if s = [] then raise ChallengeError ''passkey challenge identity is incomplete'' else ret s)"

definition new_recovery_codes :: "string list prog" where
  "new_recovery_codes = map_prog (\<lambda>_. fresh) [0..<10]"

section \<open>Rows and their constraints\<close>

definition user_of :: "string \<Rightarrow> string \<Rightarrow> db \<Rightarrow> user_row option" where
  "user_of tenant user d = List.find (\<lambda>u. us_tenant u = tenant \<and> us_id u = user) (users d)"

definition tenant_active :: "string \<Rightarrow> db \<Rightarrow> bool" where
  "tenant_active tenant d = row_exists (\<lambda>t. t_id t = tenant \<and> t_status t = TenantActive) (tenants d)"

definition slug_active :: "string \<Rightarrow> string \<Rightarrow> db \<Rightarrow> bool" where
  "slug_active tenant slug d =
     row_exists (\<lambda>t. t_id t = tenant \<and> t_slug t = slug \<and> t_status t = TenantActive) (tenants d)"

definition user_exists :: "string \<Rightarrow> string \<Rightarrow> db \<Rightarrow> bool" where
  "user_exists tenant user d = row_exists (\<lambda>u. us_tenant u = tenant \<and> us_id u = user) (users d)"

definition owner_projection :: "string \<Rightarrow> string \<Rightarrow> db \<Rightarrow> bool" where
  "owner_projection tenant user d =
     row_exists (\<lambda>m. om_tenant m = tenant \<and> om_user m = user) (owner_memberships d)"

definition insert_tenant :: "tenant_row \<Rightarrow> unit prog" where
  "insert_tenant t = insert_checked
     (\<lambda>d. \<not> row_exists (\<lambda>x. t_id x = t_id t \<or> t_slug x = t_slug t) (tenants d))
     (\<lambda>d. d\<lparr>tenants := tenants d @ [t]\<rparr>)"

definition insert_user :: "user_row \<Rightarrow> unit prog" where
  "insert_user u = insert_checked
     (\<lambda>d. \<not> row_exists (\<lambda>x. us_tenant x = us_tenant u \<and> (us_id x = us_id u \<or> us_email x = us_email u)) (users d) \<and>
          row_exists (\<lambda>t. t_id t = us_tenant u) (tenants d))
     (\<lambda>d. d\<lparr>users := users d @ [u]\<rparr>)"

definition insert_session :: "session_row \<Rightarrow> unit prog" where
  "insert_session s = insert_checked
     (\<lambda>d. \<not> row_exists (\<lambda>x. se_id x = se_id s) (sessions d) \<and> user_exists (se_tenant s) (se_user s) d)
     (\<lambda>d. d\<lparr>sessions := sessions d @ [s]\<rparr>)"

definition insert_recovery_code :: "recovery_row \<Rightarrow> unit prog" where
  "insert_recovery_code r = insert_checked
     (\<lambda>d. \<not> row_exists (\<lambda>x. rc_tenant x = rc_tenant r \<and> rc_hash x = rc_hash r) (recovery_codes d) \<and>
          user_exists (rc_tenant r) (rc_user r) d \<and> \<not> owner_projection (rc_tenant r) (rc_user r) d)
     (\<lambda>d. d\<lparr>recovery_codes := recovery_codes d @ [r]\<rparr>)"

definition insert_owner :: "owner_row \<Rightarrow> unit prog" where
  "insert_owner o' = insert_checked
     (\<lambda>d. platform_owners d = [] \<and> user_exists (po_home o') (po_user o') d)
     (\<lambda>d. d\<lparr>platform_owners := [o']\<rparr>)"

definition insert_passkey ::
  "string \<Rightarrow> string \<Rightarrow> string \<Rightarrow> string \<Rightarrow> int \<Rightarrow> string \<Rightarrow> datetime \<Rightarrow> unit prog" where
  "insert_passkey tenant user credential public_key sign_count label now =
     bind (utc_text now) (\<lambda>t. insert_checked
       (\<lambda>d. 0 \<le> sign_count \<and>
            \<not> row_exists (\<lambda>p. pk_tenant p = tenant \<and> pk_credential p = credential) (passkeys d) \<and>
            user_exists tenant user d \<and> \<not> owner_projection tenant user d)
       (\<lambda>d. d\<lparr>passkeys := passkeys d @ [\<lparr>pk_tenant = tenant, pk_user = user, pk_credential = credential,
          pk_public_key = public_key, pk_sign_count = sign_count, pk_label = label, pk_created = t,
          pk_last_used = None, pk_revoked = None\<rparr>]\<rparr>))"

definition insert_challenge :: "challenge_row \<Rightarrow> unit prog" where
  "insert_challenge c = insert_checked
     (\<lambda>d. \<not> row_exists (\<lambda>x. ac_id x = ac_id c) (auth_challenges d) \<and>
          (case (ac_tenant c, ac_user c) of (Some tenant, Some user) \<Rightarrow> user_exists tenant user d | _ \<Rightarrow> True))
     (\<lambda>d. d\<lparr>auth_challenges := auth_challenges d @ [c]\<rparr>)"

definition insert_invite :: "invite_row \<Rightarrow> unit prog" where
  "insert_invite i = insert_checked
     (\<lambda>d. \<not> row_exists (\<lambda>x. hi_id x = hi_id i \<or> hi_hash x = hi_hash i) (human_invites d) \<and>
          hi_role i \<in> {Responder, Admin} \<and> row_exists (\<lambda>t. t_id t = hi_tenant i) (tenants d) \<and>
          user_exists (hi_tenant i) (hi_created_by i) d)
     (\<lambda>d. d\<lparr>human_invites := human_invites d @ [i]\<rparr>)"

definition human_invite_identity_immutable :: "db \<Rightarrow> invite_row \<Rightarrow> invite_row \<Rightarrow> bool" where
  "human_invite_identity_immutable d old new \<longleftrightarrow>
     hi_id new \<noteq> hi_id old \<or> hi_tenant new \<noteq> hi_tenant old \<or> hi_hash new \<noteq> hi_hash old \<or>
     hi_email new \<noteq> hi_email old \<or> hi_name new \<noteq> hi_name old \<or> hi_role new \<noteq> hi_role old \<or>
     hi_created_by new \<noteq> hi_created_by old \<or> hi_created new \<noteq> hi_created old \<or>
     hi_expires new \<noteq> hi_expires old"

definition human_invite_challenge_identity_immutable ::
  "db \<Rightarrow> invite_challenge_row \<Rightarrow> invite_challenge_row \<Rightarrow> bool" where
  "human_invite_challenge_identity_immutable d old new \<longleftrightarrow>
     hc_id new \<noteq> hc_id old \<or> hc_invite new \<noteq> hc_invite old \<or> hc_user new \<noteq> hc_user old \<or>
     hc_challenge new \<noteq> hc_challenge old \<or> hc_created new \<noteq> hc_created old \<or>
     hc_expires new \<noteq> hc_expires old"

section \<open>Authority\<close>

definition require_capability :: "principal \<Rightarrow> string \<Rightarrow> capability \<Rightarrow> unit prog" where
  "require_capability p tenant cap =
     raise_if (pr_tenant p \<noteq> tenant \<or> cap \<notin> role_capabilities (pr_role p)) HumanAuthorizationError
       ''principal is not authorized for this operation''"

definition active_admin :: "string \<Rightarrow> string \<Rightarrow> db \<Rightarrow> bool" where
  "active_admin tenant user d =
     (case user_of tenant user d of
        None \<Rightarrow> False
      | Some u \<Rightarrow>
          if \<not> (us_status u = UserActive \<and> us_role u = Admin \<and> tenant_active tenant d) then False
          else (case List.find (\<lambda>m. om_tenant m = tenant \<and> om_user m = user) (owner_memberships d) of
              None \<Rightarrow> True
            | Some m \<Rightarrow> row_exists (\<lambda>o'. po_home o' = om_home m \<and> po_user o' = user) (platform_owners d) \<and>
                (case user_of (om_home m) user d of
                   None \<Rightarrow> False
                 | Some h \<Rightarrow> us_status h = UserActive \<and> us_role h = Admin \<and> tenant_active (om_home m) d)))"

definition current_member :: "principal \<Rightarrow> instant \<Rightarrow> db \<Rightarrow> (string \<times> role) option" where
  "current_member p t d =
     (case List.find (\<lambda>s. se_id s = pr_session p \<and> se_user s = pr_user p \<and> se_revoked s = None \<and>
          t < se_expires s) (sessions d) of
        None \<Rightarrow> None
      | Some s \<Rightarrow>
          (case (user_of (se_tenant s) (se_user s) d, user_of (pr_tenant p) (se_user s) d) of
             (Some home, Some member) \<Rightarrow>
               if us_status home = UserActive \<and> tenant_active (se_tenant s) d \<and>
                  us_status member = UserActive \<and> tenant_active (pr_tenant p) d
               then Some (se_tenant s, us_role member) else None
           | _ \<Rightarrow> None))"

definition require_current_capability :: "principal \<Rightarrow> capability \<Rightarrow> datetime \<Rightarrow> unit prog" where
  "require_current_capability p cap now =
     andthen (require_capability p (pr_tenant p) cap)
     (bind (utc_text now) (\<lambda>t.
      bind (query (current_member p t)) (\<lambda>row.
      case row of
        None \<Rightarrow> raise HumanAuthorizationError ''administrator authority changed; sign in again''
      | Some (home, member_role) \<Rightarrow>
          andthen (raise_if (member_role \<noteq> pr_role p) HumanAuthorizationError
            ''administrator authority changed; sign in again'')
          (if home = pr_tenant p then ret ()
           else bind (query (\<lambda>d. row_exists (\<lambda>m. om_tenant m = pr_tenant p \<and> om_user m = pr_user p \<and>
                    om_home m = home) (owner_memberships d) \<and> active_admin (pr_tenant p) (pr_user p) d))
                  (\<lambda>ok. raise_if (\<not> ok) HumanAuthorizationError ''platform owner authority is inactive'')))))"

section \<open>Sessions\<close>

definition principal_from_row :: "session_row \<Rightarrow> user_row \<Rightarrow> principal" where
  "principal_from_row s u = \<lparr>pr_tenant = se_tenant s, pr_user = se_user s, pr_email = us_email u,
     pr_name = us_name u, pr_role = us_role u, pr_session = se_id s, pr_expires = se_expires s,
     pr_csrf = se_csrf_hash s\<rparr>"

definition issue_session :: "env \<Rightarrow> string \<Rightarrow> string \<Rightarrow> datetime \<Rightarrow> session_issue prog" where
  "issue_session E tenant user now =
     bind (query (\<lambda>d. (case user_of tenant user d of None \<Rightarrow> False | Some u \<Rightarrow> us_status u = UserActive) \<and>
            tenant_active tenant d \<and> \<not> owner_projection tenant user d)) (\<lambda>active.
     andthen (raise_if (\<not> active) SessionError ''sign-in identity is inactive'')
     (bind fresh (\<lambda>session_id.
      bind fresh (\<lambda>secret.
      bind (utc_text now) (\<lambda>t.
      let token = session_id @ ''.'' @ secret; csrf = csrf_token E session_id in
      andthen (insert_session \<lparr>se_tenant = tenant, se_id = session_id, se_user = user,
          se_secret_hash = keyed_hash E (session_pepper E) ''session'' token,
          se_csrf_hash = keyed_hash E (session_pepper E) ''csrf'' csrf,
          se_created = t, se_expires = t + seconds (session_ttl_seconds E), se_last_seen = t,
          se_revoked = None\<rparr>)
      (bind (query (\<lambda>d. (List.find (\<lambda>s. se_tenant s = tenant \<and> se_id s = session_id) (sessions d),
            user_of tenant user d))) (\<lambda>row.
       case row of
         (Some s, Some u) \<Rightarrow> ret \<lparr>si_token = token, si_csrf = csrf,
           si_principal = principal_from_row s u, si_recovery = []\<rparr>
       | _ \<Rightarrow> raise SessionError ''new session could not be loaded'')))))))"

definition split_token :: "string \<Rightarrow> (string \<times> string) option" where
  "split_token token =
     (let session_id = takeWhile (\<lambda>ch. ch \<noteq> CHR ''.'') token;
          after = dropWhile (\<lambda>ch. ch \<noteq> CHR ''.'') token in
      if after = [] \<or> session_id = [] \<or> tl after = [] then None else Some (session_id, tl after))"

definition session_join :: "string \<Rightarrow> db \<Rightarrow> (session_row \<times> user_row) option" where
  "session_join session_id d =
     (case List.find (\<lambda>s. se_id s = session_id) (sessions d) of
        None \<Rightarrow> None
      | Some s \<Rightarrow> (case user_of (se_tenant s) (se_user s) d of
            None \<Rightarrow> None
          | Some u \<Rightarrow> if row_exists (\<lambda>t. t_id t = se_tenant s) (tenants d) then Some (s, u) else None))"

definition authenticate_session :: "env \<Rightarrow> string \<Rightarrow> datetime \<Rightarrow> principal prog" where
  "authenticate_session E token now =
     (case split_token token of
        None \<Rightarrow> raise SessionError ''session is invalid''
      | Some (session_id, secret) \<Rightarrow>
          bind (query (session_join session_id)) (\<lambda>row.
          case row of
            None \<Rightarrow> raise SessionError ''session is invalid''
          | Some (s, u) \<Rightarrow>
              andthen (raise_if (se_secret_hash s \<noteq> keyed_hash E (session_pepper E) ''session'' token)
                SessionError ''session is invalid'')
              (bind (query (tenant_active (se_tenant s))) (\<lambda>active.
               andthen (raise_if (se_revoked s \<noteq> None \<or> us_status u \<noteq> UserActive \<or> \<not> active \<or>
                   se_expires s \<le> astimezone_utc E now) SessionError ''session is inactive'')
               (bind (utc_text now) (\<lambda>t.
                andthen (update_rows sessions sessions_update no_trigger
                  (\<lambda>x. se_tenant x = se_tenant s \<and> se_id x = session_id) (\<lambda>x. x\<lparr>se_last_seen := t\<rparr>))
                (ret (principal_from_row s u))))))))"

definition verify_csrf :: "env \<Rightarrow> principal \<Rightarrow> string \<Rightarrow> unit prog" where
  "verify_csrf E p csrf =
     raise_if (csrf = [] \<or> pr_csrf p \<noteq> keyed_hash E (session_pepper E) ''csrf'' csrf)
       HumanAuthorizationError ''csrf verification failed''"

definition session_csrf :: "env \<Rightarrow> principal \<Rightarrow> datetime \<Rightarrow> string prog" where
  "session_csrf E p now =
     (let csrf = csrf_token E (pr_session p) in
      bind (utc_text now) (\<lambda>t.
      bind (update_rows sessions sessions_update no_trigger
         (\<lambda>x. se_tenant x = pr_tenant p \<and> se_id x = pr_session p \<and> se_revoked x = None \<and> t < se_expires x)
         (\<lambda>x. x\<lparr>se_csrf_hash := keyed_hash E (session_pepper E) ''csrf'' csrf, se_last_seen := t\<rparr>)) (\<lambda>changed.
      andthen (raise_if (changed \<noteq> 1) SessionError ''session is inactive'') (ret csrf))))"

definition revoke_session :: "principal \<Rightarrow> datetime \<Rightarrow> unit prog" where
  "revoke_session p now =
     bind (utc_text now) (\<lambda>t.
     andthen (update_rows sessions sessions_update no_trigger
       (\<lambda>x. se_tenant x = pr_tenant p \<and> se_id x = pr_session p \<and> se_revoked x = None)
       (\<lambda>x. x\<lparr>se_revoked := Some t\<rparr>)) (ret ()))"

section \<open>Facts about sessions\<close>

text \<open>
  The specification of a session: a principal holds a session at a time when its row is unexpired and
  unrevoked, its secret is the token's, and its user and network are active.
\<close>

definition session_live :: "env \<Rightarrow> db \<Rightarrow> string \<Rightarrow> instant \<Rightarrow> session_row \<Rightarrow> user_row \<Rightarrow> bool" where
  "session_live E d token t s u \<longleftrightarrow>
     s \<in> set (sessions d) \<and> u \<in> set (users d) \<and> us_tenant u = se_tenant s \<and> us_id u = se_user s \<and>
     se_secret_hash s = keyed_hash E (session_pepper E) ''session'' token \<and>
     se_revoked s = None \<and> t < se_expires s \<and> us_status u = UserActive \<and> tenant_active (se_tenant s) d"

lemma user_of_SomeD:
  "user_of tenant user d = Some u \<Longrightarrow> u \<in> set (users d) \<and> us_tenant u = tenant \<and> us_id u = user"
  unfolding user_of_def by (drule find_SomeD) simp

lemma session_join_SomeD:
  "session_join session_id d = Some (s, u) \<Longrightarrow>
     s \<in> set (sessions d) \<and> se_id s = session_id \<and> u \<in> set (users d) \<and>
     us_tenant u = se_tenant s \<and> us_id u = se_user s"
  by (auto simp: session_join_def split: option.splits if_splits dest!: find_SomeD user_of_SomeD)

lemma authenticate_session_wp:
  "wp (authenticate_session E token now)
     (\<lambda>p w'. \<exists>s u t. now = Aware t \<and> session_live E (tables w) token t s u \<and> p = principal_from_row s u \<and>
        w' = w\<lparr>tables := (tables w)\<lparr>sessions := update_where
          (\<lambda>x. se_tenant x = se_tenant s \<and> se_id x = se_id s) (\<lambda>x. x\<lparr>se_last_seen := t\<rparr>) (sessions (tables w))\<rparr>\<rparr>)
     (\<lambda>_ w'. w' = w) w"
proof (cases "split_token token")
  case None
  then show ?thesis by (simp add: authenticate_session_def wp_rules)
next
  case (Some parts)
  obtain session_id secret where parts: "split_token token = Some (session_id, secret)"
    using Some by (cases parts) auto
  show ?thesis
  proof (cases "session_join session_id (tables w)")
    case None
    with parts show ?thesis by (simp add: authenticate_session_def wp_rules)
  next
    case (Some su)
    then obtain s u where su: "session_join session_id (tables w) = Some (s, u)" by (cases su) auto
    note facts = session_join_SomeD [OF su]
    show ?thesis
    proof (cases now)
      case (Naive x1)
      with su parts show ?thesis by (simp add: authenticate_session_def wp_rules)
    next
      case (Aware t)
      with su parts facts show ?thesis
        by (auto simp: authenticate_session_def wp_rules astimezone_utc_def session_live_def not_le
            intro!: exI [of _ s] exI [of _ u])
    qed
  qed
qed

lemma split_token_issued:
  assumes "CHR ''.'' \<notin> set sid" "sid \<noteq> []" "secret \<noteq> []"
  shows "split_token (sid @ ''.'' @ secret) = Some (sid, secret)"
proof -
  have "\<forall>x \<in> set sid. x \<noteq> CHR ''.''" using assms(1) by blast
  then have "takeWhile (\<lambda>ch. ch \<noteq> CHR ''.'') (sid @ ''.'' @ secret) = sid"
    "dropWhile (\<lambda>ch. ch \<noteq> CHR ''.'') (sid @ ''.'' @ secret) = ''.'' @ secret"
    by (simp_all add: takeWhile_append dropWhile_append)
  with assms(2,3) show ?thesis by (simp add: split_token_def Let_def)
qed

definition issued_row :: "env \<Rightarrow> string \<Rightarrow> string \<Rightarrow> string \<Rightarrow> string \<Rightarrow> instant \<Rightarrow> session_row" where
  "issued_row E tenant user sid secret t = \<lparr>se_tenant = tenant, se_id = sid, se_user = user,
     se_secret_hash = keyed_hash E (session_pepper E) ''session'' (sid @ ''.'' @ secret),
     se_csrf_hash = keyed_hash E (session_pepper E) ''csrf'' (csrf_token E sid), se_created = t,
     se_expires = t + seconds (session_ttl_seconds E), se_last_seen = t, se_revoked = None\<rparr>"

lemma issued_row_simps [simp]:
  "se_tenant (issued_row E tenant user sid secret t) = tenant"
  "se_id (issued_row E tenant user sid secret t) = sid"
  "se_user (issued_row E tenant user sid secret t) = user"
  "se_secret_hash (issued_row E tenant user sid secret t) =
     keyed_hash E (session_pepper E) ''session'' (sid @ ''.'' @ secret)"
  "se_expires (issued_row E tenant user sid secret t) = t + seconds (session_ttl_seconds E)"
  "se_revoked (issued_row E tenant user sid secret t) = None"
  by (simp_all add: issued_row_def)

lemma issue_session_wp:
  fixes w :: world
  defines "sid \<equiv> random_id w (drawn w)" and "secret \<equiv> random_id w (Suc (drawn w))"
  shows "wp (issue_session E tenant user now)
     (\<lambda>i w'. \<exists>u t. now = Aware t \<and> user_of tenant user (tables w) = Some u \<and> us_status u = UserActive \<and>
        tenant_active tenant (tables w) \<and> \<not> owner_projection tenant user (tables w) \<and>
        (\<forall>x \<in> set (sessions (tables w)). se_id x \<noteq> sid) \<and>
        i = \<lparr>si_token = sid @ ''.'' @ secret, si_csrf = csrf_token E sid,
          si_principal = principal_from_row (issued_row E tenant user sid secret t) u, si_recovery = []\<rparr> \<and>
        w' = w\<lparr>drawn := Suc (Suc (drawn w)), tables := (tables w)
          \<lparr>sessions := sessions (tables w) @ [issued_row E tenant user sid secret t]\<rparr>\<rparr>)
     (\<lambda>_ w'. tables w' = tables w) w"
proof (cases now)
  case (Naive x)
  then show ?thesis by (simp add: issue_session_def wp_rules)
next
  case (Aware t)
  show ?thesis
  proof (cases "user_of tenant user (tables w)")
    case None
    then show ?thesis by (simp add: issue_session_def wp_rules)
  next
    case (Some u)
    have find_new: "List.find (\<lambda>x. se_tenant x = tenant \<and> se_id x = sid) (sessions (tables w) @ [s]) = Some s"
      if "\<not> row_exists (\<lambda>x. se_id x = sid) (sessions (tables w))" "se_tenant s = tenant" "se_id s = sid" for s sid
      using that by (intro find_snoc_new) (auto simp: row_exists_iff)
    show ?thesis
      using Aware Some
      by (simp add: issue_session_def insert_session_def wp_rules find_new user_of_def Let_def row_exists_iff
          issued_row_def sid_def secret_def)
  qed
qed

lemma session_join_issued:
  assumes "\<forall>x \<in> set (sessions d). se_id x \<noteq> se_id s"
    and "user_of (se_tenant s) (se_user s) d = Some u" and "tenant_active (se_tenant s) d"
  shows "session_join (se_id s) (d\<lparr>sessions := sessions d @ [s]\<rparr>) = Some (s, u)"
  using assms
  by (auto simp: session_join_def find_snoc_new user_of_def tenant_active_def row_exists_iff)

text \<open>
  C21. A session that has just been issued authenticates with its token until it expires, and as the
  principal it was issued for: the token's first part leads to the stored row, whose secret hash is
  the token's. (The identifier drawn for the session contains no dot, as a UUID does not.)
\<close>

theorem issued_session_authenticates:
  assumes "issue_session E tenant user (Aware t) w = (Inr i, w')"
    and "CHR ''.'' \<notin> set (random_id w (drawn w))" and "random_id w (drawn w) \<noteq> []"
    and "random_id w (Suc (drawn w)) \<noteq> []"
    and "t' < t + seconds (session_ttl_seconds E)"
  shows "fst (authenticate_session E (si_token i) (Aware t') w') = Inr (si_principal i)"
proof -
  define s where "s = issued_row E tenant user (random_id w (drawn w)) (random_id w (Suc (drawn w))) t"
  from wp_Inr [OF issue_session_wp assms(1)] obtain u where
    u: "user_of tenant user (tables w) = Some u" "us_status u = UserActive" "tenant_active tenant (tables w)"
    and new: "\<forall>x \<in> set (sessions (tables w)). se_id x \<noteq> se_id s"
    and i: "si_token i = se_id s @ ''.'' @ random_id w (Suc (drawn w))" "si_principal i = principal_from_row s u"
    and w': "tables w' = (tables w)\<lparr>sessions := sessions (tables w) @ [s]\<rparr>"
    unfolding s_def by auto
  have s: "se_tenant s = tenant" "se_user s = user" "se_id s = random_id w (drawn w)" "se_revoked s = None"
    "t' < se_expires s" "se_secret_hash s = keyed_hash E (session_pepper E) ''session'' (si_token i)"
    using i assms(5) by (simp_all add: s_def)
  have token: "split_token (si_token i) = Some (se_id s, random_id w (Suc (drawn w)))"
    unfolding i(1) s(3) by (rule split_token_issued [OF assms(2-4)])
  have join: "session_join (se_id s) (tables w') = Some (s, u)"
    unfolding w' by (rule session_join_issued [OF new]) (simp_all add: s u)
  have active: "tenant_active (se_tenant s) (tables w')"
    using u(3) by (simp add: w' s tenant_active_def)
  note i(2)
  then have "wp (authenticate_session E (si_token i) (Aware t')) (\<lambda>p _. p = si_principal i) (\<lambda>_ _. False) w'"
    using token join active u(2) s
    by (simp add: authenticate_session_def wp_rules astimezone_utc_def)
  then show ?thesis
    by (auto simp: wp_def split: prod.splits sum.splits)
qed

theorem issued_session_authenticates_witness:
  "\<exists>i. fst (issue_session sample_env ''t1'' ''adm'' (Aware 5) (world_at sample_db)) = Inr i \<and>
     fst (authenticate_session sample_env (si_token i) (Aware 9)
       (after (issue_session sample_env ''t1'' ''adm'' (Aware 5)) (world_at sample_db))) = Inr (si_principal i)"
proof -
  have "succeeds (issue_session sample_env ''t1'' ''adm'' (Aware 5)) (world_at sample_db)" by code_simp
  then obtain i where i: "issue_session sample_env ''t1'' ''adm'' (Aware 5) (world_at sample_db) =
      (Inr i, after (issue_session sample_env ''t1'' ''adm'' (Aware 5)) (world_at sample_db))"
    by (blast dest: succeedsD)
  have "fst (authenticate_session sample_env (si_token i) (Aware 9)
      (after (issue_session sample_env ''t1'' ''adm'' (Aware 5)) (world_at sample_db))) = Inr (si_principal i)"
    by (rule issued_session_authenticates [OF i]) code_simp+
  with i show ?thesis by simp
qed

text \<open>
  C22. Authentication is sound: a token is accepted only at a time when some stored session is live for
  it, the principal returned is the one of that session and its user, and the only change is the
  session's last-seen time.
\<close>

theorem authenticate_session_sound:
  assumes "authenticate_session E token now w = (Inr p, w')"
  shows "\<exists>s u t. now = Aware t \<and> session_live E (tables w) token t s u \<and> p = principal_from_row s u \<and>
    tables w' = (tables w)\<lparr>sessions := update_where (\<lambda>x. se_tenant x = se_tenant s \<and> se_id x = se_id s)
      (\<lambda>x. x\<lparr>se_last_seen := t\<rparr>) (sessions (tables w))\<rparr>"
  using wp_Inr [OF authenticate_session_wp assms] by fastforce

theorem authenticate_session_sound_witness:
  "\<exists>p s u t. fst (authenticate_session sample_env ''id0.id1'' (Aware 9)
       (after (issue_session sample_env ''t1'' ''adm'' (Aware 5)) (world_at sample_db))) = Inr p \<and>
     session_live sample_env (tables (after (issue_session sample_env ''t1'' ''adm'' (Aware 5)) (world_at sample_db)))
       ''id0.id1'' t s u \<and> p = principal_from_row s u"
proof -
  let ?w = "after (issue_session sample_env ''t1'' ''adm'' (Aware 5)) (world_at sample_db)"
  have "succeeds (authenticate_session sample_env ''id0.id1'' (Aware 9)) ?w" by code_simp
  then obtain p v where p: "authenticate_session sample_env ''id0.id1'' (Aware 9) ?w = (Inr p, v)"
    by (blast dest: succeedsD)
  from authenticate_session_sound [OF p] p show ?thesis by auto
qed

interpretation session_revoke: keyed_update se_id "\<lambda>x. x\<lparr>se_revoked := Some t\<rparr>" for t
  by unfold_locales simp

text \<open>
  A revoked session is dead: after \<open>revoke_session\<close> no token that names the session is
  accepted any more, whatever the time, and the attempt changes nothing.
\<close>

theorem revoked_session_rejected:
  assumes "revoke_session p (Aware t) w = (Inr (), w')"
    and "key_unique se_id (sessions (tables w))"
    and "\<exists>s \<in> set (sessions (tables w)). se_id s = pr_session p \<and> se_tenant s = pr_tenant p"
    and "split_token token = Some (pr_session p, secret)"
  shows "\<exists>msg. authenticate_session E token now w' = (Inl (SessionError, msg), w')"
proof -
  obtain s where s: "s \<in> set (sessions (tables w))" "se_id s = pr_session p" "se_tenant s = pr_tenant p"
    using assms(3) by blast
  have "wp (revoke_session p (Aware t)) (\<lambda>_ w'. w' = w\<lparr>tables := (tables w)\<lparr>sessions := update_where
      (\<lambda>x. se_tenant x = pr_tenant p \<and> se_id x = pr_session p \<and> se_revoked x = None)
      (\<lambda>x. x\<lparr>se_revoked := Some t\<rparr>) (sessions (tables w))\<rparr>\<rparr>) (\<lambda>_ _. False) w"
    by (simp add: revoke_session_def wp_rules)
  from wp_Inr [OF this assms(1)] have w': "sessions (tables w') = update_where
      (\<lambda>x. se_tenant x = pr_tenant p \<and> se_id x = pr_session p \<and> se_revoked x = None)
      (\<lambda>x. x\<lparr>se_revoked := Some t\<rparr>) (sessions (tables w))" by simp
  from key_unique_find [OF assms(2) s(1)] have "List.find (\<lambda>x. se_id x = pr_session p) (sessions (tables w')) =
      Some (if se_revoked s = None then s\<lparr>se_revoked := Some t\<rparr> else s)"
    unfolding w' by (simp add: session_revoke.upd_find s)
  then have dead: "session_join (pr_session p) (tables w') = Some (r, u) \<Longrightarrow> se_revoked r \<noteq> None" for r u
    by (auto simp: session_join_def split: option.splits if_splits)
  have "wp (authenticate_session E token now) (\<lambda>_ _. False) (\<lambda>e v. fst e = SessionError \<and> v = w') w'"
    using dead assms(4) by (auto simp: authenticate_session_def wp_rules split: option.splits)
  then show ?thesis
    by (cases "authenticate_session E token now w'") (auto simp: wp_def split: sum.splits)
qed

theorem revoked_session_rejected_witness:
  "\<exists>msg. fst (authenticate_session sample_env ''s1.x'' (Aware 9)
     (after (revoke_session (principal_from_row (sample_session ''s1'' ''adm'') (sample_user ''adm'' ''a@x.io'' Admin))
        (Aware 8)) (world_at sample_db))) = Inl (SessionError, msg)"
proof -
  let ?p = "principal_from_row (sample_session ''s1'' ''adm'') (sample_user ''adm'' ''a@x.io'' Admin)"
  have "succeeds (revoke_session ?p (Aware 8)) (world_at sample_db)" by code_simp
  then obtain x where run: "revoke_session ?p (Aware 8) (world_at sample_db) = (Inr x, after (revoke_session ?p (Aware 8)) (world_at sample_db))"
    by (blast dest: succeedsD)
  have "\<exists>msg. authenticate_session sample_env ''s1.x'' (Aware 9) (after (revoke_session ?p (Aware 8)) (world_at sample_db)) =
      (Inl (SessionError, msg), after (revoke_session ?p (Aware 8)) (world_at sample_db))"
  proof (rule revoked_session_rejected)
    show "revoke_session ?p (Aware 8) (world_at sample_db) = (Inr (), after (revoke_session ?p (Aware 8)) (world_at sample_db))"
      using run by simp
    show "key_unique se_id (sessions (tables (world_at sample_db)))" by code_simp
    show "\<exists>s\<in>set (sessions (tables (world_at sample_db))). se_id s = pr_session ?p \<and> se_tenant s = pr_tenant ?p" by code_simp
    show "split_token ''s1.x'' = Some (pr_session ?p, ''x'')" by code_simp
  qed
  then show ?thesis by auto
qed

section \<open>Authority\<close>

text \<open>
  What \<open>require_current_capability\<close> promises its callers: the principal's role has the
  capability, a live session of the user exists, the user is an active member of the network with that
  same role, and when the session belongs to another network the user is there as the active platform
  owner.
\<close>

definition authority :: "principal \<Rightarrow> capability \<Rightarrow> instant \<Rightarrow> db \<Rightarrow> bool" where
  "authority p cap t d \<longleftrightarrow> cap \<in> role_capabilities (pr_role p) \<and>
     (\<exists>home. current_member p t d = Some (home, pr_role p) \<and>
       (home = pr_tenant p \<or>
        (\<exists>m \<in> set (owner_memberships d). om_tenant m = pr_tenant p \<and> om_user m = pr_user p \<and> om_home m = home) \<and>
        active_admin (pr_tenant p) (pr_user p) d))"

lemma wp_require_capability [wp_rules]:
  "wp (require_capability p tenant cap) Q Er w =
     ((pr_tenant p = tenant \<and> cap \<in> role_capabilities (pr_role p) \<longrightarrow> Q () w) \<and>
      (\<not> (pr_tenant p = tenant \<and> cap \<in> role_capabilities (pr_role p)) \<longrightarrow>
        Er (HumanAuthorizationError, ''principal is not authorized for this operation'') w))"
  by (auto simp: require_capability_def wp_rules)

lemma require_current_capability_wp:
  "wp (require_current_capability p cap now)
     (\<lambda>_ w'. (\<exists>t. now = Aware t \<and> authority p cap t (tables w)) \<and> w' = w)
     (\<lambda>e w'. w' = w \<and> fst e \<in> {HumanAuthorizationError, ValueError} \<and>
        (\<forall>t. now = Aware t \<longrightarrow> \<not> authority p cap t (tables w))) w"
proof (cases now)
  case (Naive x)
  then show ?thesis by (simp add: require_current_capability_def wp_rules)
next
  case (Aware t)
  then show ?thesis
    by (cases "current_member p t (tables w)")
      (auto simp: require_current_capability_def wp_rules authority_def row_exists_iff)
qed

lemma wp_require_current:
  fixes w :: world
  assumes "\<And>t. now = Aware t \<Longrightarrow> authority p cap t (tables w) \<Longrightarrow> Q () w"
    and "\<And>e. Er e w"
  shows "wp (require_current_capability p cap now) Q Er w"
proof (rule wp_mono [OF require_current_capability_wp])
  fix x :: unit and w'
  assume "(\<exists>t. now = Aware t \<and> authority p cap t (tables w)) \<and> w' = w"
  then show "Q x w'" using assms(1) by auto
qed (use assms(2) in simp)

lemma keeps_require_capability [keeps_rules, commits_rules]:
  "keeps I (require_capability p tenant cap)" "commits I (require_capability p tenant cap)"
  by (simp_all add: require_capability_def keeps_raise_if keeps_commits)

lemma keeps_require_current_capability [keeps_rules, commits_rules]:
  "keeps I (require_current_capability p cap now)" "commits I (require_current_capability p cap now)"
proof -
  show "keeps I (require_current_capability p cap now)"
    by (rule wp_keepsI, rule wp_require_current) simp_all
  then show "commits I (require_current_capability p cap now)" by (rule keeps_commits)
qed


end
