(* ===== verification/Ceremonies.thy ===== *)
theory Ceremonies
  imports Identity
begin

text \<open>
  The multi-step ceremonies of \<open>HumanIdentityService\<close> (\<open>standalone/identity.py\<close>):
  bootstrap of the first administrator, passkey authentication and registration, invitations and
  recovery codes. Every ceremony consumes a one-time row (a challenge, a bootstrap token, an invite
  or a recovery code) in the transaction that grants the session.
\<close>

section \<open>Challenges\<close>

definition create_challenge ::
  "env \<Rightarrow> challenge_purpose \<Rightarrow> string option \<Rightarrow> string option \<Rightarrow> json \<Rightarrow> datetime \<Rightarrow>
     ((string \<times> string) \<times> datetime) prog" where
  "create_challenge E purpose tenant user context now =
     bind fresh (\<lambda>challenge_id.
     bind fresh (\<lambda>challenge.
     bind (utc_text now) (\<lambda>t.
     andthen (insert_challenge \<lparr>ac_id = challenge_id, ac_tenant = tenant, ac_user = user,
         ac_purpose = purpose, ac_challenge = urlsafe_b64encode challenge,
         ac_context = dumps True context, ac_created = t,
         ac_expires = t + seconds (challenge_ttl_seconds E), ac_consumed = None\<rparr>)
     (ret ((challenge_id, challenge), datetime_add now (seconds (challenge_ttl_seconds E)))))))"

definition load_challenge ::
  "env \<Rightarrow> string \<Rightarrow> challenge_purpose \<Rightarrow> datetime \<Rightarrow> (challenge_row \<times> (string \<times> json) list \<times> string) prog" where
  "load_challenge E challenge_id purpose now =
     bind (query (\<lambda>d. List.find (\<lambda>c. ac_id c = challenge_id) (auth_challenges d))) (\<lambda>row.
     case row of
       None \<Rightarrow> raise ChallengeError ''passkey challenge is inactive''
     | Some c \<Rightarrow>
         andthen (raise_if (ac_purpose c \<noteq> purpose \<or> ac_consumed c \<noteq> None \<or>
             ac_expires c \<le> astimezone_utc E now) ChallengeError ''passkey challenge is inactive'')
         (case loads (ac_context c) of
            None \<Rightarrow> raise ValueError ''JSONDecodeError''
          | Some (JObj context) \<Rightarrow>
              (case urlsafe_b64decode (ac_challenge c) of
                 None \<Rightarrow> raise ChallengeError ''passkey challenge encoding is invalid''
               | Some challenge \<Rightarrow> ret (c, context, challenge))
          | Some _ \<Rightarrow> raise ChallengeError ''passkey challenge context is invalid''))"

definition consume_challenge :: "challenge_row \<Rightarrow> datetime \<Rightarrow> unit prog" where
  "consume_challenge c now =
     bind (utc_text now) (\<lambda>t.
     bind (update_rows auth_challenges auth_challenges_update no_trigger
        (\<lambda>x. ac_id x = ac_id c \<and> ac_consumed x = None \<and> t < ac_expires x)
        (\<lambda>x. x\<lparr>ac_consumed := Some t\<rparr>)) (\<lambda>changed.
     raise_if (changed \<noteq> 1) ChallengeError ''passkey challenge was already consumed or expired''))"

section \<open>Bootstrap\<close>

definition configured :: "db \<Rightarrow> bool" where
  "configured d \<longleftrightarrow> 0 < row_count (\<lambda>u. us_role u = Admin \<and> us_status u = UserActive) (users d)"

definition bootstrap_status :: "bool prog" where
  "bootstrap_status = query configured"

definition bootstrap_token_active :: "string \<Rightarrow> instant \<Rightarrow> bootstrap_row \<Rightarrow> bool" where
  "bootstrap_token_active token_hash t b \<longleftrightarrow>
     bt_hash b = token_hash \<and> bt_used b = None \<and> bt_revoked b = None \<and> t < bt_expires b"

definition issue_bootstrap_token :: "env \<Rightarrow> datetime \<Rightarrow> int \<Rightarrow> string prog" where
  "issue_bootstrap_token E now ttl =
     andthen (raise_if (ttl < 60 \<or> 3600 < ttl) ValueError ''bootstrap ttl must be between 60 and 3600 seconds'')
     (bind bootstrap_status (\<lambda>done.
      andthen (raise_if done BootstrapError ''standalone bootstrap is already complete'')
      (bind fresh (\<lambda>token.
       bind (utc_text now) (\<lambda>t.
       andthen (insert_checked
         (\<lambda>d. \<not> row_exists (\<lambda>b. bt_hash b = keyed_hash E (session_pepper E) ''bootstrap'' token) (bootstrap_tokens d))
         (\<lambda>d. d\<lparr>bootstrap_tokens := bootstrap_tokens d @
            [\<lparr>bt_hash = keyed_hash E (session_pepper E) ''bootstrap'' token, bt_created = t,
              bt_expires = t + seconds ttl, bt_used = None, bt_revoked = None\<rparr>]\<rparr>))
       (ret token))))))"

definition require_bootstrap_token :: "string \<Rightarrow> datetime \<Rightarrow> unit prog" where
  "require_bootstrap_token token_hash now =
     bind (utc_text now) (\<lambda>t.
     bind (query (\<lambda>d. row_exists (bootstrap_token_active token_hash t) (bootstrap_tokens d))) (\<lambda>active.
     bind bootstrap_status (\<lambda>done.
     raise_if (\<not> active \<or> done) BootstrapError ''bootstrap token is inactive'')))"

definition begin_bootstrap ::
  "env \<Rightarrow> passkey_adapter \<Rightarrow> string \<Rightarrow> string \<Rightarrow> string \<Rightarrow> string \<Rightarrow> string \<Rightarrow> datetime \<Rightarrow> ceremony prog" where
  "begin_bootstrap E A token tenant_slug tenant_display_name email display_name now =
     bind (normalize_email email) (\<lambda>normalized.
     andthen (raise_if (\<not> slug_ok tenant_slug \<or> 48 < length tenant_slug) BootstrapError ''tenant slug is invalid'')
     (andthen (raise_if (strip tenant_display_name = [] \<or> 120 < length tenant_display_name) BootstrapError
        ''tenant display name is invalid'')
     (andthen (raise_if (strip display_name = [] \<or> 120 < length display_name) BootstrapError
        ''administrator display name is invalid'')
     (let token_hash = keyed_hash E (session_pepper E) ''bootstrap'' token in
      andthen (require_bootstrap_token token_hash now)
      (bind fresh (\<lambda>user_id.
       bind (create_challenge E PBootstrap None None
          (JObj [(''token_hash'', JStr token_hash), (''tenant_slug'', JStr tenant_slug),
                 (''tenant_display_name'', JStr (strip tenant_display_name)), (''email'', JStr normalized),
                 (''display_name'', JStr (strip display_name)), (''user_id'', JStr user_id)]) now)
        (\<lambda>(challenge, expires_at).
         ret \<lparr>ce_challenge = fst challenge,
              ce_options = registration_options A user_id normalized (strip display_name) (snd challenge) [],
              ce_expires = expires_at\<rparr>)))))))"

definition grant_recovery_codes ::
  "env \<Rightarrow> string \<Rightarrow> string \<Rightarrow> string list \<Rightarrow> datetime \<Rightarrow> unit prog" where
  "grant_recovery_codes E tenant user codes now =
     for_each (\<lambda>code_text. bind (utc_text now) (\<lambda>t. insert_recovery_code
       \<lparr>rc_tenant = tenant, rc_user = user, rc_hash = recovery_hash E code_text, rc_created = t,
        rc_used = None\<rparr>)) codes"

definition bootstrap_transaction ::
  "env \<Rightarrow> challenge_row \<Rightarrow> (string \<times> json) list \<Rightarrow> string \<Rightarrow> string \<Rightarrow> string \<Rightarrow> registration \<Rightarrow> string list \<Rightarrow>
     datetime \<Rightarrow> session_issue prog" where
  "bootstrap_transaction E row context token_hash tenant_id user_id verified codes now =
     andthen (consume_challenge row now)
     (bind (utc_text now) (\<lambda>t.
      bind (update_rows bootstrap_tokens bootstrap_tokens_update no_trigger
         (bootstrap_token_active token_hash t) (\<lambda>b. b\<lparr>bt_used := Some t\<rparr>)) (\<lambda>changed.
      bind (query (\<lambda>d. row_exists (\<lambda>u. us_role u = Admin \<and> us_status u = UserActive) (users d))) (\<lambda>existing.
      andthen (raise_if (changed \<noteq> 1 \<or> existing) BootstrapError ''bootstrap token is no longer active'')
      (bind (context_text context ''tenant_slug'') (\<lambda>slug.
      bind (context_text context ''tenant_display_name'') (\<lambda>tenant_name.
      andthen (insert_tenant \<lparr>t_id = tenant_id, t_slug = slug, t_name = tenant_name,
         t_status = TenantActive, t_created = t\<rparr>)
      (bind (context_text context ''email'') (\<lambda>email.
      bind (context_text context ''display_name'') (\<lambda>name.
      andthen (insert_user \<lparr>us_tenant = tenant_id, us_id = user_id, us_email = email, us_name = name,
         us_role = Admin, us_status = UserActive, us_created = t\<rparr>)
      (andthen (insert_passkey tenant_id user_id (rg_credential verified) (rg_public_key verified)
         (rg_sign_count verified) ''Initial passkey'' now)
      (andthen (insert_owner \<lparr>po_home = tenant_id, po_user = user_id, po_created = t\<rparr>)
      (andthen (grant_recovery_codes E tenant_id user_id codes now)
      (issue_session E tenant_id user_id now))))))))))))))"

definition complete_bootstrap ::
  "env \<Rightarrow> passkey_adapter \<Rightarrow> string \<Rightarrow> string \<Rightarrow> json \<Rightarrow> datetime \<Rightarrow> session_issue prog" where
  "complete_bootstrap E A token challenge_id response now =
     bind (load_challenge E challenge_id PBootstrap now) (\<lambda>(row, context, challenge).
     let token_hash = keyed_hash E (session_pepper E) ''bootstrap'' token in
     andthen (raise_if (map_of context ''token_hash'' \<noteq> Some (JStr token_hash)) BootstrapError
       ''bootstrap token does not match the challenge'')
     (andthen (require_bootstrap_token token_hash now)
     (case verify_registration A response challenge of
        None \<Rightarrow> raise ChallengeError ''passkey registration verification failed''
      | Some verified \<Rightarrow>
         bind fresh (\<lambda>tenant_id.
         bind (context_text context ''user_id'') (\<lambda>user_id.
         bind new_recovery_codes (\<lambda>codes.
         bind (atomically (bootstrap_transaction E row context token_hash tenant_id user_id verified codes now))
         (\<lambda>issue. ret (issue\<lparr>si_recovery := codes\<rparr>))))))))"

section \<open>Passkey authentication\<close>

definition begin_authentication ::
  "env \<Rightarrow> passkey_adapter \<Rightarrow> string \<Rightarrow> string \<Rightarrow> datetime \<Rightarrow> ceremony prog" where
  "begin_authentication E A tenant_slug email now =
     bind (normalize_email email) (\<lambda>normalized.
     bind (query (\<lambda>d. List.find (\<lambda>u. slug_active (us_tenant u) tenant_slug d \<and> us_email u = normalized \<and>
        us_status u = UserActive) (users d))) (\<lambda>user.
     case user of
       None \<Rightarrow> raise ChallengeError ''authentication cannot be started''
     | Some u \<Rightarrow>
         bind (query (\<lambda>d. map pk_credential (order_by pk_created (filter (\<lambda>p. pk_tenant p = us_tenant u \<and>
            pk_user p = us_id u \<and> pk_revoked p = None) (passkeys d))))) (\<lambda>credential_ids.
         andthen (raise_if (credential_ids = []) ChallengeError ''authentication cannot be started'')
         (bind (create_challenge E PAuthentication (Some (us_tenant u)) (Some (us_id u)) (JObj []) now)
           (\<lambda>(challenge, expires_at).
            ret \<lparr>ce_challenge = fst challenge,
                 ce_options = authentication_options A (snd challenge) credential_ids,
                 ce_expires = expires_at\<rparr>)))))"

definition complete_authentication ::
  "env \<Rightarrow> passkey_adapter \<Rightarrow> string \<Rightarrow> json \<Rightarrow> datetime \<Rightarrow> session_issue prog" where
  "complete_authentication E A challenge_id response now =
     bind (load_challenge E challenge_id PAuthentication now) (\<lambda>(row, context, challenge).
     bind (required_text (ac_tenant row)) (\<lambda>tenant_id.
     bind (required_text (ac_user row)) (\<lambda>user_id.
     case response_credential_id A response of
       None \<Rightarrow> raise ChallengeError ''passkey assertion has no valid credential''
     | Some credential_id \<Rightarrow>
         bind (query (\<lambda>d. List.find (\<lambda>p. pk_tenant p = tenant_id \<and> pk_user p = user_id \<and>
             pk_credential p = credential_id \<and> pk_revoked p = None) (passkeys d))) (\<lambda>credential.
         case credential of
           None \<Rightarrow> raise ChallengeError ''passkey assertion credential is unavailable''
         | Some p \<Rightarrow>
             (case verify_authentication A response challenge (pk_public_key p) (pk_sign_count p) of
                None \<Rightarrow> raise ChallengeError ''passkey assertion verification failed''
              | Some (verified_id, new_sign_count) \<Rightarrow>
                  andthen (raise_if (verified_id \<noteq> credential_id) ChallengeError
                    ''passkey assertion credential does not match'')
                  (atomically (
                    andthen (consume_challenge row now)
                    (bind (utc_text now) (\<lambda>t.
                     andthen (update_rows passkeys passkeys_update (\<lambda>d old new. pk_sign_count new < 0)
                       (\<lambda>x. pk_tenant x = tenant_id \<and> pk_credential x = credential_id \<and> pk_revoked x = None)
                       (\<lambda>x. x\<lparr>pk_sign_count := new_sign_count, pk_last_used := Some t\<rparr>))
                     (issue_session E tenant_id user_id now))))))))))"

definition begin_passkey_registration ::
  "env \<Rightarrow> passkey_adapter \<Rightarrow> principal \<Rightarrow> datetime \<Rightarrow> ceremony prog" where
  "begin_passkey_registration E A p now =
     bind (query (\<lambda>d. map pk_credential (filter (\<lambda>x. pk_tenant x = pr_tenant p \<and> pk_user x = pr_user p \<and>
        pk_revoked x = None) (passkeys d)))) (\<lambda>credentials.
     bind (create_challenge E PRegistration (Some (pr_tenant p)) (Some (pr_user p)) (JObj []) now)
       (\<lambda>(challenge, expires_at).
        ret \<lparr>ce_challenge = fst challenge,
             ce_options = registration_options A (pr_user p) (pr_email p) (pr_name p) (snd challenge) credentials,
             ce_expires = expires_at\<rparr>))"

definition complete_passkey_registration ::
  "env \<Rightarrow> passkey_adapter \<Rightarrow> principal \<Rightarrow> string \<Rightarrow> json \<Rightarrow> string \<Rightarrow> datetime \<Rightarrow> string prog" where
  "complete_passkey_registration E A p challenge_id response label now =
     bind (load_challenge E challenge_id PRegistration now) (\<lambda>(row, context, challenge).
     andthen (raise_if (ac_tenant row \<noteq> Some (pr_tenant p) \<or> ac_user row \<noteq> Some (pr_user p))
       HumanAuthorizationError ''passkey challenge belongs to another principal'')
     (andthen (raise_if (strip label = [] \<or> 120 < length label) ChallengeError ''passkey label is invalid'')
     (case verify_registration A response challenge of
        None \<Rightarrow> raise ChallengeError ''passkey registration verification failed''
      | Some verified \<Rightarrow>
          andthen (atomically (
            andthen (consume_challenge row now)
            (insert_passkey (pr_tenant p) (pr_user p) (rg_credential verified) (rg_public_key verified)
              (rg_sign_count verified) (strip label) now)))
          (ret (rg_credential verified)))))"

section \<open>Invitations\<close>

record invite_issue =
  ii_id :: string
  ii_token :: string
  ii_role :: role
  ii_expires :: datetime

definition invite_active :: "instant \<Rightarrow> invite_row \<Rightarrow> bool" where
  "invite_active t i \<longleftrightarrow> hi_consumed i = None \<and> hi_revoked i = None \<and> t < hi_expires i"

definition issue_human_invite ::
  "env \<Rightarrow> principal \<Rightarrow> string \<Rightarrow> string \<Rightarrow> role \<Rightarrow> datetime \<Rightarrow> int \<Rightarrow> invite_issue prog" where
  "issue_human_invite E p email display_name role now ttl =
     andthen (require_capability p (pr_tenant p) Manage)
     (andthen (raise_if (\<not> identity_audited E) HumanInviteError ''human invite audit is unavailable'')
     (bind (normalize_email email) (\<lambda>normalized.
     let name = strip display_name in
     andthen (raise_if (name = [] \<or> 120 < length name) HumanInviteError ''invite display name is invalid'')
     (andthen (raise_if (role \<notin> {Responder, Admin}) HumanInviteError ''invite role must be responder or admin'')
     (andthen (raise_if (ttl < 60 \<or> 3600 < ttl) HumanInviteError ''invite ttl must be between 60 and 3600 seconds'')
     (bind fresh (\<lambda>invite_id.
     bind fresh (\<lambda>token.
     andthen (atomically (
       andthen (require_current_capability p Manage now)
       (bind (utc_text now) (\<lambda>t.
        bind (query (\<lambda>d. row_exists (\<lambda>u. us_tenant u = pr_tenant p \<and> us_email u = normalized) (users d) \<or>
             row_exists (\<lambda>i. hi_tenant i = pr_tenant p \<and> hi_email i = normalized \<and> invite_active t i) (human_invites d)))
          (\<lambda>taken.
        andthen (raise_if taken HumanInviteError ''invite identity is already active'')
        (andthen (insert_invite \<lparr>hi_id = invite_id, hi_tenant = pr_tenant p,
            hi_hash = keyed_hash E (session_pepper E) ''human-invite'' token, hi_email = normalized,
            hi_name = name, hi_role = role, hi_created_by = pr_user p, hi_created = t,
            hi_expires = t + seconds ttl, hi_consumed = None, hi_revoked = None\<rparr>)
        (andthen (audit_append E (pr_tenant p) ''human_invite.issued'' ''user'' (pr_user p) ''human_invite''
            invite_id (JObj [(''expires_at'', JStr (iso_text (t + seconds ttl))), (''role'', JStr (role_name role))]) now)
        (ret ()))))))))
     (ret \<lparr>ii_id = invite_id, ii_token = token, ii_role = role, ii_expires = datetime_add now (seconds ttl)\<rparr>)))))))))"

definition begin_human_invite :: "env \<Rightarrow> passkey_adapter \<Rightarrow> string \<Rightarrow> datetime \<Rightarrow> ceremony prog" where
  "begin_human_invite E A token now =
     (let token_hash = keyed_hash E (session_pepper E) ''human-invite'' token in
      bind (utc_text now) (\<lambda>t.
      bind (query (\<lambda>d. List.find (\<lambda>i. hi_hash i = token_hash \<and> invite_active t i \<and> tenant_active (hi_tenant i) d)
         (human_invites d))) (\<lambda>invite.
      case invite of
        None \<Rightarrow> raise HumanInviteError ''human invite is inactive''
      | Some i \<Rightarrow>
          bind fresh (\<lambda>user_id.
          bind fresh (\<lambda>challenge_id.
          bind fresh (\<lambda>challenge.
          let expires_at = min (hi_expires i) (t + seconds (challenge_ttl_seconds E)) in
          andthen (insert_checked
            (\<lambda>d. \<not> row_exists (\<lambda>x. hc_id x = challenge_id) (invite_challenges d) \<and>
                 row_exists (\<lambda>x. hi_id x = hi_id i) (human_invites d))
            (\<lambda>d. d\<lparr>invite_challenges := invite_challenges d @ [\<lparr>hc_id = challenge_id, hc_invite = hi_id i,
                hc_user = user_id, hc_challenge = urlsafe_b64encode challenge, hc_created = t,
                hc_expires = expires_at, hc_consumed = None\<rparr>]\<rparr>))
          (ret \<lparr>ce_challenge = challenge_id,
                ce_options = registration_options A user_id (hi_email i) (hi_name i) challenge [],
                ce_expires = Aware expires_at\<rparr>)))))))"

definition invite_join :: "string \<Rightarrow> string \<Rightarrow> db \<Rightarrow> (invite_challenge_row \<times> invite_row) option" where
  "invite_join challenge_id token_hash d =
     (case List.find (\<lambda>c. hc_id c = challenge_id) (invite_challenges d) of
        None \<Rightarrow> None
      | Some c \<Rightarrow> (case List.find (\<lambda>i. hi_id i = hc_invite c \<and> hi_hash i = token_hash \<and> tenant_active (hi_tenant i) d)
            (human_invites d) of
            None \<Rightarrow> None | Some i \<Rightarrow> Some (c, i)))"

definition complete_human_invite ::
  "env \<Rightarrow> passkey_adapter \<Rightarrow> string \<Rightarrow> string \<Rightarrow> json \<Rightarrow> datetime \<Rightarrow> session_issue prog" where
  "complete_human_invite E A token challenge_id response now =
     andthen (raise_if (\<not> identity_audited E) HumanInviteError ''human invite audit is unavailable'')
     (let token_hash = keyed_hash E (session_pepper E) ''human-invite'' token in
      bind (query (invite_join challenge_id token_hash)) (\<lambda>row.
      case row of
        None \<Rightarrow> raise HumanInviteError ''human invite challenge is inactive''
      | Some (c, i) \<Rightarrow>
          andthen (raise_if (hc_consumed c \<noteq> None \<or> hi_consumed i \<noteq> None \<or> hi_revoked i \<noteq> None \<or>
              hc_expires c \<le> astimezone_utc E now \<or> hi_expires i \<le> astimezone_utc E now)
            HumanInviteError ''human invite challenge is inactive'')
          (case Option.bind (urlsafe_b64decode (hc_challenge c)) (verify_registration A response) of
             None \<Rightarrow> raise HumanInviteError ''invite passkey verification failed''
           | Some verified \<Rightarrow>
               bind new_recovery_codes (\<lambda>codes.
               bind (atomically (
                 bind (utc_text now) (\<lambda>t.
                 bind (update_rows invite_challenges invite_challenges_update
                    human_invite_challenge_identity_immutable
                    (\<lambda>x. hc_id x = challenge_id \<and> hc_consumed x = None \<and> t < hc_expires x)
                    (\<lambda>x. x\<lparr>hc_consumed := Some t\<rparr>)) (\<lambda>challenge_change.
                 bind (update_rows human_invites human_invites_update human_invite_identity_immutable
                    (\<lambda>x. hi_id x = hi_id i \<and> hi_hash x = token_hash \<and> invite_active t x)
                    (\<lambda>x. x\<lparr>hi_consumed := Some t\<rparr>)) (\<lambda>invite_change.
                 andthen (raise_if (challenge_change \<noteq> 1 \<or> invite_change \<noteq> 1) HumanInviteError
                   ''human invite was already consumed or expired'')
                 (bind (query (\<lambda>d. case List.find (\<lambda>x. hi_id x = hi_id i) (human_invites d) of
                      None \<Rightarrow> False | Some x \<Rightarrow> active_admin (hi_tenant i) (hi_created_by x) d)) (\<lambda>authorized.
                 andthen (raise_if (\<not> authorized) HumanInviteError ''human invite issuer is no longer authorized'')
                 (andthen (insert_user \<lparr>us_tenant = hi_tenant i, us_id = hc_user c, us_email = hi_email i,
                    us_name = hi_name i, us_role = hi_role i, us_status = UserActive, us_created = t\<rparr>)
                 (andthen (insert_passkey (hi_tenant i) (hc_user c) (rg_credential verified)
                    (rg_public_key verified) (rg_sign_count verified) ''Invited passkey'' now)
                 (andthen (grant_recovery_codes E (hi_tenant i) (hc_user c) codes now)
                 (andthen (audit_append E (hi_tenant i) ''human_invite.accepted'' ''user'' (hc_user c)
                    ''human_invite'' (hi_id i) (JObj [(''role'', JStr (role_name (hi_role i)))]) now)
                 (issue_session E (hi_tenant i) (hc_user c) now))))))))))))
               (\<lambda>issue. ret (issue\<lparr>si_recovery := codes\<rparr>))))))"

section \<open>Recovery\<close>

definition recover_session ::
  "env \<Rightarrow> string \<Rightarrow> string \<Rightarrow> string \<Rightarrow> datetime \<Rightarrow> session_issue prog" where
  "recover_session E tenant_slug email recovery_code now =
     bind (normalize_email email) (\<lambda>normalized.
     let code_hash = recovery_hash E recovery_code in
     atomically (
       bind (query (\<lambda>d. List.find (\<lambda>u. slug_active (us_tenant u) tenant_slug d \<and> us_email u = normalized \<and>
            us_status u = UserActive \<and> row_exists (\<lambda>r. rc_tenant r = us_tenant u \<and> rc_user r = us_id u \<and>
              rc_hash r = code_hash \<and> rc_used r = None) (recovery_codes d)) (users d))) (\<lambda>row.
       case row of
         None \<Rightarrow> raise SessionError ''recovery credentials are invalid''
       | Some u \<Rightarrow>
           bind (utc_text now) (\<lambda>t.
           bind (update_rows recovery_codes recovery_codes_update no_trigger
              (\<lambda>r. rc_tenant r = us_tenant u \<and> rc_user r = us_id u \<and> rc_hash r = code_hash \<and> rc_used r = None)
              (\<lambda>r. r\<lparr>rc_used := Some t\<rparr>)) (\<lambda>changed.
           andthen (raise_if (changed \<noteq> 1) SessionError ''recovery credentials are invalid'')
           (issue_session E (us_tenant u) (us_id u) now))))))"

section \<open>The audit log stays verifiable\<close>

lemmas identity_insert_defs = insert_tenant_def insert_user_def insert_session_def insert_recovery_code_def
  insert_owner_def insert_passkey_def insert_challenge_def insert_invite_def grant_recovery_codes_def
  new_recovery_codes_def normalize_email_def context_text_def required_text_def

lemma keeps_case_json_str [keeps_rules]:
  "(\<And>s. keeps I (f s)) \<Longrightarrow> keeps I k \<Longrightarrow>
     keeps I (case x of Some (JStr s) \<Rightarrow> f s | _ \<Rightarrow> k)"
  by (auto split: option.splits json.splits)

lemma keeps_case_json_obj [keeps_rules]:
  "(\<And>s. keeps I (f s)) \<Longrightarrow> keeps I k \<Longrightarrow> keeps I m \<Longrightarrow>
     keeps I (case x of None \<Rightarrow> m | Some (JObj s) \<Rightarrow> f s | Some _ \<Rightarrow> k)"
  by (auto split: option.splits json.splits)

lemma keeps_identity_inserts:
  "keeps (audit_inv E) (insert_tenant r1)" "keeps (audit_inv E) (insert_user r2)"
  "keeps (audit_inv E) (insert_session r3)" "keeps (audit_inv E) (insert_recovery_code r4)"
  "keeps (audit_inv E) (insert_owner r5)" "keeps (audit_inv E) (insert_challenge r6)"
  "keeps (audit_inv E) (insert_invite r7)"
  "keeps (audit_inv E) (insert_passkey tenant user credential public_key sign_count label now)"
  "keeps (audit_inv E) (grant_recovery_codes F tenant user codes now)"
  unfolding identity_insert_defs by (intro keeps_rules; simp)+

lemma keeps_identity_texts:
  "keeps I (normalize_email v)" "keeps I (context_text cx key)" "keeps I (required_text t)"
  "keeps I new_recovery_codes"
  unfolding identity_insert_defs Let_def by (intro keeps_rules)+

lemma keeps_identity_steps:
  "keeps (audit_inv E) (issue_session F tenant user now)"
  "keeps (audit_inv E) (create_challenge F purpose t u cx now)"
  "keeps (audit_inv E) (load_challenge F cid purpose now)"
  "keeps (audit_inv E) (consume_challenge c now)"
  "keeps (audit_inv E) bootstrap_status"
  "keeps (audit_inv E) (require_bootstrap_token h now)"
  unfolding issue_session_def create_challenge_def load_challenge_def consume_challenge_def
    bootstrap_status_def require_bootstrap_token_def Let_def
  by (intro keeps_rules keeps_identity_inserts keeps_identity_texts; simp)+

lemmas identity_keeps = keeps_identity_inserts keeps_identity_texts keeps_identity_steps

lemmas identity_commits = identity_keeps [THEN keeps_commits]

lemma keeps_audit_identity:
  "keeps (audit_inv E) (authenticate_session F token now)"
  "keeps (audit_inv E) (session_csrf F p now)"
  "keeps (audit_inv E) (revoke_session p now)"
  "keeps (audit_inv E) (issue_bootstrap_token F now ttl)"
  "keeps (audit_inv E) (begin_bootstrap F A token slug tname email dname now)"
  "keeps (audit_inv E) (begin_authentication F A slug email now)"
  "keeps (audit_inv E) (begin_passkey_registration F A p now)"
  "keeps (audit_inv E) (begin_human_invite F A token now)"
  unfolding authenticate_session_def session_csrf_def revoke_session_def issue_bootstrap_token_def
    begin_bootstrap_def begin_authentication_def begin_passkey_registration_def begin_human_invite_def Let_def
  by (intro keeps_rules identity_keeps; simp)+

lemma keeps_audit_ceremonies:
  "keeps (audit_inv E) (complete_bootstrap F A token cid response now)"
  "keeps (audit_inv E) (complete_authentication F A cid response now)"
  "keeps (audit_inv E) (complete_passkey_registration F A p cid response label now)"
  "keeps (audit_inv E) (complete_human_invite E A token cid response now)"
  "keeps (audit_inv E) (issue_human_invite E p email dname role now ttl)"
  "keeps (audit_inv E) (recover_session F slug email rcode now)"
  unfolding complete_bootstrap_def bootstrap_transaction_def complete_authentication_def complete_passkey_registration_def
    complete_human_invite_def issue_human_invite_def recover_session_def Let_def
  by (intro keeps_rules commits_rules identity_keeps identity_commits commits_audit_append; simp)+

section \<open>The uniqueness constraints of the identity tables\<close>

definition identity_inv :: "db \<Rightarrow> bool" where
  "identity_inv d \<longleftrightarrow>
     key_unique t_id (tenants d) \<and> key_unique t_slug (tenants d) \<and>
     key_unique (\<lambda>u. (us_tenant u, us_id u)) (users d) \<and> key_unique (\<lambda>u. (us_tenant u, us_email u)) (users d) \<and>
     key_unique se_id (sessions d) \<and> key_unique (\<lambda>p. (pk_tenant p, pk_credential p)) (passkeys d) \<and>
     key_unique bt_hash (bootstrap_tokens d) \<and> key_unique ac_id (auth_challenges d) \<and>
     key_unique (\<lambda>r. (rc_tenant r, rc_hash r)) (recovery_codes d) \<and> key_unique hi_id (human_invites d) \<and>
     key_unique hi_hash (human_invites d) \<and> key_unique hc_id (invite_challenges d) \<and>
     length (platform_owners d) \<le> 1"

interpretation touch: keyed_update se_id "\<lambda>x. x\<lparr>se_last_seen := t\<rparr>" for t
  by unfold_locales simp
interpretation csrf_refresh: keyed_update se_id "\<lambda>x. x\<lparr>se_csrf_hash := h, se_last_seen := t\<rparr>" for h t
  by unfold_locales simp
interpretation challenge_consume: keyed_update ac_id "\<lambda>x. x\<lparr>ac_consumed := Some t\<rparr>" for t
  by unfold_locales simp
interpretation bootstrap_use: keyed_update bt_hash "\<lambda>b. b\<lparr>bt_used := Some t\<rparr>" for t
  by unfold_locales simp
interpretation passkey_use: keyed_update "\<lambda>p. (pk_tenant p, pk_credential p)"
    "\<lambda>x. x\<lparr>pk_sign_count := n, pk_last_used := Some t\<rparr>" for n t
  by unfold_locales simp
interpretation recovery_use: keyed_update "\<lambda>r. (rc_tenant r, rc_hash r)" "\<lambda>r. r\<lparr>rc_used := Some t\<rparr>" for t
  by unfold_locales simp
interpretation invite_use: keyed_update hi_id "\<lambda>x. x\<lparr>hi_consumed := Some t\<rparr>" for t
  by unfold_locales simp
interpretation invite_use_hash: keyed_update hi_hash "\<lambda>x. x\<lparr>hi_consumed := Some t\<rparr>" for t
  by unfold_locales simp
interpretation invite_challenge_use: keyed_update hc_id "\<lambda>x. x\<lparr>hc_consumed := Some t\<rparr>" for t
  by unfold_locales simp

lemmas identity_updates = touch.upd_key_unique csrf_refresh.upd_key_unique session_revoke.upd_key_unique
  challenge_consume.upd_key_unique bootstrap_use.upd_key_unique passkey_use.upd_key_unique
  recovery_use.upd_key_unique invite_use.upd_key_unique invite_use_hash.upd_key_unique
  invite_challenge_use.upd_key_unique

lemma identity_inv_empty: "identity_inv empty_db"
  by (simp add: identity_inv_def empty_db_def)

lemma identity_inv_audit: "identity_inv (with_audit l n c d) = identity_inv d"
  by (simp add: identity_inv_def)

lemma commits_identity_audit:
  "commits identity_inv (audit_append E tenant action actor_type actor_id resource_type resource_id payload now)"
  by (rule keeps_commits, rule auditing.keeps_append) (simp add: identity_inv_audit)

lemma keeps_inv_inserts:
  "keeps identity_inv (insert_tenant r1)" "keeps identity_inv (insert_user r2)"
  "keeps identity_inv (insert_session r3)" "keeps identity_inv (insert_recovery_code r4)"
  "keeps identity_inv (insert_owner r5)" "keeps identity_inv (insert_challenge r6)"
  "keeps identity_inv (insert_invite r7)"
  "keeps identity_inv (insert_passkey tenant user credential public_key sign_count label now)"
  "keeps identity_inv (grant_recovery_codes F tenant user codes now)"
  unfolding identity_insert_defs
  by (intro keeps_rules; (auto simp: identity_inv_def row_exists_iff; fail)?)+

lemma keeps_inv_steps:
  "keeps identity_inv (issue_session F tenant user now)"
  "keeps identity_inv (create_challenge F purpose t u cx now)"
  "keeps identity_inv (load_challenge F cid purpose now)"
  "keeps identity_inv (consume_challenge c now)"
  "keeps identity_inv bootstrap_status"
  "keeps identity_inv (require_bootstrap_token h now)"
  unfolding issue_session_def create_challenge_def load_challenge_def consume_challenge_def
    bootstrap_status_def require_bootstrap_token_def Let_def
  by (intro keeps_rules keeps_inv_inserts keeps_identity_texts; simp add: identity_inv_def identity_updates)+

lemmas inv_keeps = keeps_inv_inserts keeps_identity_texts keeps_inv_steps

lemmas inv_commits = inv_keeps [THEN keeps_commits]

lemma keeps_inv_sessions:
  "keeps identity_inv (authenticate_session F token now)"
  "keeps identity_inv (session_csrf F p now)"
  "keeps identity_inv (revoke_session p now)"
  "keeps identity_inv (issue_bootstrap_token F now ttl)"
  "keeps identity_inv (begin_bootstrap F A token slug tname email dname now)"
  "keeps identity_inv (begin_authentication F A slug email now)"
  "keeps identity_inv (begin_passkey_registration F A p now)"
  "keeps identity_inv (begin_human_invite F A token now)"
  unfolding authenticate_session_def session_csrf_def revoke_session_def issue_bootstrap_token_def
    begin_bootstrap_def begin_authentication_def begin_passkey_registration_def begin_human_invite_def Let_def
  by (intro keeps_rules inv_keeps; (auto simp: identity_inv_def identity_updates row_exists_iff; fail)?)+

lemma keeps_inv_ceremonies:
  "keeps identity_inv (complete_bootstrap F A token cid response now)"
  "keeps identity_inv (complete_authentication F A cid response now)"
  "keeps identity_inv (complete_passkey_registration F A p cid response label now)"
  "keeps identity_inv (complete_human_invite E A token cid response now)"
  "keeps identity_inv (issue_human_invite E p email dname role now ttl)"
  "keeps identity_inv (recover_session F slug email rcode now)"
  unfolding complete_bootstrap_def bootstrap_transaction_def complete_authentication_def complete_passkey_registration_def
    complete_human_invite_def issue_human_invite_def recover_session_def Let_def
  by (intro keeps_rules commits_rules inv_keeps inv_commits commits_identity_audit;
      simp add: identity_inv_def identity_updates)+

section \<open>One-time rows\<close>

lemma wp_issue_session:
  fixes w :: world
  assumes "\<And>i s t. now = Aware t \<Longrightarrow> Q i (w\<lparr>drawn := Suc (Suc (drawn w)),
      tables := (tables w)\<lparr>sessions := sessions (tables w) @ [s]\<rparr>\<rparr>)"
    and "\<And>e w'. tables w' = tables w \<Longrightarrow> Er e w'"
  shows "wp (issue_session E tenant user now) Q Er w"
  by (rule wp_mono [OF issue_session_wp]) (use assms in auto)

definition challenge_spent :: "string \<Rightarrow> db \<Rightarrow> bool" where
  "challenge_spent challenge_id d \<longleftrightarrow>
     (case List.find (\<lambda>c. ac_id c = challenge_id) (auth_challenges d) of
        None \<Rightarrow> False | Some c \<Rightarrow> ac_consumed c \<noteq> None)"

lemma load_challenge_wp:
  "wp (load_challenge E challenge_id purpose now)
     (\<lambda>(c, context, challenge) w'. w' = w \<and>
        List.find (\<lambda>c. ac_id c = challenge_id) (auth_challenges (tables w)) = Some c \<and>
        ac_purpose c = purpose \<and> ac_consumed c = None \<and> astimezone_utc E now < ac_expires c \<and>
        loads (ac_context c) = Some (JObj context) \<and> urlsafe_b64decode (ac_challenge c) = Some challenge)
     (\<lambda>e w'. w' = w \<and> (challenge_spent challenge_id (tables w) \<longrightarrow> fst e = ChallengeError)) w"
  by (auto simp: load_challenge_def wp_rules challenge_spent_def not_le split: option.splits json.splits)

lemma load_challenge_spent:
  assumes "challenge_spent challenge_id (tables w)"
  shows "wp (load_challenge E challenge_id purpose now) (\<lambda>_ _. False) (\<lambda>e w'. fst e = ChallengeError \<and> w' = w) w"
  using assms by (auto simp: load_challenge_def wp_rules challenge_spent_def split: option.splits)

lemma consume_challenge_wp:
  assumes "List.find (\<lambda>c. ac_id c = challenge_id) (auth_challenges (tables w)) = Some c"
  shows "wp (consume_challenge c now)
     (\<lambda>_ w'. \<exists>t. now = Aware t \<and> (t < ac_expires c \<longrightarrow> ac_consumed c = None \<longrightarrow> challenge_spent challenge_id (tables w')) \<and>
        w' = w\<lparr>tables := (tables w)\<lparr>auth_challenges := auth_challenges (tables w')\<rparr>\<rparr>)
     (\<lambda>_ _. True) w"
proof (cases now)
  case (Aware t)
  have c: "ac_id c = challenge_id" using find_SomeD [OF assms] by simp
  have "List.find (\<lambda>c. ac_id c = challenge_id) (update_where
      (\<lambda>x. ac_id x = ac_id c \<and> ac_consumed x = None \<and> t < ac_expires x) (\<lambda>x. x\<lparr>ac_consumed := Some t\<rparr>)
      (auth_challenges (tables w))) =
      Some (if ac_consumed c = None \<and> t < ac_expires c then c\<lparr>ac_consumed := Some t\<rparr> else c)"
    by (simp add: challenge_consume.upd_find assms)
  with Aware show ?thesis
    by (simp add: consume_challenge_def wp_rules challenge_spent_def)
qed (simp add: consume_challenge_def wp_rules)

lemma challenge_spent_other [simp]:
  "challenge_spent cid (d\<lparr>sessions := x\<rparr>) = challenge_spent cid d"
  "challenge_spent cid (d\<lparr>passkeys := y\<rparr>) = challenge_spent cid d"
  "challenge_spent cid (d\<lparr>tenants := z\<rparr>) = challenge_spent cid d"
  "challenge_spent cid (d\<lparr>users := u\<rparr>) = challenge_spent cid d"
  "challenge_spent cid (d\<lparr>bootstrap_tokens := b\<rparr>) = challenge_spent cid d"
  "challenge_spent cid (d\<lparr>platform_owners := p\<rparr>) = challenge_spent cid d"
  "challenge_spent cid (d\<lparr>recovery_codes := r\<rparr>) = challenge_spent cid d"
  by (simp_all add: challenge_spent_def)

lemma commits_spent:
  "commits (challenge_spent cid) (issue_session E tenant user now)"
  "commits (challenge_spent cid) (insert_tenant r1)" "commits (challenge_spent cid) (insert_user r2)"
  "commits (challenge_spent cid) (insert_passkey tenant user credential public_key sign_count label now)"
  "commits (challenge_spent cid) (insert_owner r5)"
  "commits (challenge_spent cid) (grant_recovery_codes E tenant user codes now)"
  "commits (challenge_spent cid) (context_text cx key)"
  unfolding issue_session_def identity_insert_defs Let_def
  by (intro commits_rules keeps_commits [OF keeps_case_json_str] keeps_rules; simp)+

lemma consume_then:
  assumes "List.find (\<lambda>c. ac_id c = challenge_id) (auth_challenges (tables w)) = Some c"
    and "ac_consumed c = None" "astimezone_utc E now < ac_expires c"
    and "commits (challenge_spent challenge_id) k"
  shows "wp (consume_challenge c now)
     (\<lambda>_. wp k (\<lambda>_ w'. challenge_spent challenge_id (tables w')) (\<lambda>_ _. True)) (\<lambda>_ _. True) w"
proof (rule wp_mono [OF consume_challenge_wp [OF assms(1)]])
  fix x w'
  assume "\<exists>t. now = Aware t \<and> (t < ac_expires c \<longrightarrow> ac_consumed c = None \<longrightarrow> challenge_spent challenge_id (tables w')) \<and>
        w' = w\<lparr>tables := (tables w)\<lparr>auth_challenges := auth_challenges (tables w')\<rparr>\<rparr>"
  with assms(2,3) have "challenge_spent challenge_id (tables w')" by (auto simp: astimezone_utc_def)
  with assms(4) show "wp k (\<lambda>_ w'. challenge_spent challenge_id (tables w')) (\<lambda>_ _. True) w'"
    by (rule commitsD)
qed simp

lemma complete_authentication_spends:
  "wp (complete_authentication E A challenge_id response now)
     (\<lambda>_ w'. challenge_spent challenge_id (tables w')) (\<lambda>_ _. True) w"
  unfolding complete_authentication_def wp_bind
proof (rule wp_mono [OF load_challenge_wp], goal_cases)
  case (1 x w')
  then show ?case
    by (clarsimp simp: wp_rules required_text_def split: option.splits prod.splits)
      (intro consume_then commits_rules commits_spent; simp)
qed simp

text \<open>
  C24. A passkey challenge authenticates once: after a completed authentication every further completion
  of the same challenge, with any response at any time, is refused and changes nothing.
\<close>

theorem authentication_challenge_single_use:
  assumes "complete_authentication E A challenge_id response now w = (Inr i, w')"
  shows "\<exists>msg. complete_authentication E A challenge_id response' now' w' = (Inl (ChallengeError, msg), w')"
proof -
  have "challenge_spent challenge_id (tables w')"
    using wp_Inr [OF complete_authentication_spends assms] .
  then have "wp (complete_authentication E A challenge_id response' now') (\<lambda>_ _. False)
      (\<lambda>e v. fst e = ChallengeError \<and> v = w') w'"
    unfolding complete_authentication_def wp_bind
    by (rule wp_mono [OF load_challenge_spent]) auto
  then show ?thesis
    by (cases "complete_authentication E A challenge_id response' now' w'")
      (auto simp: wp_def split: sum.splits)
qed

definition sample_adapter :: passkey_adapter where
  "sample_adapter = \<lparr>registration_options = (\<lambda>_ _ _ _ _. JObj []),
     verify_registration = (\<lambda>_ _. Some \<lparr>rg_credential = ''pk1'', rg_public_key = ''pub'', rg_sign_count = 0\<rparr>),
     authentication_options = (\<lambda>_ _. JObj []), response_credential_id = (\<lambda>_. Some ''pk1''),
     verify_authentication = (\<lambda>_ _ _ n. Some (''pk1'', n + 1))\<rparr>"

definition sample_passkey_db :: db where
  "sample_passkey_db = sample_db\<lparr>passkeys := [\<lparr>pk_tenant = ''t1'', pk_user = ''adm'', pk_credential = ''pk1'',
     pk_public_key = ''pub'', pk_sign_count = 0, pk_label = ''k'', pk_created = 0, pk_last_used = None,
     pk_revoked = None\<rparr>],
     recovery_codes := [\<lparr>rc_tenant = ''t1'', rc_user = ''adm'', rc_hash = recovery_hash sample_env ''rc'',
       rc_created = 0, rc_used = None\<rparr>]\<rparr>"

definition sample_challenged :: world where
  "sample_challenged = after (begin_authentication sample_env sample_adapter ''acme'' ''a@x.io'' (Aware 10))
     (world_at sample_passkey_db)"

theorem authentication_challenge_single_use_witness:
  "\<exists>i w' msg. complete_authentication sample_env sample_adapter ''id0'' (JObj []) (Aware 20) sample_challenged = (Inr i, w') \<and>
     complete_authentication sample_env sample_adapter ''id0'' (JObj []) (Aware 21) w' = (Inl (ChallengeError, msg), w')"
proof -
  have "succeeds (complete_authentication sample_env sample_adapter ''id0'' (JObj []) (Aware 20)) sample_challenged"
    by code_simp
  then obtain i w' where "complete_authentication sample_env sample_adapter ''id0'' (JObj []) (Aware 20) sample_challenged = (Inr i, w')"
    by (blast dest: succeedsD)
  with authentication_challenge_single_use [OF this, of "JObj []" "Aware 21"] show ?thesis by blast
qed

lemma configured_iff:
  "configured d \<longleftrightarrow> (\<exists>u \<in> set (users d). us_role u = Admin \<and> us_status u = UserActive)"
  using row_count_0_iff [of "\<lambda>u. us_role u = Admin \<and> us_status u = UserActive" "users d"]
  by (auto simp: configured_def)

lemma commits_configured:
  "commits configured (issue_session E tenant user now)"
  "commits configured (insert_passkey tenant user credential public_key sign_count label now)"
  "commits configured (insert_owner r5)"
  "commits configured (grant_recovery_codes E tenant user codes now)"
  unfolding issue_session_def identity_insert_defs Let_def
  by (intro commits_rules; simp add: configured_def)+

lemma establishes_admin:
  "us_role u = Admin \<Longrightarrow> us_status u = UserActive \<Longrightarrow> establishes configured (insert_user u)"
  by (rule establishesI) (simp add: insert_user_def wp_rules configured_iff)

lemma establishes_owner: "establishes (\<lambda>d. length (platform_owners d) = 1) (insert_owner r)"
  by (rule establishesI) (simp add: insert_owner_def wp_rules)

lemma commits_owner:
  "commits (\<lambda>d. length (platform_owners d) = 1) (issue_session E tenant user now)"
  "commits (\<lambda>d. length (platform_owners d) = 1) (grant_recovery_codes E tenant user codes now)"
  unfolding issue_session_def identity_insert_defs Let_def by (intro commits_rules; simp)+

lemma bootstrap_transaction_configures:
  "establishes configured (bootstrap_transaction E row context token_hash tenant_id user_id verified codes now)"
  unfolding bootstrap_transaction_def
  by ((rule establishes_first [OF establishes_admin], simp, simp, intro commits_rules commits_configured)
      | rule establishes_next | rule establishes_later)+

lemma bootstrap_transaction_owner:
  "establishes (\<lambda>d. length (platform_owners d) = 1)
     (bootstrap_transaction E row context token_hash tenant_id user_id verified codes now)"
  unfolding bootstrap_transaction_def
  by ((rule establishes_first [OF establishes_owner], intro commits_rules commits_owner)
      | rule establishes_next | rule establishes_later)+

lemma bootstrap_refused:
  assumes "configured (tables w)"
  shows "wp (require_bootstrap_token h (Aware t)) (\<lambda>_ _. False) (\<lambda>e v. e = (BootstrapError, ''bootstrap token is inactive'') \<and> v = w) w"
    and "wp (issue_bootstrap_token E (Aware t) ttl) (\<lambda>_ _. False) (\<lambda>e v. v = w) w"
  using assms by (simp_all add: require_bootstrap_token_def issue_bootstrap_token_def bootstrap_status_def wp_rules)

lemma complete_bootstrap_effect:
  "wp (complete_bootstrap E A token challenge_id response now)
     (\<lambda>i w'. \<not> configured (tables w) \<and> configured (tables w') \<and> length (platform_owners (tables w')) = 1)
     (\<lambda>_ w'. tables w' = tables w) w"
  unfolding complete_bootstrap_def wp_bind
proof (rule wp_mono [OF load_challenge_wp], goal_cases)
  case (1 x w')
  have codes: "wp new_recovery_codes (\<lambda>_ w'. tables w' = tables w) (\<lambda>_ w'. tables w' = tables w) v"
    if "tables v = tables w" for v :: world
    using keeps_wp [OF keeps_identity_texts(4), of "\<lambda>d. d = tables w" v] that by simp
  have tx: "wp (bootstrap_transaction E row cx h tenant_id user_id verified codes nw)
      (\<lambda>_ w'. configured (tables w') \<and> length (platform_owners (tables w')) = 1) (\<lambda>_ _. True)  v"
    for row cx h tenant_id user_id verified codes nw v
    using establishesD [OF bootstrap_transaction_configures] establishesD [OF bootstrap_transaction_owner]
    by (simp add: wp_conj [where E = "\<lambda>_ _. True" and E' = "\<lambda>_ _. True", simplified])
  have rest: "wp new_recovery_codes (\<lambda>codes. wp (bind (atomically
        (bootstrap_transaction E row cx h tenant_id user_id verified codes nw))
        (\<lambda>issue. ret (issue\<lparr>si_recovery := codes\<rparr>)))
      (\<lambda>i w'. configured (tables w') \<and> length (platform_owners (tables w')) = Suc 0)
      (\<lambda>_ w'. tables w' = tables w)) (\<lambda>_ w'. tables w' = tables w) v"
    if "tables v = tables w" for row cx h tenant_id user_id verified nw v
    by (rule wp_mono [OF codes [OF that]]) (auto simp: wp_rules intro!: wp_mono [OF tx])
  show ?case
    using 1
    by (clarsimp simp: wp_rules require_bootstrap_token_def bootstrap_status_def Let_def context_text_def rest
        split: option.splits prod.splits datetime.splits json.splits)
qed simp

text \<open>
  C23. Bootstrap happens once. A completed bootstrap started from an appliance without an active
  administrator and leaves one, with exactly one platform owner; from then on no bootstrap token is
  issued, and every completion of any bootstrap is refused with the tables unchanged. A bootstrap that
  fails leaves the tables as they were.
\<close>

theorem bootstrap_once:
  "case complete_bootstrap E A token challenge_id response now w of
     (Inl e, w') \<Rightarrow> tables w' = tables w
   | (Inr i, w') \<Rightarrow> \<not> configured (tables w) \<and> configured (tables w') \<and> length (platform_owners (tables w')) = 1 \<and>
       (\<exists>e. issue_bootstrap_token E (Aware t) ttl w' = (Inl e, w')) \<and>
       (\<exists>e v. complete_bootstrap E A token' challenge_id' response' now' w' = (Inl e, v) \<and> tables v = tables w')"
proof (cases "complete_bootstrap E A token challenge_id response now w")
  case (Pair r w')
  show ?thesis
  proof (cases r)
    case (Inl e)
    with Pair wp_Inl [OF complete_bootstrap_effect, of E A token challenge_id response now w e w']
    show ?thesis by simp
  next
    case (Inr i)
    note eff = wp_Inr [OF complete_bootstrap_effect, OF Pair [unfolded Inr]]
    have "\<exists>e. issue_bootstrap_token E (Aware t) ttl w' = (Inl e, w')"
      using bootstrap_refused(2) [of w' E t ttl] eff
      by (cases "issue_bootstrap_token E (Aware t) ttl w'") (auto simp: wp_def split: sum.splits)
    moreover have "\<exists>e v. complete_bootstrap E A token' challenge_id' response' now' w' = (Inl e, v) \<and> tables v = tables w'"
      using complete_bootstrap_effect [of E A token' challenge_id' response' now' w'] eff
      by (cases "complete_bootstrap E A token' challenge_id' response' now' w'") (auto simp: wp_def split: sum.splits)
    ultimately show ?thesis using eff Pair Inr by simp
  qed
qed

section \<open>Recovery codes\<close>

definition code_usable :: "env \<Rightarrow> string \<Rightarrow> string \<Rightarrow> string \<Rightarrow> db \<Rightarrow> bool" where
  "code_usable E slug email rcode d \<longleftrightarrow> (\<exists>u \<in> set (users d). slug_active (us_tenant u) slug d \<and>
     us_email u = email \<and> us_status u = UserActive \<and>
     (\<exists>r \<in> set (recovery_codes d). rc_tenant r = us_tenant u \<and> rc_user r = us_id u \<and>
        rc_hash r = recovery_hash E rcode \<and> rc_used r = None))"

lemma slug_active_unique:
  assumes "identity_inv d" "slug_active t slug d" "slug_active t' slug d"
  shows "t = t'"
proof -
  from assms(2,3) obtain x y where "x \<in> set (tenants d)" "y \<in> set (tenants d)" "t_slug x = slug" "t_slug y = slug"
    "t_id x = t" "t_id y = t'" by (auto simp: slug_active_def row_exists_iff)
  with assms(1) show ?thesis
    by (metis identity_inv_def key_unique_eq)
qed

lemma sole_user:
  assumes "identity_inv d" "u \<in> set (users d)" "u' \<in> set (users d)"
    and "slug_active (us_tenant u) slug d" "slug_active (us_tenant u') slug d" "us_email u = us_email u'"
  shows "u = u'"
proof (rule key_unique_eq)
  show "key_unique (\<lambda>u. (us_tenant u, us_email u)) (users d)" using assms(1) by (simp add: identity_inv_def)
  show "(us_tenant u, us_email u) = (us_tenant u', us_email u')"
    using slug_active_unique [OF assms(1,4,5)] assms(6) by simp
qed (use assms in auto)

lemma wp_normalize_email:
  fixes w :: world
  assumes "\<And>n. n = casefold (strip email) \<Longrightarrow> Q n w"
    and "\<And>e. fst e = IdentityError \<Longrightarrow> Er e w"
  shows "wp (normalize_email email) Q Er w"
  using assms by (auto simp: normalize_email_def wp_rules Let_def)

lemma recover_session_wp:
  assumes "identity_inv (tables w)"
  shows "wp (recover_session E slug email rcode now)
     (\<lambda>_ w'. code_usable E slug (casefold (strip email)) rcode (tables w) \<and>
        \<not> code_usable E slug (casefold (strip email)) rcode (tables w'))
     (\<lambda>_ w'. tables w' = tables w) w"
proof -
  define n where "n = casefold (strip email)"
  let ?row = "\<lambda>d u r. rc_tenant r = us_tenant u \<and> rc_user r = us_id u \<and> rc_hash r = recovery_hash E rcode \<and> rc_used r = None"
  have used: "\<not> code_usable E slug (us_email u) rcode ((tables w)\<lparr>recovery_codes := update_where (?row (tables w) u)
      (\<lambda>r. r\<lparr>rc_used := Some t\<rparr>) (recovery_codes (tables w)), sessions := x\<rparr>)"
    if u: "u \<in> set (users (tables w))" "slug_active (us_tenant u) slug (tables w)" for u t x
  proof
    assume "code_usable E slug (us_email u) rcode ((tables w)\<lparr>recovery_codes := update_where (?row (tables w) u)
      (\<lambda>r. r\<lparr>rc_used := Some t\<rparr>) (recovery_codes (tables w)), sessions := x\<rparr>)"
    then obtain u' r where u': "u' \<in> set (users (tables w))" "slug_active (us_tenant u') slug (tables w)" "us_email u' = us_email u"
      and r: "r \<in> set (update_where (?row (tables w) u) (\<lambda>r. r\<lparr>rc_used := Some t\<rparr>) (recovery_codes (tables w)))"
        "?row (tables w) u' r"
      by (auto simp: code_usable_def slug_active_def)
    have "u' = u" using sole_user [OF assms u'(1) u(1) u'(2) u(2)] u u' by simp
    with r show False by (auto simp: set_update_where split: if_splits)
  qed
  have usable: "code_usable E slug n rcode (tables w)"
    if "List.find (\<lambda>u. slug_active (us_tenant u) slug (tables w) \<and> us_email u = n \<and> us_status u = UserActive \<and>
      row_exists (?row (tables w) u) (recovery_codes (tables w))) (users (tables w)) = Some u" for u
    using find_SomeD [OF that] by (auto simp: code_usable_def row_exists_iff)
  show ?thesis
    unfolding recover_session_def wp_bind
  proof (rule wp_normalize_email, goal_cases)
    case (1 m)
    then show ?case
      unfolding n_def [symmetric]
      by (cases "List.find (\<lambda>u. slug_active (us_tenant u) slug (tables w) \<and> us_email u = n \<and> us_status u = UserActive \<and>
          row_exists (?row (tables w) u) (recovery_codes (tables w))) (users (tables w))"; cases now)
        (auto simp: wp_rules usable used Let_def dest!: find_SomeD intro!: wp_issue_session)
  qed simp
qed

text \<open>
  C25. A recovery code signs in once: the code was usable before, and after the sign-in the same code is
  refused for that network and email, whatever the time, without any change.
\<close>

theorem recovery_code_single_use:
  assumes "identity_inv (tables w)"
    and "recover_session E slug email rcode now w = (Inr i, w')"
  shows "\<exists>e v. recover_session E slug email rcode now' w' = (Inl e, v) \<and> tables v = tables w'"
proof -
  have "identity_inv (tables w')"
    using keepsD [OF keeps_inv_ceremonies(6) assms] .
  moreover have "\<not> code_usable E slug (casefold (strip email)) rcode (tables w')"
    using wp_Inr [OF recover_session_wp [OF assms(1)] assms(2)] by simp
  ultimately show ?thesis
    using recover_session_wp [of w' E slug email rcode now']
    by (cases "recover_session E slug email rcode now' w'") (auto simp: wp_def split: sum.splits)
qed

theorem recovery_code_single_use_witness:
  "\<exists>i w' e v. recover_session sample_env ''acme'' ''a@x.io'' ''rc'' (Aware 20) (world_at sample_passkey_db) = (Inr i, w') \<and>
     recover_session sample_env ''acme'' ''a@x.io'' ''rc'' (Aware 21) w' = (Inl e, v) \<and> tables v = tables w'"
proof -
  have "succeeds (recover_session sample_env ''acme'' ''a@x.io'' ''rc'' (Aware 20)) (world_at sample_passkey_db)"
    by code_simp
  then obtain i w' where run: "recover_session sample_env ''acme'' ''a@x.io'' ''rc'' (Aware 20) (world_at sample_passkey_db) = (Inr i, w')"
    by (blast dest: succeedsD)
  have "identity_inv (tables (world_at sample_passkey_db))" by code_simp
  from recovery_code_single_use [OF this run, of "Aware 21"] run show ?thesis by blast
qed

end
