(* ===== verification/Networks.thy ===== *)
theory Networks
  imports Passwords Ceremonies
begin

text \<open>
  Networks and their owner: \<open>standalone/networks.py\<close> (\<open>NetworkService\<close>, whose base domain is
  the argument \<open>base\<close>) and the offline designation of \<open>standalone/ownership.py\<close>
  (\<open>PlatformOwnerSetup\<close>; its checks of the file system and its lock are the outcome
  \<open>preflight\<close>). A membership of the platform owner in another network is a projection: the
  theorem says that it can never become a login identity of its own.
\<close>

section \<open>Names\<close>

definition domain_label :: "string \<Rightarrow> bool" where
  "domain_label l \<longleftrightarrow> l \<noteq> [] \<and> length l \<le> 63 \<and> slug_char (hd l) \<and> slug_char (last l) \<and> list_all (\<lambda>c. slug_char c \<or> c = CHR ''-'') l"

definition domain_ok :: "string \<Rightarrow> bool" where
  "domain_ok d \<longleftrightarrow> (let parts = split_on (CHR ''.'') d in 2 \<le> length parts \<and> list_all domain_label parts)"

definition normalize_domain :: "string \<Rightarrow> string prog" where
  "normalize_domain value = (let domain = lower (strip value) in
     andthen (raise_if (190 < length domain \<or> \<not> domain_ok domain) NetworkError
       ''Use a DNS domain without a scheme, port, path, or wildcard.'') (ret domain))"

definition new_network_service :: "string \<Rightarrow> string option prog" where
  "new_network_service base_domain = (if base_domain = [] then ret None else bind (normalize_domain base_domain) (\<lambda>d. ret (Some d)))"

definition display_name_ok :: "string \<Rightarrow> bool" where
  "display_name_ok name \<longleftrightarrow> name \<noteq> [] \<and> length name \<le> 120 \<and> \<not> list_ex (\<lambda>c. code c < 32) name"

definition reserved_slugs :: "string list" where
  "reserved_slugs = [''www'', ''admin'', ''api'', ''soc'', ''mail'', ''owner'', ''support'']"

definition network_slug_ok :: "string \<Rightarrow> bool" where
  "network_slug_ok slug \<longleftrightarrow> slug_ok slug \<and> 3 \<le> length slug \<and> length slug \<le> 48 \<and> slug \<notin> set reserved_slugs"

section \<open>Rows and their constraints\<close>

definition insert_namespace :: "namespace_row \<Rightarrow> unit prog" where
  "insert_namespace n = insert_checked
     (\<lambda>d. \<not> row_exists (\<lambda>x. nm_tenant x = nm_tenant n \<or> nm_domain x = nm_domain n) (namespaces d) \<and>
          row_exists (\<lambda>t. t_id t = nm_tenant n) (tenants d))
     (\<lambda>d. d\<lparr>namespaces := namespaces d @ [n]\<rparr>)"

definition insert_membership :: "membership_row \<Rightarrow> unit prog" where
  "insert_membership m = insert_checked
     (\<lambda>d. \<not> row_exists (\<lambda>x. om_tenant x = om_tenant m \<and> om_user x = om_user m) (owner_memberships d) \<and>
          user_exists (om_tenant m) (om_user m) d \<and> user_exists (om_home m) (om_user m) d)
     (\<lambda>d. d\<lparr>owner_memberships := owner_memberships d @ [m]\<rparr>)"

definition domain_of :: "string \<Rightarrow> db \<Rightarrow> string option" where
  "domain_of tenant d = map_option nm_domain (List.find (\<lambda>n. nm_tenant n = tenant) (namespaces d))"

definition revision_of :: "string \<Rightarrow> db \<Rightarrow> int" where
  "revision_of tenant d = (case List.find (\<lambda>r. nr_tenant r = tenant) (network_revisions d) of None \<Rightarrow> 1 | Some r \<Rightarrow> nr_revision r)"

section \<open>Authority over networks\<close>

definition active_user :: "string \<Rightarrow> string \<Rightarrow> db \<Rightarrow> bool" where
  "active_user tenant user d = (case user_of tenant user d of
     None \<Rightarrow> False | Some u \<Rightarrow> us_status u = UserActive \<and> us_role u = Admin)"

definition owner_at :: "principal \<Rightarrow> db \<Rightarrow> bool" where
  "owner_at p d \<longleftrightarrow> row_exists (\<lambda>o'. po_home o' = pr_tenant p \<and> po_user o' = pr_user p) (platform_owners d) \<and>
     active_user (pr_tenant p) (pr_user p) d \<and> tenant_active (pr_tenant p) d"

definition is_owner :: "principal \<Rightarrow> bool prog" where
  "is_owner p = query (owner_at p)"

definition scope :: "principal \<Rightarrow> string \<Rightarrow> principal prog" where
  "scope p tenant =
     (if tenant = [] \<or> tenant = pr_tenant p then ret p
      else
        bind (query (owner_at p)) (\<lambda>owner.
        andthen (raise_if (\<not> owner) HumanAuthorizationError ''network is not available to this identity'')
        (bind (query (\<lambda>d. row_exists (\<lambda>m. om_tenant m = tenant \<and> om_home m = pr_tenant p \<and> om_user m = pr_user p) (owner_memberships d) \<and>
            tenant_active tenant d \<and> active_user tenant (pr_user p) d)) (\<lambda>membership.
         andthen (raise_if (\<not> membership) HumanAuthorizationError ''network is not available to this identity'')
         (ret (p\<lparr>pr_tenant := tenant, pr_role := Admin\<rparr>))))))"

definition require_admin_in :: "principal \<Rightarrow> datetime \<Rightarrow> unit prog" where
  "require_admin_in p now = require_current_capability p Manage now"

definition admin_session :: "principal \<Rightarrow> db \<Rightarrow> string option" where
  "admin_session p d = (case List.find (\<lambda>s. se_id s = pr_session p \<and> se_user s = pr_user p \<and> se_revoked s = None) (sessions d) of
     None \<Rightarrow> None
   | Some s \<Rightarrow>
       if active_user (se_tenant s) (se_user s) d \<and> active_user (pr_tenant p) (se_user s) d \<and> tenant_active (pr_tenant p) d
       then Some (se_tenant s) else None)"

definition require_admin :: "principal \<Rightarrow> unit prog" where
  "require_admin p = andthen (require_capability p (pr_tenant p) Manage)
     (bind (query (admin_session p)) (\<lambda>active.
      case active of
        None \<Rightarrow> raise HumanAuthorizationError ''network administrator authority is inactive''
      | Some home \<Rightarrow>
          if home = pr_tenant p then ret ()
          else bind (query (owner_at (p\<lparr>pr_tenant := home\<rparr>))) (\<lambda>owner.
            raise_if (\<not> owner) HumanAuthorizationError ''platform owner authority is inactive'')))"

section \<open>Listing and creating networks\<close>

record network_view =
  nv_tenant :: tenant_row
  nv_domain :: "string option"
  nv_revision :: int
  nv_route :: bool
  nv_owner_home :: bool
  nv_devices :: nat
  nv_people :: nat
  nv_resets :: nat

definition route_enabled :: "string \<Rightarrow> db \<Rightarrow> bool" where
  "route_enabled tenant d = (case List.find (\<lambda>r. rt_tenant r = tenant) (network_routes d) of None \<Rightarrow> False | Some r \<Rightarrow> rt_enabled r)"

definition network_view_of :: "db \<Rightarrow> tenant_row \<Rightarrow> network_view" where
  "network_view_of d t = \<lparr>nv_tenant = t, nv_domain = domain_of (t_id t) d, nv_revision = revision_of (t_id t) d,
     nv_route = route_enabled (t_id t) d, nv_owner_home = row_exists (\<lambda>o'. po_home o' = t_id t) (platform_owners d),
     nv_devices = row_count (\<lambda>v. dv_tenant v = t_id t \<and> dv_status v = DeviceActive) (devices d),
     nv_people = row_count (\<lambda>a. ea_tenant a = t_id t \<and> ea_status a = AccountActive) (endpoint_accounts d),
     nv_resets = row_count (\<lambda>r. pw_tenant r = t_id t \<and> pw_resolved r = None) (password_resets d)\<rparr>"

definition list_networks :: "principal \<Rightarrow> network_view list prog" where
  "list_networks p = query (\<lambda>d. take 200 (map (network_view_of d)
     (order_by (\<lambda>t. (t_created t, t_id t)) (filter (\<lambda>t. owner_at p d \<or> t_id t = pr_tenant p) (tenants d)))))"

record new_network =
  nw_tenant :: string
  nw_slug :: string
  nw_name :: string
  nw_domain :: string

definition create_network_transaction :: "env \<Rightarrow> principal \<Rightarrow> string \<Rightarrow> string \<Rightarrow> string \<Rightarrow> string \<Rightarrow> datetime \<Rightarrow> new_network prog" where
  "create_network_transaction E p slug name domain tenant now =
     andthen (require_admin_in p now)
     (bind (query (owner_at p)) (\<lambda>owner.
      andthen (raise_if (\<not> owner) HumanAuthorizationError ''only the platform owner can create networks'')
      (bind (query (\<lambda>d. length (tenants d))) (\<lambda>count.
       andthen (raise_if (200 \<le> count) NetworkError ''This appliance has reached its 200-network safety limit.'')
       (bind (utc_text now) (\<lambda>t.
        andthen (on_integrity_error
          (andthen (insert_tenant \<lparr>t_id = tenant, t_slug = slug, t_name = name, t_status = TenantActive, t_created = t\<rparr>)
            (insert_namespace \<lparr>nm_tenant = tenant, nm_domain = domain, nm_created = t\<rparr>))
          NetworkError ''That network name is already in use.'')
        (andthen (insert_user \<lparr>us_tenant = tenant, us_id = pr_user p, us_email = pr_email p, us_name = pr_name p, us_role = Admin,
            us_status = UserActive, us_created = t\<rparr>)
        (andthen (insert_membership \<lparr>om_tenant = tenant, om_user = pr_user p, om_home = pr_tenant p\<rparr>)
        (andthen (audit_append E tenant ''network.created'' ''platform_owner'' (pr_user p) ''network'' tenant
            (JObj [(''login_domain'', JStr domain)]) now)
        (andthen (audit_append E (pr_tenant p) ''network.created'' ''platform_owner'' (pr_user p) ''network'' tenant (JObj []) now)
        (ret \<lparr>nw_tenant = tenant, nw_slug = slug, nw_name = name, nw_domain = domain\<rparr>)))))))))))"

definition create_network :: "env \<Rightarrow> string option \<Rightarrow> principal \<Rightarrow> string \<Rightarrow> string \<Rightarrow> datetime \<Rightarrow> new_network prog" where
  "create_network E base p slug display_name now =
     andthen (raise_if (\<not> network_slug_ok slug) NetworkError ''Choose a 3-48 character network name using letters and hyphens.'')
     (let name = strip display_name in
      andthen (raise_if (\<not> display_name_ok name) NetworkError ''Enter a network display name of 1-120 characters.'')
      (case base of
         None \<Rightarrow> raise NetworkError ''Configure CONTROLFORGE_NETWORK_BASE_DOMAIN on the appliance first.''
       | Some suffix \<Rightarrow>
           bind (normalize_domain (slug @ ''.'' @ suffix)) (\<lambda>domain.
           bind fresh (\<lambda>tenant.
           atomically (create_network_transaction E p slug name domain tenant now)))))"

section \<open>Designating the platform owner\<close>

record owner_status =
  os_owner :: "(string \<times> string) option"
  os_candidates :: "(user_row \<times> string) list"

definition has_passkey :: "string \<Rightarrow> string \<Rightarrow> db \<Rightarrow> bool" where
  "has_passkey tenant user d = row_exists (\<lambda>k. pk_tenant k = tenant \<and> pk_user k = user \<and> pk_revoked k = None) (passkeys d)"

definition owner_candidate :: "user_row \<Rightarrow> db \<Rightarrow> bool" where
  "owner_candidate u d \<longleftrightarrow> us_status u = UserActive \<and> us_role u = Admin \<and> tenant_active (us_tenant u) d \<and> has_passkey (us_tenant u) (us_id u) d"

definition slug_of :: "string \<Rightarrow> db \<Rightarrow> string" where
  "slug_of tenant d = (case List.find (\<lambda>t. t_id t = tenant) (tenants d) of None \<Rightarrow> [] | Some t \<Rightarrow> t_slug t)"

definition owner_setup_status :: "unit prog \<Rightarrow> owner_status prog" where
  "owner_setup_status preflight = andthen preflight (query (\<lambda>d.
     \<lparr>os_owner = (case platform_owners d of [] \<Rightarrow> None | o' # _ \<Rightarrow> Some (po_home o', po_user o')),
       os_candidates = take 200 (map (\<lambda>u. (u, slug_of (us_tenant u) d))
         (order_by (\<lambda>u. (slug_of (us_tenant u) d, us_email u))
           (filter (\<lambda>u. owner_candidate u d \<and> \<not> owner_projection (us_tenant u) (us_id u) d) (users d))))\<rparr>))"

definition owner_confirmation :: string where
  "owner_confirmation = ''DESIGNATE-PLATFORM-OWNER''"

datatype designation = Already_Designated | Designated nat

definition project_owner :: "env \<Rightarrow> string \<Rightarrow> string \<Rightarrow> user_row \<Rightarrow> string \<Rightarrow> instant \<Rightarrow> string \<Rightarrow> unit prog" where
  "project_owner E tenant user candidate operator t target =
     bind (query (\<lambda>d. row_exists (\<lambda>u. us_tenant u = target \<and> (us_id u = user \<or> us_email u = us_email candidate)) (users d))) (\<lambda>conflict.
     andthen (raise_if conflict OwnerSetupError ''an existing network identity conflicts; no identities were merged'')
     (andthen (insert_user \<lparr>us_tenant = target, us_id = user, us_email = us_email candidate, us_name = us_name candidate, us_role = Admin,
         us_status = UserActive, us_created = t\<rparr>)
     (andthen (insert_membership \<lparr>om_tenant = target, om_user = user, om_home = tenant\<rparr>)
     (andthen (audit_append E target ''platform_owner.membership_created'' ''local_operator'' operator ''user'' user
         (JObj [(''home_tenant_id'', JStr tenant)]) (Aware t)) (ret ())))))"

definition designate_transaction :: "env \<Rightarrow> string \<Rightarrow> string \<Rightarrow> string \<Rightarrow> instant \<Rightarrow> string list \<Rightarrow> designation prog" where
  "designate_transaction E tenant user operator t targets =
     bind (query platform_owners) (\<lambda>previous.
     case previous of
       o' # _ \<Rightarrow>
         if po_home o' = tenant \<and> po_user o' = user then ret Already_Designated
         else raise OwnerSetupError ''an owner is already designated; this is not an owner-transfer command''
     | [] \<Rightarrow>
         bind (query (\<lambda>d. owner_memberships d \<noteq> [])) (\<lambda>memberships.
         andthen (raise_if memberships OwnerSetupError ''existing owner membership data needs explicit recovery'')
         (bind (query (user_of tenant user)) (\<lambda>row.
          bind (query (\<lambda>d. case row of None \<Rightarrow> False | Some u \<Rightarrow> owner_candidate u d)) (\<lambda>usable.
          case row of
            None \<Rightarrow> raise OwnerSetupError ''select an active administrator with an active passkey''
          | Some candidate \<Rightarrow>
              andthen (raise_if (\<not> usable) OwnerSetupError ''select an active administrator with an active passkey'')
              (andthen (for_each (project_owner E tenant user candidate operator t) (filter (\<lambda>x. x \<noteq> tenant) targets))
              (andthen (insert_owner \<lparr>po_home = tenant, po_user = user, po_created = t\<rparr>)
              (andthen (update_rows sessions sessions_update no_trigger
                 (\<lambda>s. se_tenant s = tenant \<and> se_user s = user \<and> se_revoked s = None) (\<lambda>s. s\<lparr>se_revoked := Some t\<rparr>))
              (andthen (update_rows auth_challenges auth_challenges_update no_trigger
                 (\<lambda>c. ac_tenant c = Some tenant \<and> ac_user c = Some user \<and> ac_consumed c = None) (\<lambda>c. c\<lparr>ac_consumed := Some t\<rparr>))
              (andthen (audit_append E tenant ''platform_owner.designated'' ''local_operator'' operator ''user'' user
                 (JObj [(''networks'', JInt (int (length targets)))]) (Aware t))
              (ret (Designated (length targets)))))))))))))"

definition designate_locked :: "env \<Rightarrow> string \<Rightarrow> string \<Rightarrow> string \<Rightarrow> instant \<Rightarrow> designation prog" where
  "designate_locked E tenant user operator t =
     bind (query (\<lambda>d. take 201 (map t_id (tenants d)))) (\<lambda>targets.
     andthen (raise_if (200 < length targets) OwnerSetupError ''owner setup supports at most 200 networks'')
     (andthen (for_each (\<lambda>target. bind (audit_verify E target) (\<lambda>v.
         raise_if (\<not> vf_valid v) OwnerSetupError ''verify the appliance audit key and chain before owner setup'')) targets)
     (atomically (designate_transaction E tenant user operator t targets))))"

definition designate :: "env \<Rightarrow> unit prog \<Rightarrow> string \<Rightarrow> string \<Rightarrow> string \<Rightarrow> string \<Rightarrow> datetime \<Rightarrow> designation prog" where
  "designate E preflight operator tenant user confirmation now =
     (case now of
        Naive _ \<Rightarrow> raise OwnerSetupError (''owner designation requires --confirm '' @ owner_confirmation)
      | Aware t \<Rightarrow>
          andthen (raise_if (confirmation \<noteq> owner_confirmation) OwnerSetupError
            (''owner designation requires --confirm '' @ owner_confirmation))
          (andthen preflight (designate_locked E tenant user operator t)))"

section \<open>A membership of the owner is never a login identity\<close>

definition no_login :: "string \<Rightarrow> string \<Rightarrow> db \<Rightarrow> bool" where
  "no_login tenant user d \<longleftrightarrow> (\<forall>k \<in> set (passkeys d). \<not> (pk_tenant k = tenant \<and> pk_user k = user)) \<and>
     (\<forall>r \<in> set (recovery_codes d). \<not> (rc_tenant r = tenant \<and> rc_user r = user)) \<and>
     (\<forall>s \<in> set (sessions d). \<not> (se_tenant s = tenant \<and> se_user s = user))"

definition login_fks :: "db \<Rightarrow> bool" where
  "login_fks d \<longleftrightarrow> (\<forall>k \<in> set (passkeys d). user_exists (pk_tenant k) (pk_user k) d) \<and>
     (\<forall>r \<in> set (recovery_codes d). user_exists (rc_tenant r) (rc_user r) d) \<and>
     (\<forall>s \<in> set (sessions d). user_exists (se_tenant s) (se_user s) d)"

definition projections_ok :: "db \<Rightarrow> bool" where
  "projections_ok d \<longleftrightarrow> login_fks d \<and> (\<forall>m \<in> set (owner_memberships d).
     user_exists (om_tenant m) (om_user m) d \<and> no_login (om_tenant m) (om_user m) d)"

definition owned_memberships :: "db \<Rightarrow> bool" where
  "owned_memberships d \<longleftrightarrow> length (platform_owners d) \<le> 1 \<and> (\<forall>m \<in> set (owner_memberships d).
     om_tenant m \<noteq> om_home m \<and> (\<exists>o' \<in> set (platform_owners d). po_home o' = om_home m \<and> po_user o' = om_user m))"

definition owner_inv :: "db \<Rightarrow> bool" where
  "owner_inv d \<longleftrightarrow> projections_ok d \<and> owned_memberships d"

lemmas owner_inv_defs = owner_inv_def projections_ok_def owned_memberships_def login_fks_def no_login_def

lemma owner_inv_audit [simp]:
  "projections_ok (with_audit l n c d) = projections_ok d" "owned_memberships (with_audit l n c d) = owned_memberships d"
  "owner_inv (with_audit l n c d) = owner_inv d"
  by (simp_all add: owner_inv_defs user_exists_def)

lemma keeps_owner_audit [keeps_rules]:
  "keeps projections_ok (audit_append E tenant action actor_type actor_id resource_type resource_id payload now)"
  "keeps owned_memberships (audit_append E tenant action actor_type actor_id resource_type resource_id payload now)"
  "keeps owner_inv (audit_append E tenant action actor_type actor_id resource_type resource_id payload now)"
  by (rule auditing.keeps_append; simp)+

lemmas commits_owner_audit = keeps_owner_audit [THEN keeps_commits]

lemma user_exists_more: "user_exists t u (d\<lparr>users := users d @ [x]\<rparr>) \<longleftrightarrow> user_exists t u d \<or> us_tenant x = t \<and> us_id x = u"
  by (auto simp: user_exists_def row_exists_iff)

lemma user_exists_frame [simp]:
  "user_exists t u (d\<lparr>tenants := a\<rparr>) = user_exists t u d" "user_exists t u (d\<lparr>sessions := b\<rparr>) = user_exists t u d"
  "user_exists t u (d\<lparr>passkeys := c\<rparr>) = user_exists t u d" "user_exists t u (d\<lparr>recovery_codes := e\<rparr>) = user_exists t u d"
  "user_exists t u (d\<lparr>platform_owners := f\<rparr>) = user_exists t u d" "user_exists t u (d\<lparr>owner_memberships := g\<rparr>) = user_exists t u d"
  "user_exists t u (d\<lparr>auth_challenges := h\<rparr>) = user_exists t u d" "user_exists t u (d\<lparr>human_invites := i\<rparr>) = user_exists t u d"
  "user_exists t u (d\<lparr>bootstrap_tokens := j\<rparr>) = user_exists t u d" "user_exists t u (d\<lparr>invite_challenges := k\<rparr>) = user_exists t u d"
  "user_exists t u (d\<lparr>namespaces := l\<rparr>) = user_exists t u d"
  by (simp_all add: user_exists_def)

lemma keeps_owner_inserts:
  "keeps owner_inv (insert_tenant r1)" "keeps owner_inv (insert_user r2)" "keeps owner_inv (insert_recovery_code r4)"
  "keeps owner_inv (insert_owner r5)" "keeps owner_inv (insert_challenge r6)" "keeps owner_inv (insert_invite r7)"
  "keeps owner_inv (insert_passkey tenant user credential public_key sign_count label now)"
  "keeps owner_inv (grant_recovery_codes F tenant user codes now)"
  unfolding identity_insert_defs
  by (intro keeps_rules; (auto simp: owner_inv_defs user_exists_more owner_projection_def row_exists_iff; fail)?)+

lemma user_of_exists: "user_of tenant user d = Some u \<Longrightarrow> user_exists tenant user d"
  by (auto simp: user_exists_def row_exists_iff dest: user_of_SomeD)

lemma owner_inv_session:
  "owner_inv d \<Longrightarrow> user_exists (se_tenant s) (se_user s) d \<Longrightarrow> \<not> owner_projection (se_tenant s) (se_user s) d \<Longrightarrow>
     owner_inv (d\<lparr>sessions := sessions d @ [s]\<rparr>)"
  by (auto simp: owner_inv_defs owner_projection_def row_exists_iff)

lemma keeps_owner_issue_session: "keeps owner_inv (issue_session F tenant user now)"
proof (rule wp_keepsI)
  fix w :: world assume inv: "owner_inv (tables w)"
  show "wp (issue_session F tenant user now) (\<lambda>_ w'. owner_inv (tables w')) (\<lambda>_ w'. owner_inv (tables w')) w"
    by (rule wp_mono [OF issue_session_wp])
      (use inv in \<open>auto intro!: owner_inv_session user_of_exists\<close>)
qed

lemma keeps_owner_steps:
  "keeps owner_inv (create_challenge F purpose t u cx now)"
  "keeps owner_inv (load_challenge F cid purpose now)"
  "keeps owner_inv (consume_challenge c now)"
  "keeps owner_inv bootstrap_status"
  "keeps owner_inv (require_bootstrap_token h now)"
  unfolding create_challenge_def load_challenge_def consume_challenge_def bootstrap_status_def require_bootstrap_token_def Let_def
  by (intro keeps_rules keeps_owner_inserts keeps_identity_texts; simp add: owner_inv_defs)+

lemmas owner_keeps = keeps_owner_inserts keeps_owner_issue_session keeps_identity_texts keeps_owner_steps

lemmas owner_commits = owner_keeps [THEN keeps_commits]

lemma keeps_owner_sessions:
  "keeps owner_inv (authenticate_session F token now)"
  "keeps owner_inv (session_csrf F p now)"
  "keeps owner_inv (revoke_session p now)"
  "keeps owner_inv (issue_bootstrap_token F now ttl)"
  "keeps owner_inv (begin_bootstrap F A token slug tname email dname now)"
  "keeps owner_inv (begin_authentication F A slug email now)"
  "keeps owner_inv (begin_passkey_registration F A p now)"
  "keeps owner_inv (begin_human_invite F A token now)"
  unfolding authenticate_session_def session_csrf_def revoke_session_def issue_bootstrap_token_def
    begin_bootstrap_def begin_authentication_def begin_passkey_registration_def begin_human_invite_def Let_def
  by (intro keeps_rules owner_keeps; (auto simp: owner_inv_defs set_update_where; fail)?)+

lemma keeps_owner_ceremonies:
  "keeps owner_inv (complete_bootstrap F A token cid response now)"
  "keeps owner_inv (complete_authentication F A cid response now)"
  "keeps owner_inv (complete_passkey_registration F A p cid response label now)"
  "keeps owner_inv (complete_human_invite E A token cid response now)"
  "keeps owner_inv (issue_human_invite E p email dname role now ttl)"
  "keeps owner_inv (recover_session F slug email rcode now)"
  unfolding complete_bootstrap_def bootstrap_transaction_def complete_authentication_def complete_passkey_registration_def
    complete_human_invite_def issue_human_invite_def recover_session_def Let_def
  by (intro keeps_rules commits_rules owner_keeps owner_commits commits_owner_audit;
      (auto simp: owner_inv_defs set_update_where; fail)?)+

lemma owner_inv_projected:
  assumes d: "projections_ok d" and new: "\<not> user_exists (us_tenant u) (us_id u) d"
    and m: "om_tenant m = us_tenant u" "om_user m = us_id u"
    and d': "users d' = users d @ [u]" "owner_memberships d' = owner_memberships d @ [m]" "passkeys d' = passkeys d"
      "recovery_codes d' = recovery_codes d" "sessions d' = sessions d"
  shows "projections_ok d'"
proof -
  have ex: "user_exists t x d' \<longleftrightarrow> user_exists t x d \<or> us_tenant u = t \<and> us_id u = x" for t x
    by (auto simp: user_exists_def row_exists_iff d')
  from d new have "no_login (us_tenant u) (us_id u) d"
    by (auto simp: projections_ok_def login_fks_def no_login_def)
  with d show ?thesis
    by (auto simp: projections_ok_def login_fks_def no_login_def ex d' m)
qed

lemma wp_owner_audit:
  "J (tables w) \<Longrightarrow> commits J (audit_append E tenant action actor_type actor_id resource_type resource_id payload now) \<Longrightarrow>
     (\<And>x v. J (tables v) \<Longrightarrow> Q x v) \<Longrightarrow>
     wp (audit_append E tenant action actor_type actor_id resource_type resource_id payload now) Q (\<lambda>_ _. True) w"
  by (rule wp_mono [OF commitsD])

lemma commits_owner_create: "commits owner_inv (create_network_transaction E p slug name domain tenant now)"
proof (rule commitsI)
  fix w :: world assume inv: "owner_inv (tables w)"
  show "wp (create_network_transaction E p slug name domain tenant now) (\<lambda>_ w'. owner_inv (tables w')) (\<lambda>_ _. True) w"
  proof (cases now)
    case (Aware t)
    let ?u = "\<lparr>us_tenant = tenant, us_id = pr_user p, us_email = pr_email p, us_name = pr_name p, us_role = Admin,
      us_status = UserActive, us_created = t\<rparr>"
    have grown: "owner_inv d'"
      if owner: "owner_at p d" and fresh_tenant: "\<not> row_exists (\<lambda>x. t_id x = tenant \<or> t_slug x = slug) (tenants d)"
        and new: "\<not> row_exists (\<lambda>x. us_tenant x = tenant \<and> (us_id x = pr_user p \<or> us_email x = pr_email p)) (users d)" and d: "owner_inv d" and owners: "platform_owners d' = platform_owners d"
        and d': "users d' = users d @ [?u]"
          "owner_memberships d' = owner_memberships d @ [\<lparr>om_tenant = tenant, om_user = pr_user p, om_home = pr_tenant p\<rparr>]"
          "passkeys d' = passkeys d" "recovery_codes d' = recovery_codes d" "sessions d' = sessions d" for d d'
    proof -
      have "projections_ok d'"
        by (rule owner_inv_projected [of d ?u]) (use d new d' in \<open>auto simp: owner_inv_def user_exists_def row_exists_iff\<close>)
      moreover have "tenant \<noteq> pr_tenant p"
        using owner fresh_tenant by (auto simp: owner_at_def tenant_active_def row_exists_iff)
      ultimately show ?thesis
        using d owner by (auto simp: owner_inv_def owned_memberships_def owners d' owner_at_def row_exists_iff)
    qed
    show ?thesis
      unfolding create_network_transaction_def require_admin_in_def insert_tenant_def insert_namespace_def insert_user_def insert_membership_def
      by (subst wp_andthen, rule wp_require_current)
        (auto simp: wp_rules Aware intro!: wp_owner_audit [OF _ commits_owner_audit(3)] intro: grown [OF _ _ _ inv])
  qed (simp add: create_network_transaction_def require_admin_in_def require_current_capability_def wp_rules)
qed

text \<open>What holds while the designation projects the owner into the other networks.\<close>

definition designating :: "string \<Rightarrow> string \<Rightarrow> db \<Rightarrow> bool" where
  "designating tenant user d \<longleftrightarrow> projections_ok d \<and> platform_owners d = [] \<and>
     (\<forall>m \<in> set (owner_memberships d). om_home m = tenant \<and> om_user m = user \<and> om_tenant m \<noteq> tenant)"

lemma commits_designating_audit:
  "commits (designating tenant user) (audit_append E t action actor_type actor_id resource_type resource_id payload now)"
  by (rule keeps_commits, rule auditing.keeps_append) (simp add: designating_def)

lemma commits_project_owner:
  assumes "target \<noteq> tenant"
  shows "commits (designating tenant user) (project_owner E tenant user candidate operator t target)"
proof (rule commitsI)
  fix w :: world assume inv: "designating tenant user (tables w)"
  let ?u = "\<lparr>us_tenant = target, us_id = user, us_email = us_email candidate, us_name = us_name candidate, us_role = Admin,
    us_status = UserActive, us_created = t\<rparr>"
  let ?m = "\<lparr>om_tenant = target, om_user = user, om_home = tenant\<rparr>"
  have grown: "designating tenant user d'"
    if "\<not> row_exists (\<lambda>x. us_tenant x = target \<and> (us_id x = user \<or> us_email x = us_email candidate)) (users (tables w))"
      and d': "users d' = users (tables w) @ [?u]" "owner_memberships d' = owner_memberships (tables w) @ [?m]"
      "passkeys d' = passkeys (tables w)" "recovery_codes d' = recovery_codes (tables w)" "sessions d' = sessions (tables w)"
      "platform_owners d' = platform_owners (tables w)" for d'
  proof -
    have "projections_ok d'"
      by (rule owner_inv_projected [of "tables w" ?u ?m]) (use that inv in \<open>auto simp: designating_def user_exists_def row_exists_iff\<close>)
    then show ?thesis using inv assms by (auto simp: designating_def d')
  qed
  show "wp (project_owner E tenant user candidate operator t target) (\<lambda>_ w'. designating tenant user (tables w')) (\<lambda>_ _. True) w"
    unfolding project_owner_def insert_user_def insert_membership_def
    by (auto simp: wp_rules intro!: wp_owner_audit [OF _ commits_designating_audit] intro: grown)
qed

lemma projections_ok_frame:
  assumes d: "projections_ok d" and s: "\<And>s. s \<in> set (sessions d') \<Longrightarrow> \<exists>r \<in> set (sessions d). se_tenant r = se_tenant s \<and> se_user r = se_user s"
    and d': "users d' = users d" "owner_memberships d' = owner_memberships d" "passkeys d' = passkeys d" "recovery_codes d' = recovery_codes d"
  shows "projections_ok d'"
proof -
  have ex: "user_exists t u d' = user_exists t u d" for t u by (simp add: user_exists_def d')
  have "user_exists (se_tenant x) (se_user x) d'" if "x \<in> set (sessions d')" for x
    using d s [OF that] by (auto simp: projections_ok_def login_fks_def ex)
  moreover have "no_login t u d'" if "no_login t u d" for t u
    using that s by (fastforce simp: no_login_def d')
  ultimately show ?thesis
    using d by (auto simp: projections_ok_def login_fks_def ex d')
qed

lemma designating_done:
  assumes "designating tenant user (tables w)"
  shows "wp (andthen (insert_owner \<lparr>po_home = tenant, po_user = user, po_created = t\<rparr>)
      (andthen (update_rows sessions sessions_update no_trigger P (\<lambda>s. s\<lparr>se_revoked := Some t\<rparr>))
      (andthen (update_rows auth_challenges auth_challenges_update no_trigger R (\<lambda>c. c\<lparr>ac_consumed := Some t\<rparr>))
      (andthen (audit_append E tenant action actor_type actor_id resource_type resource_id payload now) (ret x)))))
    (\<lambda>_ w'. owner_inv (tables w')) (\<lambda>_ _. True) w"
proof -
  have "owner_inv d'" if "platform_owners d' = [\<lparr>po_home = tenant, po_user = user, po_created = t\<rparr>]"
      "sessions d' = update_where P (\<lambda>s. s\<lparr>se_revoked := Some t\<rparr>) (sessions (tables w))" "users d' = users (tables w)"
      "owner_memberships d' = owner_memberships (tables w)" "passkeys d' = passkeys (tables w)" "recovery_codes d' = recovery_codes (tables w)" for d'
  proof -
    have "projections_ok d'"
      by (rule projections_ok_frame [of "tables w"]) (use assms that in \<open>auto simp: designating_def set_update_where split: if_splits\<close>)
    with assms that show ?thesis by (auto simp: designating_def owner_inv_def owned_memberships_def)
  qed
  then show ?thesis
    unfolding insert_owner_def by (auto simp: wp_rules intro!: wp_owner_audit [OF _ commits_owner_audit(3)])
qed

lemma commits_designate: "commits owner_inv (designate_transaction E tenant user operator t targets)"
proof (rule commitsI)
  fix w :: world assume inv: "owner_inv (tables w)"
  have "wp (for_each (project_owner E tenant user u operator t) (filter (\<lambda>x. x \<noteq> tenant) targets))
      (\<lambda>_ w'. designating tenant user (tables w')) (\<lambda>_ _. True) w"
    if "platform_owners (tables w) = []" "owner_memberships (tables w) = []" for u
    by (intro commitsD commits_for_each commits_project_owner) (use that inv in \<open>auto simp: designating_def owner_inv_def\<close>)
  then have step: "wp (for_each (project_owner E tenant user u operator t) (filter (\<lambda>x. x \<noteq> tenant) targets)) Q (\<lambda>_ _. True) w"
    if "platform_owners (tables w) = []" "owner_memberships (tables w) = []"
      "\<And>v. designating tenant user (tables v) \<Longrightarrow> Q () v" for u Q
    by (rule wp_mono) (use that in auto)
  show "wp (designate_transaction E tenant user operator t targets) (\<lambda>_ w'. owner_inv (tables w')) (\<lambda>_ _. True) w"
    unfolding designate_transaction_def
    by (auto simp: wp_bind wp_query wp_raise wp_raise_if wp_ret wp_if wp_andthen [of "raise_if b c m" for b c m]
        wp_andthen [of "for_each f xs" for f xs] inv intro!: step designating_done split: list.split option.split)
qed

datatype identity_call =
    IssueBootstrap int
  | BeginBootstrap passkey_adapter string string string string string
  | FinishBootstrap passkey_adapter string string json
  | BeginSignIn passkey_adapter string string
  | FinishSignIn passkey_adapter string json
  | BeginPasskey passkey_adapter principal
  | FinishPasskey passkey_adapter principal string json string
  | SendInvite principal string string role int
  | BeginInvite passkey_adapter string
  | FinishInvite passkey_adapter string string json
  | Recover string string string
  | Authenticate string
  | RefreshCsrf principal
  | SignOut principal
  | CreateNetwork "string option" principal string string
  | DesignateOwner string string string string

definition run_identity :: "env \<Rightarrow> identity_call \<Rightarrow> datetime \<Rightarrow> unit prog" where
  "run_identity E call now = (case call of
     IssueBootstrap ttl \<Rightarrow> andthen (issue_bootstrap_token E now ttl) (ret ())
   | BeginBootstrap A token slug tname email dname \<Rightarrow> andthen (begin_bootstrap E A token slug tname email dname now) (ret ())
   | FinishBootstrap A token cid response \<Rightarrow> andthen (complete_bootstrap E A token cid response now) (ret ())
   | BeginSignIn A slug email \<Rightarrow> andthen (begin_authentication E A slug email now) (ret ())
   | FinishSignIn A cid response \<Rightarrow> andthen (complete_authentication E A cid response now) (ret ())
   | BeginPasskey A p \<Rightarrow> andthen (begin_passkey_registration E A p now) (ret ())
   | FinishPasskey A p cid response label \<Rightarrow> andthen (complete_passkey_registration E A p cid response label now) (ret ())
   | SendInvite p email dname r ttl \<Rightarrow> andthen (issue_human_invite E p email dname r now ttl) (ret ())
   | BeginInvite A token \<Rightarrow> andthen (begin_human_invite E A token now) (ret ())
   | FinishInvite A token cid response \<Rightarrow> andthen (complete_human_invite E A token cid response now) (ret ())
   | Recover slug email rcode \<Rightarrow> andthen (recover_session E slug email rcode now) (ret ())
   | Authenticate token \<Rightarrow> andthen (authenticate_session E token now) (ret ())
   | RefreshCsrf p \<Rightarrow> andthen (session_csrf E p now) (ret ())
   | SignOut p \<Rightarrow> andthen (revoke_session p now) (ret ())
   | CreateNetwork base p slug name \<Rightarrow> andthen (create_network E base p slug name now) (ret ())
   | DesignateOwner operator tenant user confirmation \<Rightarrow> andthen (designate E (ret ()) operator tenant user confirmation now) (ret ()))"

fun run_identities :: "env \<Rightarrow> (identity_call \<times> datetime) list \<Rightarrow> world \<Rightarrow> world" where
  "run_identities E [] w = w"
| "run_identities E ((call, now) # calls) w = run_identities E calls (after (run_identity E call now) w)"

lemma keeps_owner_networks:
  "keeps owner_inv (create_network E base p slug name now)"
  "keeps owner_inv (designate E (ret ()) operator tenant user confirmation now)"
proof -
  have "keeps owner_inv (normalize_domain v)" for v
    unfolding normalize_domain_def Let_def by (intro keeps_rules)
  then show "keeps owner_inv (create_network E base p slug name now)"
    unfolding create_network_def Let_def by (intro keeps_rules commits_owner_create)
  have "keeps owner_inv (audit_verify E t)" for t
    unfolding audit_verify_def by (intro keeps_rules)
  then show "keeps owner_inv (designate E (ret ()) operator tenant user confirmation now)"
    unfolding designate_def designate_locked_def by (auto split: datetime.split intro!: keeps_rules commits_designate)
qed

lemma keeps_owner_run: "keeps owner_inv (run_identity E call now)"
  by (cases call) (simp_all add: run_identity_def keeps_andthen keeps_ret keeps_owner_sessions keeps_owner_ceremonies keeps_owner_networks)

lemma run_identities_owner: "owner_inv (tables w) \<Longrightarrow> owner_inv (tables (run_identities E calls w))"
proof (induction E calls w rule: run_identities.induct)
  case (2 E call now calls w)
  then show ?case using keeps_owner_run [of E call now] by (simp add: keeps_def after_def)
qed simp


definition owner_principal :: principal where
  "owner_principal = \<lparr>pr_tenant = ''t1'', pr_user = ''adm'', pr_email = ''a@x.io'', pr_name = ''adm'', pr_role = Admin,
     pr_session = ''s1'', pr_expires = 1000000000000, pr_csrf = ''c''\<rparr>"


end
