(* ===== verification/Cases.thy ===== *)
theory Cases
  imports Identity
begin

text \<open>
  Case management of \<open>standalone/cases.py\<close>: reading a case, notes, assignment, the status state
  machine and dispositions, each in one transaction with its activity record and audit entry; with the
  triggers and the index of \<open>standalone/migrations.py\<close> that guard the tables \<open>cases\<close>,
  \<open>case_activity\<close> and \<open>dispositions\<close>.
\<close>

section \<open>Statuses\<close>

fun case_status_name :: "case_status \<Rightarrow> string" where
  "case_status_name CaseOpen = ''open''"
| "case_status_name CaseInvestigating = ''investigating''"
| "case_status_name CaseContained = ''contained''"
| "case_status_name CaseClosed = ''closed''"

definition case_status_of :: "string \<Rightarrow> case_status option" where
  "case_status_of s = List.find (\<lambda>x. case_status_name x = s) [CaseOpen, CaseInvestigating, CaseContained, CaseClosed]"

fun case_transitions :: "case_status \<Rightarrow> case_status set" where
  "case_transitions CaseOpen = {CaseInvestigating, CaseClosed}"
| "case_transitions CaseInvestigating = {CaseContained, CaseClosed}"
| "case_transitions CaseContained = {CaseInvestigating, CaseClosed}"
| "case_transitions CaseClosed = {CaseOpen}"

fun disposition_name :: "disposition_status \<Rightarrow> string" where
  "disposition_name TruePositive = ''true_positive''"
| "disposition_name FalsePositive = ''false_positive''"
| "disposition_name Benign = ''benign''"
| "disposition_name Inconclusive = ''inconclusive''"

definition disposition_of :: "string \<Rightarrow> disposition_status option" where
  "disposition_of s =
     List.find (\<lambda>x. disposition_name x = s) [TruePositive, FalsePositive, Benign, Inconclusive]"

section \<open>Constraints and triggers\<close>

definition case_at :: "string \<Rightarrow> string \<Rightarrow> db \<Rightarrow> case_row option" where
  "case_at tenant cid d = List.find (\<lambda>c. cs_tenant c = tenant \<and> cs_id c = cid) (cases d)"

definition case_exists :: "string \<Rightarrow> string \<Rightarrow> db \<Rightarrow> bool" where
  "case_exists tenant cid d = row_exists (\<lambda>c. cs_tenant c = tenant \<and> cs_id c = cid) (cases d)"

definition cases_status_transition_guard :: "db \<Rightarrow> case_row \<Rightarrow> case_row \<Rightarrow> bool" where
  "cases_status_transition_guard d old new \<longleftrightarrow> cs_status new \<notin> case_transitions (cs_status old)"

definition cases_status_version_guard :: "db \<Rightarrow> case_row \<Rightarrow> case_row \<Rightarrow> bool" where
  "cases_status_version_guard d old new \<longleftrightarrow> cs_version new \<noteq> cs_version old + 1"

definition cases_close_requires_disposition :: "db \<Rightarrow> case_row \<Rightarrow> case_row \<Rightarrow> bool" where
  "cases_close_requires_disposition d old new \<longleftrightarrow> cs_status new = CaseClosed \<and>
     \<not> row_exists (\<lambda>p. dp_tenant p = cs_tenant old \<and> dp_case p = cs_id old \<and> dp_cycle p = cs_cycle old) (dispositions d)"

definition idx_cases_open_semantic :: "db \<Rightarrow> case_row \<Rightarrow> case_row \<Rightarrow> bool" where
  "idx_cases_open_semantic d old new \<longleftrightarrow> cs_semantic_key new \<noteq> None \<and> cs_status new \<noteq> CaseClosed \<and>
     row_exists (\<lambda>c. cs_tenant c = cs_tenant new \<and> cs_semantic_key c = cs_semantic_key new \<and>
       cs_status c \<noteq> CaseClosed \<and> cs_id c \<noteq> cs_id old) (cases d)"

definition case_status_update_guard :: "db \<Rightarrow> case_row \<Rightarrow> case_row \<Rightarrow> bool" where
  "case_status_update_guard d old new \<longleftrightarrow> cases_status_transition_guard d old new \<or>
     cases_status_version_guard d old new \<or> cases_close_requires_disposition d old new \<or>
     idx_cases_open_semantic d old new"

definition case_assign_guard :: "db \<Rightarrow> case_row \<Rightarrow> case_row \<Rightarrow> bool" where
  "case_assign_guard d old new \<longleftrightarrow>
     (case cs_assignee new of None \<Rightarrow> False | Some u \<Rightarrow> \<not> user_exists (cs_tenant new) u d)"

definition dispositions_false_positive_reason_guard :: "disposition_row \<Rightarrow> bool" where
  "dispositions_false_positive_reason_guard p \<longleftrightarrow>
     (dp_status p = FalsePositive \<and>
        (case dp_fp_reason p of None \<Rightarrow> True | Some r \<Rightarrow> (\<forall>ch \<in> set r. ch = CHR '' ''))) \<or>
     (dp_status p \<noteq> FalsePositive \<and> dp_fp_reason p \<noteq> None)"

definition insert_activity :: "activity_row \<Rightarrow> unit prog" where
  "insert_activity a = insert_checked
     (\<lambda>d. \<not> row_exists (\<lambda>x. cv_tenant x = cv_tenant a \<and> cv_id x = cv_id a) (case_activity d) \<and>
          case_exists (cv_tenant a) (cv_case a) d)
     (\<lambda>d. d\<lparr>case_activity := case_activity d @ [a]\<rparr>)"

definition insert_disposition :: "disposition_row \<Rightarrow> unit prog" where
  "insert_disposition p = insert_checked
     (\<lambda>d. \<not> dispositions_false_positive_reason_guard p \<and> 1 \<le> dp_cycle p \<and>
          \<not> row_exists (\<lambda>x. dp_tenant x = dp_tenant p \<and> dp_id x = dp_id p) (dispositions d) \<and>
          case_exists (dp_tenant p) (dp_case p) d)
     (\<lambda>d. d\<lparr>dispositions := dispositions d @ [p]\<rparr>)"

section \<open>Reading a case\<close>

record activity_record =
  ar_id :: string
  ar_type :: string
  ar_actor :: string
  ar_body :: "(string \<times> json) list"
  ar_created :: instant

record disposition_record =
  dr_id :: string
  dr_status :: disposition_status
  dr_rationale :: string
  dr_fp_reason :: "string option"
  dr_rule_version :: string
  dr_created_by :: string
  dr_created :: instant

record case_detail =
  cd_case :: case_row
  cd_alert_ids :: "string list"
  cd_alert_count :: nat
  cd_alerts_truncated :: bool
  cd_activity :: "activity_record list"
  cd_activity_count :: nat
  cd_activity_truncated :: bool
  cd_dispositions :: "disposition_record list"
  cd_disposition_count :: nat
  cd_dispositions_truncated :: bool

definition latest :: "nat \<Rightarrow> ('r \<Rightarrow> instant \<times> string) \<Rightarrow> 'r list \<Rightarrow> 'r list" where
  "latest n key rows = order_by key (take n (order_by_desc key rows))"

definition json_object :: "string \<Rightarrow> (string \<times> json) list prog" where
  "json_object text = (case loads text of
     None \<Rightarrow> raise ValueError ''JSONDecodeError''
   | Some (JObj kvs) \<Rightarrow> ret kvs
   | Some _ \<Rightarrow> raise CaseValidationError ''stored case activity is invalid'')"

definition activity_record_of :: "activity_row \<Rightarrow> activity_record prog" where
  "activity_record_of a = bind (json_object (cv_body a)) (\<lambda>body.
     ret \<lparr>ar_id = cv_id a, ar_type = cv_type a, ar_actor = cv_actor a, ar_body = body, ar_created = cv_created a\<rparr>)"

definition disposition_record_of :: "disposition_row \<Rightarrow> disposition_record" where
  "disposition_record_of p = \<lparr>dr_id = dp_id p, dr_status = dp_status p, dr_rationale = dp_rationale p,
     dr_fp_reason = dp_fp_reason p, dr_rule_version = dp_rule_version p, dr_created_by = dp_created_by p,
     dr_created = dp_created p\<rparr>"

definition get_case :: "principal \<Rightarrow> string \<Rightarrow> case_detail prog" where
  "get_case p cid =
     andthen (require_capability p (pr_tenant p) View)
     (bind (query (case_at (pr_tenant p) cid)) (\<lambda>row.
      case row of
        None \<Rightarrow> raise CaseNotFoundError ''case is unavailable''
      | Some c \<Rightarrow>
          bind (query (\<lambda>d. filter (\<lambda>a. ca_tenant a = pr_tenant p \<and> ca_case a = cid) (case_alerts d))) (\<lambda>linked.
          bind (query (\<lambda>d. filter (\<lambda>a. cv_tenant a = pr_tenant p \<and> cv_case a = cid) (case_activity d))) (\<lambda>activity.
          bind (query (\<lambda>d. filter (\<lambda>a. dp_tenant a = pr_tenant p \<and> dp_case a = cid) (dispositions d))) (\<lambda>disps.
          let shown_alerts = latest 200 (\<lambda>a. (ca_linked a, ca_alert a)) linked;
              shown_activity = latest 500 (\<lambda>a. (cv_created a, cv_id a)) activity;
              shown_disps = latest 200 (\<lambda>a. (dp_created a, dp_id a)) disps in
          bind (map_prog activity_record_of shown_activity) (\<lambda>records.
          ret \<lparr>cd_case = c, cd_alert_ids = map ca_alert shown_alerts, cd_alert_count = length linked,
               cd_alerts_truncated = (length shown_alerts < length linked),
               cd_activity = records, cd_activity_count = length activity,
               cd_activity_truncated = (length shown_activity < length activity),
               cd_dispositions = map disposition_record_of shown_disps, cd_disposition_count = length disps,
               cd_dispositions_truncated = (length shown_disps < length disps)\<rparr>))))))"

section \<open>Operations\<close>

definition require_case :: "string \<Rightarrow> string \<Rightarrow> case_row prog" where
  "require_case tenant cid = bind (query (case_at tenant cid)) (\<lambda>row.
     case row of None \<Rightarrow> raise CaseNotFoundError ''case is unavailable'' | Some c \<Rightarrow> ret c)"

definition touch_case :: "string \<Rightarrow> string \<Rightarrow> datetime \<Rightarrow> unit prog" where
  "touch_case tenant cid now = bind (utc_text now) (\<lambda>t.
     andthen (update_rows cases cases_update no_trigger (\<lambda>c. cs_tenant c = tenant \<and> cs_id c = cid)
       (\<lambda>c. c\<lparr>cs_updated := t, cs_version := cs_version c + 1\<rparr>)) (ret ()))"

definition case_rule_version :: "string \<Rightarrow> string \<Rightarrow> db \<Rightarrow> string" where
  "case_rule_version tenant cid d =
     (case order_by_desc (\<lambda>a. (al_created a, al_id a)) (filter (\<lambda>a. al_tenant a = tenant \<and>
        row_exists (\<lambda>l. ca_tenant l = tenant \<and> ca_case l = cid \<and> ca_alert l = al_id a) (case_alerts d)) (alerts d)) of
        [] \<Rightarrow> ''no-linked-alert'' | a # _ \<Rightarrow> al_rule_version a)"

definition add_note :: "env \<Rightarrow> principal \<Rightarrow> string \<Rightarrow> string \<Rightarrow> datetime \<Rightarrow> activity_record prog" where
  "add_note E p cid note now =
     andthen (require_capability p (pr_tenant p) Triage)
     (let normalized = strip note in
      andthen (raise_if (normalized = [] \<or> 4000 < length normalized) CaseValidationError
        ''case note must contain between 1 and 4000 characters'')
      (bind fresh (\<lambda>activity_id.
       let body = [(''note'', JStr normalized)] in
       atomically (
         andthen (require_case (pr_tenant p) cid)
         (bind (utc_text now) (\<lambda>t.
          andthen (insert_activity \<lparr>cv_tenant = pr_tenant p, cv_id = activity_id, cv_case = cid, cv_type = ''note'',
             cv_actor = pr_user p, cv_body = dumps False (JObj body), cv_created = t\<rparr>)
          (andthen (touch_case (pr_tenant p) cid now)
          (andthen (audit_append E (pr_tenant p) ''case.note_added'' ''user'' (pr_user p) ''case'' cid
             (JObj [(''activity_id'', JStr activity_id), (''note_sha256'', JStr (sha256_hex E (utf8 normalized)))]) now)
          (ret \<lparr>ar_id = activity_id, ar_type = ''note'', ar_actor = pr_user p, ar_body = body, ar_created = t\<rparr>)))))))))"

definition optional_text :: "string option \<Rightarrow> json" where
  "optional_text v = (case v of None \<Rightarrow> JNull | Some s \<Rightarrow> JStr s)"

definition normalize_assignee :: "string option \<Rightarrow> string option" where
  "normalize_assignee a = (case a of None \<Rightarrow> None | Some s \<Rightarrow> if strip s = [] then None else Some (strip s))"

definition assign_transaction ::
  "env \<Rightarrow> principal \<Rightarrow> string \<Rightarrow> string option \<Rightarrow> string \<Rightarrow> datetime \<Rightarrow> unit prog" where
  "assign_transaction E p cid target activity_id now =
     bind (require_case (pr_tenant p) cid) (\<lambda>c.
     andthen (raise_if (target = cs_assignee c) CaseValidationError ''case is already assigned to that user'')
     (bind (query (\<lambda>d. case target of None \<Rightarrow> True | Some u \<Rightarrow>
         (case user_of (pr_tenant p) u d of None \<Rightarrow> False | Some r \<Rightarrow>
            us_status r = UserActive \<and> us_role r \<in> {Analyst, Responder, Admin}))) (\<lambda>available.
     andthen (raise_if (\<not> available) CaseValidationError ''case assignee is unavailable'')
     (bind (utc_text now) (\<lambda>t.
     let body = [(''from_user_id'', optional_text (cs_assignee c)), (''to_user_id'', optional_text target)] in
     andthen (update_rows cases cases_update case_assign_guard
         (\<lambda>x. cs_tenant x = pr_tenant p \<and> cs_id x = cid)
         (\<lambda>x. x\<lparr>cs_assignee := target, cs_updated := t, cs_version := cs_version x + 1\<rparr>))
     (andthen (insert_activity \<lparr>cv_tenant = pr_tenant p, cv_id = activity_id, cv_case = cid,
         cv_type = ''assignment'', cv_actor = pr_user p, cv_body = dumps False (JObj body), cv_created = t\<rparr>)
     (andthen (audit_append E (pr_tenant p) ''case.assignment_changed'' ''user'' (pr_user p) ''case'' cid
         (JObj ((''activity_id'', JStr activity_id) # body)) now)
     (ret ()))))))))"

definition assign :: "env \<Rightarrow> principal \<Rightarrow> string \<Rightarrow> string option \<Rightarrow> datetime \<Rightarrow> case_detail prog" where
  "assign E p cid assignee now =
     andthen (require_capability p (pr_tenant p) Triage)
     (let target = normalize_assignee assignee in
      andthen (raise_if (case target of None \<Rightarrow> False | Some s \<Rightarrow> 128 < length s) CaseValidationError
        ''case assignee identifier is invalid'')
      (bind fresh (\<lambda>activity_id.
       andthen (atomically (assign_transaction E p cid target activity_id now))
       (get_case p cid))))"

definition transition_transaction ::
  "env \<Rightarrow> principal \<Rightarrow> string \<Rightarrow> case_status \<Rightarrow> string \<Rightarrow> datetime \<Rightarrow> unit prog" where
  "transition_transaction E p cid target activity_id now =
     bind (require_case (pr_tenant p) cid) (\<lambda>c.
     let current = cs_status c in
     andthen (raise_if (target \<notin> case_transitions current) CaseTransitionError
       (''case cannot transition from '' @ case_status_name current @ '' to '' @ case_status_name target))
     (bind (query (\<lambda>d. current = CaseClosed \<and> target = CaseOpen \<and> cs_semantic_key c \<noteq> None \<and>
         row_exists (\<lambda>x. cs_tenant x = pr_tenant p \<and> cs_semantic_key x = cs_semantic_key c \<and>
           cs_status x \<noteq> CaseClosed \<and> cs_id x \<noteq> cid) (cases d))) (\<lambda>successor.
     andthen (raise_if successor CaseTransitionError ''case cannot reopen while a successor case is active'')
     (bind (query (\<lambda>d. target = CaseClosed \<and> \<not> row_exists (\<lambda>x. dp_tenant x = pr_tenant p \<and> dp_case x = cid \<and>
           dp_cycle x = cs_cycle c) (dispositions d))) (\<lambda>undisposed.
     andthen (raise_if undisposed CaseTransitionError ''case cannot close without a current-cycle disposition'')
     (bind (utc_text now) (\<lambda>t.
     let cycle = cs_cycle c + (if current = CaseClosed \<and> target = CaseOpen then 1 else 0);
         body = [(''from'', JStr (case_status_name current)), (''to'', JStr (case_status_name target))] in
     andthen (update_rows cases cases_update case_status_update_guard
         (\<lambda>x. cs_tenant x = pr_tenant p \<and> cs_id x = cid)
         (\<lambda>x. x\<lparr>cs_status := target, cs_updated := t,
            cs_closed := (if target = CaseClosed then Some t else None),
            cs_cycle := cycle, cs_version := cs_version x + 1\<rparr>))
     (andthen (insert_activity \<lparr>cv_tenant = pr_tenant p, cv_id = activity_id, cv_case = cid,
         cv_type = ''state_transition'', cv_actor = pr_user p, cv_body = dumps False (JObj body), cv_created = t\<rparr>)
     (andthen (audit_append E (pr_tenant p) ''case.status_changed'' ''user'' (pr_user p) ''case'' cid
         (JObj ((''activity_id'', JStr activity_id) # body)) now)
     (ret ()))))))))))"

definition transition :: "env \<Rightarrow> principal \<Rightarrow> string \<Rightarrow> string \<Rightarrow> datetime \<Rightarrow> case_detail prog" where
  "transition E p cid target_status now =
     andthen (require_capability p (pr_tenant p) Triage)
     (case case_status_of target_status of
        None \<Rightarrow> raise CaseTransitionError ''case target status is invalid''
      | Some target \<Rightarrow>
          bind fresh (\<lambda>activity_id.
          andthen (atomically (transition_transaction E p cid target activity_id now))
          (get_case p cid)))"

definition record_disposition ::
  "env \<Rightarrow> principal \<Rightarrow> string \<Rightarrow> string \<Rightarrow> string \<Rightarrow> string option \<Rightarrow> datetime \<Rightarrow> disposition_record prog" where
  "record_disposition E p cid status_text rationale fp_reason now =
     andthen (require_capability p (pr_tenant p) Disposition)
     (case disposition_of status_text of
        None \<Rightarrow> raise CaseValidationError ''case disposition is invalid''
      | Some status \<Rightarrow>
      let why = strip rationale; reason = map_option strip fp_reason in
      andthen (raise_if (why = [] \<or> 4000 < length why) CaseValidationError
        ''disposition rationale must contain between 1 and 4000 characters'')
      (andthen (raise_if (status = FalsePositive \<and>
          (case reason of None \<Rightarrow> True | Some r \<Rightarrow> r = [] \<or> 1000 < length r)) CaseValidationError
        ''false-positive dispositions require a bounded reason'')
      (andthen (raise_if (status \<noteq> FalsePositive \<and> reason \<noteq> None) CaseValidationError
        ''false-positive reason is only valid for a false-positive disposition'')
      (bind fresh (\<lambda>disposition_id.
       bind fresh (\<lambda>activity_id.
       atomically (
         bind (require_case (pr_tenant p) cid) (\<lambda>c.
         bind (query (case_rule_version (pr_tenant p) cid)) (\<lambda>rule_version.
         bind (utc_text now) (\<lambda>t.
         let body = [(''disposition_id'', JStr disposition_id), (''status'', JStr (disposition_name status)),
               (''rationale'', JStr why), (''false_positive_reason'', optional_text reason),
               (''rule_version'', JStr rule_version), (''investigation_cycle'', JInt (cs_cycle c))];
             row = \<lparr>dp_tenant = pr_tenant p, dp_id = disposition_id, dp_case = cid, dp_status = status,
               dp_rationale = why, dp_rule_version = rule_version, dp_created_by = pr_user p, dp_created = t,
               dp_fp_reason = reason, dp_cycle = cs_cycle c\<rparr> in
         andthen (insert_disposition row)
         (andthen (insert_activity \<lparr>cv_tenant = pr_tenant p, cv_id = activity_id, cv_case = cid,
             cv_type = ''disposition'', cv_actor = pr_user p, cv_body = dumps False (JObj body), cv_created = t\<rparr>)
         (andthen (touch_case (pr_tenant p) cid now)
         (andthen (audit_append E (pr_tenant p) ''case.disposition_recorded'' ''user'' (pr_user p) ''case'' cid
             (JObj ((''activity_id'', JStr activity_id) # body)) now)
         (ret (disposition_record_of row)))))))))))))))"

definition verify_audit :: "env \<Rightarrow> principal \<Rightarrow> verification prog" where
  "verify_audit E p = andthen (require_capability p (pr_tenant p) View) (audit_verify E (pr_tenant p))"

section \<open>The audit log and the tables' invariant\<close>

lemma keeps_json_object: "keeps I (json_object t)"
  by (auto simp: json_object_def intro: keeps_rules split: option.splits json.splits)

lemma keeps_get_case: "keeps I (get_case p cid)"
  unfolding get_case_def activity_record_of_def Let_def
  by (intro keeps_rules keeps_json_object)

lemma json_ok_optional_text [simp]: "json_ok (optional_text v)"
  by (simp add: optional_text_def split: option.splits)

lemmas case_op_defs = add_note_def assign_def assign_transaction_def transition_def transition_transaction_def
  record_disposition_def

lemma keeps_audit_cases:
  "keeps (audit_inv E) (add_note E p cid note now)"
  "keeps (audit_inv E) (assign E p cid assignee now)"
  "keeps (audit_inv E) (transition E p cid target now)"
  "keeps (audit_inv E) (record_disposition E p cid st rationale reason now)"
  unfolding case_op_defs insert_activity_def insert_disposition_def touch_case_def require_case_def Let_def
  by (intro keeps_rules commits_rules keeps_get_case commits_audit_append; simp)+

section \<open>What each operation does to the tables\<close>

definition case_bodies_ok :: "db \<Rightarrow> bool" where
  "case_bodies_ok d \<longleftrightarrow> (\<forall>a \<in> set (case_activity d). \<exists>kvs. loads (cv_body a) = Some (JObj kvs))"

lemma wp_map_prog_total:
  fixes w :: world
  assumes "\<And>x. x \<in> set xs \<Longrightarrow> \<exists>y. f x = ret y"
  shows "wp (map_prog f xs) (\<lambda>_ v. v = w) (\<lambda>_ _. False) w"
  using assms
proof (induction xs)
  case (Cons x xs)
  obtain y where "f x = ret y" using Cons.prems by fastforce
  moreover have "wp (map_prog f xs) (\<lambda>ys. wp (ret (y # ys)) (\<lambda>_ v. v = w) (\<lambda>_ _. False)) (\<lambda>_ _. False) w"
    by (rule wp_mono [OF Cons.IH]) (use Cons.prems in \<open>simp_all add: wp_rules\<close>)
  ultimately show ?case by (simp add: wp_rules)
qed (simp add: wp_rules)

lemma activity_record_total:
  assumes "\<exists>kvs. loads (cv_body a) = Some (JObj kvs)"
  shows "\<exists>y. activity_record_of a = ret y"
  using assms by (auto simp: activity_record_of_def json_object_def bind_def ret_def)

lemma set_latest: "set (latest n key rows) \<subseteq> set rows"
  unfolding latest_def by (auto dest!: in_set_takeD)

lemma get_case_total:
  assumes "case_at (pr_tenant p) cid (tables w) = Some c" "View \<in> role_capabilities (pr_role p)"
    and "case_bodies_ok (tables w)"
  shows "wp (get_case p cid) (\<lambda>r v. v = w) (\<lambda>_ _. False) w"
proof -
  let ?rows = "latest 500 (\<lambda>a. (cv_created a, cv_id a))
    (filter (\<lambda>a. cv_tenant a = pr_tenant p \<and> cv_case a = cid) (case_activity (tables w)))"
  have "wp (map_prog activity_record_of ?rows) (\<lambda>_ v. v = w) (\<lambda>_ _. False) w"
  proof (rule wp_map_prog_total)
    fix a assume "a \<in> set ?rows"
    then have "a \<in> set (case_activity (tables w))" using set_latest by fastforce
    with assms(3) show "\<exists>y. activity_record_of a = ret y"
      by (intro activity_record_total) (simp add: case_bodies_ok_def)
  qed
  then have "wp (map_prog activity_record_of ?rows) (\<lambda>x. wp (ret (f x)) (\<lambda>r v. v = w) (\<lambda>_ _. False)) (\<lambda>_ _. False) w"
    for f :: "activity_record list \<Rightarrow> case_detail"
    by (rule wp_mono) (simp_all add: wp_rules)
  then show ?thesis
    using assms(1,2) by (simp add: get_case_def wp_rules Let_def)
qed

lemma view_of_triage: "Triage \<in> role_capabilities r \<Longrightarrow> View \<in> role_capabilities r"
  by (cases r) auto

text \<open>The effect of a successful operation on one case, with the rest of the tables framed.\<close>

definition only_case_tables :: "db \<Rightarrow> db \<Rightarrow> bool" where
  "only_case_tables d d' \<longleftrightarrow> d' = d\<lparr>cases := cases d', case_activity := case_activity d', dispositions := dispositions d',
     audit_log := audit_log d', audit_sequence := audit_sequence d', audit_checkpoints := audit_checkpoints d'\<rparr>"

definition case_effect :: "string \<Rightarrow> string \<Rightarrow> (case_row \<Rightarrow> case_row) \<Rightarrow> disposition_row list \<Rightarrow> db \<Rightarrow> db \<Rightarrow> bool" where
  "case_effect tenant cid f disps d d' \<longleftrightarrow>
     cases d' = update_where (\<lambda>c. cs_tenant c = tenant \<and> cs_id c = cid) f (cases d) \<and>
     dispositions d' = dispositions d @ disps \<and>
     (\<exists>a. case_activity d' = case_activity d @ [a] \<and> cv_tenant a = tenant \<and> cv_case a = cid \<and>
        (\<exists>kvs. loads (cv_body a) = Some (JObj kvs))) \<and>
     (\<exists>r. audit_log d' = audit_log d @ [r] \<and> au_tenant r = tenant \<and> au_resource_type r = ''case'' \<and> au_resource r = cid) \<and>
     only_case_tables d d'"

lemma loads_body: "json_ok (JObj kvs) \<Longrightarrow> \<exists>kvs'. loads (dumps False (JObj kvs)) = Some (JObj kvs')"
  by (metis canon_obj loads_dumps)

lemma case_at_SomeD:
  "case_at tenant cid d = Some c \<Longrightarrow> c \<in> set (cases d) \<and> cs_tenant c = tenant \<and> cs_id c = cid"
  unfolding case_at_def by (drule find_SomeD) simp

lemma wp_require_case [wp_rules]:
  "wp (require_case tenant cid) Q Er w = (case case_at tenant cid (tables w) of
     None \<Rightarrow> Er (CaseNotFoundError, ''case is unavailable'') w | Some c \<Rightarrow> Q c w)"
  by (simp add: require_case_def wp_rules split: option.splits)

lemma add_note_wp:
  "wp (add_note E p cid note now)
     (\<lambda>r w'. \<exists>t c. now = Aware t \<and> Triage \<in> role_capabilities (pr_role p) \<and>
        case_at (pr_tenant p) cid (tables w) = Some c \<and>
        case_effect (pr_tenant p) cid (\<lambda>c. c\<lparr>cs_updated := t, cs_version := cs_version c + 1\<rparr>) [] (tables w) (tables w'))
     (\<lambda>_ w'. tables w' = tables w) w"
  unfolding add_note_def insert_activity_def touch_case_def Let_def
  by (cases now; cases "case_at (pr_tenant p) cid (tables w)")
    (auto simp: wp_rules case_effect_def only_case_tables_def with_audit_def entry_of_def loads_body
      intro!: auditing.wp_append)

lemma record_disposition_wp:
  "wp (record_disposition E p cid st rationale reason now)
     (\<lambda>r w'. \<exists>t c disp. now = Aware t \<and> Disposition \<in> role_capabilities (pr_role p) \<and>
        case_at (pr_tenant p) cid (tables w) = Some c \<and>
        dp_tenant disp = pr_tenant p \<and> dp_case disp = cid \<and> dp_cycle disp = cs_cycle c \<and>
        disposition_of st = Some (dp_status disp) \<and> r = disposition_record_of disp \<and>
        case_effect (pr_tenant p) cid (\<lambda>c. c\<lparr>cs_updated := t, cs_version := cs_version c + 1\<rparr>) [disp] (tables w) (tables w'))
     (\<lambda>_ w'. tables w' = tables w) w"
  unfolding record_disposition_def insert_activity_def insert_disposition_def touch_case_def Let_def
  by (cases now; cases "case_at (pr_tenant p) cid (tables w)"; cases "disposition_of st")
    (auto simp: wp_rules case_effect_def only_case_tables_def with_audit_def entry_of_def loads_body
      intro!: auditing.wp_append)

lemma assign_transaction_wp:
  "wp (assign_transaction E p cid target activity_id now)
     (\<lambda>_ w'. \<exists>t c. now = Aware t \<and> case_at (pr_tenant p) cid (tables w) = Some c \<and> target \<noteq> cs_assignee c \<and>
        (\<forall>u. target = Some u \<longrightarrow> (\<exists>r. user_of (pr_tenant p) u (tables w) = Some r \<and> us_status r = UserActive \<and>
           us_role r \<in> {Analyst, Responder, Admin})) \<and>
        case_effect (pr_tenant p) cid
          (\<lambda>c. c\<lparr>cs_assignee := target, cs_updated := t, cs_version := cs_version c + 1\<rparr>) [] (tables w) (tables w'))
     (\<lambda>_ _. True) w"
  unfolding assign_transaction_def insert_activity_def Let_def
  by (cases now; cases "case_at (pr_tenant p) cid (tables w)")
    (auto simp: wp_rules case_effect_def only_case_tables_def with_audit_def entry_of_def loads_body
      intro!: auditing.wp_append split: option.splits)

lemma transition_transaction_wp:
  "wp (transition_transaction E p cid target activity_id now)
     (\<lambda>_ w'. \<exists>t c. now = Aware t \<and> case_at (pr_tenant p) cid (tables w) = Some c \<and>
        target \<in> case_transitions (cs_status c) \<and>
        (target = CaseClosed \<longrightarrow> (\<exists>x \<in> set (dispositions (tables w)). dp_tenant x = pr_tenant p \<and> dp_case x = cid \<and>
           dp_cycle x = cs_cycle c)) \<and>
        (target = CaseOpen \<longrightarrow> cs_semantic_key c \<noteq> None \<longrightarrow> \<not> (\<exists>x \<in> set (cases (tables w)).
           cs_tenant x = pr_tenant p \<and> cs_semantic_key x = cs_semantic_key c \<and> cs_status x \<noteq> CaseClosed \<and> cs_id x \<noteq> cid)) \<and>
        case_effect (pr_tenant p) cid
          (\<lambda>x. x\<lparr>cs_status := target, cs_updated := t, cs_closed := (if target = CaseClosed then Some t else None),
            cs_cycle := cs_cycle c + (if cs_status c = CaseClosed then 1 else 0), cs_version := cs_version x + 1\<rparr>)
          [] (tables w) (tables w'))
     (\<lambda>_ _. True) w"
proof (cases now; cases "case_at (pr_tenant p) cid (tables w)")
  fix t c assume now: "now = Aware t" and c: "case_at (pr_tenant p) cid (tables w) = Some c"
  have reopen: "target = CaseOpen \<longleftrightarrow> cs_status c = CaseClosed" if "target \<in> case_transitions (cs_status c)"
    using that by (cases "cs_status c") auto
  show ?thesis
    unfolding transition_transaction_def insert_activity_def Let_def
    using now c reopen
    by (auto simp: wp_rules case_effect_def only_case_tables_def with_audit_def entry_of_def loads_body
        row_exists_iff intro!: auditing.wp_append split: if_splits)
qed (simp_all add: transition_transaction_def wp_rules Let_def)

abbreviation case_key :: "case_row \<Rightarrow> string \<times> string" where
  "case_key c \<equiv> (cs_tenant c, cs_id c)"

interpretation case_touch: keyed_update case_key "\<lambda>c. c\<lparr>cs_updated := t, cs_version := cs_version c + 1\<rparr>" for t
  by unfold_locales simp
interpretation case_assign: keyed_update case_key
    "\<lambda>c. c\<lparr>cs_assignee := a, cs_updated := t, cs_version := cs_version c + 1\<rparr>" for a t
  by unfold_locales simp
interpretation case_move: keyed_update case_key
    "\<lambda>c. c\<lparr>cs_status := s, cs_updated := t, cs_closed := z, cs_cycle := n, cs_version := cs_version c + 1\<rparr>" for s t z n
  by unfold_locales simp

lemmas case_key_unique = case_touch.upd_key_unique case_assign.upd_key_unique case_move.upd_key_unique

lemma case_effect_at:
  assumes "keyed_update case_key f" and "case_effect tenant cid f ds d d'"
  shows "case_at t c d' = map_option (\<lambda>x. if (t, c) = (tenant, cid) then f x else x) (case_at t c d)"
proof -
  have "case_at t c d' = map_option (\<lambda>x. if cs_tenant x = tenant \<and> cs_id x = cid then f x else x) (case_at t c d)"
    using assms(2) by (simp add: case_at_def case_effect_def keyed_update.upd_find [OF assms(1), of "(t, c)", simplified])
  then show ?thesis
    by (cases "case_at t c d") (auto dest: case_at_SomeD)
qed

lemma case_effect_bodies: "case_effect tenant cid f ds d d' \<Longrightarrow> case_bodies_ok d \<Longrightarrow> case_bodies_ok d'"
  by (auto simp: case_effect_def case_bodies_ok_def)

lemma get_case_after:
  assumes "case_effect (pr_tenant p) cid f ds (tables w) (tables w')" "keyed_update case_key f"
    and "case_at (pr_tenant p) cid (tables w) = Some c" "Triage \<in> role_capabilities (pr_role p)"
    and "case_bodies_ok (tables w)"
  shows "wp (get_case p cid) (\<lambda>_ v. v = w') (\<lambda>_ _. False) w'"
  using case_effect_at [OF assms(2,1)] case_effect_bodies [OF assms(1,5)] assms(3,4)
  by (intro get_case_total) (auto simp: view_of_triage)

lemma assign_wp:
  assumes "case_bodies_ok (tables w)"
  shows "wp (assign E p cid assignee now)
     (\<lambda>_ w'. \<exists>t c. now = Aware t \<and> Triage \<in> role_capabilities (pr_role p) \<and>
        case_at (pr_tenant p) cid (tables w) = Some c \<and> normalize_assignee assignee \<noteq> cs_assignee c \<and>
        (\<forall>u. normalize_assignee assignee = Some u \<longrightarrow> (\<exists>r. user_of (pr_tenant p) u (tables w) = Some r \<and>
           us_status r = UserActive \<and> us_role r \<in> {Analyst, Responder, Admin})) \<and>
        case_effect (pr_tenant p) cid (\<lambda>c. c\<lparr>cs_assignee := normalize_assignee assignee, cs_updated := t,
          cs_version := cs_version c + 1\<rparr>) [] (tables w) (tables w'))
     (\<lambda>_ w'. tables w' = tables w) w"
  unfolding assign_def Let_def
  apply (simp add: wp_rules)
  apply (intro impI wp_mono [OF assign_transaction_wp])
   apply (clarsimp)
   apply (rule wp_mono [OF get_case_after [where w = w]])
  apply (auto simp: assms case_assign.keyed_update_axioms)
  done

definition moved_row :: "case_status \<Rightarrow> instant \<Rightarrow> case_row \<Rightarrow> case_row \<Rightarrow> case_row" where
  "moved_row target t c x = x\<lparr>cs_status := target, cs_updated := t,
     cs_closed := (if target = CaseClosed then Some t else None),
     cs_cycle := cs_cycle c + (if cs_status c = CaseClosed then 1 else 0), cs_version := cs_version x + 1\<rparr>"

lemma keyed_moved_row: "keyed_update case_key (moved_row target t c)"
  unfolding moved_row_def by (rule case_move.keyed_update_axioms)

definition may_move :: "string \<Rightarrow> db \<Rightarrow> case_row \<Rightarrow> case_status \<Rightarrow> bool" where
  "may_move cid d c target \<longleftrightarrow> target \<in> case_transitions (cs_status c) \<and>
     (target = CaseClosed \<longrightarrow> (\<exists>x \<in> set (dispositions d). dp_tenant x = cs_tenant c \<and> dp_case x = cid \<and>
        dp_cycle x = cs_cycle c)) \<and>
     (target = CaseOpen \<longrightarrow> cs_semantic_key c \<noteq> None \<longrightarrow> \<not> (\<exists>x \<in> set (cases d). cs_tenant x = cs_tenant c \<and>
        cs_semantic_key x = cs_semantic_key c \<and> cs_status x \<noteq> CaseClosed \<and> cs_id x \<noteq> cid))"

lemma transition_transaction_moves:
  "wp (transition_transaction E p cid target activity_id now)
     (\<lambda>_ w'. \<exists>t c. now = Aware t \<and> case_at (pr_tenant p) cid (tables w) = Some c \<and> may_move cid (tables w) c target \<and>
        case_effect (pr_tenant p) cid (moved_row target t c) [] (tables w) (tables w'))
     (\<lambda>_ _. True) w"
proof (rule wp_mono [OF transition_transaction_wp])
  fix w' :: world and x :: unit
  assume "\<exists>t c. now = Aware t \<and> case_at (pr_tenant p) cid (tables w) = Some c \<and>
        target \<in> case_transitions (cs_status c) \<and>
        (target = CaseClosed \<longrightarrow> (\<exists>x \<in> set (dispositions (tables w)). dp_tenant x = pr_tenant p \<and> dp_case x = cid \<and>
           dp_cycle x = cs_cycle c)) \<and>
        (target = CaseOpen \<longrightarrow> cs_semantic_key c \<noteq> None \<longrightarrow> \<not> (\<exists>x \<in> set (cases (tables w)).
           cs_tenant x = pr_tenant p \<and> cs_semantic_key x = cs_semantic_key c \<and> cs_status x \<noteq> CaseClosed \<and> cs_id x \<noteq> cid)) \<and>
        case_effect (pr_tenant p) cid
          (\<lambda>x. x\<lparr>cs_status := target, cs_updated := t, cs_closed := (if target = CaseClosed then Some t else None),
            cs_cycle := cs_cycle c + (if cs_status c = CaseClosed then 1 else 0), cs_version := cs_version x + 1\<rparr>)
          [] (tables w) (tables w')"
  then obtain t c where "now = Aware t" and c: "case_at (pr_tenant p) cid (tables w) = Some c"
    and guards: "target \<in> case_transitions (cs_status c)"
      "target = CaseClosed \<longrightarrow> (\<exists>x \<in> set (dispositions (tables w)). dp_tenant x = pr_tenant p \<and> dp_case x = cid \<and>
           dp_cycle x = cs_cycle c)"
      "target = CaseOpen \<longrightarrow> cs_semantic_key c \<noteq> None \<longrightarrow> \<not> (\<exists>x \<in> set (cases (tables w)).
           cs_tenant x = pr_tenant p \<and> cs_semantic_key x = cs_semantic_key c \<and> cs_status x \<noteq> CaseClosed \<and> cs_id x \<noteq> cid)"
    and eff: "case_effect (pr_tenant p) cid (moved_row target t c) [] (tables w) (tables w')"
    unfolding moved_row_def [abs_def] by blast
  moreover have "cs_tenant c = pr_tenant p" using case_at_SomeD [OF c] by simp
  then have "may_move cid (tables w) c target" using guards by (simp only: may_move_def)
  ultimately show "\<exists>t c. now = Aware t \<and> case_at (pr_tenant p) cid (tables w) = Some c \<and> may_move cid (tables w) c target \<and>
        case_effect (pr_tenant p) cid (moved_row target t c) [] (tables w) (tables w')"
    by blast
qed simp

lemma transition_wp:
  assumes "case_bodies_ok (tables w)"
  shows "wp (transition E p cid target_status now)
     (\<lambda>_ w'. \<exists>t c target. now = Aware t \<and> Triage \<in> role_capabilities (pr_role p) \<and>
        case_status_of target_status = Some target \<and> case_at (pr_tenant p) cid (tables w) = Some c \<and>
        may_move cid (tables w) c target \<and>
        case_effect (pr_tenant p) cid (moved_row target t c) [] (tables w) (tables w'))
     (\<lambda>_ w'. tables w' = tables w) w"
proof (cases "case_status_of target_status")
  case None
  then show ?thesis by (simp add: transition_def wp_rules)
next
  case (Some target)
  show ?thesis
    unfolding transition_def Some
    apply (simp add: wp_rules)
    apply (intro impI wp_mono [OF transition_transaction_moves])
     apply clarsimp
     apply (rule wp_mono [OF get_case_after [where w = w]])
    apply (auto simp: assms keyed_moved_row)
    done
qed

section \<open>The abstract case lifecycle\<close>

text \<open>
  The specification of a case, seen from outside: its status, investigation cycle and version, and the
  cycles for which a disposition has been recorded. The four operations of the service are three
  kinds of abstract step.
\<close>

record case_view =
  v_status :: case_status
  v_cycle :: int
  v_version :: int
  v_disposed :: "int set"

inductive case_step :: "case_view \<Rightarrow> case_view \<Rightarrow> bool" where
  touched: "case_step v (v\<lparr>v_version := v_version v + 1\<rparr>)"
| disposed: "case_step v (v\<lparr>v_version := v_version v + 1, v_disposed := insert (v_cycle v) (v_disposed v)\<rparr>)"
| moved: "target \<in> case_transitions (v_status v) \<Longrightarrow> (target = CaseClosed \<longrightarrow> v_cycle v \<in> v_disposed v) \<Longrightarrow>
    case_step v (v\<lparr>v_status := target, v_version := v_version v + 1,
      v_cycle := v_cycle v + (if v_status v = CaseClosed then 1 else 0)\<rparr>)"

inductive_cases case_stepE: "case_step v v'"

definition new_case_view :: case_view where
  "new_case_view = \<lparr>v_status = CaseOpen, v_cycle = 1, v_version = 1, v_disposed = {}\<rparr>"

definition view_ok :: "case_view \<Rightarrow> bool" where
  "view_ok v \<longleftrightarrow> 1 \<le> v_cycle v \<and> 1 \<le> v_version v \<and> (v_status v = CaseClosed \<longrightarrow> v_cycle v \<in> v_disposed v) \<and>
     (\<forall>n \<in> v_disposed v. n \<le> v_cycle v)"

lemma view_ok_new: "view_ok new_case_view"
  by (simp add: view_ok_def new_case_view_def)

lemma case_step_ok: "case_step v v' \<Longrightarrow> view_ok v \<Longrightarrow> view_ok v'"
  by (induction rule: case_step.induct) (auto simp: view_ok_def split: if_splits)

definition view_of :: "db \<Rightarrow> case_row \<Rightarrow> case_view" where
  "view_of d c = \<lparr>v_status = cs_status c, v_cycle = cs_cycle c, v_version = cs_version c,
     v_disposed = dp_cycle ` {x \<in> set (dispositions d). dp_tenant x = cs_tenant c \<and> dp_case x = cs_id c}\<rparr>"

datatype case_op =
    Note string | Assign "string option" | Move string | Dispose string string "string option"

definition run_case_op :: "env \<Rightarrow> principal \<Rightarrow> string \<Rightarrow> case_op \<Rightarrow> datetime \<Rightarrow> unit prog" where
  "run_case_op E p cid oper now = (case oper of
     Note note \<Rightarrow> andthen (add_note E p cid note now) (ret ())
   | Assign a \<Rightarrow> andthen (assign E p cid a now) (ret ())
   | Move target \<Rightarrow> andthen (transition E p cid target now) (ret ())
   | Dispose st rationale reason \<Rightarrow> andthen (record_disposition E p cid st rationale reason now) (ret ()))"

lemma view_of_frame:
  assumes "case_effect tenant cid f ds d d'" "(cs_tenant c, cs_id c) \<noteq> (tenant, cid)"
    and "\<forall>x \<in> set ds. dp_tenant x = tenant \<and> dp_case x = cid"
  shows "view_of d' c = view_of d c"
  using assms by (auto simp: view_of_def case_effect_def)

lemma effect_steps:
  assumes eff: "case_effect tenant cid f ds d d'" "keyed_update case_key f"
    and ds: "\<forall>x \<in> set ds. dp_tenant x = tenant \<and> dp_case x = cid"
    and c: "case_at tenant cid d = Some c"
    and step: "case_step (view_of d c) (view_of d' (f c))"
  shows "(\<exists>c'. case_at tenant cid d' = Some c' \<and> case_step (view_of d c) (view_of d' c')) \<and>
    (\<forall>t i. (t, i) \<noteq> (tenant, cid) \<longrightarrow> case_at t i d' = case_at t i d \<and>
       (\<forall>x. case_at t i d = Some x \<longrightarrow> view_of d' x = view_of d x))"
proof -
  have "case_at t i d' = case_at t i d" "case_at t i d = Some x \<Longrightarrow> view_of d' x = view_of d x"
    if "(t, i) \<noteq> (tenant, cid)" for t i x
    using that case_effect_at [OF eff(2,1), of t i] view_of_frame [OF eff(1) _ ds]
    by (auto dest!: case_at_SomeD simp: option.map_ident)
  then show ?thesis using case_effect_at [OF eff(2,1), of tenant cid] c step by auto
qed

definition refines_step :: "string \<Rightarrow> string \<Rightarrow> db \<Rightarrow> db \<Rightarrow> bool" where
  "refines_step tenant cid d d' \<longleftrightarrow>
     (\<exists>c c'. case_at tenant cid d = Some c \<and> case_at tenant cid d' = Some c' \<and> case_step (view_of d c) (view_of d' c')) \<and>
     (\<forall>t i. (t, i) \<noteq> (tenant, cid) \<longrightarrow> case_at t i d' = case_at t i d \<and>
        (\<forall>x. case_at t i d = Some x \<longrightarrow> view_of d' x = view_of d x))"

lemma touched_view:
  assumes "case_effect tenant cid f [] d d'" "cs_status (f c) = cs_status c" "cs_cycle (f c) = cs_cycle c"
    "cs_version (f c) = cs_version c + 1" "case_key (f c) = case_key c"
  shows "case_step (view_of d c) (view_of d' (f c))"
proof -
  have "view_of d' (f c) = (view_of d c)\<lparr>v_version := v_version (view_of d c) + 1\<rparr>"
    using assms by (simp add: view_of_def case_effect_def)
  then show ?thesis by (simp add: case_step.touched)
qed

lemma disposed_view:
  assumes "case_effect tenant cid f [x] d d'" "cs_status (f c) = cs_status c" "cs_cycle (f c) = cs_cycle c"
    "cs_version (f c) = cs_version c + 1" "case_key (f c) = case_key c"
    and "dp_tenant x = cs_tenant c" "dp_case x = cs_id c" "dp_cycle x = cs_cycle c"
  shows "case_step (view_of d c) (view_of d' (f c))"
proof -
  have "{y. (y = x \<or> y \<in> set (dispositions d)) \<and> dp_tenant y = cs_tenant c \<and> dp_case y = cs_id c} =
      insert x {y \<in> set (dispositions d). dp_tenant y = cs_tenant c \<and> dp_case y = cs_id c}"
    using assms(6,7) by auto
  then have "view_of d' (f c) = (view_of d c)\<lparr>v_version := v_version (view_of d c) + 1,
      v_disposed := insert (v_cycle (view_of d c)) (v_disposed (view_of d c))\<rparr>"
    using assms by (simp add: view_of_def case_effect_def)
  then show ?thesis by (simp add: case_step.disposed)
qed

lemma moved_view:
  assumes "case_effect tenant cid (moved_row target t c) [] d d'" "may_move (cs_id c) d c target"
  shows "case_step (view_of d c) (view_of d' (moved_row target t c c))"
proof -
  have "view_of d' (moved_row target t c c) = (view_of d c)\<lparr>v_status := target,
      v_version := v_version (view_of d c) + 1,
      v_cycle := v_cycle (view_of d c) + (if v_status (view_of d c) = CaseClosed then 1 else 0)\<rparr>"
    using assms(1) by (simp add: view_of_def case_effect_def moved_row_def)
  moreover have "case_step (view_of d c) ((view_of d c)\<lparr>v_status := target,
      v_version := v_version (view_of d c) + 1,
      v_cycle := v_cycle (view_of d c) + (if v_status (view_of d c) = CaseClosed then 1 else 0)\<rparr>)"
    by (rule case_step.moved) (use assms(2) in \<open>auto simp: may_move_def view_of_def image_iff\<close>)
  ultimately show ?thesis by simp
qed

lemma refines_stepI:
  assumes "case_effect tenant cid f ds d d'" "keyed_update case_key f"
    and "\<forall>x \<in> set ds. dp_tenant x = tenant \<and> dp_case x = cid"
    and "case_at tenant cid d = Some c" "case_step (view_of d c) (view_of d' (f c))"
  shows "refines_step tenant cid d d'"
  using effect_steps [OF assms] assms(4) unfolding refines_step_def by blast

lemma run_case_op_wp:
  assumes "case_bodies_ok (tables w)"
  shows "wp (run_case_op E p cid oper now)
     (\<lambda>_ w'. refines_step (pr_tenant p) cid (tables w) (tables w'))
     (\<lambda>_ w'. tables w' = tables w) w"
proof (cases oper)
  case (Note body)
  show ?thesis
    unfolding run_case_op_def Note case_op.case wp_andthen
    by (rule wp_mono [OF add_note_wp])
      (auto simp: wp_rules intro!: refines_stepI [OF _ case_touch.keyed_update_axioms] touched_view)
next
  case (Assign a)
  show ?thesis
    unfolding run_case_op_def Assign case_op.case wp_andthen
    by (rule wp_mono [OF assign_wp [OF assms]])
      (auto simp: wp_rules intro!: refines_stepI [OF _ case_assign.keyed_update_axioms] touched_view)
next
  case (Move target)
  show ?thesis
    unfolding run_case_op_def Move case_op.case wp_andthen
    by (rule wp_mono [OF transition_wp [OF assms]])
      (auto simp: wp_rules dest: case_at_SomeD
        intro!: refines_stepI [OF _ keyed_moved_row] moved_view [where tenant = "pr_tenant p" and cid = cid])
next
  case (Dispose st rationale reason)
  show ?thesis
    unfolding run_case_op_def Dispose case_op.case wp_andthen
    by (rule wp_mono [OF record_disposition_wp])
      (auto simp: wp_rules dest: case_at_SomeD intro!: refines_stepI [OF _ case_touch.keyed_update_axioms] disposed_view)
qed

text \<open>
  C4. The case service refines the abstract lifecycle: every operation either fails and leaves all
  tables as they were, or performs exactly one step of \<open>case_step\<close> on the case it names (a move
  only along the transition table, a close only with a disposition of the current cycle, a reopening
  into the next cycle, and the version always one higher) and changes no other case.
\<close>

theorem case_service_refines:
  assumes "case_bodies_ok (tables w)"
  shows "case run_case_op E p cid oper now w of
     (Inl e, w') \<Rightarrow> tables w' = tables w
   | (Inr _, w') \<Rightarrow> refines_step (pr_tenant p) cid (tables w) (tables w')"
  using run_case_op_wp [OF assms, of E p cid oper now]
  by (auto simp: wp_def split: prod.splits sum.splits)

definition sample_principal :: "string \<Rightarrow> string \<Rightarrow> role \<Rightarrow> principal" where
  "sample_principal sid uid r = principal_from_row (sample_session sid uid) (sample_user uid (uid @ ''@x.io'') r)"

definition sample_case :: case_row where
  "sample_case = \<lparr>cs_tenant = ''t1'', cs_id = ''c1'', cs_title = ''T'', cs_priority = PrioHigh, cs_status = CaseOpen,
     cs_assignee = None, cs_opened = 0, cs_updated = 0, cs_closed = None, cs_version = 1, cs_cycle = 1,
     cs_semantic_key = Some ''k''\<rparr>"

definition sample_case_db :: db where
  "sample_case_db = sample_db\<lparr>cases := [sample_case]\<rparr>"

theorem case_service_refines_witness:
  "case_bodies_ok sample_case_db \<and>
   (case run_case_op sample_env (sample_principal ''s3'' ''ana'' Analyst) ''c1'' (Move ''investigating'') (Aware 9)
       (world_at sample_case_db) of
     (Inl e, w') \<Rightarrow> tables w' = sample_case_db
   | (Inr _, w') \<Rightarrow> refines_step (pr_tenant (sample_principal ''s3'' ''ana'' Analyst)) ''c1'' sample_case_db (tables w'))"
proof -
  have ok: "case_bodies_ok sample_case_db" by (simp add: case_bodies_ok_def sample_case_db_def sample_db_def empty_db_def)
  show ?thesis
    using case_service_refines [of "world_at sample_case_db" "sample_principal ''s3'' ''ana'' Analyst" "''c1''"
        sample_env "Move ''investigating''" "Aware 9", unfolded world_at_simps, OF ok] ok
    by (intro conjI)
qed

section \<open>The invariant of the case tables\<close>

definition row_ok :: "db \<Rightarrow> case_row \<Rightarrow> bool" where
  "row_ok d c \<longleftrightarrow> view_ok (view_of d c) \<and> (cs_status c = CaseClosed \<longleftrightarrow> cs_closed c \<noteq> None)"

definition rivals :: "case_row \<Rightarrow> case_row \<Rightarrow> bool" where
  "rivals c x \<longleftrightarrow> cs_tenant x = cs_tenant c \<and> cs_semantic_key c \<noteq> None \<and> cs_semantic_key x = cs_semantic_key c \<and>
     cs_status c \<noteq> CaseClosed \<and> cs_status x \<noteq> CaseClosed \<and> cs_id x \<noteq> cs_id c"

definition case_inv :: "db \<Rightarrow> bool" where
  "case_inv d \<longleftrightarrow> key_unique case_key (cases d) \<and> case_bodies_ok d \<and>
     (\<forall>c \<in> set (cases d). row_ok d c) \<and> (\<forall>c \<in> set (cases d). \<forall>x \<in> set (cases d). \<not> rivals c x) \<and>
     (\<forall>p \<in> set (dispositions d). (dp_tenant p, dp_case p) \<in> case_key ` set (cases d))"

lemma case_inv_empty: "case_inv empty_db"
  by (simp add: case_inv_def empty_db_def case_bodies_ok_def)

lemma set_effect_cases:
  assumes "key_unique case_key (cases d)" "case_effect tenant cid f ds d d'" "case_at tenant cid d = Some c"
  shows "set (cases d') \<subseteq> insert (f c) {x \<in> set (cases d). case_key x \<noteq> (tenant, cid)}"
proof -
  have "x = c" if "x \<in> set (cases d)" "case_key x = (tenant, cid)" for x
    using key_unique_eq [OF assms(1) that(1), of c] case_at_SomeD [OF assms(3)] that(2) by auto
  then show ?thesis using assms(2) by (auto simp: case_effect_def set_update_where)
qed

lemma effect_keeps_inv:
  assumes inv: "case_inv d" and eff: "case_effect tenant cid f ds d d'" "keyed_update case_key f"
    and ds: "\<forall>x \<in> set ds. dp_tenant x = tenant \<and> dp_case x = cid"
    and c: "case_at tenant cid d = Some c" and step: "case_step (view_of d c) (view_of d' (f c))"
    and new: "cs_status (f c) = CaseClosed \<longleftrightarrow> cs_closed (f c) \<noteq> None" "cs_semantic_key (f c) = cs_semantic_key c"
      "\<forall>x \<in> set (cases d). \<not> rivals (f c) x"
  shows "case_inv d'"
proof -
  have key: "case_key (f c) = (tenant, cid)"
    using keyed_update.upd_key [OF eff(2), of c] case_at_SomeD [OF c] by simp
  have rows: "set (cases d') \<subseteq> insert (f c) {x \<in> set (cases d). case_key x \<noteq> (tenant, cid)}"
    using inv eff c by (intro set_effect_cases) (auto simp: case_inv_def)
  have "key_unique case_key (cases d')"
    using inv eff(1) keyed_update.upd_key_unique [OF eff(2)] by (simp add: case_inv_def case_effect_def)
  moreover have "(dp_tenant p, dp_case p) \<in> case_key ` set (cases d')" if "p \<in> set (dispositions d')" for p
  proof -
    have "case_key ` set (cases d') = case_key ` set (cases d)"
      using eff(1) arg_cong [OF keyed_update.upd_keys [OF eff(2)], of set] by (simp add: case_effect_def)
    moreover have "(tenant, cid) \<in> case_key ` set (cases d)" using case_at_SomeD [OF c] by force
    ultimately show ?thesis using that ds eff(1) inv by (auto simp: case_effect_def case_inv_def)
  qed
  moreover have "case_bodies_ok d'" using case_effect_bodies [OF eff(1)] inv by (simp add: case_inv_def)
  moreover have "row_ok d' x" if "x \<in> set (cases d')" for x
  proof (cases "x = f c")
    case True
    have "view_ok (view_of d c)" using inv case_at_SomeD [OF c] by (simp add: case_inv_def row_ok_def)
    with True new(1) case_step_ok [OF step] show ?thesis by (simp add: row_ok_def)
  next
    case False
    with that rows have "x \<in> set (cases d)" "case_key x \<noteq> (tenant, cid)" by auto
    with inv view_of_frame [OF eff(1) _ ds, of x] show ?thesis by (simp add: case_inv_def row_ok_def)
  qed
  moreover have "\<not> rivals x y" if "x \<in> set (cases d')" "y \<in> set (cases d')" for x y
  proof
    assume r: "rivals x y"
    then have sym: "rivals y x" by (auto simp: rivals_def)
    have "x = f c \<or> x \<in> set (cases d)" "y = f c \<or> y \<in> set (cases d)" using that rows by auto
    moreover have "\<not> rivals (f c) (f c)" by (simp add: rivals_def)
    moreover have "\<forall>a \<in> set (cases d). \<forall>b \<in> set (cases d). \<not> rivals a b" using inv by (simp add: case_inv_def)
    ultimately show False using r sym new(3) by blast
  qed
  ultimately show ?thesis by (simp add: case_inv_def)
qed

lemma no_rival_kept:
  assumes "case_inv d" "case_at tenant cid d = Some c" "cs_status c \<noteq> CaseClosed \<or> cs_status c' = CaseClosed"
    and "case_key c' = case_key c" "cs_semantic_key c' = cs_semantic_key c" "x \<in> set (cases d)"
  shows "\<not> rivals c' x"
proof
  assume r: "rivals c' x"
  then have "rivals c x" using assms(3-5) by (auto simp: rivals_def)
  with assms(1,6) case_at_SomeD [OF assms(2)] show False by (simp add: case_inv_def)
qed

lemma rivals_touched [simp]:
  "rivals (c\<lparr>cs_updated := t, cs_version := v\<rparr>) x = rivals c x"
  "rivals (c\<lparr>cs_assignee := a\<rparr>) x = rivals c x"
  by (simp_all add: rivals_def)

lemma not_rival: "case_inv d \<Longrightarrow> case_at tenant cid d = Some c \<Longrightarrow> x \<in> set (cases d) \<Longrightarrow> \<not> rivals c x"
  by (auto simp: case_inv_def dest: case_at_SomeD)

lemma touched_closed:
  assumes "case_inv d" "case_at tenant cid d = Some c"
  shows "(cs_status c = CaseClosed) = (cs_closed c \<noteq> None)"
  using assms case_at_SomeD [OF assms(2)] by (simp add: case_inv_def row_ok_def)

lemma moved_no_rival:
  assumes inv: "case_inv d" and c: "case_at tenant cid d = Some c" and may: "may_move cid d c target"
    and x: "x \<in> set (cases d)"
  shows "\<not> rivals (moved_row target t c c) x"
proof (cases "cs_status c = CaseClosed")
  case True
  then have "target = CaseOpen" using may by (simp add: may_move_def)
  with may x case_at_SomeD [OF c] show ?thesis by (auto simp: may_move_def rivals_def moved_row_def)
next
  case False
  then show ?thesis
    by (intro no_rival_kept [OF inv c _ _ _ x]) (simp_all add: moved_row_def)
qed

lemma run_case_op_inv:
  assumes inv: "case_inv (tables w)"
  shows "wp (run_case_op E p cid oper now) (\<lambda>_ w'. case_inv (tables w')) (\<lambda>_ w'. tables w' = tables w) w"
proof -
  have bodies: "case_bodies_ok (tables w)" using inv by (simp add: case_inv_def)
  note closed = touched_closed [OF inv] not_rival [OF inv]
  show ?thesis
  proof (cases oper)
    case (Note body)
    show ?thesis
      unfolding run_case_op_def Note case_op.case wp_andthen
      by (rule wp_mono [OF add_note_wp])
        (auto simp: wp_rules closed intro!: effect_keeps_inv [OF inv _ case_touch.keyed_update_axioms] touched_view)
  next
    case (Assign a)
    show ?thesis
      unfolding run_case_op_def Assign case_op.case wp_andthen
      by (rule wp_mono [OF assign_wp [OF bodies]])
        (auto simp: wp_rules closed intro!: effect_keeps_inv [OF inv _ case_assign.keyed_update_axioms] touched_view)
  next
    case (Move target)
    show ?thesis
      unfolding run_case_op_def Move case_op.case wp_andthen
      by (rule wp_mono [OF transition_wp [OF bodies]])
        (auto simp: wp_rules moved_no_rival [OF inv] dest: case_at_SomeD
          intro!: effect_keeps_inv [OF inv _ keyed_moved_row] moved_view [where tenant = "pr_tenant p" and cid = cid],
         auto simp: moved_row_def split: if_splits)
  next
    case (Dispose st rationale reason)
    show ?thesis
      unfolding run_case_op_def Dispose case_op.case wp_andthen
      by (rule wp_mono [OF record_disposition_wp])
        (auto simp: wp_rules closed dest: case_at_SomeD intro!: effect_keeps_inv [OF inv _ case_touch.keyed_update_axioms] disposed_view)
  qed
qed

text \<open>
  C5. The tables of the case service keep their invariant under every operation, whatever its outcome:
  case keys are unique, every activity body is a JSON object, a case has a closing time exactly when it
  is closed, a closed case has a disposition of its current cycle and no disposition is from a future
  cycle, versions and cycles start at one, every disposition belongs to a case, and no two open cases of a
  network share a semantic key.
\<close>

theorem case_inv_kept:
  assumes "case_inv (tables w)" and "run_case_op E p cid oper now w = (r, w')"
  shows "case_inv (tables w')"
  using run_case_op_inv [OF assms(1), of E p cid oper now] assms
  by (auto simp: wp_def split: sum.splits)

lemma sample_case_inv: "case_inv sample_case_db"
  by (simp add: case_inv_def sample_case_db_def sample_db_def empty_db_def case_bodies_ok_def key_unique_def row_ok_def
      view_ok_def view_of_def sample_case_def rivals_def)

theorem case_inv_kept_witness:
  "case_inv (tables (after (run_case_op sample_env (sample_principal ''s3'' ''ana'' Analyst) ''c1''
     (Dispose ''benign'' ''ok'' None) (Aware 9)) (world_at sample_case_db)))"
proof (rule case_inv_kept)
  show "case_inv (tables (world_at sample_case_db))" by (simp add: sample_case_inv)
  show "run_case_op sample_env (sample_principal ''s3'' ''ana'' Analyst) ''c1'' (Dispose ''benign'' ''ok'' None) (Aware 9)
      (world_at sample_case_db) = (fst (run_case_op sample_env (sample_principal ''s3'' ''ana'' Analyst) ''c1''
        (Dispose ''benign'' ''ok'' None) (Aware 9) (world_at sample_case_db)),
       after (run_case_op sample_env (sample_principal ''s3'' ''ana'' Analyst) ''c1'' (Dispose ''benign'' ''ok'' None) (Aware 9))
        (world_at sample_case_db))"
    by (simp add: after_def)
qed

text \<open>
  Who may act: no operation of the case service changes anything for a principal without the
  capability (triage for notes, assignments and moves, disposition for dispositions); such a call is
  refused with the authorisation error before anything is read or drawn.
\<close>

theorem case_op_unauthorized:
  assumes "(case oper of Dispose _ _ _ \<Rightarrow> Disposition | _ \<Rightarrow> Triage) \<notin> role_capabilities (pr_role p)"
  shows "run_case_op E p cid oper now w =
    (Inl (HumanAuthorizationError, ''principal is not authorized for this operation''), w)"
  using assms
  by (cases oper) (simp_all add: run_case_op_def case_op_defs andthen_def bind_def require_capability_def
      raise_if_def raise_def ret_def)

theorem case_op_unauthorized_witness:
  "run_case_op sample_env (sample_principal ''s3'' ''ana'' Viewer) ''c1'' (Move ''closed'') (Aware 9) (world_at sample_case_db) =
    (Inl (HumanAuthorizationError, ''principal is not authorized for this operation''), world_at sample_case_db)"
proof (rule case_op_unauthorized)
  show "(case Move ''closed'' of Dispose _ _ _ \<Rightarrow> Disposition | _ \<Rightarrow> Triage) \<notin>
      role_capabilities (pr_role (sample_principal ''s3'' ''ana'' Viewer))"
    by code_simp
qed

end
