(* ===== verification/Events.thy ===== *)
theory Events
  imports Schema
begin

text \<open>
  The data the detection path exchanges: normalised security events and detection alerts
  (\<open>controlforge/models.py\<close>) and the table of stateful correlations
  (\<open>controlforge/detections.py\<close>). An attribute value is a JSON value.
\<close>

record security_event =
  sv_id :: string
  sv_type :: string
  sv_timestamp :: datetime
  sv_actor :: string
  sv_source_ip :: "string option"
  sv_target :: "string option"
  sv_device :: "string option"
  sv_attributes :: "(string \<times> json) list"

record detection_alert =
  at_id :: string
  at_rule :: string
  at_title :: string
  at_severity :: severity
  at_event :: string
  at_actor :: string
  at_reasons :: "string list"
  at_tags :: "string list"
  at_created :: datetime

record stateful_correlation =
  sc_rule :: string
  sc_version :: int
  sc_title :: string
  sc_severity :: severity
  sc_tags :: "string list"
  sc_event_type :: string
  sc_window_minutes :: "int option"
  sc_event_threshold :: "nat option"
  sc_distinct_threshold :: "nat option"
  sc_byte_threshold :: "int option"
  sc_maximum_speed_kph :: "int option"

definition bulk_access_spec :: stateful_correlation where
  "bulk_access_spec = \<lparr>sc_rule = ''CF-INSIDER-001'', sc_version = 1, sc_title = ''Unusual sensitive-data access volume'',
     sc_severity = SevHigh, sc_tags = [''insider-risk'', ''financial-data'', ''behavioral-analytics''],
     sc_event_type = ''sensitive_data_access'', sc_window_minutes = Some 15, sc_event_threshold = Some 10,
     sc_distinct_threshold = None, sc_byte_threshold = Some 50000000, sc_maximum_speed_kph = None\<rparr>"

definition travel_spec :: stateful_correlation where
  "travel_spec = \<lparr>sc_rule = ''CF-IDENTITY-001'', sc_version = 1, sc_title = ''Impossible-travel authentication'',
     sc_severity = SevHigh, sc_tags = [''identity'', ''account-takeover'', ''behavioral-analytics''],
     sc_event_type = ''authentication_success'', sc_window_minutes = None, sc_event_threshold = None,
     sc_distinct_threshold = None, sc_byte_threshold = None, sc_maximum_speed_kph = Some 900\<rparr>"

definition stuffing_spec :: stateful_correlation where
  "stuffing_spec = \<lparr>sc_rule = ''CF-EDGE-002'', sc_version = 1,
     sc_title = ''Credential-stuffing pattern at the authentication edge'', sc_severity = SevHigh,
     sc_tags = [''edge-security'', ''credential-access'', ''account-takeover'', ''attack.t1110''],
     sc_event_type = ''edge_auth_failure'', sc_window_minutes = Some 5, sc_event_threshold = Some 20,
     sc_distinct_threshold = Some 10, sc_byte_threshold = None, sc_maximum_speed_kph = None\<rparr>"

definition replay_spec :: stateful_correlation where
  "replay_spec = \<lparr>sc_rule = ''CF-EDGE-003'', sc_version = 1,
     sc_title = ''Possible session replay across source addresses'', sc_severity = SevHigh,
     sc_tags = [''edge-security'', ''session-hijacking'', ''account-takeover''],
     sc_event_type = ''edge_session_use'', sc_window_minutes = Some 10, sc_event_threshold = None,
     sc_distinct_threshold = None, sc_byte_threshold = None, sc_maximum_speed_kph = None\<rparr>"

definition stateful_correlations :: "stateful_correlation list" where
  "stateful_correlations = [bulk_access_spec, travel_spec, stuffing_spec, replay_spec]"

lemmas correlation_defs = stateful_correlations_def bulk_access_spec_def travel_spec_def stuffing_spec_def replay_spec_def

definition stateful_correlation_for_event :: "string \<Rightarrow> stateful_correlation option" where
  "stateful_correlation_for_event ty = map_of (map (\<lambda>s. (sc_event_type s, s)) stateful_correlations) ty"

lemma correlation_event_type: "stateful_correlation_for_event ty = Some s \<Longrightarrow> sc_event_type s = ty \<and> s \<in> set stateful_correlations"
  by (auto simp: stateful_correlation_for_event_def dest: map_of_SomeD)

lemma correlation_table [simp]:
  "stateful_correlation_for_event ''sensitive_data_access'' = Some bulk_access_spec"
  "stateful_correlation_for_event ''authentication_success'' = Some travel_spec"
  "stateful_correlation_for_event ''edge_auth_failure'' = Some stuffing_spec"
  "stateful_correlation_for_event ''edge_session_use'' = Some replay_spec"
  by (simp_all add: stateful_correlation_for_event_def correlation_defs)

text \<open>The attribute that carries the hashed session identifier, when it is a text of at least twelve characters.\<close>

definition session_hash :: "security_event \<Rightarrow> string option" where
  "session_hash e = (case map_of (sv_attributes e) ''session_id_hash'' of
     Some (JStr h) \<Rightarrow> if length h < 12 then None else Some h | _ \<Rightarrow> None)"

text \<open>A correlation window reaches back a number of minutes from the event.\<close>

definition window_start :: "security_event \<Rightarrow> int \<Rightarrow> datetime" where
  "window_start e m = datetime_add (sv_timestamp e) (- minutes m)"

end
