(* ===== verification/Store.thy ===== *)
theory Store
  imports Cases Events
begin

text \<open>
  The durable processing boundary of \<open>standalone/store.py\<close>: networks and devices are registered,
  events are ingested each with one detection job, workers lease jobs, and a detector's decisions are
  written as alerts and cases together with the completion of the job. The pydantic models and the SQL
  functions SQLite supplies are the record \<open>pipeline\<close>.
\<close>

section \<open>Data\<close>

record ingest_result =
  ir_accepted :: bool
  ir_event :: string
  ir_job :: string

record job_lease =
  jl_tenant :: string
  jl_job :: string
  jl_event :: string
  jl_attempts :: int
  jl_owner :: string
  jl_expires :: instant

record job_transition =
  jt_changed :: bool
  jt_status :: job_status
  jt_attempts :: int

record persistence_result =
  ps_inserted :: nat
  ps_status :: job_status

record pipeline =
  model_dump :: "security_event \<Rightarrow> json"
  model_validate :: "string \<Rightarrow> string + security_event"
  validate_batch :: "string \<Rightarrow> security_event list option"
  julianday :: "instant \<Rightarrow> int"
  json_session_hash :: "string \<Rightarrow> string option"

definition canonical_event :: "pipeline \<Rightarrow> security_event \<Rightarrow> string" where
  "canonical_event L e = dumps True (model_dump L e)"

definition job_id_of :: "env \<Rightarrow> string \<Rightarrow> string \<Rightarrow> string" where
  "job_id_of E tenant event = sha256_hex E (utf8 (tenant @ '':detect:'' @ event @ '':v1''))"

section \<open>Constraints\<close>

text \<open>INSERT OR IGNORE: a uniqueness conflict is skipped, a broken foreign key is still an error.\<close>

definition insert_or_ignore :: "(db \<Rightarrow> bool) \<Rightarrow> (db \<Rightarrow> bool) \<Rightarrow> (db \<Rightarrow> db) \<Rightarrow> bool prog" where
  "insert_or_ignore duplicate ok f = bind (query duplicate) (\<lambda>dup.
     if dup then ret False else andthen (insert_checked ok f) (ret True))"

definition tenant_exists :: "string \<Rightarrow> db \<Rightarrow> bool" where
  "tenant_exists tenant d = row_exists (\<lambda>t. t_id t = tenant) (tenants d)"

definition device_exists :: "string \<Rightarrow> string \<Rightarrow> db \<Rightarrow> bool" where
  "device_exists tenant dev d = row_exists (\<lambda>v. dv_tenant v = tenant \<and> dv_id v = dev) (devices d)"

definition event_exists :: "string \<Rightarrow> string \<Rightarrow> db \<Rightarrow> bool" where
  "event_exists tenant eid d = row_exists (\<lambda>e. ev_tenant e = tenant \<and> ev_id e = eid) (events d)"

definition insert_device :: "device_row \<Rightarrow> unit prog" where
  "insert_device v = insert_checked
     (\<lambda>d. \<not> device_exists (dv_tenant v) (dv_id v) d \<and> tenant_exists (dv_tenant v) d)
     (\<lambda>d. d\<lparr>devices := devices d @ [v]\<rparr>)"

definition insert_credential :: "credential_row \<Rightarrow> unit prog" where
  "insert_credential c = insert_checked
     (\<lambda>d. \<not> row_exists (\<lambda>x. dc_id x = dc_id c) (device_credentials d) \<and> device_exists (dc_tenant c) (dc_device c) d)
     (\<lambda>d. d\<lparr>device_credentials := device_credentials d @ [c]\<rparr>)"

definition insert_event :: "event_row \<Rightarrow> bool prog" where
  "insert_event e = insert_or_ignore
     (event_exists (ev_tenant e) (ev_id e))
     (\<lambda>d. tenant_exists (ev_tenant e) d \<and>
        (case ev_device e of None \<Rightarrow> True | Some dev \<Rightarrow> device_exists (ev_tenant e) dev d))
     (\<lambda>d. d\<lparr>events := events d @ [e]\<rparr>)"

definition insert_job :: "job_row \<Rightarrow> unit prog" where
  "insert_job j = insert_checked
     (\<lambda>d. \<not> row_exists (\<lambda>x. jb_tenant x = jb_tenant j \<and> (jb_id x = jb_id j \<or> jb_event x = jb_event j)) (detection_jobs d) \<and>
        0 \<le> jb_attempts j \<and> event_exists (jb_tenant j) (jb_event j) d)
     (\<lambda>d. d\<lparr>detection_jobs := detection_jobs d @ [j]\<rparr>)"

definition insert_alert :: "alert_row \<Rightarrow> bool prog" where
  "insert_alert a = insert_or_ignore
     (\<lambda>d. row_exists (\<lambda>x. al_tenant x = al_tenant a \<and> al_id x = al_id a) (alerts d))
     (event_exists (al_tenant a) (al_event a))
     (\<lambda>d. d\<lparr>alerts := alerts d @ [a]\<rparr>)"

definition open_semantic :: "string \<Rightarrow> string option \<Rightarrow> case_row \<Rightarrow> bool" where
  "open_semantic tenant key c \<longleftrightarrow> cs_tenant c = tenant \<and> key \<noteq> None \<and> cs_semantic_key c = key \<and> cs_status c \<noteq> CaseClosed"

definition insert_case :: "case_row \<Rightarrow> bool prog" where
  "insert_case c = insert_or_ignore
     (\<lambda>d. case_exists (cs_tenant c) (cs_id c) d \<or>
        cs_status c \<noteq> CaseClosed \<and> row_exists (open_semantic (cs_tenant c) (cs_semantic_key c)) (cases d))
     (tenant_exists (cs_tenant c))
     (\<lambda>d. d\<lparr>cases := cases d @ [c]\<rparr>)"

definition insert_case_alert :: "case_alert_row \<Rightarrow> bool prog" where
  "insert_case_alert l = insert_or_ignore
     (\<lambda>d. row_exists (\<lambda>x. ca_tenant x = ca_tenant l \<and> ca_case x = ca_case l \<and> ca_alert x = ca_alert l) (case_alerts d))
     (\<lambda>d. case_exists (ca_tenant l) (ca_case l) d \<and>
        row_exists (\<lambda>a. al_tenant a = ca_tenant l \<and> al_id a = ca_alert l) (alerts d))
     (\<lambda>d. d\<lparr>case_alerts := case_alerts d @ [l]\<rparr>)"

section \<open>Registration\<close>

definition create_tenant :: "string \<Rightarrow> string \<Rightarrow> string \<Rightarrow> datetime \<Rightarrow> unit prog" where
  "create_tenant tenant slug name now = bind (utc_text now) (\<lambda>t.
     insert_tenant \<lparr>t_id = tenant, t_slug = slug, t_name = name, t_status = TenantActive, t_created = t\<rparr>)"

definition active_tenant_ids :: "string list prog" where
  "active_tenant_ids = query (\<lambda>d. order_by id (map t_id (filter (\<lambda>t. t_status t = TenantActive) (tenants d))))"

definition register_device :: "string \<Rightarrow> string \<Rightarrow> string \<Rightarrow> string \<Rightarrow> datetime \<Rightarrow> unit prog" where
  "register_device tenant dev name platform now = bind (utc_text now) (\<lambda>t.
     insert_device \<lparr>dv_tenant = tenant, dv_id = dev, dv_name = name, dv_platform = platform, dv_status = DeviceActive,
       dv_enrolled = Some t, dv_last_seen = Some t, dv_revoked = None\<rparr>)"

definition register_device_credential ::
  "string \<Rightarrow> string \<Rightarrow> string \<Rightarrow> string \<Rightarrow> string \<Rightarrow> string \<Rightarrow> datetime \<Rightarrow> datetime \<Rightarrow> unit prog" where
  "register_device_credential cid tenant dev name ciphertext iv created expires =
     bind (utc_text created) (\<lambda>t. bind (utc_text expires) (\<lambda>u.
     insert_credential \<lparr>dc_id = cid, dc_tenant = tenant, dc_device = dev, dc_name = name, dc_ciphertext = ciphertext,
       dc_iv = iv, dc_created = t, dc_expires = u, dc_last_used = None, dc_revoked = None, dc_activated = Some t\<rparr>))"

section \<open>Ingestion\<close>

definition event_at :: "string \<Rightarrow> string \<Rightarrow> db \<Rightarrow> event_row option" where
  "event_at tenant eid d = List.find (\<lambda>e. ev_tenant e = tenant \<and> ev_id e = eid) (events d)"

definition new_event :: "env \<Rightarrow> pipeline \<Rightarrow> string \<Rightarrow> instant \<Rightarrow> security_event \<Rightarrow> instant \<Rightarrow> event_row" where
  "new_event E L tenant received e occurred = \<lparr>ev_tenant = tenant, ev_id = sv_id e, ev_type = sv_type e,
     ev_occurred = occurred, ev_received = received, ev_actor = sv_actor e, ev_source_ip = sv_source_ip e,
     ev_target = sv_target e, ev_device = sv_device e, ev_payload = canonical_event L e,
     ev_sha256 = sha256_hex E (utf8 (canonical_event L e))\<rparr>"

definition new_job :: "env \<Rightarrow> string \<Rightarrow> instant \<Rightarrow> security_event \<Rightarrow> job_row" where
  "new_job E tenant received e = \<lparr>jb_tenant = tenant, jb_id = job_id_of E tenant (sv_id e), jb_event = sv_id e,
     jb_status = JobPending, jb_attempts = 0, jb_available = received, jb_owner = None, jb_lease_expires = None,
     jb_error = None, jb_created = received, jb_updated = received\<rparr>"

definition ingest_on_connection :: "env \<Rightarrow> pipeline \<Rightarrow> string \<Rightarrow> instant \<Rightarrow> security_event \<Rightarrow> ingest_result prog" where
  "ingest_on_connection E L tenant received e =
     bind (utc_text (sv_timestamp e)) (\<lambda>occurred.
     bind (insert_event (new_event E L tenant received e occurred)) (\<lambda>accepted.
     andthen
       (if accepted then insert_job (new_job E tenant received e)
        else bind (query (event_at tenant (sv_id e))) (\<lambda>existing.
          raise_if (case existing of None \<Rightarrow> True | Some r \<Rightarrow> ev_sha256 r \<noteq> sha256_hex E (utf8 (canonical_event L e)))
            EventIdentityConflict ''event identity already exists with different content''))
       (ret \<lparr>ir_accepted = accepted, ir_event = sv_id e, ir_job = job_id_of E tenant (sv_id e)\<rparr>)))"

definition ingest_event :: "env \<Rightarrow> pipeline \<Rightarrow> string \<Rightarrow> security_event \<Rightarrow> datetime \<Rightarrow> ingest_result prog" where
  "ingest_event E L tenant e received = bind (utc_text received) (\<lambda>t.
     atomically (ingest_on_connection E L tenant t e))"

definition ingest_events :: "env \<Rightarrow> pipeline \<Rightarrow> string \<Rightarrow> security_event list \<Rightarrow> datetime \<Rightarrow> ingest_result list prog" where
  "ingest_events E L tenant es received =
     andthen (raise_if (es = []) ValueError ''event batch must not be empty'')
     (andthen (raise_if (1000 < length es) ValueError ''event batch must contain at most 1000 events'')
     (bind (utc_text received) (\<lambda>t.
      atomically (map_prog (ingest_on_connection E L tenant t) es))))"

definition validated :: "pipeline \<Rightarrow> event_row \<Rightarrow> security_event prog" where
  "validated L r = (case model_validate L (ev_payload r) of Inl msg \<Rightarrow> raise ValueError msg | Inr e \<Rightarrow> ret e)"

definition load_event :: "pipeline \<Rightarrow> string \<Rightarrow> string \<Rightarrow> security_event option prog" where
  "load_event L tenant eid = bind (query (event_at tenant eid)) (\<lambda>row.
     case row of None \<Rightarrow> ret None
     | Some r \<Rightarrow> bind (validated L r) (\<lambda>e. ret (Some e)))"

section \<open>Correlation history\<close>

text \<open>
  SQLite compares \<open>julianday\<close> values; the parameter maps an instant to that value. A window query
  reads everything up to the bound and one more, a predecessor query only the latest row.
\<close>

definition history_window ::
  "pipeline \<Rightarrow> string \<Rightarrow> security_event \<Rightarrow> (event_row \<Rightarrow> bool) \<Rightarrow> instant \<Rightarrow> instant \<Rightarrow> nat \<Rightarrow> db \<Rightarrow> event_row list" where
  "history_window L tenant e same cutoff until n d = take n (order_by (\<lambda>r. (julianday L (ev_occurred r), ev_id r))
     (filter (\<lambda>r. ev_tenant r = tenant \<and> ev_id r \<noteq> sv_id e \<and> same r \<and> ev_type r = sv_type e \<and>
        julianday L cutoff \<le> julianday L (ev_occurred r) \<and> julianday L (ev_occurred r) \<le> julianday L until) (events d)))"

definition history_previous ::
  "pipeline \<Rightarrow> string \<Rightarrow> security_event \<Rightarrow> (event_row \<Rightarrow> bool) \<Rightarrow> instant \<Rightarrow> db \<Rightarrow> event_row list" where
  "history_previous L tenant e same until d = take 1 (order_by_desc (\<lambda>r. (julianday L (ev_occurred r), ev_id r))
     (filter (\<lambda>r. ev_tenant r = tenant \<and> ev_id r \<noteq> sv_id e \<and> same r \<and> ev_type r = sv_type e \<and>
        julianday L (ev_occurred r) < julianday L until) (events d)))"

definition bounded_history :: "pipeline \<Rightarrow> nat \<Rightarrow> event_row list \<Rightarrow> security_event list prog" where
  "bounded_history L limit rows =
     andthen (raise_if (limit < length rows) RuntimeError ''correlation history exceeds the safe 10000-event bound'')
     (map_prog (validated L) rows)"

definition correlation_cutoff :: "security_event \<Rightarrow> string \<Rightarrow> datetime prog" where
  "correlation_cutoff e contract =
     (case stateful_correlation_for_event (sv_type e) of
        None \<Rightarrow> raise RuntimeError (contract @ '' correlation contract is incomplete'')
      | Some spec \<Rightarrow> (case sc_window_minutes spec of
          None \<Rightarrow> raise RuntimeError (contract @ '' correlation contract is incomplete'')
        | Some m \<Rightarrow> ret (window_start e m)))"

definition has_source :: "security_event \<Rightarrow> bool" where
  "has_source e \<longleftrightarrow> sv_source_ip e \<noteq> None \<and> sv_source_ip e \<noteq> Some []"

definition load_detection_history :: "pipeline \<Rightarrow> string \<Rightarrow> security_event \<Rightarrow> int \<Rightarrow> security_event list prog" where
  "load_detection_history L tenant e limit =
     andthen (raise_if (limit < 1 \<or> 10000 < limit) ValueError ''correlation history limit must be between 1 and 10000'')
     (if sv_type e = ''sensitive_data_access'' then
        bind (correlation_cutoff e ''bulk-access'') (\<lambda>cutoff.
        bind (utc_text cutoff) (\<lambda>from.
        bind (utc_text (sv_timestamp e)) (\<lambda>until.
        bind (query (history_window L tenant e (\<lambda>r. ev_actor r = sv_actor e) from until (nat limit + 1)))
          (bounded_history L (nat limit)))))
      else if sv_type e = ''authentication_success'' then
        bind (utc_text (sv_timestamp e)) (\<lambda>until.
        bind (query (history_previous L tenant e (\<lambda>r. ev_actor r = sv_actor e) until)) (map_prog (validated L)))
      else if sv_type e = ''edge_auth_failure'' \<and> has_source e then
        bind (correlation_cutoff e ''credential-stuffing'') (\<lambda>cutoff.
        bind (utc_text cutoff) (\<lambda>from.
        bind (utc_text (sv_timestamp e)) (\<lambda>until.
        bind (query (history_window L tenant e (\<lambda>r. ev_source_ip r = sv_source_ip e) from until (nat limit + 1)))
          (bounded_history L (nat limit)))))
      else if sv_type e = ''edge_session_use'' then
        (case session_hash e of
           None \<Rightarrow> ret []
         | Some h \<Rightarrow>
             bind (correlation_cutoff e ''session-replay'') (\<lambda>cutoff.
             bind (utc_text cutoff) (\<lambda>from.
             bind (utc_text (sv_timestamp e)) (\<lambda>until.
             bind (query (history_previous L tenant e (\<lambda>r. json_session_hash L (ev_payload r) = Some h \<and>
               julianday L from \<le> julianday L (ev_occurred r)) until)) (map_prog (validated L))))))
      else ret [])"

section \<open>Alerts and cases\<close>

record rule_book =
  rb_versions :: "string \<Rightarrow> string option"
  rb_digests :: "string \<Rightarrow> string option"
  rb_snapshots :: "string \<Rightarrow> string option"
  rb_detector :: string

fun case_priority :: "severity \<Rightarrow> priority" where
  "case_priority SevCritical = PrioCritical"
| "case_priority SevHigh = PrioHigh"
| "case_priority SevMedium = PrioMedium"
| "case_priority SevLow = PrioLow"
| "case_priority Informational = PrioLow"

definition case_semantic_key :: "env \<Rightarrow> string \<Rightarrow> string \<Rightarrow> string option \<Rightarrow> string \<Rightarrow> string" where
  "case_semantic_key E tenant rule dev actor =
     (let entity = (case dev of Some v \<Rightarrow> [JStr ''device'', JStr v] | None \<Rightarrow> [JStr ''actor'', JStr (casefold actor)]) in
      sha256_hex E (utf8 (dumps False (JList [JStr ''controlforge-case'', JInt 1, JStr tenant, JStr rule, JList entity]))))"

definition promote :: "priority \<Rightarrow> priority \<Rightarrow> priority" where
  "promote old new =
     (if old = PrioCritical \<or> new = PrioCritical then PrioCritical
      else if old = PrioHigh \<or> new = PrioHigh then PrioHigh
      else if old = PrioMedium \<or> new = PrioMedium then PrioMedium else PrioLow)"

definition alert_row_of :: "rule_book \<Rightarrow> string \<Rightarrow> event_row \<Rightarrow> detection_alert \<Rightarrow> instant \<Rightarrow> alert_row" where
  "alert_row_of B tenant ev a created =
     (let version = (case rb_versions B (at_rule a) of Some v \<Rightarrow> v | None \<Rightarrow> ''stateful-v1'') in
      \<lparr>al_tenant = tenant, al_id = at_id a, al_event = ev_id ev, al_rule = at_rule a, al_rule_version = version,
       al_rule_digest = (case rb_digests B (at_rule a) of Some g \<Rightarrow> g
         | None \<Rightarrow> ''builtin:'' @ at_rule a @ '':'' @ version),
       al_rule_snapshot = (case rb_snapshots B (at_rule a) of Some p \<Rightarrow> p | None \<Rightarrow> ''{}''),
       al_fingerprint_version = ''legacy-local-v0'', al_detector_version = rb_detector B, al_title = at_title a,
       al_severity = at_severity a, al_actor = at_actor a,
       al_reasons = dumps True (JList (map JStr (at_reasons a))), al_tags = dumps True (JList (map JStr (at_tags a))),
       al_evidence = dumps True (JObj [(''source_event_id'', JStr (ev_id ev)), (''source_event_sha256'', JStr (ev_sha256 ev)),
         (''matched_evidence'', JList (map JStr (at_reasons a)))]),
       al_created = created\<rparr>)"

definition new_case :: "env \<Rightarrow> string \<Rightarrow> string \<Rightarrow> detection_alert \<Rightarrow> instant \<Rightarrow> case_row" where
  "new_case E tenant key a t = \<lparr>cs_tenant = tenant,
     cs_id = take 32 (sha256_hex E (utf8 (tenant @ '':case:'' @ at_id a))), cs_title = at_title a,
     cs_priority = case_priority (at_severity a), cs_status = CaseOpen, cs_assignee = None, cs_opened = t, cs_updated = t,
     cs_closed = None, cs_version = 1, cs_cycle = 1, cs_semantic_key = Some key\<rparr>"

definition bump_case :: "instant \<Rightarrow> priority \<Rightarrow> case_row \<Rightarrow> case_row" where
  "bump_case t p x = x\<lparr>cs_updated := t, cs_version := cs_version x + 1, cs_priority := promote (cs_priority x) p\<rparr>"

definition attach_case :: "env \<Rightarrow> string \<Rightarrow> string \<Rightarrow> detection_alert \<Rightarrow> instant \<Rightarrow> unit prog" where
  "attach_case E tenant key a t =
     bind (insert_case (new_case E tenant key a t)) (\<lambda>opened.
     bind (query (\<lambda>d. List.find (open_semantic tenant (Some key)) (cases d))) (\<lambda>active.
     case active of None \<Rightarrow> raise RuntimeError ''active semantic case was not persisted''
     | Some c \<Rightarrow>
         andthen (insert_case_alert \<lparr>ca_tenant = tenant, ca_case = cs_id c, ca_alert = at_id a, ca_linked = t\<rparr>)
         (if opened then ret () else
            andthen (update_rows cases cases_update no_trigger (\<lambda>x. cs_tenant x = tenant \<and> cs_id x = cs_id c)
              (bump_case t (case_priority (at_severity a)))) (ret ()))))"

definition persist_alert :: "env \<Rightarrow> rule_book \<Rightarrow> string \<Rightarrow> event_row \<Rightarrow> instant \<Rightarrow> detection_alert \<Rightarrow> nat prog" where
  "persist_alert E B tenant ev t a =
     andthen (raise_if (at_event a \<noteq> ev_id ev) ValueError ''alert source event does not match the leased job'')
     (bind (utc_text (at_created a)) (\<lambda>created.
      bind (insert_alert (alert_row_of B tenant ev a created)) (\<lambda>inserted.
      if \<not> inserted then ret 0
      else andthen (attach_case E tenant (case_semantic_key E tenant (at_rule a) (ev_device ev) (at_actor a)) a t) (ret 1))))"

definition job_at :: "string \<Rightarrow> string \<Rightarrow> db \<Rightarrow> job_row option" where
  "job_at tenant job d = List.find (\<lambda>j. jb_tenant j = tenant \<and> jb_id j = job) (detection_jobs d)"

definition job_join :: "string \<Rightarrow> string \<Rightarrow> db \<Rightarrow> (job_row \<times> event_row) option" where
  "job_join tenant job d = (case job_at tenant job d of None \<Rightarrow> None
     | Some j \<Rightarrow> map_option (Pair j) (event_at tenant (jb_event j) d))"

definition owns_lease :: "string \<Rightarrow> instant \<Rightarrow> job_row \<Rightarrow> bool" where
  "owns_lease worker t j \<longleftrightarrow> jb_status j = JobLeased \<and> jb_owner j = Some worker \<and>
     (case jb_lease_expires j of None \<Rightarrow> True | Some x \<Rightarrow> t < x)"

definition succeed_job :: "instant \<Rightarrow> job_row \<Rightarrow> job_row" where
  "succeed_job t j = j\<lparr>jb_status := JobSucceeded, jb_owner := None, jb_lease_expires := None, jb_error := None, jb_updated := t\<rparr>"

definition persist_alerts_and_complete_job ::
  "env \<Rightarrow> rule_book \<Rightarrow> string \<Rightarrow> string \<Rightarrow> string \<Rightarrow> detection_alert list \<Rightarrow> datetime \<Rightarrow> persistence_result prog" where
  "persist_alerts_and_complete_job E B tenant job worker as now = bind (utc_text now) (\<lambda>t.
     atomically (bind (query (job_join tenant job)) (\<lambda>row.
       case row of None \<Rightarrow> raise LeaseOwnershipError ''worker does not own a current job lease''
       | Some (j, ev) \<Rightarrow>
           andthen (raise_if (\<not> owns_lease worker t j) LeaseOwnershipError ''worker does not own a current job lease'')
           (bind (map_prog (persist_alert E B tenant ev t) as) (\<lambda>counts.
            andthen (update_rows detection_jobs detection_jobs_update no_trigger
              (\<lambda>x. jb_tenant x = tenant \<and> jb_id x = job) (succeed_job t))
            (ret \<lparr>ps_inserted = sum_list counts, ps_status = JobSucceeded\<rparr>))))))"

section \<open>The job queue\<close>

definition ready :: "string \<Rightarrow> instant \<Rightarrow> job_row \<Rightarrow> bool" where
  "ready tenant t j \<longleftrightarrow> jb_tenant j = tenant \<and>
     ((jb_status j = JobPending \<or> jb_status j = JobRetry) \<and> jb_available j \<le> t \<or>
      jb_status j = JobLeased \<and> (case jb_lease_expires j of None \<Rightarrow> False | Some x \<Rightarrow> x \<le> t))"

definition ready_jobs :: "string \<Rightarrow> instant \<Rightarrow> nat \<Rightarrow> db \<Rightarrow> string list" where
  "ready_jobs tenant t n d = map (\<lambda>(j, e). jb_id j) (take n
     (order_by (\<lambda>(j, e). (ev_occurred e, ev_received e, jb_created j, jb_id j))
       (List.map_filter (\<lambda>j. map_option (Pair j) (event_at tenant (jb_event j) d)) (filter (ready tenant t) (detection_jobs d)))))"

definition lease_row :: "string \<Rightarrow> instant \<Rightarrow> instant \<Rightarrow> job_row \<Rightarrow> job_row" where
  "lease_row worker t expires j = j\<lparr>jb_status := JobLeased, jb_attempts := jb_attempts j + 1, jb_owner := Some worker,
     jb_lease_expires := Some expires, jb_updated := t\<rparr>"

definition lease_one :: "string \<Rightarrow> string \<Rightarrow> instant \<Rightarrow> instant \<Rightarrow> string \<Rightarrow> unit prog" where
  "lease_one tenant worker t expires job = andthen (update_rows detection_jobs detection_jobs_update no_trigger
     (\<lambda>j. jb_tenant j = tenant \<and> jb_id j = job) (lease_row worker t expires)) (ret ())"

definition lease_of :: "job_row \<Rightarrow> job_lease prog" where
  "lease_of j = (case jb_lease_expires j of None \<Rightarrow> raise ValueError (''Invalid isoformat string: '' @ [CHR 0x27] @ ''None'' @ [CHR 0x27])
     | Some x \<Rightarrow> ret \<lparr>jl_tenant = jb_tenant j, jl_job = jb_id j, jl_event = jb_event j, jl_attempts = jb_attempts j,
         jl_owner = (case jb_owner j of None \<Rightarrow> ''None'' | Some v \<Rightarrow> v), jl_expires = x\<rparr>)"

definition lease_jobs :: "string \<Rightarrow> string \<Rightarrow> int \<Rightarrow> datetime \<Rightarrow> int \<Rightarrow> job_lease list prog" where
  "lease_jobs tenant worker limit now lease_seconds =
     andthen (raise_if (worker = [] \<or> 128 < length worker) ValueError ''worker_id must contain between 1 and 128 characters'')
     (andthen (raise_if (limit < 1 \<or> 100 < limit) ValueError ''lease limit must be between 1 and 100'')
     (andthen (raise_if (lease_seconds < 5 \<or> 3600 < lease_seconds) ValueError ''lease_seconds must be between 5 and 3600'')
     (bind (utc_text now) (\<lambda>t.
      bind (utc_text (datetime_add now (seconds lease_seconds))) (\<lambda>expires.
      bind (atomically (
        bind (query (ready_jobs tenant t (nat limit))) (\<lambda>ids.
        andthen (for_each (lease_one tenant worker t expires) ids)
        (map_prog (\<lambda>job. query (job_at tenant job)) ids)))) (\<lambda>rows.
      map_prog lease_of (List.map_filter id rows)))))))"

definition settle_row :: "job_status \<Rightarrow> instant \<Rightarrow> string option \<Rightarrow> instant \<Rightarrow> job_row \<Rightarrow> job_row" where
  "settle_row status available err t j = j\<lparr>jb_status := status, jb_available := available, jb_owner := None,
     jb_lease_expires := None, jb_error := err, jb_updated := t\<rparr>"

definition transition_owned_job ::
  "string \<Rightarrow> string \<Rightarrow> string \<Rightarrow> datetime \<Rightarrow> bool \<Rightarrow> string option \<Rightarrow> int \<Rightarrow> int \<Rightarrow> job_transition prog" where
  "transition_owned_job tenant job worker now succeeded err max_attempts delay = bind (utc_text now) (\<lambda>t.
     atomically (bind (query (job_at tenant job)) (\<lambda>row.
       case row of None \<Rightarrow> ret \<lparr>jt_changed = False, jt_status = JobDead, jt_attempts = 0\<rparr>
       | Some j \<Rightarrow>
         if jb_status j \<noteq> JobLeased \<or> jb_owner j \<noteq> Some worker
         then ret \<lparr>jt_changed = False, jt_status = jb_status j, jt_attempts = jb_attempts j\<rparr>
         else
           bind (if succeeded then ret (JobSucceeded, t, None)
             else if max_attempts \<le> jb_attempts j then ret (JobDead, t, err)
             else bind (utc_text (datetime_add now (seconds delay))) (\<lambda>u. ret (JobRetry, u, err))) (\<lambda>(status, available, stored).
           andthen (update_rows detection_jobs detection_jobs_update no_trigger
             (\<lambda>x. jb_tenant x = tenant \<and> jb_id x = job) (settle_row status available stored t))
           (ret \<lparr>jt_changed = True, jt_status = status, jt_attempts = jb_attempts j\<rparr>)))))"

definition complete_job :: "string \<Rightarrow> string \<Rightarrow> string \<Rightarrow> datetime \<Rightarrow> job_transition prog" where
  "complete_job tenant job worker now = transition_owned_job tenant job worker now True None 1 0"

definition fail_job :: "string \<Rightarrow> string \<Rightarrow> string \<Rightarrow> datetime \<Rightarrow> string \<Rightarrow> int \<Rightarrow> int \<Rightarrow> job_transition prog" where
  "fail_job tenant job worker now err max_attempts delay =
     andthen (raise_if (max_attempts < 1 \<or> 100 < max_attempts) ValueError ''max_attempts must be between 1 and 100'')
     (andthen (raise_if (delay < 0 \<or> 86400 < delay) ValueError ''retry_delay_seconds must be between 0 and 86400'')
     (transition_owned_job tenant job worker now False (Some (take 1000 err)) max_attempts delay))"

definition job_status_of :: "string \<Rightarrow> string \<Rightarrow> job_status option prog" where
  "job_status_of tenant job = query (\<lambda>d. map_option jb_status (job_at tenant job d))"

definition job_counts :: "string \<Rightarrow> (job_status \<Rightarrow> nat) prog" where
  "job_counts tenant = query (\<lambda>d s. row_count (\<lambda>j. jb_tenant j = tenant \<and> jb_status j = s) (detection_jobs d))"

section \<open>What ingestion does\<close>

lemma wp_insert_or_ignore [wp_rules]:
  "wp (insert_or_ignore dup ok f) Q Er w =
     ((dup (tables w) \<longrightarrow> Q False w) \<and>
      (\<not> dup (tables w) \<longrightarrow> (ok (tables w) \<longrightarrow> Q True (w\<lparr>tables := f (tables w)\<rparr>)) \<and>
         (\<not> ok (tables w) \<longrightarrow> Er (IntegrityError, ''constraint failed'') w)))"
  by (simp add: insert_or_ignore_def wp_rules)

lemma wp_ret_fun: "wp (ret x) Q Er = Q x"
  by (rule ext) (simp add: wp_ret)

lemma wp_andthen_fun: "wp (andthen m k) Q Er = wp m (\<lambda>_. wp k Q Er) Er"
  by (rule ext) (simp add: wp_andthen)

lemmas wp_funs = wp_ret_fun wp_andthen_fun

lemma keeps_insert_or_ignore [keeps_rules]:
  "(\<And>d. I d \<Longrightarrow> \<not> dup d \<Longrightarrow> ok d \<Longrightarrow> I (f d)) \<Longrightarrow> keeps I (insert_or_ignore dup ok f)"
  by (rule wp_keepsI) (simp add: wp_rules)

lemmas commits_insert_or_ignore [commits_rules] = keeps_commits [OF keeps_insert_or_ignore]

lemma event_exists_iff: "event_exists tenant eid d \<longleftrightarrow> (\<exists>r. event_at tenant eid d = Some r)"
  using find_None_iff_row [of "\<lambda>e. ev_tenant e = tenant \<and> ev_id e = eid" "events d"]
  by (auto simp: event_exists_def event_at_def row_exists_iff)

lemma find_append_cases:
  "List.find P (xs @ ys) = (case List.find P xs of Some x \<Rightarrow> Some x | None \<Rightarrow> List.find P ys)"
  by (induction xs) auto

lemma event_at_append [simp]:
  "event_at tenant eid (d\<lparr>events := events d @ rows, detection_jobs := js\<rparr>) =
    (case event_at tenant eid d of Some r \<Rightarrow> Some r | None \<Rightarrow> List.find (\<lambda>e. ev_tenant e = tenant \<and> ev_id e = eid) rows)"
  by (simp add: event_at_def find_append_cases)

definition digest_of :: "env \<Rightarrow> pipeline \<Rightarrow> security_event \<Rightarrow> string" where
  "digest_of E L e = sha256_hex E (utf8 (canonical_event L e))"

text \<open>An event is held when its identity is stored with its content.\<close>

definition holds_event :: "env \<Rightarrow> pipeline \<Rightarrow> string \<Rightarrow> security_event \<Rightarrow> db \<Rightarrow> bool" where
  "holds_event E L tenant e d \<longleftrightarrow> (\<exists>t. sv_timestamp e = Aware t) \<and>
     (\<exists>r. event_at tenant (sv_id e) d = Some r \<and> ev_sha256 r = digest_of E L e)"

definition adds_event :: "env \<Rightarrow> pipeline \<Rightarrow> string \<Rightarrow> instant \<Rightarrow> security_event \<Rightarrow> db \<Rightarrow> db \<Rightarrow> bool" where
  "adds_event E L tenant received e d d' \<longleftrightarrow> (\<exists>t. sv_timestamp e = Aware t \<and> \<not> event_exists tenant (sv_id e) d \<and>
     \<not> row_exists (\<lambda>x. jb_tenant x = tenant \<and> (jb_id x = job_id_of E tenant (sv_id e) \<or> jb_event x = sv_id e)) (detection_jobs d) \<and>
     d' = d\<lparr>events := events d @ [new_event E L tenant received e t],
       detection_jobs := detection_jobs d @ [new_job E tenant received e]\<rparr>)"

lemma ingest_on_connection_wp:
  "wp (ingest_on_connection E L tenant received e)
     (\<lambda>r w'. ir_event r = sv_id e \<and> ir_job r = job_id_of E tenant (sv_id e) \<and> holds_event E L tenant e (tables w') \<and>
        (if ir_accepted r then adds_event E L tenant received e (tables w) (tables w')
         else tables w' = tables w))
     (\<lambda>_ _. True) w"
  by (auto simp: ingest_on_connection_def wp_rules insert_event_def insert_job_def holds_event_def digest_of_def
      adds_event_def event_exists_iff new_event_def new_job_def split: datetime.splits option.splits)

text \<open>A batch is a sequence of such steps.\<close>

lemma holds_event_mono:
  "adds_event E L tenant received e d d' \<Longrightarrow> holds_event E L tn x d \<Longrightarrow> holds_event E L tn x d'"
  by (auto simp: adds_event_def holds_event_def)

lemma adds_event_jobs:
  "adds_event E L tenant received e d d' \<Longrightarrow> new_job E tenant received e \<in> set (detection_jobs d')"
  "adds_event E L tenant received e d d' \<Longrightarrow> j \<in> set (detection_jobs d) \<Longrightarrow> j \<in> set (detection_jobs d')"
  by (auto simp: adds_event_def)

definition ingested :: "env \<Rightarrow> pipeline \<Rightarrow> string \<Rightarrow> instant \<Rightarrow> security_event \<Rightarrow> ingest_result \<Rightarrow> db \<Rightarrow> bool" where
  "ingested E L tenant received e r d \<longleftrightarrow> ir_event r = sv_id e \<and> holds_event E L tenant e d \<and>
     (ir_accepted r \<longrightarrow> new_job E tenant received e \<in> set (detection_jobs d))"

lemma ingest_batch_wp:
  "wp (map_prog (ingest_on_connection E L tenant received) es)
     (\<lambda>rs w'. list_all2 (\<lambda>e r. ingested E L tenant received e r (tables w')) es rs)
     (\<lambda>_ _. True) w"
proof (rule wp_mono [OF wp_map_prog_collect [where J = "\<lambda>_. True" and R = "ingested E L tenant received"]])
  fix e v
  show "wp (ingest_on_connection E L tenant received e)
     (\<lambda>r v'. True \<and> ingested E L tenant received e r (tables v') \<and>
       (\<forall>x r. ingested E L tenant received x r (tables v) \<longrightarrow> ingested E L tenant received x r (tables v'))) (\<lambda>_ _. True) v"
    by (rule wp_mono [OF ingest_on_connection_wp])
      (auto simp: ingested_def split: if_splits intro: adds_event_jobs dest: holds_event_mono)
qed auto

lemma ingest_held:
  assumes "holds_event E L tenant e (tables w)"
  shows "ingest_on_connection E L tenant received e w =
    (Inr \<lparr>ir_accepted = False, ir_event = sv_id e, ir_job = job_id_of E tenant (sv_id e)\<rparr>, w)"
  using assms
  by (auto simp: holds_event_def ingest_on_connection_def bind_apply andthen_def utc_text_def ret_def insert_event_def
      insert_or_ignore_def query_run event_exists_iff raise_if_def digest_of_def new_event_def)

lemma ingest_held_batch:
  assumes "\<forall>e \<in> set es. holds_event E L tenant e (tables w)"
  shows "map_prog (ingest_on_connection E L tenant received) es w =
    (Inr (map (\<lambda>e. \<lparr>ir_accepted = False, ir_event = sv_id e, ir_job = job_id_of E tenant (sv_id e)\<rparr>) es), w)"
  using assms by (induction es) (simp_all add: bind_apply ret_def ingest_held)

text \<open>
  C14. Ingestion is all or nothing and idempotent. A batch that is refused leaves every table as it was.
  After a batch is accepted every one of its events is stored with its content, the results name the
  events in order, every event that is new has its pending detection job, and sending the same batch
  again (in particular after a lost answer) succeeds, reports every event as a duplicate and changes
  nothing.
\<close>

theorem ingest_idempotent:
  assumes "ingest_events E L tenant es received w = (r, w')"
  shows "case r of
      Inl e \<Rightarrow> tables w' = tables w
    | Inr rs \<Rightarrow> (\<exists>t. received = Aware t \<and> list_all2 (\<lambda>e r. ingested E L tenant t e r (tables w')) es rs) \<and>
        ingest_events E L tenant es (Aware again) w' =
          (Inr (map (\<lambda>e. \<lparr>ir_accepted = False, ir_event = sv_id e, ir_job = job_id_of E tenant (sv_id e)\<rparr>) es), w'\<lparr>in_tx := False\<rparr>)"
proof (cases r)
  case (Inl e)
  have "wp (ingest_events E L tenant es received) (\<lambda>_ _. True) (\<lambda>_ w'. tables w' = tables w) w"
    by (auto simp: ingest_events_def wp_rules split: datetime.splits intro!: wpI)
  with assms Inl show ?thesis by (simp add: wp_def)
next
  case (Inr rs)
  have wp: "wp (ingest_events E L tenant es received) (\<lambda>rs w'. es \<noteq> [] \<and> length es \<le> 1000 \<and> (\<exists>t. received = Aware t \<and>
      list_all2 (\<lambda>e r. ingested E L tenant t e r (tables w')) es rs)) (\<lambda>_ _. True) w"
    by (auto simp: ingest_events_def wp_rules split: datetime.splits intro!: wp_mono [OF ingest_batch_wp])
  obtain t where all: "es \<noteq> []" "length es \<le> 1000" "received = Aware t" "list_all2 (\<lambda>e r. ingested E L tenant t e r (tables w')) es rs"
    using wp_Inr [OF wp, of rs w'] assms Inr by auto
  have "\<forall>e \<in> set es. holds_event E L tenant e (tables w')"
    using all(4) by (auto simp: list_all2_conv_all_nth in_set_conv_nth ingested_def)
  then show ?thesis
    using all Inr ingest_held_batch [of es E L tenant "w'\<lparr>in_tx := True\<rparr>" again]
    by (simp add: ingest_events_def andthen_def bind_apply raise_if_def ret_def utc_text_def atomically_def)
qed

section \<open>The job queue as a state machine\<close>

definition job_key :: "job_row \<Rightarrow> string \<times> string" where
  "job_key j = (jb_tenant j, jb_id j)"

definition job_event_key :: "job_row \<Rightarrow> string \<times> string" where
  "job_event_key j = (jb_tenant j, jb_event j)"

definition event_key :: "event_row \<Rightarrow> string \<times> string" where
  "event_key e = (ev_tenant e, ev_id e)"

definition job_ok :: "job_row \<Rightarrow> bool" where
  "job_ok j \<longleftrightarrow> (jb_status j = JobLeased \<longleftrightarrow> jb_owner j \<noteq> None) \<and> (jb_owner j \<noteq> None \<longleftrightarrow> jb_lease_expires j \<noteq> None) \<and>
     (if jb_status j = JobPending then jb_attempts j = 0 else 1 \<le> jb_attempts j)"

text \<open>Every job has its event and no event has two jobs (retention may remove a settled job and keep its event).\<close>

definition queue_inv :: "db \<Rightarrow> bool" where
  "queue_inv d \<longleftrightarrow> key_unique job_key (detection_jobs d) \<and> key_unique job_event_key (detection_jobs d) \<and>
     key_unique event_key (events d) \<and> job_event_key ` set (detection_jobs d) \<subseteq> event_key ` set (events d) \<and>
     (\<forall>j \<in> set (detection_jobs d). job_ok j)"

lemma queue_inv_empty: "queue_inv empty_db"
  by (simp add: queue_inv_def empty_db_def)

text \<open>The steps of one job: a worker claims it when it is due, and the owner of the lease settles it.\<close>

inductive job_step :: "job_row \<Rightarrow> job_row \<Rightarrow> bool" where
  claimed: "ready (jb_tenant j) t j \<Longrightarrow> t < x \<Longrightarrow> job_step j (lease_row worker t x j)"
| succeeded: "jb_status j = JobLeased \<Longrightarrow> job_step j (succeed_job t j)"
| settled: "jb_status j = JobLeased \<Longrightarrow> s \<in> {JobSucceeded, JobRetry, JobDead} \<Longrightarrow> job_step j (settle_row s u err t j)"

lemmas job_row_defs = lease_row_def succeed_job_def settle_row_def

interpretation job_lease: keyed_update job_key "lease_row worker t x"
  by unfold_locales (simp add: job_key_def job_row_defs)

interpretation job_success: keyed_update job_key "succeed_job t"
  by unfold_locales (simp add: job_key_def job_row_defs)

interpretation job_settle: keyed_update job_key "settle_row s u err t"
  by unfold_locales (simp add: job_key_def job_row_defs)

lemma job_step_facts:
  assumes "job_step j j'"
  shows "job_key j' = job_key j" "job_event_key j' = job_event_key j" "jb_created j' = jb_created j"
    "jb_status j \<notin> {JobSucceeded, JobDead}" "job_ok j \<Longrightarrow> job_ok j'"
    "jb_attempts j \<le> jb_attempts j'" "jb_status j' \<noteq> JobPending"
  using assms
  by (cases; auto simp: job_key_def job_event_key_def job_row_defs ready_def job_ok_def split: if_splits)+

text \<open>
  An operation of the queue rewrites the jobs it selects, each by a step, and appends jobs that are
  pending.
\<close>

definition queue_moves :: "(job_row \<Rightarrow> bool) \<Rightarrow> (job_row \<Rightarrow> job_row) \<Rightarrow> db \<Rightarrow> db \<Rightarrow> bool" where
  "queue_moves P f d d' \<longleftrightarrow> detection_jobs d' = update_where P f (detection_jobs d) \<and> events d' = events d \<and>
     (\<forall>j \<in> set (detection_jobs d). P j \<longrightarrow> job_step j (f j))"

lemma queue_moves_keys:
  assumes "queue_moves P f d d'"
  shows "map job_key (detection_jobs d') = map job_key (detection_jobs d)"
    "map job_event_key (detection_jobs d') = map job_event_key (detection_jobs d)"
  using assms job_step_facts(1,2) by (auto simp: queue_moves_def update_where_def)

lemma queue_moves_inv:
  assumes moves: "queue_moves P f d d'" and inv: "queue_inv d"
  shows "queue_inv d'"
proof -
  have "job_event_key ` set (detection_jobs d') = job_event_key ` set (detection_jobs d)"
    using arg_cong [OF queue_moves_keys(2) [OF moves], of set] by simp
  moreover have "job_ok j" if "j \<in> set (detection_jobs d')" for j
    using that moves inv job_step_facts(5) by (auto simp: queue_moves_def queue_inv_def set_update_where split: if_splits)
  ultimately show ?thesis
    using inv queue_moves_keys [OF moves] moves by (simp add: queue_inv_def key_unique_def queue_moves_def)
qed

lemma new_row_keys [simp]:
  "event_key (new_event E L tenant received e t) = (tenant, sv_id e)"
  "job_key (new_job E tenant received e) = (tenant, job_id_of E tenant (sv_id e))"
  "job_event_key (new_job E tenant received e) = (tenant, sv_id e)"
  "job_ok (new_job E tenant received e)"
  by (simp_all add: new_event_def new_job_def event_key_def job_key_def job_event_key_def job_ok_def)

lemma adds_event_inv:
  assumes "adds_event E L tenant received e d d'" "queue_inv d"
  shows "queue_inv d'"
proof -
  have "(tenant, sv_id e) \<notin> event_key ` set (events d)" "(tenant, sv_id e) \<notin> job_event_key ` set (detection_jobs d)"
    "(tenant, job_id_of E tenant (sv_id e)) \<notin> job_key ` set (detection_jobs d)"
    using assms(1) by (auto simp: adds_event_def event_exists_def row_exists_iff event_key_def job_event_key_def job_key_def)
  then show ?thesis using assms unfolding adds_event_def queue_inv_def by (elim exE conjE) (simp, blast)
qed

text \<open>The history of every job: what became of it, and that new jobs start pending.\<close>

definition queue_history :: "db \<Rightarrow> db \<Rightarrow> bool" where
  "queue_history d d' \<longleftrightarrow> (\<forall>j \<in> set (detection_jobs d). \<exists>j' \<in> set (detection_jobs d'). job_step\<^sup>*\<^sup>* j j') \<and>
     (\<forall>j' \<in> set (detection_jobs d'). \<exists>j. job_step\<^sup>*\<^sup>* j j' \<and>
        (j \<in> set (detection_jobs d) \<or> jb_status j = JobPending \<and> jb_attempts j = 0))"

lemma queue_history_refl [simp]: "queue_history d d"
  by (auto simp: queue_history_def)

lemma queue_history_trans:
  assumes "queue_history d d'" "queue_history d' d''"
  shows "queue_history d d''"
  using assms unfolding queue_history_def by (meson rtranclp_trans)

lemma queue_history_jobs: "detection_jobs d' = detection_jobs d \<Longrightarrow> queue_history d d'"
  by (auto simp: queue_history_def)

lemma queue_moves_history:
  assumes "queue_moves P f d d'"
  shows "queue_history d d'"
proof -
  have step: "job_step\<^sup>*\<^sup>* j (if P j then f j else j)" if "j \<in> set (detection_jobs d)" for j
    using assms that by (auto simp: queue_moves_def)
  have rows: "set (detection_jobs d') = (\<lambda>j. if P j then f j else j) ` set (detection_jobs d)"
    using assms by (simp add: queue_moves_def set_update_where)
  show ?thesis unfolding queue_history_def rows ball_simps bex_simps using step by blast
qed

lemma adds_event_history: "adds_event E L tenant received e d d' \<Longrightarrow> queue_history d d'"
  by (auto simp: adds_event_def queue_history_def new_job_def)

section \<open>What the operations of the queue do\<close>

lemma job_at_SomeD: "job_at tenant job d = Some j \<Longrightarrow> j \<in> set (detection_jobs d) \<and> job_key j = (tenant, job)"
  by (auto simp: job_at_def job_key_def dest: find_SomeD)

lemma job_at_key: "job_at tenant job d = List.find (\<lambda>j. job_key j = (tenant, job)) (detection_jobs d)"
  by (simp add: job_at_def job_key_def)

lemma job_selected:
  assumes "queue_inv d" "job_at tenant job d = Some j" "x \<in> set (detection_jobs d)"
  shows "jb_tenant x = tenant \<and> jb_id x = job \<longleftrightarrow> x = j"
  using assms key_unique_eq [of job_key "detection_jobs d" x j] job_at_SomeD [OF assms(2)]
  by (auto simp: queue_inv_def job_key_def)

lemma update_where_cong: "(\<And>r. r \<in> set rows \<Longrightarrow> P r = Q r) \<Longrightarrow> update_where P f rows = update_where Q f rows"
  by (induction rows) auto

lemma update_selected:
  assumes "queue_inv d" "job_at tenant job d = Some j"
  shows "update_where (\<lambda>x. jb_tenant x = tenant \<and> jb_id x = job) f (detection_jobs d) = update_where (\<lambda>x. x = j) f (detection_jobs d)"
  by (rule update_where_cong) (simp add: job_selected [OF assms])

definition settlement :: "bool \<Rightarrow> instant \<Rightarrow> string option \<Rightarrow> int \<Rightarrow> int \<Rightarrow> job_row \<Rightarrow> job_status \<times> instant \<times> string option" where
  "settlement succeeded t err max_attempts delay j =
     (if succeeded then (JobSucceeded, t, None)
      else if max_attempts \<le> jb_attempts j then (JobDead, t, err) else (JobRetry, t + seconds delay, err))"

definition settles :: "job_status \<times> instant \<times> string option \<Rightarrow> instant \<Rightarrow> job_row \<Rightarrow> db \<Rightarrow> db \<Rightarrow> bool" where
  "settles s t j d d' \<longleftrightarrow> jb_status j = JobLeased \<and> d' = d\<lparr>detection_jobs :=
     update_where (\<lambda>x. x = j) (settle_row (fst s) (fst (snd s)) (snd (snd s)) t) (detection_jobs d)\<rparr>"

definition owned_by :: "string \<Rightarrow> job_row \<Rightarrow> bool" where
  "owned_by worker j \<longleftrightarrow> jb_status j = JobLeased \<and> jb_owner j = Some worker"

lemma transition_owned_job_wp:
  assumes "queue_inv (tables w)"
  shows "wp (transition_owned_job tenant job worker now succeeded err max_attempts delay)
     (\<lambda>r w'. \<exists>t. now = Aware t \<and> (case job_at tenant job (tables w) of
          None \<Rightarrow> tables w' = tables w \<and> \<not> jt_changed r
        | Some j \<Rightarrow> if owned_by worker j
            then jt_changed r \<and> jt_status r = fst (settlement succeeded t err max_attempts delay j) \<and>
              settles (settlement succeeded t err max_attempts delay j) t j (tables w) (tables w')
            else tables w' = tables w \<and> \<not> jt_changed r))
     (\<lambda>e w'. tables w' = tables w \<and> (\<exists>u. now = Naive u)) w"
  using update_selected [OF assms]
  by (auto simp: transition_owned_job_def wp_rules settlement_def settles_def owned_by_def datetime_add_def
      split: datetime.splits option.splits)

lemma settlement_status: "fst (settlement succeeded t err m delay j) \<in> {JobSucceeded, JobRetry, JobDead}"
  by (simp add: settlement_def)

lemma settles_moves:
  "settles s t j d d' \<Longrightarrow> fst s \<in> {JobSucceeded, JobRetry, JobDead} \<Longrightarrow>
     queue_moves (\<lambda>x. x = j) (settle_row (fst s) (fst (snd s)) (snd (snd s)) t) d d'"
  by (auto simp: settles_def queue_moves_def intro: job_step.settled)

subsection \<open>Claiming\<close>

abbreviation candidates :: "string \<Rightarrow> instant \<Rightarrow> db \<Rightarrow> (job_row \<times> event_row) list" where
  "candidates tenant t d \<equiv>
     List.map_filter (\<lambda>j. map_option (Pair j) (event_at tenant (jb_event j) d)) (filter (ready tenant t) (detection_jobs d))"

lemma event_at_job:
  assumes "queue_inv d" "j \<in> set (detection_jobs d)"
  shows "\<exists>e. event_at (jb_tenant j) (jb_event j) d = Some e"
proof -
  have "job_event_key j \<in> event_key ` set (events d)" using assms by (auto simp: queue_inv_def)
  then have "event_exists (jb_tenant j) (jb_event j) d"
    by (auto simp: event_exists_def row_exists_iff job_event_key_def event_key_def)
  then show ?thesis by (simp add: event_exists_iff)
qed

lemma candidates_jobs:
  assumes "queue_inv d"
  shows "map fst (candidates tenant t d) = filter (ready tenant t) (detection_jobs d)"
proof -
  have all: "map fst (List.map_filter (\<lambda>j. map_option (Pair j) (event_at tenant (jb_event j) d)) js) = js"
    if "\<forall>j \<in> set js. \<exists>e. event_at tenant (jb_event j) d = Some e" for js
    using that by (induction js) (auto simp: List.map_filter_def)
  show ?thesis by (rule all) (use event_at_job [OF assms] in \<open>auto simp: ready_def\<close>)
qed

lemma distinct_map_order_by: "distinct (map f (order_by k xs)) = distinct (map f xs)"
  by (simp add: distinct_map order_by_def)

lemma distinct_ready_keys:
  assumes "queue_inv d"
  shows "distinct (map jb_id (filter (ready tenant t) (detection_jobs d)))"
proof -
  have "inj_on jb_id (set (filter (ready tenant t) (detection_jobs d)))"
    using assms by (auto simp: inj_on_def queue_inv_def ready_def job_key_def intro: key_unique_eq)
  moreover have "distinct (detection_jobs d)"
    using assms by (auto simp: queue_inv_def key_unique_def distinct_map)
  ultimately show ?thesis by (simp add: distinct_map)
qed

lemma distinct_ready_jobs:
  assumes "queue_inv d"
  shows "distinct (ready_jobs tenant t n d)"
proof -
  have "map (\<lambda>je. jb_id (fst je)) (candidates tenant t d) = map jb_id (map fst (candidates tenant t d))" by simp
  then have "distinct (map (\<lambda>je. jb_id (fst je)) (candidates tenant t d))"
    unfolding candidates_jobs [OF assms] by (simp only: distinct_ready_keys [OF assms])
  then show ?thesis
    unfolding ready_jobs_def case_prod_unfold take_map [symmetric]
    by (intro distinct_take) (simp add: distinct_map_order_by)
qed

lemma ready_jobs_sound:
  assumes "queue_inv d" "job \<in> set (ready_jobs tenant t n d)"
  shows "\<exists>j. job_at tenant job d = Some j \<and> ready tenant t j"
proof -
  obtain j where j: "j \<in> set (detection_jobs d)" "ready tenant t j" "jb_id j = job"
    using assms(2) by (auto simp: ready_jobs_def List.map_filter_def dest!: in_set_takeD)
  have "job_at tenant job d = Some j"
    using key_unique_find [of job_key "detection_jobs d" j] assms(1) j by (simp add: queue_inv_def job_at_key job_key_def ready_def)
  with j show ?thesis by blast
qed

lemma lease_all_wp:
  assumes "distinct ids"
  shows "wp (for_each (lease_one tenant worker t x) ids) Q Er w =
    Q () (w\<lparr>tables := (tables w)\<lparr>detection_jobs := update_where (\<lambda>j. jb_tenant j = tenant \<and> jb_id j \<in> set ids)
      (lease_row worker t x) (detection_jobs (tables w))\<rparr>\<rparr>)"
  using assms
proof (induction ids arbitrary: w)
  case (Cons i ids)
  have "update_where (\<lambda>j. jb_tenant j = tenant \<and> jb_id j \<in> set ids) (lease_row worker t x)
      (update_where (\<lambda>j. jb_tenant j = tenant \<and> jb_id j = i) (lease_row worker t x) rows) =
    update_where (\<lambda>j. jb_tenant j = tenant \<and> jb_id j \<in> set (i # ids)) (lease_row worker t x) rows" for rows
    using Cons.prems by (induction rows) (auto simp: lease_row_def)
  with Cons show ?case by (simp add: lease_one_def wp_rules)
qed (simp add: wp_rules update_where_id)

lemma query_all_wp [wp_rules]: "wp (map_prog (\<lambda>x. query (f x)) xs) Q Er w = Q (map (\<lambda>x. f x (tables w)) xs) w"
  by (induction xs arbitrary: Q) (simp_all add: wp_rules)

definition claims :: "string \<Rightarrow> string \<Rightarrow> instant \<Rightarrow> instant \<Rightarrow> string list \<Rightarrow> db \<Rightarrow> db \<Rightarrow> bool" where
  "claims tenant worker t x ids d d' \<longleftrightarrow> d' = d\<lparr>detection_jobs :=
     update_where (\<lambda>j. jb_tenant j = tenant \<and> jb_id j \<in> set ids) (lease_row worker t x) (detection_jobs d)\<rparr>"

definition lease_record :: "instant \<Rightarrow> job_row \<Rightarrow> job_lease" where
  "lease_record x j = \<lparr>jl_tenant = jb_tenant j, jl_job = jb_id j, jl_event = jb_event j, jl_attempts = jb_attempts j,
     jl_owner = (case jb_owner j of None \<Rightarrow> ''None'' | Some v \<Rightarrow> v), jl_expires = x\<rparr>"

lemma claims_job_at:
  assumes "claims tenant worker t x ids d d'"
  shows "job_at tn job d' = map_option (\<lambda>j. if tn = tenant \<and> job \<in> set ids then lease_row worker t x j else j) (job_at tn job d)"
proof -
  have "job_at tn job d' = map_option (\<lambda>j. if jb_tenant j = tenant \<and> jb_id j \<in> set ids then lease_row worker t x j else j)
      (job_at tn job d)"
    using assms by (simp add: claims_def job_at_key job_lease.upd_find)
  then show ?thesis using job_at_SomeD [of tn job d] by (cases "job_at tn job d") (simp_all add: job_key_def)
qed

lemma lease_of_all_wp:
  assumes "\<forall>j \<in> set js. jb_lease_expires j = Some x"
  shows "wp (map_prog lease_of js) Q Er w = Q (map (lease_record x) js) w"
  using assms by (induction js arbitrary: Q) (simp_all add: wp_rules lease_of_def lease_record_def)

lemma leased_rows:
  assumes inv: "queue_inv d" and "claims tenant worker t x ids d d'" and "ids = ready_jobs tenant t n d"
  shows "\<exists>js. map (\<lambda>job. job_at tenant job d') ids = map Some js \<and> map jb_id js = ids \<and>
    (\<forall>j \<in> set js. jb_lease_expires j = Some x \<and> owned_by worker j \<and> jb_tenant j = tenant \<and> j \<in> set (detection_jobs d'))"
proof -
  have "\<exists>j. job_at tenant job d' = Some j \<and> jb_id j = job \<and> jb_lease_expires j = Some x \<and> owned_by worker j \<and>
      jb_tenant j = tenant \<and> j \<in> set (detection_jobs d')" if "job \<in> set ids" for job
  proof -
    obtain j where j: "job_at tenant job d = Some j" using ready_jobs_sound [OF inv] assms(3) \<open>job \<in> set ids\<close> by blast
    then have "job_at tenant job d' = Some (lease_row worker t x j)" using claims_job_at [OF assms(2)] that by simp
    then show ?thesis using job_at_SomeD [OF j] job_at_SomeD [of tenant job d'] by (auto simp: lease_row_def owned_by_def job_key_def)
  qed
  then obtain g where "\<forall>job \<in> set ids. job_at tenant job d' = Some (g job) \<and> jb_id (g job) = job \<and>
      jb_lease_expires (g job) = Some x \<and> owned_by worker (g job) \<and> jb_tenant (g job) = tenant \<and> g job \<in> set (detection_jobs d')"
    by metis
  then show ?thesis by (intro exI [of _ "map g ids"]) (simp add: map_idI)
qed

lemma map_filter_id_Some [simp]: "List.map_filter id (map Some js) = js"
  by (induction js) (simp_all add: List.map_filter_def)

definition claimed_as :: "string \<Rightarrow> string \<Rightarrow> instant \<Rightarrow> db \<Rightarrow> job_lease \<Rightarrow> bool" where
  "claimed_as tenant worker x d l \<longleftrightarrow> (\<exists>j \<in> set (detection_jobs d). l = lease_record x j \<and> owned_by worker j \<and>
     jb_tenant j = tenant \<and> jb_lease_expires j = Some x)"

lemma lease_jobs_wp:
  assumes inv: "queue_inv (tables w)"
  shows "wp (lease_jobs tenant worker limit now secs)
     (\<lambda>ls w'. \<exists>t. now = Aware t \<and> 1 \<le> limit \<and> 5 \<le> secs \<and> map jl_job ls = ready_jobs tenant t (nat limit) (tables w) \<and>
        (\<forall>l \<in> set ls. claimed_as tenant worker (t + seconds secs) (tables w') l) \<and>
        claims tenant worker t (t + seconds secs) (ready_jobs tenant t (nat limit) (tables w)) (tables w) (tables w'))
     (\<lambda>_ w'. tables w' = tables w \<and> (worker = [] \<or> 128 < length worker \<or> limit < 1 \<or> 100 < limit \<or> secs < 5 \<or> 3600 < secs \<or>
        (\<exists>u. now = Naive u))) w"
proof (cases now)
  case (Aware t)
  define ids where "ids = ready_jobs tenant t (nat limit) (tables w)"
  define d' where "d' = (tables w)\<lparr>detection_jobs := update_where (\<lambda>j. jb_tenant j = tenant \<and> jb_id j \<in> set ids)
    (lease_row worker t (t + seconds secs)) (detection_jobs (tables w))\<rparr>"
  have claims: "claims tenant worker t (t + seconds secs) ids (tables w) d'" by (simp add: claims_def d'_def)
  obtain js where js: "map (\<lambda>job. job_at tenant job d') ids = map Some js" "map jb_id js = ids"
    "\<forall>j \<in> set js. jb_lease_expires j = Some (t + seconds secs) \<and> owned_by worker j \<and> jb_tenant j = tenant \<and> j \<in> set (detection_jobs d')"
    using leased_rows [OF inv claims ids_def] by blast
  have "map jl_job (map (lease_record (t + seconds secs)) js) = ids"
    using js(2) by (simp add: lease_record_def comp_def)
  moreover have "\<forall>l \<in> set (map (lease_record (t + seconds secs)) js). claimed_as tenant worker (t + seconds secs) d' l"
    using js(3) by (auto simp: claimed_as_def)
  ultimately show ?thesis
    using Aware claims lease_of_all_wp [of js "t + seconds secs"] js(1,3) distinct_ready_jobs [OF inv, of tenant t "nat limit"]
    by (simp add: lease_jobs_def wp_rules datetime_add_def lease_all_wp ids_def [symmetric] d'_def [symmetric])
qed (auto simp: lease_jobs_def wp_rules)

lemma claims_moves:
  assumes inv: "queue_inv d" and "claims tenant worker t x (ready_jobs tenant t n d) d d'" "t < x"
  shows "queue_moves (\<lambda>j. jb_tenant j = tenant \<and> jb_id j \<in> set (ready_jobs tenant t n d)) (lease_row worker t x) d d'"
proof -
  have "ready (jb_tenant j) t j" if j: "j \<in> set (detection_jobs d)" "jb_tenant j = tenant" "jb_id j \<in> set (ready_jobs tenant t n d)" for j
  proof -
    obtain i where i: "job_at tenant (jb_id j) d = Some i" "ready tenant t i" using ready_jobs_sound [OF inv j(3)] by blast
    then have "j = i" using job_selected [OF inv i(1) j(1)] j(2) by simp
    with i j(2) show ?thesis by simp
  qed
  then show ?thesis using assms by (auto simp: claims_def queue_moves_def intro: job_step.claimed)
qed

subsection \<open>Alerts and cases\<close>

lemma case_inv_frame:
  "cases d' = cases d \<Longrightarrow> dispositions d' = dispositions d \<Longrightarrow> case_activity d' = case_activity d \<Longrightarrow> case_inv d' = case_inv d"
  by (simp add: case_inv_def case_bodies_ok_def row_ok_def view_of_def)

interpretation case_bump: keyed_update case_key "bump_case t p"
  by unfold_locales (simp add: bump_case_def)

lemma bump_case_inv:
  assumes "case_inv d"
  shows "case_inv (d\<lparr>cases := update_where P (bump_case t p) (cases d)\<rparr>)"
proof -
  let ?g = "\<lambda>x. if P x then bump_case t p x else x"
  have keys: "case_key ` ?g ` set (cases d) = case_key ` set (cases d)"
    using arg_cong [OF case_bump.upd_keys [of P t p "cases d"], of set]
    unfolding set_map set_update_where [symmetric] .
  have "row_ok (d\<lparr>cases := cs\<rparr>) (?g x)" if "row_ok d x" for cs x
    using that by (auto simp: row_ok_def view_ok_def view_of_def bump_case_def)
  moreover have "rivals (?g x) (?g y) = rivals x y" for x y
    by (simp add: rivals_def bump_case_def)
  ultimately show ?thesis
    using assms keys case_bump.upd_key_unique [of "cases d" P t p]
    by (simp add: case_inv_def set_update_where case_bodies_ok_def del: if_image_distrib)
qed

lemma new_case_inv:
  assumes inv: "case_inv d" and new: "\<not> case_exists tenant (cs_id (new_case E tenant key a t)) d"
    "\<not> row_exists (open_semantic tenant (Some key)) (cases d)"
  shows "case_inv (d\<lparr>cases := cases d @ [new_case E tenant key a t]\<rparr>)"
proof -
  let ?c = "new_case E tenant key a t"
  have fresh: "case_key ?c \<notin> case_key ` set (cases d)"
    using new(1) by (auto simp: case_exists_def row_exists_iff new_case_def)
  then have "\<forall>p \<in> set (dispositions d). (dp_tenant p, dp_case p) \<noteq> case_key ?c"
    using inv unfolding case_inv_def by metis
  then have "row_ok d ?c" by (auto simp: row_ok_def view_ok_def view_of_def new_case_def)
  moreover have "\<not> rivals ?c x \<and> \<not> rivals x ?c" if "x \<in> set (cases d)" for x
    using new(2) that by (auto simp: rivals_def row_exists_iff open_semantic_def new_case_def)
  moreover have "\<not> rivals ?c ?c" by (simp add: rivals_def)
  moreover have "row_ok (d\<lparr>cases := cs\<rparr>) x = row_ok d x" for cs x by (simp add: row_ok_def view_of_def)
  ultimately show ?thesis using inv fresh by (simp add: case_inv_def case_bodies_ok_def)
qed

definition only_detection_tables :: "db \<Rightarrow> db \<Rightarrow> bool" where
  "only_detection_tables d d' \<longleftrightarrow> d' = d\<lparr>alerts := alerts d', cases := cases d', case_alerts := case_alerts d'\<rparr>"

lemma new_case_simps [simp]:
  "cs_tenant (new_case E tenant key a t) = tenant" "cs_status (new_case E tenant key a t) = CaseOpen"
  "cs_semantic_key (new_case E tenant key a t) = Some key"
  by (simp_all add: new_case_def)

lemma new_case_active:
  "\<not> row_exists (open_semantic tenant (Some key)) cs \<Longrightarrow>
     List.find (open_semantic tenant (Some key)) (cs @ [new_case E tenant key a t]) = Some (new_case E tenant key a t)"
  by (intro find_snoc_new) (auto simp: row_exists_iff open_semantic_def)

lemma bump_case_active:
  assumes "List.find (open_semantic tenant (Some key)) cs = Some c"
  shows "\<exists>c' \<in> set (update_where P (bump_case t p) cs). open_semantic tenant (Some key) c' \<and> cs_id c' = cs_id c"
  using find_SomeD [OF assms] by (intro bexI [of _ "if P c then bump_case t p c else c"])
    (auto simp: set_update_where open_semantic_def bump_case_def simp del: if_image_distrib)

lemma link_alert_wp:
  "wp (insert_case_alert \<lparr>ca_tenant = tenant, ca_case = cid, ca_alert = aid, ca_linked = t\<rparr>)
     (\<lambda>_ w'. \<exists>ls. tables w' = (tables w)\<lparr>case_alerts := ls\<rparr> \<and> set (case_alerts (tables w)) \<subseteq> set ls \<and>
        (\<exists>l \<in> set ls. ca_tenant l = tenant \<and> ca_case l = cid \<and> ca_alert l = aid))
     (\<lambda>_ _. True) w" (is "wp (insert_case_alert ?l) (\<lambda>_ w'. ?Q (tables w')) _ _")
proof -
  have "?Q (tables w)" if "row_exists (\<lambda>l. ca_tenant l = tenant \<and> ca_case l = cid \<and> ca_alert l = aid) (case_alerts (tables w))"
    by (rule exI [of _ "case_alerts (tables w)"]) (use that in \<open>simp add: row_exists_iff\<close>)
  moreover have "?Q ((tables w)\<lparr>case_alerts := case_alerts (tables w) @ [?l]\<rparr>)"
    by (rule exI [of _ "case_alerts (tables w) @ [?l]"]) auto
  ultimately show ?thesis
    unfolding insert_case_alert_def wp_insert_or_ignore by simp
qed

text \<open>An alert is on an open case; such a case stays open while alerts are written.\<close>

definition on_open_case :: "string \<Rightarrow> string \<Rightarrow> db \<Rightarrow> bool" where
  "on_open_case tenant aid d \<longleftrightarrow> (\<exists>c \<in> set (cases d). cs_tenant c = tenant \<and> cs_status c \<noteq> CaseClosed \<and>
     (\<exists>l \<in> set (case_alerts d). ca_tenant l = tenant \<and> ca_case l = cs_id c \<and> ca_alert l = aid))"

definition cases_grow :: "db \<Rightarrow> db \<Rightarrow> bool" where
  "cases_grow d d' \<longleftrightarrow> set (case_alerts d) \<subseteq> set (case_alerts d') \<and>
     (\<forall>c \<in> set (cases d). \<exists>c' \<in> set (cases d'). case_key c' = case_key c \<and> cs_status c' = cs_status c)"

lemma on_open_case_mono: "cases_grow d d' \<Longrightarrow> on_open_case tenant aid d \<Longrightarrow> on_open_case tenant aid d'"
  unfolding cases_grow_def on_open_case_def by fastforce

lemma bump_cases_grow:
  assumes "set (case_alerts d) \<subseteq> set ls"
  shows "cases_grow d (d\<lparr>case_alerts := ls, cases := update_where P (bump_case t p) (cases d)\<rparr>)"
proof -
  have "(if P c then bump_case t p c else c) \<in> set (update_where P (bump_case t p) (cases d))" if "c \<in> set (cases d)" for c
    using that by (simp add: set_update_where del: if_image_distrib)
  moreover have "case_key (if P c then bump_case t p c else c) = case_key c \<and> cs_status (if P c then bump_case t p c else c) = cs_status c" for c
    by (simp add: bump_case_def)
  ultimately show ?thesis using assms unfolding cases_grow_def by (auto simp: bump_case_def)
qed

lemma attach_case_wp:
  assumes inv: "case_inv (tables w)"
  shows "wp (attach_case E tenant key a t)
     (\<lambda>_ w'. case_inv (tables w') \<and> only_detection_tables (tables w) (tables w') \<and> alerts (tables w') = alerts (tables w) \<and>
        cases_grow (tables w) (tables w') \<and> on_open_case tenant (at_id a) (tables w'))
     (\<lambda>_ _. True) w" (is "wp _ ?Q _ _")
proof -
  let ?new = "new_case E tenant key a t"
  let ?link = "\<lambda>c. insert_case_alert \<lparr>ca_tenant = tenant, ca_case = cs_id c, ca_alert = at_id a, ca_linked = t\<rparr>"
  have opened: "wp (?link ?new) (\<lambda>_. ?Q ()) (\<lambda>_ _. True) (w\<lparr>tables := (tables w)\<lparr>cases := cases (tables w) @ [?new]\<rparr>\<rparr>)"
    if "\<not> case_exists tenant (cs_id ?new) (tables w)" "\<not> row_exists (open_semantic tenant (Some key)) (cases (tables w))"
    using new_case_inv [OF inv that]
    by (intro wp_mono [OF link_alert_wp])
      (auto simp: only_detection_tables_def on_open_case_def cases_grow_def intro: case_inv_frame [THEN iffD1, rotated -1])
  have bumped: "wp (?link c) (\<lambda>_. wp (update_rows cases cases_update no_trigger (\<lambda>x. cs_tenant x = tenant \<and> cs_id x = cs_id c)
      (bump_case t (case_priority (at_severity a)))) (\<lambda>_. ?Q ()) (\<lambda>_ _. True)) (\<lambda>_ _. True) w"
    if "List.find (open_semantic tenant (Some key)) (cases (tables w)) = Some c" for c
  proof (rule wp_mono [OF link_alert_wp])
    fix x and w' :: world
    let ?cs = "update_where (\<lambda>x. cs_tenant x = tenant \<and> cs_id x = cs_id c) (bump_case t (case_priority (at_severity a))) (cases (tables w))"
    assume "\<exists>ls. tables w' = (tables w)\<lparr>case_alerts := ls\<rparr> \<and> set (case_alerts (tables w)) \<subseteq> set ls \<and>
        (\<exists>l \<in> set ls. ca_tenant l = tenant \<and> ca_case l = cs_id c \<and> ca_alert l = at_id a)"
    then obtain ls where w': "tables w' = (tables w)\<lparr>case_alerts := ls\<rparr>"
      and grown: "set (case_alerts (tables w)) \<subseteq> set ls" and l: "\<exists>l \<in> set ls. ca_tenant l = tenant \<and> ca_case l = cs_id c \<and> ca_alert l = at_id a" by blast
    have "case_inv ((tables w)\<lparr>case_alerts := ls, cases := ?cs\<rparr>)"
      using bump_case_inv [OF inv] case_inv_frame [of "(tables w)\<lparr>case_alerts := ls, cases := ?cs\<rparr>" "(tables w)\<lparr>cases := ?cs\<rparr>"] by simp
    moreover have "on_open_case tenant (at_id a) ((tables w)\<lparr>case_alerts := ls, cases := ?cs\<rparr>)"
      using bump_case_active [OF that] l unfolding on_open_case_def open_semantic_def by fastforce
    moreover note bump_cases_grow [OF grown]
    ultimately show "wp (update_rows cases cases_update no_trigger (\<lambda>x. cs_tenant x = tenant \<and> cs_id x = cs_id c)
      (bump_case t (case_priority (at_severity a)))) (\<lambda>_. ?Q ()) (\<lambda>_ _. True) w'"
      by (simp add: wp_rules w' only_detection_tables_def)
  qed simp
  show ?thesis
    using opened bumped
    by (auto simp: wp_funs attach_case_def wp_bind wp_andthen insert_case_def wp_insert_or_ignore wp_query wp_ret wp_raise
        new_case_active split: option.splits)
qed

definition alert_stored :: "string \<Rightarrow> detection_alert \<Rightarrow> db \<Rightarrow> bool" where
  "alert_stored tenant a d \<longleftrightarrow> row_exists (\<lambda>x. al_tenant x = tenant \<and> al_id x = at_id a) (alerts d)"

text \<open>What writing the alerts of one event may do: every new alert is of that event and on an open case.\<close>

definition writes_alerts :: "string \<Rightarrow> string \<Rightarrow> db \<Rightarrow> db \<Rightarrow> bool" where
  "writes_alerts tenant eid d d' \<longleftrightarrow> only_detection_tables d d' \<and> cases_grow d d' \<and> (\<exists>as. alerts d' = alerts d @ as) \<and>
     (\<forall>x \<in> set (alerts d'). x \<in> set (alerts d) \<or> al_tenant x = tenant \<and> al_event x = eid \<and> on_open_case tenant (al_id x) d')"

lemma writes_alerts_refl: "writes_alerts tenant eid d d"
  by (auto simp: writes_alerts_def only_detection_tables_def cases_grow_def)

lemma only_detection_trans:
  assumes d': "only_detection_tables d d'" and d'': "only_detection_tables d' d''"
  shows "only_detection_tables d d''"
proof -
  have "d'\<lparr>alerts := x, cases := y, case_alerts := z\<rparr> = d\<lparr>alerts := x, cases := y, case_alerts := z\<rparr>" for x y z
    by (subst d' [unfolded only_detection_tables_def]) simp
  with d'' show ?thesis by (simp only: only_detection_tables_def)
qed

lemma cases_grow_trans: "cases_grow d d' \<Longrightarrow> cases_grow d' d'' \<Longrightarrow> cases_grow d d''"
  unfolding cases_grow_def by (metis subset_trans)

lemma writes_alerts_trans:
  assumes "writes_alerts tenant eid d d'" "writes_alerts tenant eid d' d''"
  shows "writes_alerts tenant eid d d''"
proof -
  have "\<exists>as. alerts d'' = alerts d @ as" using assms by (auto simp: writes_alerts_def)
  moreover have "only_detection_tables d d''" "cases_grow d d''"
    using assms by (auto simp: writes_alerts_def intro: only_detection_trans cases_grow_trans)
  moreover have "on_open_case tenant aid d' \<Longrightarrow> on_open_case tenant aid d''" for aid
    using assms(2) by (auto simp: writes_alerts_def intro: on_open_case_mono)
  ultimately show ?thesis using assms unfolding writes_alerts_def by metis
qed

lemma alert_row_of_simps [simp]:
  "al_tenant (alert_row_of B tenant ev a t) = tenant" "al_id (alert_row_of B tenant ev a t) = at_id a"
  "al_event (alert_row_of B tenant ev a t) = ev_id ev"
  by (simp_all add: alert_row_of_def Let_def)

lemma alert_stored_mono: "writes_alerts tenant eid d d' \<Longrightarrow> alert_stored tn a d \<Longrightarrow> alert_stored tn a d'"
  by (auto simp: alert_stored_def row_exists_iff writes_alerts_def)

lemma attached_alert_wp:
  assumes "case_inv (tables w)"
  shows "wp (attach_case E tenant k a t)
     (\<lambda>_ w'. case_inv (tables w') \<and> writes_alerts tenant (ev_id ev) (tables w) (tables w') \<and> alert_stored tenant a (tables w') \<and>
        length (alerts (tables w')) = length (alerts (tables w)) + 1) (\<lambda>_ _. True)
     (w\<lparr>tables := (tables w)\<lparr>alerts := alerts (tables w) @ [alert_row_of B tenant ev a u]\<rparr>\<rparr>)"
    (is "wp _ _ _ (w\<lparr>tables := ?d\<rparr>)")
proof (rule wp_mono [OF attach_case_wp], goal_cases)
  case 1
  then show ?case using assms case_inv_frame [of ?d "tables w"] by simp
next
  case (2 x w')
  have "only_detection_tables (tables w) ?d" "cases_grow (tables w) ?d" by (auto simp: only_detection_tables_def cases_grow_def)
  with 2 have "only_detection_tables (tables w) (tables w')" "cases_grow (tables w) (tables w')"
    by (auto intro: only_detection_trans cases_grow_trans)
  with 2 show ?case by (auto simp: writes_alerts_def alert_stored_def row_exists_iff)
qed simp

lemma persist_alert_wp:
  assumes "case_inv (tables w)"
  shows "wp (persist_alert E B tenant ev t a)
     (\<lambda>n w'. case_inv (tables w') \<and> writes_alerts tenant (ev_id ev) (tables w) (tables w') \<and> at_event a = ev_id ev \<and>
        alert_stored tenant a (tables w') \<and> length (alerts (tables w')) = length (alerts (tables w)) + n)
     (\<lambda>_ _. True) w"
  using assms
  by (auto simp: persist_alert_def wp_rules wp_funs insert_alert_def alert_stored_def writes_alerts_refl
      intro!: wp_mono [OF attached_alert_wp] split: datetime.splits)

lemma persist_all_wp:
  assumes "case_inv (tables w)"
  shows "wp (map_prog (persist_alert E B tenant ev t) as)
     (\<lambda>ns w'. case_inv (tables w') \<and> writes_alerts tenant (ev_id ev) (tables w) (tables w') \<and>
        (\<forall>a \<in> set as. at_event a = ev_id ev \<and> alert_stored tenant a (tables w')) \<and>
        length (alerts (tables w')) = length (alerts (tables w)) + sum_list ns)
     (\<lambda>_ _. True) w"
  using assms
proof (induction as arbitrary: w)
  case (Cons a as)
  show ?case
    unfolding map_prog.simps wp_bind wp_ret_fun
    by (rule wp_mono [OF persist_alert_wp [OF Cons.prems]], rule wp_mono [OF Cons.IH])
      (auto intro: writes_alerts_trans alert_stored_mono)
qed (simp add: wp_rules writes_alerts_refl)

definition persists :: "string \<Rightarrow> string \<Rightarrow> string \<Rightarrow> detection_alert list \<Rightarrow> instant \<Rightarrow> nat \<Rightarrow> db \<Rightarrow> db \<Rightarrow> bool" where
  "persists tenant job worker as t n d d' \<longleftrightarrow> (\<exists>j d1. job_at tenant job d = Some j \<and> owns_lease worker t j \<and>
     writes_alerts tenant (jb_event j) d d1 \<and> (\<forall>a \<in> set as. at_event a = jb_event j \<and> alert_stored tenant a d1) \<and>
     length (alerts d1) = length (alerts d) + n \<and>
     d' = d1\<lparr>detection_jobs := update_where (\<lambda>x. x = j) (succeed_job t) (detection_jobs d)\<rparr>)"

lemma only_detection_jobs:
  assumes "only_detection_tables d d'"
  shows "detection_jobs d' = detection_jobs d" "events d' = events d"
  by (subst assms [unfolded only_detection_tables_def], simp)+

lemma event_at_SomeD: "event_at tenant eid d = Some e \<Longrightarrow> e \<in> set (events d) \<and> ev_tenant e = tenant \<and> ev_id e = eid"
  by (auto simp: event_at_def dest: find_SomeD)

lemma persist_wp:
  assumes queue: "queue_inv (tables w)" and cinv: "case_inv (tables w)"
  shows "wp (persist_alerts_and_complete_job E B tenant job worker as now)
     (\<lambda>r w'. case_inv (tables w') \<and> ps_status r = JobSucceeded \<and>
        (\<exists>t. now = Aware t \<and> persists tenant job worker as t (ps_inserted r) (tables w) (tables w')))
     (\<lambda>_ w'. tables w' = tables w) w"
proof (cases "\<exists>t j ev. now = Aware t \<and> job_join tenant job (tables w) = Some (j, ev)")
  case True
  then obtain t j ev where now: "now = Aware t" and row: "job_join tenant job (tables w) = Some (j, ev)" by blast
  from row have j: "job_at tenant job (tables w) = Some j" and ev: "event_at tenant (jb_event j) (tables w) = Some ev"
    by (auto simp: job_join_def split: option.splits)
  have id: "ev_id ev = jb_event j" using event_at_SomeD [OF ev] by simp
  have main: "wp (map_prog (persist_alert E B tenant ev t) as)
     (\<lambda>ns w'. case_inv ((tables w')\<lparr>detection_jobs := update_where (\<lambda>x. jb_tenant x = tenant \<and> jb_id x = job) (succeed_job t) (detection_jobs (tables w'))\<rparr>) \<and>
        persists tenant job worker as t (sum_list ns) (tables w)
          ((tables w')\<lparr>detection_jobs := update_where (\<lambda>x. jb_tenant x = tenant \<and> jb_id x = job) (succeed_job t) (detection_jobs (tables w'))\<rparr>))
     (\<lambda>_ _. True) (w\<lparr>in_tx := True\<rparr>)" if "owns_lease worker t j"
  proof (rule wp_mono [OF persist_all_wp], goal_cases)
    case (2 ns w')
    then have jobs: "detection_jobs (tables w') = detection_jobs (tables w)"
      by (auto simp: writes_alerts_def dest: only_detection_jobs)
    have "case_inv ((tables w')\<lparr>detection_jobs := js\<rparr>)" for js
      using 2 case_inv_frame [of "(tables w')\<lparr>detection_jobs := js\<rparr>" "tables w'"] by simp
    then show ?case
      using 2 j id that update_selected [OF queue j, of "succeed_job t"] unfolding persists_def jobs by auto
  qed (use cinv in simp_all)
  show ?thesis
    by (simp add: persist_alerts_and_complete_job_def now row wp_rules)
      (intro impI, rule wp_mono [OF main], simp_all add: wp_rules)
next
  case False
  then show ?thesis
    by (auto simp: persist_alerts_and_complete_job_def wp_rules split: datetime.splits option.splits)
qed

section \<open>The store as a whole\<close>

datatype store_op =
    IngestOne security_event
  | Ingest "security_event list"
  | Lease string int int
  | Persist string string "detection_alert list"
  | Complete string string
  | Fail string string string int int

definition run_store :: "env \<Rightarrow> pipeline \<Rightarrow> rule_book \<Rightarrow> string \<Rightarrow> store_op \<Rightarrow> datetime \<Rightarrow> unit prog" where
  "run_store E L B tenant oper now = (case oper of
     IngestOne e \<Rightarrow> andthen (ingest_event E L tenant e now) (ret ())
   | Ingest es \<Rightarrow> andthen (ingest_events E L tenant es now) (ret ())
   | Lease worker limit secs \<Rightarrow> andthen (lease_jobs tenant worker limit now secs) (ret ())
   | Persist job worker as \<Rightarrow> andthen (persist_alerts_and_complete_job E B tenant job worker as now) (ret ())
   | Complete job worker \<Rightarrow> andthen (complete_job tenant job worker now) (ret ())
   | Fail job worker err m delay \<Rightarrow> andthen (fail_job tenant job worker now err m delay) (ret ()))"

definition detection_inv :: "db \<Rightarrow> bool" where
  "detection_inv d \<longleftrightarrow> queue_inv d \<and> case_inv d"

text \<open>
  The contract of one operation, as an interface: it keeps the invariant of the tables it touches and
  it relates the tables before and after by a preorder. Whatever keeps such a contract step by step
  keeps it over every sequence of calls.
\<close>

locale step_contract =
  fixes I :: "db \<Rightarrow> bool" and R :: "db \<Rightarrow> db \<Rightarrow> bool" and run :: "'c \<Rightarrow> unit prog"
  assumes R_refl: "R d d"
    and R_trans: "R d d' \<Longrightarrow> R d' d'' \<Longrightarrow> R d d''"
    and run_step: "I (tables w) \<Longrightarrow> wp (run c) (\<lambda>_ w'. I (tables w') \<and> R (tables w) (tables w'))
      (\<lambda>_ w'. I (tables w') \<and> R (tables w) (tables w')) w"
begin

lemma run_one: "I (tables w) \<Longrightarrow> I (tables (snd (run c w))) \<and> R (tables w) (tables (snd (run c w)))"
  using run_step [of w c] by (auto simp: wp_def split: prod.splits sum.splits)

lemma run_all_contract:
  "I (tables w) \<Longrightarrow> I (tables (fold (\<lambda>c v. snd (run c v)) cs w)) \<and> R (tables w) (tables (fold (\<lambda>c v. snd (run c v)) cs w))"
proof (induction cs arbitrary: w)
  case (Cons c cs)
  have "I (tables (snd (run c w))) \<and> R (tables w) (tables (snd (run c w)))" by (rule run_one [OF Cons.prems])
  with Cons.IH [of "snd (run c w)"] show ?case by (auto intro: R_trans)
qed (simp add: R_refl)

end

lemma case_inv_jobs [simp]: "case_inv (d\<lparr>detection_jobs := js\<rparr>) = case_inv d"
  by (rule case_inv_frame) simp_all

lemma adds_event_frame: "adds_event E L tenant received e d d' \<Longrightarrow> case_inv d' = case_inv d"
  by (rule case_inv_frame) (auto simp: adds_event_def)

lemma ingest_one_contract:
  assumes "detection_inv (tables w)"
  shows "wp (ingest_on_connection E L tenant received e)
    (\<lambda>_ w'. detection_inv (tables w') \<and> queue_history (tables w) (tables w')) (\<lambda>_ _. True) w"
  by (rule wp_mono [OF ingest_on_connection_wp])
    (use assms in \<open>auto simp: detection_inv_def adds_event_frame split: if_splits intro: adds_event_inv adds_event_history\<close>)

lemma ingest_all_contract:
  assumes "detection_inv (tables w)"
  shows "wp (map_prog (ingest_on_connection E L tenant received) es)
    (\<lambda>_ w'. detection_inv (tables w') \<and> queue_history (tables w) (tables w')) (\<lambda>_ _. True) w"
  using assms
proof (induction es arbitrary: w)
  case (Cons e es)
  show ?case
    unfolding map_prog.simps wp_bind wp_ret_fun
    by (rule wp_mono [OF ingest_one_contract [OF Cons.prems]], rule wp_mono [OF Cons.IH])
      (auto intro: queue_history_trans)
qed (simp add: wp_rules)

lemma moves_contract:
  assumes "detection_inv d" "queue_moves P f d d'" "case_inv d'"
  shows "detection_inv d' \<and> queue_history d d'"
  using assms by (auto simp: detection_inv_def intro: queue_moves_inv queue_moves_history)

lemma persists_moves:
  assumes "persists tenant job worker as t n d d'"
  shows "\<exists>j. job_at tenant job d = Some j \<and> owns_lease worker t j \<and> queue_moves (\<lambda>x. x = j) (succeed_job t) d d'"
proof -
  obtain j d1 where j: "job_at tenant job d = Some j" "owns_lease worker t j" and "only_detection_tables d d1"
    and "d' = d1\<lparr>detection_jobs := update_where (\<lambda>x. x = j) (succeed_job t) (detection_jobs d)\<rparr>"
    using assms by (auto simp: persists_def writes_alerts_def)
  then have "queue_moves (\<lambda>x. x = j) (succeed_job t) d d'"
    by (auto simp: queue_moves_def only_detection_jobs owns_lease_def intro: job_step.succeeded)
  with j show ?thesis by blast
qed

lemma lease_contract:
  assumes inv: "detection_inv (tables w)"
  shows "wp (lease_jobs tenant worker limit now secs) (\<lambda>_ w'. detection_inv (tables w') \<and> queue_history (tables w) (tables w'))
    (\<lambda>_ w'. tables w' = tables w) w"
proof (rule wp_mono [OF lease_jobs_wp], goal_cases)
  case (2 ls w')
  then obtain t where t: "5 \<le> secs"
    "claims tenant worker t (t + seconds secs) (ready_jobs tenant t (nat limit) (tables w)) (tables w) (tables w')" by blast
  have "case_inv (tables w')" using inv t(2) by (simp add: claims_def detection_inv_def)
  then show ?case
    using inv t by (intro moves_contract [OF inv claims_moves]) (auto simp: detection_inv_def seconds_def)
qed (use inv in \<open>simp_all add: detection_inv_def\<close>)

lemma transition_contract:
  assumes inv: "detection_inv (tables w)"
  shows "wp (transition_owned_job tenant job worker now succeeded err m delay)
    (\<lambda>_ w'. detection_inv (tables w') \<and> queue_history (tables w) (tables w')) (\<lambda>_ w'. tables w' = tables w) w"
proof (rule wp_mono [OF transition_owned_job_wp], goal_cases)
  case (2 r w')
  then obtain t where "tables w' = tables w \<or>
      (\<exists>j. settles (settlement succeeded t err m delay j) t j (tables w) (tables w'))"
    by (auto split: option.splits if_splits)
  then show ?case
  proof
    assume "\<exists>j. settles (settlement succeeded t err m delay j) t j (tables w) (tables w')"
    then obtain j where j: "settles (settlement succeeded t err m delay j) t j (tables w) (tables w')" by blast
    have "case_inv (tables w')" using inv j by (simp add: settles_def detection_inv_def)
    then show ?thesis by (rule moves_contract [OF inv settles_moves [OF j settlement_status]])
  qed (use inv in simp)
qed (use inv in \<open>simp_all add: detection_inv_def\<close>)

lemma persist_contract:
  assumes inv: "detection_inv (tables w)"
  shows "wp (persist_alerts_and_complete_job E B tenant job worker as now)
    (\<lambda>_ w'. detection_inv (tables w') \<and> queue_history (tables w) (tables w')) (\<lambda>_ w'. tables w' = tables w) w"
  by (rule wp_mono [OF persist_wp]) (use inv in \<open>auto simp: detection_inv_def dest!: persists_moves
    intro: queue_moves_inv queue_moves_history\<close>)

lemma ingest_contract:
  assumes inv: "detection_inv (tables w)"
  shows "wp (ingest_events E L tenant es now) (\<lambda>_ w'. detection_inv (tables w') \<and> queue_history (tables w) (tables w'))
      (\<lambda>_ w'. tables w' = tables w) w"
    "wp (ingest_event E L tenant e now) (\<lambda>_ w'. detection_inv (tables w') \<and> queue_history (tables w) (tables w'))
      (\<lambda>_ w'. tables w' = tables w) w"
proof -
  have w: "detection_inv (tables (w\<lparr>in_tx := True\<rparr>))" using inv by simp
  show "wp (ingest_events E L tenant es now) (\<lambda>_ w'. detection_inv (tables w') \<and> queue_history (tables w) (tables w'))
      (\<lambda>_ w'. tables w' = tables w) w"
    using wp_mono [OF ingest_all_contract [OF w]]
    by (simp add: ingest_events_def wp_rules split: datetime.splits)
  show "wp (ingest_event E L tenant e now) (\<lambda>_ w'. detection_inv (tables w') \<and> queue_history (tables w) (tables w'))
      (\<lambda>_ w'. tables w' = tables w) w"
    using wp_mono [OF ingest_one_contract [OF w]]
    by (simp add: ingest_event_def wp_rules split: datetime.splits)
qed

lemma run_store_wp:
  assumes inv: "detection_inv (tables w)"
  shows "wp (run_store E L B tenant oper now) (\<lambda>_ w'. detection_inv (tables w') \<and> queue_history (tables w) (tables w'))
    (\<lambda>_ w'. tables w' = tables w) w"
  using ingest_contract [OF inv] lease_contract [OF inv] persist_contract [OF inv] transition_contract [OF inv]
  by (cases oper) (simp_all add: run_store_def wp_andthen wp_ret_fun complete_job_def fail_job_def wp_raise_if)

interpretation store: step_contract detection_inv queue_history
  "\<lambda>(tenant, oper, now). run_store E L B tenant oper now" for E L B
proof
  fix w :: world and c :: "string \<times> store_op \<times> datetime"
  assume inv: "detection_inv (tables w)"
  obtain tenant oper now where c: "c = (tenant, oper, now)" by (cases c)
  show "wp (case c of (tenant, oper, now) \<Rightarrow> run_store E L B tenant oper now)
      (\<lambda>_ w'. detection_inv (tables w') \<and> queue_history (tables w) (tables w'))
      (\<lambda>_ w'. detection_inv (tables w') \<and> queue_history (tables w) (tables w')) w"
    unfolding c prod.case by (rule wp_mono [OF run_store_wp [OF inv]]) (use inv in simp_all)
qed (auto intro: queue_history_trans)

section \<open>A sample queue\<close>

definition sample_pipeline :: pipeline where
  "sample_pipeline = \<lparr>model_dump = (\<lambda>e. JObj [(''id'', JStr (sv_id e))]), model_validate = (\<lambda>t. Inl t),
     validate_batch = (\<lambda>t. None), julianday = id, json_session_hash = (\<lambda>t. None)\<rparr>"

definition sample_event :: "string \<Rightarrow> security_event" where
  "sample_event eid = \<lparr>sv_id = eid, sv_type = ''login'', sv_timestamp = Aware 0, sv_actor = ''bob'', sv_source_ip = None,
     sv_target = None, sv_device = None, sv_attributes = []\<rparr>"

definition sample_book :: rule_book where
  "sample_book = \<lparr>rb_versions = (\<lambda>_. None), rb_digests = (\<lambda>_. None), rb_snapshots = (\<lambda>_. None), rb_detector = ''d1''\<rparr>"

definition sample_job :: job_row where
  "sample_job = (new_job sample_env ''t1'' 1 (sample_event ''e1''))\<lparr>jb_id := ''j1''\<rparr>"

definition leased_job :: job_row where
  "leased_job = lease_row ''w1'' 40 100 sample_job"

definition queue_db :: "job_row \<Rightarrow> db" where
  "queue_db j = sample_db\<lparr>events := [new_event sample_env sample_pipeline ''t1'' 1 (sample_event ''e1'') 0], detection_jobs := [j]\<rparr>"

lemma sample_detection_inv: "detection_inv (queue_db sample_job)" "detection_inv (queue_db leased_job)"
  by (simp_all add: detection_inv_def queue_inv_def case_inv_def queue_db_def sample_db_def empty_db_def case_bodies_ok_def
      key_unique_def job_ok_def sample_job_def leased_job_def lease_row_def new_job_def new_event_def job_event_key_def
      event_key_def sample_event_def)

definition run_stores :: "env \<Rightarrow> pipeline \<Rightarrow> rule_book \<Rightarrow> (string \<times> store_op \<times> datetime) list \<Rightarrow> world \<Rightarrow> world" where
  "run_stores E L B cs w = fold (\<lambda>(tenant, oper, now) v. snd (run_store E L B tenant oper now v)) cs w"

lemma run_stores_fold: "run_stores E L B cs w = fold (\<lambda>c v. snd ((case c of (tenant, oper, now) \<Rightarrow> run_store E L B tenant oper now) v)) cs w"
  by (simp add: run_stores_def case_prod_unfold)

text \<open>
  C10. The invariant of the detection tables survives any sequence of calls by any workers, whatever each
  call returns: job and event keys are unique, no event has two jobs and every job has its
  event, a job has an owner and a lease deadline exactly while it is leased, an untried job has no
  attempt and every other job at least one, and the invariant of the case tables holds as well although
  the alerts write cases.
\<close>

theorem detection_inv_kept:
  assumes "detection_inv (tables w)"
  shows "detection_inv (tables (run_stores E L B cs w))"
  unfolding run_stores_fold using store.run_all_contract [OF assms] by blast

theorem detection_inv_kept_witness:
  "detection_inv (tables (run_stores sample_env sample_pipeline sample_book
     [(''t1'', Ingest [sample_event ''e2''], Aware 5), (''t1'', Lease ''w1'' 5 60, Aware 9)] (world_at (queue_db sample_job))))"
  by (rule detection_inv_kept) (simp add: sample_detection_inv)

text \<open>
  C11. The life of a job: over any sequence of calls every job of the queue follows the steps of
  \<open>job_step\<close> (claimed when due, settled only while leased), no job disappears, and every job that
  is there at the end was there before or started as pending with no attempt. In particular a job
  that has succeeded or is dead stays exactly as it is.
\<close>

theorem job_history:
  assumes "detection_inv (tables w)"
  shows "queue_history (tables w) (tables (run_stores E L B cs w)) \<and>
    (\<forall>j \<in> set (detection_jobs (tables w)). jb_status j \<in> {JobSucceeded, JobDead} \<longrightarrow>
       j \<in> set (detection_jobs (tables (run_stores E L B cs w))))"
proof -
  have hist: "queue_history (tables w) (tables (run_stores E L B cs w))"
    unfolding run_stores_fold using store.run_all_contract [OF assms] by blast
  have "j' = j" if "job_step\<^sup>*\<^sup>* j j'" "jb_status j \<in> {JobSucceeded, JobDead}" for j j'
    using that by (cases rule: converse_rtranclpE) (auto dest: job_step_facts(4))
  with hist show ?thesis unfolding queue_history_def by blast
qed

theorem job_history_witness:
  "queue_history (queue_db leased_job) (tables (run_stores sample_env sample_pipeline sample_book
     [(''t1'', Fail ''j1'' ''w1'' ''boom'' 3 5, Aware 50), (''t1'', Lease ''w2'' 5 60, Aware 9000000)] (world_at (queue_db leased_job))))"
  using job_history [of "world_at (queue_db leased_job)", unfolded world_at_simps, OF sample_detection_inv(2)] by blast

text \<open>The operations that settle a job, with the worker they act for.\<close>

fun settler :: "store_op \<Rightarrow> string option" where
  "settler (Persist job worker as) = Some worker"
| "settler (Complete job worker) = Some worker"
| "settler (Fail job worker err m delay) = Some worker"
| "settler _ = None"

definition held :: "string \<Rightarrow> instant \<Rightarrow> job_row \<Rightarrow> db \<Rightarrow> bool" where
  "held worker x j d \<longleftrightarrow> j \<in> set (detection_jobs d) \<and> owned_by worker j \<and> jb_lease_expires j = Some x"

lemma moves_held: "held v x j d \<Longrightarrow> queue_moves P f d d' \<Longrightarrow> \<not> P j \<Longrightarrow> held v x j d'"
  unfolding held_def queue_moves_def update_where_def by force

lemma adds_event_held: "held v x j d \<Longrightarrow> adds_event E L tenant received e d d' \<Longrightarrow> held v x j d'"
  by (auto simp: held_def adds_event_def)

lemma ingest_held_lease:
  assumes "held v x j (tables w)"
  shows "wp (ingest_on_connection E L tenant received e) (\<lambda>_ w'. held v x j (tables w')) (\<lambda>_ _. True) w"
  by (rule wp_mono [OF ingest_on_connection_wp]) (use assms in \<open>auto split: if_splits intro: adds_event_held\<close>)

lemma ingests_held_lease: "commits (held v x j) (map_prog (ingest_on_connection E L tenant received) es)"
  "commits (held v x j) (ingest_on_connection E L tenant received e)"
  by (intro commits_rules commitsI ingest_held_lease; simp)+

lemma lease_held:
  assumes inv: "queue_inv (tables w)" and held: "held v x j (tables w)" and early: "\<And>t. now = Aware t \<Longrightarrow> t < x"
  shows "wp (lease_jobs tenant worker limit now secs) (\<lambda>_ w'. held v x j (tables w')) (\<lambda>_ w'. held v x j (tables w')) w"
proof (rule wp_mono [OF lease_jobs_wp [OF inv]], goal_cases)
  case (1 ls w')
  then obtain t where t: "now = Aware t" "5 \<le> secs"
    "claims tenant worker t (t + seconds secs) (ready_jobs tenant t (nat limit) (tables w)) (tables w) (tables w')" by blast
  have moves: "queue_moves (\<lambda>i. jb_tenant i = tenant \<and> jb_id i \<in> set (ready_jobs tenant t (nat limit) (tables w)))
      (lease_row worker t (t + seconds secs)) (tables w) (tables w')"
    using claims_moves [OF inv t(3)] t(2) by (simp add: seconds_def)
  have "\<not> (jb_tenant j = tenant \<and> jb_id j \<in> set (ready_jobs tenant t (nat limit) (tables w)))"
  proof
    assume sel: "jb_tenant j = tenant \<and> jb_id j \<in> set (ready_jobs tenant t (nat limit) (tables w))"
    then obtain i where i: "job_at tenant (jb_id j) (tables w) = Some i" "ready tenant t i" using ready_jobs_sound [OF inv] by blast
    have "j = i" using job_selected [OF inv i(1), of j] held sel by (simp add: held_def)
    with i(2) held early [OF t(1)] show False by (auto simp: ready_def held_def owned_by_def)
  qed
  with held moves show ?case by (blast intro: moves_held)
qed (use held in simp)

lemma transition_held:
  assumes inv: "queue_inv (tables w)" and held: "held v x j (tables w)" and other: "worker \<noteq> v"
  shows "wp (transition_owned_job tenant job worker now succeeded err m delay) (\<lambda>_ w'. held v x j (tables w')) (\<lambda>_ w'. held v x j (tables w')) w"
proof (rule wp_mono [OF transition_owned_job_wp [OF inv]], goal_cases)
  case (1 r w')
  then obtain t where "tables w' = tables w \<or>
      (\<exists>i. owned_by worker i \<and> settles (settlement succeeded t err m delay i) t i (tables w) (tables w'))"
    by (auto split: option.splits if_splits)
  then show ?case
  proof
    assume "\<exists>i. owned_by worker i \<and> settles (settlement succeeded t err m delay i) t i (tables w) (tables w')"
    then obtain i where i: "owned_by worker i" "settles (settlement succeeded t err m delay i) t i (tables w) (tables w')" by blast
    have "j \<noteq> i" using i(1) held other by (auto simp: owned_by_def held_def)
    then show ?thesis by (rule moves_held [OF held settles_moves [OF i(2) settlement_status]])
  qed (use held in simp)
qed (use held in simp)

lemma persist_held:
  assumes inv: "detection_inv (tables w)" and held: "held v x j (tables w)" and other: "worker \<noteq> v"
  shows "wp (persist_alerts_and_complete_job E B tenant job worker as now) (\<lambda>_ w'. held v x j (tables w')) (\<lambda>_ w'. held v x j (tables w')) w"
proof (rule wp_mono [OF persist_wp], goal_cases)
  case (3 r w')
  then obtain t i where i: "owns_lease worker t i" and moves: "queue_moves (\<lambda>y. y = i) (succeed_job t) (tables w) (tables w')"
    by (auto dest!: persists_moves)
  have "j \<noteq> i" using i held other by (auto simp: owns_lease_def held_def owned_by_def)
  then show ?case by (rule moves_held [OF held moves])
qed (use held inv in \<open>simp_all add: detection_inv_def\<close>)

lemma run_store_held:
  assumes inv: "detection_inv (tables w)" and held: "held v x j (tables w)"
    and other: "settler oper \<noteq> Some v" and early: "\<And>t. now = Aware t \<Longrightarrow> t < x"
  shows "wp (run_store E L B tenant oper now) (\<lambda>_ w'. held v x j (tables w')) (\<lambda>_ w'. held v x j (tables w')) w"
proof -
  have queue: "queue_inv (tables w)" using inv by (simp add: detection_inv_def)
  have ingest: "keeps (held v x j) (ingest_event E L tenant e now)" "keeps (held v x j) (ingest_events E L tenant es now)" for e es
    unfolding ingest_event_def ingest_events_def by (intro keeps_rules ingests_held_lease)+
  show ?thesis
    using keeps_wp [OF ingest(1) held] keeps_wp [OF ingest(2) held] lease_held [OF queue held early]
      transition_held [OF queue held] persist_held [OF inv held] other held
    by (cases oper) (simp_all add: run_store_def wp_andthen wp_ret_fun complete_job_def fail_job_def wp_raise_if)
qed

text \<open>
  C12. A lease protects its job: while a worker holds a lease that has not reached its deadline, no
  sequence of calls made before the deadline (ingestion, other workers claiming, completing, failing
  or writing decisions, in any network) changes the job or takes it away; only the owner settles it.
\<close>

theorem lease_protected:
  assumes "detection_inv (tables w)" and "j \<in> set (detection_jobs (tables w))"
    and "jb_status j = JobLeased" and "jb_owner j = Some v" and "jb_lease_expires j = Some x"
    and "\<forall>(tenant, oper, now) \<in> set cs. settler oper \<noteq> Some v \<and> (\<forall>t. now = Aware t \<longrightarrow> t < x)"
  shows "j \<in> set (detection_jobs (tables (run_stores E L B cs w)))"
proof -
  have "held v x j (tables (run_stores E L B cs w))"
    if "detection_inv (tables w)" "held v x j (tables w)"
      "\<forall>(tenant, oper, now) \<in> set cs. settler oper \<noteq> Some v \<and> (\<forall>t. now = Aware t \<longrightarrow> t < x)" for w cs
    using that
  proof (induction cs arbitrary: w)
    case (Cons c cs)
    obtain tenant oper now where c: "c = (tenant, oper, now)" by (cases c)
    let ?v = "snd (run_store E L B tenant oper now w)"
    have "detection_inv (tables ?v)"
      using store.run_one [OF Cons.prems(1), of E L B c] by (simp add: c)
    moreover have "held v x j (tables ?v)"
      using run_store_held [OF Cons.prems(1,2), of oper now E L B tenant] Cons.prems(3)
      by (auto simp: c wp_def split: prod.splits sum.splits)
    ultimately show ?case
      using Cons.IH [of ?v] Cons.prems(3) by (simp add: run_stores_def c)
  qed (simp add: run_stores_def)
  with assms show ?thesis by (auto simp: held_def owned_by_def)
qed

theorem lease_protected_witness:
  "leased_job \<in> set (detection_jobs (tables (run_stores sample_env sample_pipeline sample_book
     [(''t1'', Lease ''w2'' 5 60, Aware 50), (''t1'', Complete ''j1'' ''w2'', Aware 60)] (world_at (queue_db leased_job)))))"
  by (rule lease_protected [where v = "''w1''" and x = 100])
    (simp_all add: sample_detection_inv, simp_all add: queue_db_def leased_job_def lease_row_def)

lemma job_at_persisted:
  assumes "queue_inv d" "persists tenant job worker as t n d d'"
  shows "\<exists>j. job_at tenant job d' = Some (succeed_job t j)"
proof -
  obtain j where j: "job_at tenant job d = Some j" and moves: "queue_moves (\<lambda>x. x = j) (succeed_job t) d d'"
    using persists_moves [OF assms(2)] by blast
  then show ?thesis by (auto simp: job_at_key queue_moves_def job_success.upd_find)
qed

theorem ingest_idempotent_witness:
  "ingest_events sample_env sample_pipeline ''t1'' [sample_event ''e2''] (Aware 6)
     (after (ingest_events sample_env sample_pipeline ''t1'' [sample_event ''e2''] (Aware 5)) (world_at sample_db)) =
   (Inr [\<lparr>ir_accepted = False, ir_event = ''e2'', ir_job = job_id_of sample_env ''t1'' ''e2''\<rparr>],
    (after (ingest_events sample_env sample_pipeline ''t1'' [sample_event ''e2''] (Aware 5)) (world_at sample_db))\<lparr>in_tx := False\<rparr>)"
proof -
  let ?m = "ingest_events sample_env sample_pipeline ''t1'' [sample_event ''e2''] (Aware 5)"
  have "succeeds ?m (world_at sample_db)" by code_simp
  then obtain rs where run: "?m (world_at sample_db) = (Inr rs, after ?m (world_at sample_db))" using succeedsD by blast
  show ?thesis using ingest_idempotent [OF run, of 6] by (simp add: sample_event_def)
qed

text \<open>
  C13. Decisions are written at most once and only under a live lease: when a worker submits the alerts
  of a job, either nothing changes at all, or the worker owned an unexpired lease, every submitted
  alert is of the job's event and is stored, every alert that is new is on an open case, the reported
  number is the number of alerts added, and the job is succeeded; after that, no submission for the
  job by any worker is accepted again.
\<close>

theorem persist_once:
  assumes "detection_inv (tables w)"
    and "persist_alerts_and_complete_job E B tenant job worker as now w = (r, w')"
  shows "case r of
      Inl e \<Rightarrow> tables w' = tables w
    | Inr p \<Rightarrow> (\<exists>t. now = Aware t \<and> persists tenant job worker as t (ps_inserted p) (tables w) (tables w')) \<and>
        fst (persist_alerts_and_complete_job E B' tenant job worker' as' (Aware later) w') =
          Inl (LeaseOwnershipError, ''worker does not own a current job lease'')"
proof (cases r)
  case (Inl e)
  with assms wp_Inl [OF persist_wp] show ?thesis by (auto simp: detection_inv_def)
next
  case (Inr p)
  have q: "queue_inv (tables w)" "case_inv (tables w)" using assms(1) by (simp_all add: detection_inv_def)
  obtain t where t: "now = Aware t" and p: "persists tenant job worker as t (ps_inserted p) (tables w) (tables w')"
    using wp_Inr [OF persist_wp [OF q]] assms(2) Inr by blast
  obtain j where j: "job_at tenant job (tables w') = Some (succeed_job t j)" using job_at_persisted [OF q(1) p] by blast
  have "job_join tenant job (tables w') = None \<or>
      (\<exists>ev. job_join tenant job (tables w') = Some (succeed_job t j, ev) \<and> \<not> owns_lease worker' later (succeed_job t j))"
    by (cases "event_at tenant (jb_event (succeed_job t j)) (tables w')")
      (simp_all add: job_join_def j owns_lease_def succeed_job_def)
  then show ?thesis
    using p t Inr
    by (auto simp: persist_alerts_and_complete_job_def utc_text_def bind_ret atomically_def bind_apply query_run
        raise_def raise_if_def andthen_def)
qed

theorem persist_once_witness:
  "case fst (persist_alerts_and_complete_job sample_env sample_book ''t1'' ''j1'' ''w1'' [] (Aware 50) (world_at (queue_db leased_job))) of
      Inl e \<Rightarrow> False
    | Inr p \<Rightarrow> (\<exists>t. Aware 50 = Aware t \<and> persists ''t1'' ''j1'' ''w1'' [] t (ps_inserted p) (queue_db leased_job)
          (tables (after (persist_alerts_and_complete_job sample_env sample_book ''t1'' ''j1'' ''w1'' [] (Aware 50)) (world_at (queue_db leased_job)))))"
proof -
  let ?m = "persist_alerts_and_complete_job sample_env sample_book ''t1'' ''j1'' ''w1'' [] (Aware 50)"
  have "succeeds ?m (world_at (queue_db leased_job))" by code_simp
  then obtain p where run: "?m (world_at (queue_db leased_job)) = (Inr p, after ?m (world_at (queue_db leased_job)))"
    using succeedsD by blast
  show ?thesis
    using persist_once [OF _ run, of sample_book "''w1''" "[]" 60] unfolding run by (simp add: sample_detection_inv)
qed

subsection \<open>Which jobs a worker gets\<close>

definition claim_order :: "string \<Rightarrow> db \<Rightarrow> job_row \<Rightarrow> instant \<times> instant \<times> instant \<times> string" where
  "claim_order tenant d j = (case event_at tenant (jb_event j) d of
     None \<Rightarrow> (0, 0, jb_created j, jb_id j) | Some e \<Rightarrow> (ev_occurred e, ev_received e, jb_created j, jb_id j))"

lemma take_sorted_first:
  fixes k :: "'a \<Rightarrow> 'b::linorder"
  assumes "x \<in> set xs"
  shows "x \<in> set (take n (order_by k xs)) \<or>
    length (take n (order_by k xs)) = n \<and> (\<forall>y \<in> set (take n (order_by k xs)). k y \<le> k x)"
proof (cases "x \<in> set (take n (order_by k xs))")
  case False
  have "x \<in> set (take n (order_by k xs) @ drop n (order_by k xs))" using assms by simp
  with False have x: "x \<in> set (drop n (order_by k xs))" unfolding set_append by blast
  have "sorted (map k (take n (order_by k xs) @ drop n (order_by k xs)))" by (simp add: sorted_order_by)
  then have "\<forall>y \<in> set (take n (order_by k xs)). k y \<le> k x" using x unfolding map_append sorted_append by simp
  moreover have "n \<le> length (order_by k xs)" using x by (cases "n \<le> length (order_by k xs)") auto
  ultimately show ?thesis by simp
qed simp

lemma candidates_iff:
  "(j, e) \<in> set (candidates tenant t d) \<longleftrightarrow> j \<in> set (detection_jobs d) \<and> ready tenant t j \<and> event_at tenant (jb_event j) d = Some e"
  by (force simp: List.map_filter_def)

lemma ready_jobs_first:
  assumes inv: "queue_inv d" and j: "j \<in> set (detection_jobs d)" "ready tenant t j"
  shows "jb_id j \<in> set (ready_jobs tenant t n d) \<or> length (ready_jobs tenant t n d) = n \<and>
    (\<forall>i \<in> set (detection_jobs d). jb_tenant i = tenant \<and> jb_id i \<in> set (ready_jobs tenant t n d) \<longrightarrow>
       claim_order tenant d i \<le> claim_order tenant d j)"
proof -
  let ?k = "\<lambda>(j, e). (ev_occurred e, ev_received e, jb_created j, jb_id j)"
  let ?top = "take n (order_by ?k (candidates tenant t d))"
  obtain e where e: "event_at tenant (jb_event j) d = Some e"
    using event_at_job [OF inv j(1)] j(2) by (auto simp: ready_def)
  have "(j, e) \<in> set (candidates tenant t d)" unfolding candidates_iff using j e by simp
  from take_sorted_first [OF this, of n ?k] show ?thesis
  proof
    assume "(j, e) \<in> set ?top"
    then have "jb_id j \<in> set (ready_jobs tenant t n d)" unfolding ready_jobs_def by force
    then show ?thesis ..
  next
    assume top: "length ?top = n \<and> (\<forall>y \<in> set ?top. ?k y \<le> ?k (j, e))"
    have "claim_order tenant d i \<le> claim_order tenant d j"
      if i: "i \<in> set (detection_jobs d)" "jb_tenant i = tenant" "jb_id i \<in> set (ready_jobs tenant t n d)" for i
    proof -
      obtain i' e' where c: "(i', e') \<in> set ?top" "jb_id i' = jb_id i" using i(3) unfolding ready_jobs_def by auto
      have i': "i' \<in> set (detection_jobs d)" "jb_tenant i' = tenant" "event_at tenant (jb_event i') d = Some e'"
        using in_set_takeD [OF c(1)] candidates_iff [of i' e' tenant d t] by (auto simp: ready_def)
      have "i' = i" using inv i i' c(2) by (auto simp: queue_inv_def job_key_def intro: key_unique_eq)
      with bspec [OF conjunct2 [OF top] c(1)] i'(3) e show ?thesis by (simp add: claim_order_def)
    qed
    with top show ?thesis unfolding ready_jobs_def by simp
  qed
qed

text \<open>
  Claiming is fair: a worker that asks for jobs gets every job that is due, unless it already gets
  as many as it asked for, and then only jobs whose events are at least as old (by event time, then
  arrival) as any due job left behind. Each job it gets is leased to it until the stated deadline
  with one attempt more.
\<close>

theorem lease_oldest_first:
  assumes "queue_inv (tables w)"
    and "lease_jobs tenant worker limit (Aware t) secs w = (Inr ls, w')"
    and "j \<in> set (detection_jobs (tables w))" and "ready tenant t j"
  shows "(if jb_id j \<in> jl_job ` set ls then lease_row worker t (t + seconds secs) j \<in> set (detection_jobs (tables w'))
     else int (length ls) = limit \<and> j \<in> set (detection_jobs (tables w')) \<and>
       (\<forall>i \<in> set (detection_jobs (tables w)). jb_tenant i = tenant \<and> jb_id i \<in> jl_job ` set ls \<longrightarrow>
          claim_order tenant (tables w) i \<le> claim_order tenant (tables w) j))"
proof -
  let ?ids = "ready_jobs tenant t (nat limit) (tables w)"
  have limit: "1 \<le> limit" and ids: "map jl_job ls = ?ids" and claims: "claims tenant worker t (t + seconds secs) ?ids (tables w) (tables w')"
    using wp_Inr [OF lease_jobs_wp [OF assms(1)] assms(2)] by auto
  have set_ids: "jl_job ` set ls = set ?ids" and len: "length ls = length ?ids"
    using arg_cong [OF ids, of set] arg_cong [OF ids, of length] by simp_all
  have tenant: "jb_tenant j = tenant" using assms(4) by (simp add: ready_def)
  have upd: "(if jb_tenant j = tenant \<and> jb_id j \<in> set ?ids then lease_row worker t (t + seconds secs) j else j) \<in> set (detection_jobs (tables w'))"
    using claims assms(3) unfolding claims_def update_where_def by simp
  show ?thesis
    using upd tenant limit ready_jobs_first [OF assms(1,3,4), of "nat limit"] unfolding set_ids len by auto
qed

theorem lease_oldest_first_witness:
  "\<exists>ls w'. lease_jobs ''t1'' ''w1'' 5 (Aware 9) 60 (world_at (queue_db sample_job)) = (Inr ls, w') \<and>
     (if jb_id sample_job \<in> jl_job ` set ls then lease_row ''w1'' 9 (9 + seconds 60) sample_job \<in> set (detection_jobs (tables w'))
      else int (length ls) = 5)"
proof -
  let ?m = "lease_jobs ''t1'' ''w1'' 5 (Aware 9) 60"
  have "succeeds ?m (world_at (queue_db sample_job))" by code_simp
  then obtain ls where run: "?m (world_at (queue_db sample_job)) = (Inr ls, after ?m (world_at (queue_db sample_job)))"
    using succeedsD by blast
  have "queue_inv (tables (world_at (queue_db sample_job)))" "sample_job \<in> set (detection_jobs (tables (world_at (queue_db sample_job))))"
    "ready ''t1'' 9 sample_job"
    using sample_detection_inv(1) by (simp_all add: detection_inv_def queue_db_def ready_def sample_job_def new_job_def)
  with lease_oldest_first [OF _ run, of sample_job] run show ?thesis by (auto split: if_splits)
qed

end
