(* ===== verification/Device_Auth.thy ===== *)
theory Device_Auth
  imports Audit_Log Base64
begin

text \<open>
  Device authentication of \<open>standalone/auth.py\<close> (\<open>DeviceHmacAuthenticator\<close>) and the credential
  cipher of \<open>standalone/enrollment.py\<close> (\<open>AesGcmDeviceCredentialCipher\<close>) that stores the secrets
  it verifies with. A collector request is accepted only on a fixed set of routes, with a fresh
  timestamp, under a live credential of an active device in an active network, with the right keyed
  code, and its nonce is consumed in the same transaction. The theory decides acceptance exactly and
  shows when an accepted request cannot be accepted again.
\<close>

section \<open>The credential cipher\<close>

definition cipher_aad :: "string \<Rightarrow> string" where
  "cipher_aad credential_id = utf8 (''controlforge-device-credential:v1:'' @ credential_id)"

definition rstrip_pad :: "string \<Rightarrow> string" where
  "rstrip_pad s = rev (dropWhile (\<lambda>c. c = CHR ''='') (rev s))"

definition cipher_encode :: "string \<Rightarrow> string" where
  "cipher_encode value = rstrip_pad (urlsafe_b64encode value)"

definition b64_shape :: "string \<Rightarrow> bool" where
  "b64_shape s \<longleftrightarrow> (let tail = dropWhile (\<lambda>c. b64_val c \<noteq> None) s in
     length tail \<le> 2 \<and> list_all (\<lambda>c. c = CHR ''='') tail)"

definition b64_padded :: "string \<Rightarrow> string" where
  "b64_padded s = s @ replicate ((4 - length s mod 4) mod 4) (CHR ''='')"

definition b64decode_strict :: "string \<Rightarrow> string option" where
  "b64decode_strict s = (if b64_shape s then a2b 0 0 0 s else None)"

definition cipher_decode :: "string \<Rightarrow> string prog" where
  "cipher_decode value =
     (case b64decode_strict (b64_padded value) of
        None \<Rightarrow> raise EnrollmentError ''device credential ciphertext is invalid''
      | Some bytes \<Rightarrow> ret bytes)"

definition cipher_encrypt :: "env \<Rightarrow> string \<Rightarrow> string \<Rightarrow> (string \<times> string) prog" where
  "cipher_encrypt E credential_id secret =
     andthen (raise_if (length secret < 32) ValueError ''device credential secret must contain at least 32 bytes'')
     (bind fresh (\<lambda>iv.
      ret (cipher_encode (aead_encrypt E iv secret (cipher_aad credential_id)), cipher_encode iv)))"

definition cipher_resolve :: "env \<Rightarrow> string \<Rightarrow> string \<Rightarrow> string \<Rightarrow> string prog" where
  "cipher_resolve E credential_id ciphertext iv =
     bind (cipher_decode iv) (\<lambda>iv_bytes.
     bind (cipher_decode ciphertext) (\<lambda>body.
     case aead_decrypt E iv_bytes body (cipher_aad credential_id) of
       None \<Rightarrow> raise EnrollmentError ''device credential decryption failed''
     | Some secret \<Rightarrow> ret secret))"

section \<open>Requests\<close>

record collector_request =
  rq_method :: string
  rq_path :: string
  rq_body :: string
  rq_credential :: string
  rq_timestamp :: string
  rq_nonce :: string
  rq_signature :: string

record authenticated_device =
  ad_tenant :: string
  ad_device :: string
  ad_credential :: string

definition upper_char :: "char \<Rightarrow> bool" where
  "upper_char c \<longleftrightarrow> 65 \<le> code c \<and> code c \<le> 90"

definition small_char :: "char \<Rightarrow> bool" where
  "small_char c \<longleftrightarrow> 97 \<le> code c \<and> code c \<le> 122"

definition lower_hex :: "char \<Rightarrow> bool" where
  "lower_hex c \<longleftrightarrow> is_digit c \<or> 97 \<le> code c \<and> code c \<le> 102"

definition identifier_char :: "char \<Rightarrow> bool" where
  "identifier_char c \<longleftrightarrow> upper_char c \<or> small_char c \<or> is_digit c \<or> c \<in> set ''._:-''"

definition credential_id_ok :: "string \<Rightarrow> bool" where
  "credential_id_ok s \<longleftrightarrow> 1 \<le> length s \<and> length s \<le> 128 \<and> list_all identifier_char s"

definition nonce_ok :: "string \<Rightarrow> bool" where
  "nonce_ok s \<longleftrightarrow> 16 \<le> length s \<and> length s \<le> 128 \<and>
     list_all (\<lambda>c. upper_char c \<or> small_char c \<or> is_digit c \<or> c \<in> set ''_-'') s"

definition signature_ok :: "string \<Rightarrow> bool" where
  "signature_ok s \<longleftrightarrow> length s = 64 \<and> list_all lower_hex s"

fun hex_groups :: "nat list \<Rightarrow> string \<Rightarrow> string option" where
  "hex_groups [] s = Some s"
| "hex_groups [n] s = (if length (take n s) = n \<and> list_all lower_hex (take n s) then Some (drop n s) else None)"
| "hex_groups (n # m # ns) s =
     (if length (take n s) = n \<and> list_all lower_hex (take n s) \<and> take 1 (drop n s) = ''-''
      then hex_groups (m # ns) (drop (Suc n) s) else None)"

definition action_result_path :: "string \<Rightarrow> bool" where
  "action_result_path path \<longleftrightarrow> (case strip_prefix ''/v1/agent/actions/'' path of
     None \<Rightarrow> False
   | Some rest \<Rightarrow> hex_groups [8, 4, 4, 4, 12] rest = Some ''/result'')"

definition rotation_ack_path :: string where
  "rotation_ack_path = ''/v1/agent/credential-rotation/ack''"

definition request_semantics_allowed :: "string \<Rightarrow> string \<Rightarrow> bool" where
  "request_semantics_allowed http_method path \<longleftrightarrow>
     http_method = ''POST'' \<and> path = ''/v1/ingest/events'' \<or>
     http_method = ''GET'' \<and> path = ''/v1/agent/actions'' \<or>
     http_method = ''GET'' \<and> path = ''/v1/agent/credential-rotation'' \<or>
     http_method = ''POST'' \<and> path = rotation_ack_path \<or>
     http_method = ''POST'' \<and> action_result_path path"

definition newline :: string where
  "newline = [char_of (10 :: nat)]"

definition canonical_request :: "env \<Rightarrow> collector_request \<Rightarrow> string" where
  "canonical_request E R = utf8 (rq_method R @ newline @ rq_path R @ newline @ rq_timestamp R @ newline @
     rq_nonce R @ newline @ sha256_hex E (rq_body R))"

definition parse_timestamp :: "string \<Rightarrow> instant prog" where
  "parse_timestamp value = (case parse_stamp value of
     None \<Rightarrow> raise CollectorAuthenticationError ''collector timestamp is invalid''
   | Some (Naive _) \<Rightarrow> raise CollectorAuthenticationError ''collector timestamp must include an offset''
   | Some (Aware u) \<Rightarrow>
       if u < 0 \<or> max_instant \<le> u then raise OverflowError ''date value out of range'' else ret u)"

section \<open>Authentication\<close>

definition credential_join :: "string \<Rightarrow> db \<Rightarrow> (credential_row \<times> device_row \<times> tenant_row) option" where
  "credential_join credential_id d =
     (case List.find (\<lambda>c. dc_id c = credential_id) (device_credentials d) of
        None \<Rightarrow> None
      | Some c \<Rightarrow>
          (case (List.find (\<lambda>v. dv_tenant v = dc_tenant c \<and> dv_id v = dc_device c) (devices d),
                 List.find (\<lambda>t. t_id t = dc_tenant c) (tenants d)) of
             (Some v, Some t) \<Rightarrow> Some (c, v, t)
           | _ \<Rightarrow> None))"

definition pending_ack :: "collector_request \<Rightarrow> credential_row \<Rightarrow> db \<Rightarrow> bool" where
  "pending_ack R c d \<longleftrightarrow> dc_activated c = None \<and> rq_path R = rotation_ack_path \<and>
     row_exists (\<lambda>r. ro_replacement r = rq_credential R \<and> ro_tenant r = dc_tenant c \<and>
       ro_device r = dc_device c \<and> ro_status r = RotDelivered) (rotations d)"

definition insert_nonce :: "nonce_row \<Rightarrow> unit prog" where
  "insert_nonce n = insert_checked
     (\<lambda>d. \<not> row_exists (\<lambda>x. nn_credential x = nn_credential n \<and> nn_nonce x = nn_nonce n) (auth_nonces d) \<and>
          row_exists (\<lambda>c. dc_id c = nn_credential n) (device_credentials d))
     (\<lambda>d. d\<lparr>auth_nonces := auth_nonces d @ [n]\<rparr>)"

definition credential_secret :: "env \<Rightarrow> credential_row \<Rightarrow> string prog" where
  "credential_secret E c = catch (cipher_resolve E (dc_id c) (dc_ciphertext c) (dc_iv c))
     (\<lambda>_. raise CollectorAuthenticationError ''collector credential material is unavailable'')"

definition authenticate_transaction :: "env \<Rightarrow> collector_request \<Rightarrow> instant \<Rightarrow> authenticated_device prog" where
  "authenticate_transaction E R t =
     bind (query (credential_join (rq_credential R))) (\<lambda>row.
     case row of
       None \<Rightarrow> raise CollectorAuthenticationError ''collector credential is not active''
     | Some (c, v, tn) \<Rightarrow>
         bind (query (pending_ack R c)) (\<lambda>pending.
         andthen (raise_if (dc_revoked c \<noteq> None \<or> dc_activated c = None \<and> \<not> pending \<or>
             dv_status v \<noteq> DeviceActive \<or> t_status tn \<noteq> TenantActive \<or> dc_expires c \<le> t)
           CollectorAuthenticationError ''collector credential is not active'')
         (bind (credential_secret E c) (\<lambda>secret.
         andthen (raise_if (length secret < 32) CollectorAuthenticationError
           ''collector credential material is invalid'')
         (andthen (raise_if (rq_signature R \<noteq> hmac_hex E secret (canonical_request E R))
           CollectorAuthenticationError ''collector signature is invalid'')
         (andthen (delete_rows auth_nonces auth_nonces_update (\<lambda>n. nn_expires n \<le> t))
         (andthen (on_integrity_error
             (insert_nonce \<lparr>nn_credential = rq_credential R, nn_nonce = rq_nonce R,
                nn_expires = t + seconds (max_clock_skew_seconds E * 2)\<rparr>)
             CollectorReplayError ''collector request nonce was replayed'')
         (andthen (update_rows device_credentials device_credentials_update no_trigger
             (\<lambda>x. dc_id x = rq_credential R) (\<lambda>x. x\<lparr>dc_last_used := Some t\<rparr>))
         (andthen (update_rows devices devices_update no_trigger
             (\<lambda>x. dv_tenant x = dc_tenant c \<and> dv_id x = dc_device c \<and> dv_status x = DeviceActive)
             (\<lambda>x. x\<lparr>dv_last_seen := Some t\<rparr>))
         (ret \<lparr>ad_tenant = dc_tenant c, ad_device = dc_device c, ad_credential = dc_id c\<rparr>))))))))))"

definition authenticate :: "env \<Rightarrow> collector_request \<Rightarrow> datetime \<Rightarrow> authenticated_device prog" where
  "authenticate E R now =
     andthen (raise_if (\<not> request_semantics_allowed (rq_method R) (rq_path R)) CollectorAuthenticationError
       ''collector request semantics are not allowed'')
     (andthen (raise_if (\<not> credential_id_ok (rq_credential R)) CollectorAuthenticationError
       ''collector credential identity is invalid'')
     (andthen (raise_if (\<not> nonce_ok (rq_nonce R)) CollectorAuthenticationError ''collector nonce is invalid'')
     (andthen (raise_if (\<not> signature_ok (rq_signature R)) CollectorAuthenticationError
       ''collector signature is invalid'')
     (bind (parse_timestamp (rq_timestamp R)) (\<lambda>request_time.
      case now of
        Naive _ \<Rightarrow> raise ValueError ''authentication clock must be timezone-aware''
      | Aware t \<Rightarrow>
          andthen (raise_if (seconds (max_clock_skew_seconds E) < abs (t - request_time))
            CollectorAuthenticationError ''collector timestamp is outside the allowed window'')
          (atomically (authenticate_transaction E R t)))))))"

section \<open>The cipher stores what it resolves\<close>

lemmas b64_char_alphabet = b64_val_char b64_char_not_pad

lemma encoded_shape:
  "\<exists>body k. urlsafe_b64encode s = body @ replicate k (CHR ''='') \<and> k \<le> 2 \<and> (4 - length body mod 4) mod 4 = k \<and>
     list_all (\<lambda>c. b64_val c \<noteq> None \<and> c \<noteq> CHR ''='') body"
proof (induction s rule: urlsafe_b64encode.induct)
  case 1
  show ?case by (rule exI [of _ "[]"]) simp
next
  case (2 a)
  have "code a div 4 < 64" "code a mod 4 * 16 < 64" by (simp_all add: sextets)
  then show ?case
    by (intro exI [of _ "[b64_char (code a div 4), b64_char (code a mod 4 * 16)]"] exI [of _ 2])
      (simp add: b64_char_alphabet numeral_2_eq_2)
next
  case (3 a b)
  have "code a div 4 < 64" "code a mod 4 * 16 + code b div 16 < 64" "code b mod 16 * 4 < 64"
    by (simp_all add: sextets)
  then show ?case
    by (intro exI [of _ "[b64_char (code a div 4), b64_char (code a mod 4 * 16 + code b div 16),
        b64_char (code b mod 16 * 4)]"] exI [of _ 1])
      (simp add: b64_char_alphabet)
next
  case (4 a b c r)
  then obtain body k where r: "urlsafe_b64encode r = body @ replicate k (CHR ''='')" "k \<le> 2"
      "(4 - length body mod 4) mod 4 = k" "list_all (\<lambda>c. b64_val c \<noteq> None \<and> c \<noteq> CHR ''='') body"
    by blast
  let ?quad = "[b64_char (code a div 4), b64_char (code a mod 4 * 16 + code b div 16),
      b64_char (code b mod 16 * 4 + code c div 64), b64_char (code c mod 64)]"
  have "code a div 4 < 64" "code a mod 4 * 16 + code b div 16 < 64" "code b mod 16 * 4 + code c div 64 < 64"
    "code c mod 64 < 64"
    by (simp_all add: sextets)
  then have "list_all (\<lambda>c. b64_val c \<noteq> None \<and> c \<noteq> CHR ''='') ?quad" by (simp add: b64_char_alphabet)
  moreover have "length (?quad @ body) mod 4 = length body mod 4" by (simp add: mod_add_self2 [of "length body" 4] add.commute)
  ultimately show ?case
    using r by (intro exI [of _ "?quad @ body"] exI [of _ k]) (simp only: list_all_append, simp)
qed

lemma b64decode_cipher_encode: "b64decode_strict (b64_padded (cipher_encode s)) = Some s"
proof -
  obtain body k where s: "urlsafe_b64encode s = body @ replicate k (CHR ''='')" "k \<le> 2"
      "(4 - length body mod 4) mod 4 = k" and all: "list_all (\<lambda>c. b64_val c \<noteq> None \<and> c \<noteq> CHR ''='') body"
    using encoded_shape by blast
  have "dropWhile (\<lambda>c. c = CHR ''='') (rev body) = rev body"
    using all by (cases body rule: rev_cases) auto
  then have "cipher_encode s = body"
    by (simp add: cipher_encode_def rstrip_pad_def s(1) dropWhile_append)
  moreover have "b64_padded body = urlsafe_b64encode s" using s by (simp add: b64_padded_def)
  moreover have "dropWhile (\<lambda>c. b64_val c \<noteq> None) (urlsafe_b64encode s) = replicate k (CHR ''='')"
    using all s(1) by (simp add: dropWhile_append list_all_iff) (simp add: b64_val_def code_pad)
  then have "b64_shape (urlsafe_b64encode s)"
    using s(2) by (simp add: b64_shape_def list_all_iff)
  ultimately show ?thesis
    using urlsafe_b64_round_trip [of s] by (simp add: b64decode_strict_def urlsafe_b64decode_def)
qed

text \<open>The secret a stored credential resolves to, if any; resolving reads nothing but its arguments.\<close>

definition resolved :: "env \<Rightarrow> credential_row \<Rightarrow> string option" where
  "resolved E c = Option.bind (b64decode_strict (b64_padded (dc_iv c))) (\<lambda>iv.
     Option.bind (b64decode_strict (b64_padded (dc_ciphertext c))) (\<lambda>body.
     aead_decrypt E iv body (cipher_aad (dc_id c))))"

lemma wp_cipher_resolve:
  assumes "\<And>s. resolved E c = Some s \<Longrightarrow> Q s w" "\<And>msg. resolved E c = None \<Longrightarrow> Er (EnrollmentError, msg) w"
  shows "wp (cipher_resolve E (dc_id c) (dc_ciphertext c) (dc_iv c)) Q Er w"
  using assms
  by (auto simp: cipher_resolve_def cipher_decode_def resolved_def wp_rules split: option.splits)

lemma wp_credential_secret [wp_rules]:
  "wp (credential_secret E c) Q Er w = (case resolved E c of
     None \<Rightarrow> Er (CollectorAuthenticationError, ''collector credential material is unavailable'') w | Some s \<Rightarrow> Q s w)"
  by (auto simp: credential_secret_def cipher_resolve_def cipher_decode_def resolved_def wp_rules split: option.splits)

text \<open>
  C26. What the cipher stores, it resolves: with a decryption that inverts encryption under the same
  nonce and associated data, the text pair written for a credential decodes and decrypts to the very
  secret that was encrypted, under that credential's identity.
\<close>

theorem credential_round_trip:
  assumes aead: "\<And>iv m a. aead_decrypt E iv (aead_encrypt E iv m a) a = Some m"
    and stored: "cipher_encrypt E cid secret w = (Inr (ciphertext, iv), w')"
  shows "cipher_resolve E cid ciphertext iv v = (Inr secret, v) \<and> 32 \<le> length secret"
proof -
  from stored obtain nonce where "ciphertext = cipher_encode (aead_encrypt E nonce secret (cipher_aad cid))"
      "iv = cipher_encode nonce" "32 \<le> length secret"
    by (auto simp: cipher_encrypt_def andthen_def bind_def raise_if_def raise_def ret_def fresh_def split: if_splits)
  then show ?thesis
    by (simp add: cipher_resolve_def cipher_decode_def b64decode_cipher_encode aead bind_def ret_def)
qed

lemma sample_aead: "aead_decrypt sample_env iv (aead_encrypt sample_env iv m a) a = Some m"
  by (simp add: sample_env_def take_Suc)

theorem credential_round_trip_witness:
  "\<exists>ciphertext iv. fst (cipher_encrypt sample_env ''cr1'' (replicate 32 (CHR ''k'')) (world_at sample_db)) = Inr (ciphertext, iv) \<and>
     fst (cipher_resolve sample_env ''cr1'' ciphertext iv (world_at sample_db)) = Inr (replicate 32 (CHR ''k''))"
proof -
  obtain ciphertext iv where stored: "cipher_encrypt sample_env ''cr1'' (replicate 32 (CHR ''k'')) (world_at sample_db) =
      (Inr (ciphertext, iv), after (cipher_encrypt sample_env ''cr1'' (replicate 32 (CHR ''k''))) (world_at sample_db))"
    by (simp add: cipher_encrypt_def after_def andthen_def bind_def raise_if_def ret_def fresh_def)
  from credential_round_trip [OF sample_aead stored, of "world_at sample_db"] stored show ?thesis by simp
qed

section \<open>Acceptance decided exactly\<close>

definition live_credential :: "env \<Rightarrow> collector_request \<Rightarrow> instant \<Rightarrow> db \<Rightarrow> credential_row \<Rightarrow> bool" where
  "live_credential E R t d c \<longleftrightarrow> (\<exists>v tn secret. credential_join (rq_credential R) d = Some (c, v, tn) \<and>
     dc_revoked c = None \<and> (dc_activated c \<noteq> None \<or> pending_ack R c d) \<and>
     dv_status v = DeviceActive \<and> t_status tn = TenantActive \<and> t < dc_expires c \<and>
     resolved E c = Some secret \<and> 32 \<le> length secret \<and>
     rq_signature R = hmac_hex E secret (canonical_request E R))"

definition well_formed_request :: "collector_request \<Rightarrow> bool" where
  "well_formed_request R \<longleftrightarrow> request_semantics_allowed (rq_method R) (rq_path R) \<and>
     credential_id_ok (rq_credential R) \<and> nonce_ok (rq_nonce R) \<and> signature_ok (rq_signature R)"

definition timely :: "env \<Rightarrow> collector_request \<Rightarrow> instant \<Rightarrow> bool" where
  "timely E R t \<longleftrightarrow> (\<exists>rt. parse_stamp (rq_timestamp R) = Some (Aware rt) \<and> 0 \<le> rt \<and> rt < max_instant \<and>
     abs (t - rt) \<le> seconds (max_clock_skew_seconds E))"

definition nonce_free :: "collector_request \<Rightarrow> instant \<Rightarrow> db \<Rightarrow> bool" where
  "nonce_free R t d \<longleftrightarrow> (\<forall>n \<in> set (auth_nonces d).
     nn_credential n = rq_credential R \<and> nn_nonce n = rq_nonce R \<longrightarrow> nn_expires n \<le> t)"

definition accepts :: "env \<Rightarrow> collector_request \<Rightarrow> instant \<Rightarrow> db \<Rightarrow> credential_row \<Rightarrow> bool" where
  "accepts E R t d c \<longleftrightarrow> well_formed_request R \<and> timely E R t \<and> live_credential E R t d c \<and> nonce_free R t d"

definition consume_request :: "env \<Rightarrow> collector_request \<Rightarrow> instant \<Rightarrow> credential_row \<Rightarrow> db \<Rightarrow> db" where
  "consume_request E R t c d = d\<lparr>
     auth_nonces := delete_where (\<lambda>n. nn_expires n \<le> t) (auth_nonces d) @
       [\<lparr>nn_credential = rq_credential R, nn_nonce = rq_nonce R,
         nn_expires = t + seconds (max_clock_skew_seconds E * 2)\<rparr>],
     device_credentials := update_where (\<lambda>x. dc_id x = rq_credential R) (\<lambda>x. x\<lparr>dc_last_used := Some t\<rparr>)
       (device_credentials d),
     devices := update_where (\<lambda>x. dv_tenant x = dc_tenant c \<and> dv_id x = dc_device c \<and> dv_status x = DeviceActive)
       (\<lambda>x. x\<lparr>dv_last_seen := Some t\<rparr>) (devices d)\<rparr>"

lemma credential_joinD:
  "credential_join cid d = Some (c, v, tn) \<Longrightarrow> c \<in> set (device_credentials d) \<and> dc_id c = cid"
  by (auto simp: credential_join_def split: option.splits dest: find_SomeD)

lemma authenticate_transaction_wp:
  "wp (authenticate_transaction E R t)
     (\<lambda>dev w'. \<exists>c. live_credential E R t (tables w) c \<and> nonce_free R t (tables w) \<and>
        dev = \<lparr>ad_tenant = dc_tenant c, ad_device = dc_device c, ad_credential = rq_credential R\<rparr> \<and>
        tables w' = consume_request E R t c (tables w))
     (\<lambda>e w'. \<not> (\<exists>c. live_credential E R t (tables w) c \<and> nonce_free R t (tables w)) \<and>
        fst e \<in> {CollectorAuthenticationError, CollectorReplayError} \<and>
        (fst e = CollectorReplayError \<longleftrightarrow> (\<exists>c. live_credential E R t (tables w) c))) w"
proof (cases "credential_join (rq_credential R) (tables w)")
  case None
  then show ?thesis
    by (simp add: authenticate_transaction_def wp_rules live_credential_def)
next
  case (Some j)
  then obtain c v tn where j: "credential_join (rq_credential R) (tables w) = Some (c, v, tn)"
    by (cases j) auto
  have known: "row_exists (\<lambda>c. dc_id c = rq_credential R) (device_credentials (tables w))" "dc_id c = rq_credential R"
    using credential_joinD [OF j] by (auto simp: row_exists_iff)
  show ?thesis
    unfolding authenticate_transaction_def insert_nonce_def
    using j known
    by (auto simp: wp_rules live_credential_def consume_request_def nonce_free_def row_exists_iff split: option.splits)
qed

lemma authenticate_wp:
  "wp (authenticate E R (Aware t))
     (\<lambda>dev w'. \<exists>c. accepts E R t (tables w) c \<and>
        dev = \<lparr>ad_tenant = dc_tenant c, ad_device = dc_device c, ad_credential = rq_credential R\<rparr> \<and>
        tables w' = consume_request E R t c (tables w))
     (\<lambda>e w'. \<not> (\<exists>c. accepts E R t (tables w) c) \<and> tables w' = tables w) w"
proof (cases "\<exists>rt. parse_stamp (rq_timestamp R) = Some (Aware rt)")
  case False
  then have "\<not> timely E R t" by (auto simp: timely_def)
  with False show ?thesis
    by (auto simp: authenticate_def parse_timestamp_def wp_rules accepts_def split: option.splits datetime.splits)
next
  case True
  then obtain rt where rt: "parse_stamp (rq_timestamp R) = Some (Aware rt)" by blast
  show ?thesis
    unfolding authenticate_def
    by (auto simp: wp_rules parse_timestamp_def rt accepts_def timely_def well_formed_request_def
        intro!: wp_mono [OF authenticate_transaction_wp])
qed

lemma authenticate_naive: "wp (authenticate E R (Naive x)) (\<lambda>_ _. False) (\<lambda>_ w'. w' = w) w"
  by (auto simp: authenticate_def parse_timestamp_def wp_rules split: option.splits datetime.splits)

lemma authenticate_frame:
  "wp (authenticate E R now)
     (\<lambda>dev w'. \<exists>t c. now = Aware t \<and> accepts E R t (tables w) c \<and>
        dev = \<lparr>ad_tenant = dc_tenant c, ad_device = dc_device c, ad_credential = rq_credential R\<rparr> \<and>
        tables w' = consume_request E R t c (tables w))
     (\<lambda>e w'. tables w' = tables w) w"
  by (cases now) (auto intro: wp_mono [OF authenticate_naive] wp_mono [OF authenticate_wp])

text \<open>
  C17. Acceptance of a collector request is decided exactly. The authenticator returns if and only if
  the route is one of the five allowed ones, the identifiers are well formed, the timestamp is within
  the clock skew, the credential is live (activated, or awaiting the acknowledgement of its own
  rotation), its device and network are active, the signature is the keyed code of the request under
  the stored secret, and the nonce is not held; it then returns the credential's own device, consumes the
  nonce and records the use. In every other case no table changes.
\<close>

theorem authenticate_exact:
  "case authenticate E R (Aware t) w of
     (Inr dev, w') \<Rightarrow> \<exists>c. accepts E R t (tables w) c \<and>
        dev = \<lparr>ad_tenant = dc_tenant c, ad_device = dc_device c, ad_credential = rq_credential R\<rparr> \<and>
        tables w' = consume_request E R t c (tables w)
   | (Inl e, w') \<Rightarrow> (\<nexists>c. accepts E R t (tables w) c) \<and> tables w' = tables w"
  using authenticate_wp [of E R t w] by (auto simp: wp_def split: prod.splits sum.splits)

section \<open>Replays\<close>

primrec authenticate_run :: "env \<Rightarrow> (collector_request \<times> instant) list \<Rightarrow> world \<Rightarrow> world" where
  "authenticate_run E [] w = w"
| "authenticate_run E (call # calls) w =
     authenticate_run E calls (after (authenticate E (fst call) (Aware (snd call))) w)"

definition nonce_held :: "string \<Rightarrow> string \<Rightarrow> instant \<Rightarrow> db \<Rightarrow> bool" where
  "nonce_held cid nonce until d \<longleftrightarrow>
     (\<exists>n \<in> set (auth_nonces d). nn_credential n = cid \<and> nn_nonce n = nonce \<and> nn_expires n = until)"

lemma nonce_held_step:
  assumes "nonce_held cid nonce until (tables w)" "s < until"
  shows "nonce_held cid nonce until (tables (after (authenticate E r (Aware s)) w))"
  using authenticate_wp [of E r s w] assms
  by (fastforce simp: wp_def after_def nonce_held_def consume_request_def split: prod.splits sum.splits)

lemma nonce_held_run:
  assumes "nonce_held cid nonce until (tables w)" "\<forall>(r, s) \<in> set calls. s < until"
  shows "nonce_held cid nonce until (tables (authenticate_run E calls w))"
  using assms
proof (induction calls arbitrary: w)
  case (Cons call calls)
  then have "nonce_held cid nonce until (tables (after (authenticate E (fst call) (Aware (snd call))) w))"
    by (intro nonce_held_step) auto
  with Cons show ?case by simp
qed simp

lemma nonce_held_not_free:
  "nonce_held (rq_credential R) (rq_nonce R) until d \<Longrightarrow> t < until \<Longrightarrow> \<not> accepts E R t d c"
  by (fastforce simp: accepts_def nonce_free_def nonce_held_def)

lemma accepted: "accepts E R t (tables w) c \<Longrightarrow> succeeds (authenticate E R (Aware t)) w"
  using authenticate_wp [of E R t w] by (auto simp: wp_def succeeds_def split: prod.splits sum.splits)

lemma not_accepted: "\<forall>c. \<not> accepts E R t (tables w) c \<Longrightarrow> \<exists>e. fst (authenticate E R (Aware t) w) = Inl e"
  using authenticate_wp [of E R t w] by (auto simp: wp_def split: prod.splits sum.splits)

text \<open>
  C18. A signed request is good for one acceptance. Once a request has been accepted, no request with
  the same credential, nonce and timestamp is accepted again, whatever other requests were
  authenticated in between, as long as the clock has not run backwards past the second attempt and the
  second attempt is not made at the exact microsecond at which the stored nonce expires.
\<close>

theorem request_not_replayed:
  assumes first: "authenticate E R (Aware t) w = (Inr dev, w')"
    and same: "rq_credential R' = rq_credential R" "rq_nonce R' = rq_nonce R" "rq_timestamp R' = rq_timestamp R"
    and clock: "\<forall>(r, s) \<in> set calls. s \<le> t'"
    and off_boundary: "t' \<noteq> t + seconds (2 * max_clock_skew_seconds E)"
  shows "\<exists>e. fst (authenticate E R' (Aware t') (authenticate_run E calls w')) = Inl e"
proof (rule not_accepted, rule allI)
  fix c
  let ?until = "t + seconds (2 * max_clock_skew_seconds E)"
  obtain c0 where acc: "accepts E R t (tables w) c0" and w': "tables w' = consume_request E R t c0 (tables w)"
    using authenticate_exact [of E R t w] first by auto
  show "\<not> accepts E R' t' (tables (authenticate_run E calls w')) c"
  proof (cases "t' < ?until")
    case True
    have "nonce_held (rq_credential R) (rq_nonce R) ?until (tables w')"
      by (simp add: w' nonce_held_def consume_request_def mult.commute)
    moreover have "\<forall>(r, s) \<in> set calls. s < ?until" using clock True by auto
    ultimately have "nonce_held (rq_credential R') (rq_nonce R') ?until (tables (authenticate_run E calls w'))"
      using same by (simp add: nonce_held_run)
    with True show ?thesis by (rule nonce_held_not_free [rotated])
  next
    case False
    from acc obtain rt where "parse_stamp (rq_timestamp R) = Some (Aware rt)"
        "abs (t - rt) \<le> seconds (max_clock_skew_seconds E)"
      by (auto simp: accepts_def timely_def)
    with False off_boundary same(3) show ?thesis
      by (auto simp: accepts_def timely_def seconds_def)
  qed
qed

section \<open>A device on the sample appliance\<close>

definition sample_secret :: string where
  "sample_secret = replicate 32 (CHR ''k'')"

definition device_env :: env where
  "device_env = sample_env\<lparr>hmac_hex := (\<lambda>k m. replicate 64 (CHR ''a''))\<rparr>"

definition sample_credential :: credential_row where
  "sample_credential = \<lparr>dc_id = ''cr1'', dc_tenant = ''t1'', dc_device = ''dev1'', dc_name = ''initial enrollment'',
     dc_ciphertext = cipher_encode (aead_encrypt sample_env ''iv'' sample_secret (cipher_aad ''cr1'')),
     dc_iv = cipher_encode ''iv'', dc_created = 0, dc_expires = 1000000000000, dc_last_used = None,
     dc_revoked = None, dc_activated = Some 0\<rparr>"

definition sample_device :: device_row where
  "sample_device = \<lparr>dv_tenant = ''t1'', dv_id = ''dev1'', dv_name = ''Mac'', dv_platform = ''macos'',
     dv_status = DeviceActive, dv_enrolled = Some 0, dv_last_seen = None, dv_revoked = None\<rparr>"

definition device_db :: db where
  "device_db = sample_db\<lparr>devices := [sample_device], device_credentials := [sample_credential]\<rparr>"

definition sample_request :: collector_request where
  "sample_request = \<lparr>rq_method = ''GET'', rq_path = ''/v1/agent/actions'', rq_body = [], rq_credential = ''cr1'',
     rq_timestamp = iso_text 300000000, rq_nonce = ''nonce-0123456789'', rq_signature = replicate 64 (CHR ''a'')\<rparr>"

lemma sample_resolved: "resolved device_env sample_credential = Some sample_secret"
  by (simp add: resolved_def sample_credential_def b64decode_cipher_encode device_env_def sample_env_def
      numeral_3_eq_3 numeral_2_eq_2)

lemma sample_live:
  assumes "rq_credential R = ''cr1''" "rq_signature R = replicate 64 (CHR ''a'')"
    and "credential_join ''cr1'' d = Some (sample_credential\<lparr>dc_last_used := u\<rparr>, v, tn)" "t < 1000000000000"
    and "dv_status v = DeviceActive" "t_status tn = TenantActive"
  shows "live_credential device_env R t d (sample_credential\<lparr>dc_last_used := u\<rparr>)"
proof -
  have "resolved device_env (sample_credential\<lparr>dc_last_used := u\<rparr>) = Some sample_secret"
    using sample_resolved by (simp add: resolved_def)
  with assms show ?thesis
    by (simp add: live_credential_def, simp add: sample_credential_def device_env_def sample_secret_def)
qed

lemma sample_timely:
  "rq_timestamp R = iso_text 300000000 \<Longrightarrow> timely device_env R t \<longleftrightarrow> 0 \<le> t \<and> t \<le> 600000000"
  using parse_stamp_iso_text [of 300000000] max_instant_code
  by (auto simp: timely_def device_env_def sample_env_def seconds_def)

lemma sample_request_fields:
  "rq_credential sample_request = ''cr1''" "rq_signature sample_request = replicate 64 (CHR ''a'')"
  "rq_timestamp sample_request = iso_text 300000000"
  by (simp_all add: sample_request_def)

lemma sample_well_formed: "well_formed_request sample_request"
  unfolding well_formed_request_def sample_request_def collector_request.select_convs
  by code_simp

lemma device_db_accepts:
  assumes "0 \<le> t" "t \<le> 600000000"
  shows "accepts device_env sample_request t device_db sample_credential"
proof -
  have "credential_join ''cr1'' device_db = Some (sample_credential\<lparr>dc_last_used := None\<rparr>, sample_device, sample_tenant)"
    by (simp add: credential_join_def device_db_def sample_db_def sample_credential_def sample_device_def sample_tenant_def)
  from sample_live [OF sample_request_fields(1,2) this, of t] assms
  have "live_credential device_env sample_request t device_db sample_credential"
    by (simp add: sample_device_def sample_tenant_def sample_credential_def)
  then show ?thesis
    using assms
    by (simp add: accepts_def sample_timely sample_request_fields sample_well_formed nonce_free_def device_db_def sample_db_def empty_db_def)
qed

theorem request_not_replayed_witness:
  "\<exists>e. fst (authenticate device_env sample_request (Aware 400000000)
     (authenticate_run device_env [(sample_request, 350000000)]
       (after (authenticate device_env sample_request (Aware 300000000)) (world_at device_db)))) = Inl e"
proof -
  have "succeeds (authenticate device_env sample_request (Aware 300000000)) (world_at device_db)"
    by (rule accepted [where c = sample_credential]) (simp add: device_db_accepts)
  then obtain dev where run: "authenticate device_env sample_request (Aware 300000000) (world_at device_db) =
      (Inr dev, after (authenticate device_env sample_request (Aware 300000000)) (world_at device_db))"
    by (blast dest: succeedsD)
  have "400000000 \<noteq> 300000000 + seconds (2 * max_clock_skew_seconds device_env)"
    by (simp add: device_env_def sample_env_def seconds_def)
  with request_not_replayed [OF run refl refl refl, of "[(sample_request, 350000000)]" 400000000]
  show ?thesis by simp
qed

text \<open>
  The hypothesis on the boundary is needed: a nonce is dropped when its expiry is at or before the
  clock, while the timestamp check still admits a difference equal to the skew. A request stamped one
  skew ahead of the clock is accepted twice, two skews apart.
\<close>

lemma replay_at_boundary:
  "succeeds (authenticate device_env sample_request (Aware 0)) (world_at device_db) \<and>
   succeeds (authenticate device_env sample_request (Aware 600000000))
     (after (authenticate device_env sample_request (Aware 0)) (world_at device_db))"
proof
  show first: "succeeds (authenticate device_env sample_request (Aware 0)) (world_at device_db)"
    by (rule accepted [where c = sample_credential]) (simp add: device_db_accepts)
  let ?d = "tables (after (authenticate device_env sample_request (Aware 0)) (world_at device_db))"
  obtain c where acc: "accepts device_env sample_request 0 device_db c"
    and d: "?d = consume_request device_env sample_request 0 c device_db"
    using authenticate_wp [of device_env sample_request 0 "world_at device_db"] first
    by (auto simp: wp_def succeeds_def after_def split: prod.splits sum.splits)
  have "c = sample_credential"
    using acc by (simp add: accepts_def live_credential_def credential_join_def device_db_def sample_request_def
        sample_credential_def split: option.splits if_splits)
  with d have d': "?d = consume_request device_env sample_request 0 sample_credential device_db" by simp
  have "credential_join ''cr1'' ?d = Some (sample_credential\<lparr>dc_last_used := Some 0\<rparr>,
      sample_device\<lparr>dv_last_seen := Some 0\<rparr>, sample_tenant)"
    unfolding d' by (simp add: credential_join_def consume_request_def device_db_def sample_db_def sample_credential_def
        sample_device_def sample_tenant_def sample_request_def)
  from sample_live [OF sample_request_fields(1,2) this, of 600000000]
  have "live_credential device_env sample_request 600000000 ?d (sample_credential\<lparr>dc_last_used := Some 0\<rparr>)"
    by (simp add: sample_device_def sample_tenant_def)
  moreover have "nonce_free sample_request 600000000 ?d"
    unfolding d' by (simp add: nonce_free_def consume_request_def device_db_def sample_db_def empty_db_def
        device_env_def sample_env_def seconds_def)
  ultimately have "accepts device_env sample_request 600000000 ?d (sample_credential\<lparr>dc_last_used := Some 0\<rparr>)"
    by (simp add: accepts_def sample_timely sample_request_fields sample_well_formed)
  then show "succeeds (authenticate device_env sample_request (Aware 600000000))
     (after (authenticate device_env sample_request (Aware 0)) (world_at device_db))"
    by (rule accepted)
qed

text \<open>
  A timestamp whose offset moves it out of the calendar is not refused as an authentication failure:
  the conversion to UTC itself raises.
\<close>

lemma timestamp_overflow:
  "fst (authenticate device_env (sample_request\<lparr>rq_timestamp := ''0001-01-01T00:00:00+01:00''\<rparr>) (Aware 0)
     (world_at device_db)) = Inl (OverflowError, ''date value out of range'')"
proof -
  have "parse_stamp ''0001-01-01T00:00:00+01:00'' = Some (Aware (- 3600000000))"
    by (simp add: parse_stamp_def replace_z_def fromisoformat_def parse_date_def split_sign_def parse_clock_def
        parse_offset_def digits_val_def is_digit_def code_def days_of_date_def us_of_clock_def clock_ok_def day_us_def
        parse_fraction_def month_len_def days_in_year_before_def days_before_def year_len_def leap_def)
  with sample_well_formed show ?thesis
    by (simp add: authenticate_def parse_timestamp_def well_formed_request_def andthen_def bind_def raise_if_def
        raise_def ret_def)
qed

end
