(* ===== verification/Enrollment.thy ===== *)
theory Enrollment
  imports Store Device_Auth
begin

text \<open>
  Endpoint enrollment of \<open>standalone/enrollment.py\<close> (\<open>DeviceEnrollmentService\<close>): one-use
  grants, the claim that turns a grant into a device with its credential, the resumption of a claim
  whose answer was lost, and the revocation of grants, credentials and devices, with the constraints
  and triggers of \<open>device_credential_rotations\<close>. The theorem says that a grant yields one
  credential for one device, whatever else happens in between.
\<close>

section \<open>Values\<close>

record enrollment_grant =
  gr_id :: string
  gr_token :: string
  gr_expires :: instant
  gr_expected :: "string option"

record enrolled_credential =
  ed_tenant :: string
  ed_device :: string
  ed_credential :: string
  ed_secret :: string
  ed_expires :: instant

record device_summary =
  ds_id :: string
  ds_name :: string
  ds_platform :: string
  ds_status :: device_status
  ds_enrolled :: "instant option"
  ds_last_seen :: "instant option"
  ds_active :: nat

text \<open>\<open>bytes.decode("utf-8")\<close> on the modelled range of characters.\<close>

fun utf8_decode :: "string \<Rightarrow> string option" where
  "utf8_decode [] = Some []"
| "utf8_decode (c # s) =
     (if code c < 128 then map_option (Cons c) (utf8_decode s)
      else case s of
        [] \<Rightarrow> None
      | d # r \<Rightarrow>
          if (code c = 194 \<or> code c = 195) \<and> 128 \<le> code d \<and> code d < 192
          then map_option (Cons (char_of ((code c - 192) * 64 + (code d - 128)))) (utf8_decode r) else None)"

definition require_identifier :: "string \<Rightarrow> string \<Rightarrow> unit prog" where
  "require_identifier value label = raise_if (\<not> credential_id_ok value) ValueError (label @ '' is invalid'')"

section \<open>Constraints\<close>

definition insert_enrollment :: "enrollment_row \<Rightarrow> unit prog" where
  "insert_enrollment e = insert_checked
     (\<lambda>d. \<not> row_exists (\<lambda>x. et_id x = et_id e \<or> et_hash x = et_hash e) (enrollment_tokens d) \<and> tenant_exists (et_tenant e) d)
     (\<lambda>d. d\<lparr>enrollment_tokens := enrollment_tokens d @ [e]\<rparr>)"

definition rotation_live :: "rotation_status \<Rightarrow> bool" where
  "rotation_live s \<longleftrightarrow> s = RotPending \<or> s = RotDelivered"

definition rotation_envelope_check :: "rotation_row \<Rightarrow> bool" where
  "rotation_envelope_check r \<longleftrightarrow>
     (if ro_status r = RotDelivered then ro_envelope_ciphertext r \<noteq> None \<and> ro_envelope_iv r \<noteq> None
      else ro_envelope_ciphertext r = None \<and> ro_envelope_iv r = None) \<and>
     0 \<le> ro_delivery_count r \<and> ro_delivery_count r \<le> 10"

definition device_rotation_identity_immutable :: "rotation_row \<Rightarrow> rotation_row \<Rightarrow> bool" where
  "device_rotation_identity_immutable old new \<longleftrightarrow>
     ro_id new \<noteq> ro_id old \<or> ro_tenant new \<noteq> ro_tenant old \<or> ro_device new \<noteq> ro_device old \<or>
     ro_predecessor new \<noteq> ro_predecessor old \<or> ro_replacement new \<noteq> ro_replacement old \<or>
     ro_created_by new \<noteq> ro_created_by old \<or> ro_created new \<noteq> ro_created old \<or>
     ro_delivery_expires new \<noteq> ro_delivery_expires old"

definition device_rotation_transition_guard :: "rotation_row \<Rightarrow> rotation_row \<Rightarrow> bool" where
  "device_rotation_transition_guard old new \<longleftrightarrow>
     \<not> (ro_status old = RotPending \<and> (ro_status new = RotDelivered \<or> ro_status new = RotCancelled) \<or>
        ro_status old = RotDelivered \<and> (ro_status new = RotAcknowledged \<or> ro_status new = RotCancelled) \<or>
        ro_status old = ro_status new)"

definition rotation_update_guard :: "db \<Rightarrow> rotation_row \<Rightarrow> rotation_row \<Rightarrow> bool" where
  "rotation_update_guard d old new \<longleftrightarrow> device_rotation_identity_immutable old new \<or>
     device_rotation_transition_guard old new \<or> \<not> rotation_envelope_check new"

definition update_rotations :: "(rotation_row \<Rightarrow> bool) \<Rightarrow> (rotation_row \<Rightarrow> rotation_row) \<Rightarrow> nat prog" where
  "update_rotations P f = update_rows rotations rotations_update rotation_update_guard P f"

definition update_credentials :: "(credential_row \<Rightarrow> bool) \<Rightarrow> (credential_row \<Rightarrow> credential_row) \<Rightarrow> nat prog" where
  "update_credentials P f = update_rows device_credentials device_credentials_update no_trigger P f"

definition update_tokens :: "(enrollment_row \<Rightarrow> bool) \<Rightarrow> (enrollment_row \<Rightarrow> enrollment_row) \<Rightarrow> nat prog" where
  "update_tokens P f = update_rows enrollment_tokens enrollment_tokens_update no_trigger P f"

definition update_devices :: "(device_row \<Rightarrow> bool) \<Rightarrow> (device_row \<Rightarrow> device_row) \<Rightarrow> nat prog" where
  "update_devices P f = update_rows devices devices_update no_trigger P f"

lemmas enrollment_updates = update_rotations_def update_credentials_def update_tokens_def update_devices_def

section \<open>Grants\<close>

definition tenant_row_at :: "string \<Rightarrow> db \<Rightarrow> tenant_row option" where
  "tenant_row_at tenant d = List.find (\<lambda>t. t_id t = tenant) (tenants d)"

definition device_at :: "string \<Rightarrow> string \<Rightarrow> db \<Rightarrow> device_row option" where
  "device_at tenant dev d = List.find (\<lambda>v. dv_tenant v = tenant \<and> dv_id v = dev) (devices d)"

definition issue_grant :: "env \<Rightarrow> string \<Rightarrow> string \<Rightarrow> datetime \<Rightarrow> int \<Rightarrow> string option \<Rightarrow> enrollment_grant prog" where
  "issue_grant E tenant created_by now expires_in expected =
     andthen (require_identifier tenant ''tenant identity'')
     (andthen (require_identifier created_by ''grant creator'')
     (andthen (case expected of None \<Rightarrow> ret () | Some dev \<Rightarrow> require_identifier dev ''expected device identity'')
     (andthen (raise_if (expires_in < minutes 5 \<or> hours 24 < expires_in) ValueError
       ''enrollment grants must expire between 5 minutes and 24 hours'')
     (bind (utc_text now) (\<lambda>t.
      bind fresh (\<lambda>token.
      bind fresh (\<lambda>token_id.
      bind (query (tenant_row_at tenant)) (\<lambda>tn.
      andthen (raise_if (tn = None \<or> t_status (the tn) \<noteq> TenantActive) EnrollmentError ''active organization not found'')
      (andthen (insert_enrollment \<lparr>et_id = token_id, et_tenant = tenant, et_hash = sha256_hex E (utf8 token),
         et_expected = expected, et_created_by = created_by, et_created = t, et_expires = t + expires_in,
         et_used = None, et_revoked = None, et_claimed = None\<rparr>)
      (ret \<lparr>gr_id = token_id, gr_token = token, gr_expires = t + expires_in, gr_expected = expected\<rparr>))))))))))"

definition account_of_grant :: "string \<Rightarrow> db \<Rightarrow> (account_grant_row \<times> account_row) option" where
  "account_of_grant token_id d = (case List.find (\<lambda>g. ag_token g = token_id) (account_grants d) of
     None \<Rightarrow> None
   | Some g \<Rightarrow> map_option (Pair g)
       (List.find (\<lambda>a. ea_tenant a = ag_tenant g \<and> ea_id a = ag_account g) (endpoint_accounts d)))"

definition account_context_for_grant :: "env \<Rightarrow> string \<Rightarrow> datetime \<Rightarrow> (string \<times> string \<times> string) prog" where
  "account_context_for_grant E token now = bind (utc_text now) (\<lambda>t.
     bind (query (\<lambda>d. Option.bind (List.find (\<lambda>e. et_hash e = sha256_hex E (utf8 token)) (enrollment_tokens d)) (\<lambda>e.
       Option.bind (account_of_grant (et_id e) d) (\<lambda>(g, a).
       Option.bind (tenant_row_at (ea_tenant a) d) (\<lambda>tn.
       if t < et_expires e \<and> et_revoked e = None \<and> ea_status a = AccountActive \<and> t_status tn = TenantActive \<and>
          ea_setup_completed a \<noteq> None \<and> ea_password_version a = ag_password_version g
       then Some (ea_id a, ea_tenant a, t_name tn) else None))))) (\<lambda>row.
     case row of None \<Rightarrow> raise EnrollmentError ''account enrollment context is unavailable'' | Some c \<Rightarrow> ret c))"

definition require_account_grant :: "string \<Rightarrow> unit prog" where
  "require_account_grant token_id = bind (query (account_of_grant token_id)) (\<lambda>row.
     raise_if (case row of None \<Rightarrow> False
       | Some (g, a) \<Rightarrow> ea_status a \<noteq> AccountActive \<or> ea_setup_completed a = None \<or> ea_password_version a \<noteq> ag_password_version g)
       EnrollmentError ''account enrollment authority is no longer active'')"

definition live_at :: "instant \<Rightarrow> credential_row \<Rightarrow> bool" where
  "live_at t c \<longleftrightarrow> dc_activated c \<noteq> None \<and> dc_revoked c = None \<and> t < dc_expires c"

definition nocase :: "string \<Rightarrow> string" where
  "nocase s = map (\<lambda>c. if upper_char c then char_of (code c + 32) else c) s"

definition list_devices :: "string \<Rightarrow> datetime \<Rightarrow> device_summary list prog" where
  "list_devices tenant now = andthen (require_identifier tenant ''tenant identity'') (bind (utc_text now) (\<lambda>t.
     query (\<lambda>d. map (\<lambda>v. \<lparr>ds_id = dv_id v, ds_name = dv_name v, ds_platform = dv_platform v, ds_status = dv_status v,
         ds_enrolled = dv_enrolled v, ds_last_seen = dv_last_seen v,
         ds_active = row_count (\<lambda>c. dc_tenant c = dv_tenant v \<and> dc_device c = dv_id v \<and> live_at t c) (device_credentials d)\<rparr>)
       (order_by (\<lambda>v. (nocase (dv_name v), dv_id v)) (filter (\<lambda>v. dv_tenant v = tenant) (devices d))))))"

section \<open>Claiming a grant\<close>

definition initial_name :: string where
  "initial_name = ''initial enrollment''"

definition initials :: "string \<Rightarrow> string \<Rightarrow> db \<Rightarrow> credential_row list" where
  "initials tenant dev d = filter (\<lambda>c. dc_tenant c = tenant \<and> dc_device c = dev \<and> dc_name c = initial_name) (device_credentials d)"

definition initial_credential :: "string \<Rightarrow> string \<Rightarrow> db \<Rightarrow> (device_row \<times> credential_row) option" where
  "initial_credential tenant dev d = (case device_at tenant dev d of
     None \<Rightarrow> None
   | Some v \<Rightarrow> (case order_by (\<lambda>c. (dc_created c, dc_id c)) (initials tenant dev d) of [] \<Rightarrow> None | c # _ \<Rightarrow> Some (v, c)))"

definition resume_grant :: "env \<Rightarrow> enrollment_row \<Rightarrow> string \<Rightarrow> string \<Rightarrow> string \<Rightarrow> instant \<Rightarrow> enrolled_credential prog" where
  "resume_grant E g dev name platform t =
     andthen (raise_if (et_claimed g \<noteq> Some dev) EnrollmentError ''enrollment grant is invalid or expired'')
     (bind (query (initial_credential (et_tenant g) dev)) (\<lambda>row.
      case row of
        None \<Rightarrow> raise EnrollmentError ''enrollment grant is invalid or expired''
      | Some (v, c) \<Rightarrow>
          andthen (raise_if (dv_name v \<noteq> name \<or> dv_platform v \<noteq> platform \<or> dv_status v \<noteq> DeviceActive \<or> dv_last_seen v \<noteq> None \<or>
              dc_revoked c \<noteq> None \<or> dc_activated c = None \<or> dc_expires c \<le> t)
            EnrollmentError ''enrollment grant is invalid or expired'')
          (bind (cipher_resolve E (dc_id c) (dc_ciphertext c) (dc_iv c)) (\<lambda>bytes.
           case utf8_decode bytes of
             None \<Rightarrow> raise ValueError ''invalid utf-8''
           | Some secret \<Rightarrow> ret \<lparr>ed_tenant = et_tenant g, ed_device = dev, ed_credential = dc_id c, ed_secret = secret,
               ed_expires = dc_expires c\<rparr>))))"

definition grant_at :: "string \<Rightarrow> db \<Rightarrow> (enrollment_row \<times> tenant_row) option" where
  "grant_at hash d = (case List.find (\<lambda>e. et_hash e = hash) (enrollment_tokens d) of
     None \<Rightarrow> None
   | Some e \<Rightarrow> map_option (Pair e) (tenant_row_at (et_tenant e) d))"

definition new_device_row :: "string \<Rightarrow> string \<Rightarrow> string \<Rightarrow> string \<Rightarrow> instant \<Rightarrow> device_row" where
  "new_device_row tenant dev name platform t = \<lparr>dv_tenant = tenant, dv_id = dev, dv_name = name, dv_platform = platform,
     dv_status = DeviceActive, dv_enrolled = Some t, dv_last_seen = None, dv_revoked = None\<rparr>"

definition new_credential_row :: "string \<Rightarrow> string \<Rightarrow> string \<Rightarrow> string \<times> string \<Rightarrow> instant \<Rightarrow> instant \<Rightarrow> credential_row" where
  "new_credential_row cid tenant dev encrypted t expires = \<lparr>dc_id = cid, dc_tenant = tenant, dc_device = dev, dc_name = initial_name,
     dc_ciphertext = fst encrypted, dc_iv = snd encrypted, dc_created = t, dc_expires = expires, dc_last_used = None,
     dc_revoked = None, dc_activated = Some t\<rparr>"

definition claim_transaction :: "env \<Rightarrow> string \<Rightarrow> string \<Rightarrow> string \<Rightarrow> string \<Rightarrow> instant \<Rightarrow> instant \<Rightarrow> string \<Rightarrow> string \<Rightarrow>
    string \<times> string \<Rightarrow> enrolled_credential prog" where
  "claim_transaction E token dev name platform t expires cid secret encrypted =
     bind (query (grant_at (sha256_hex E (utf8 token)))) (\<lambda>row.
     case row of
       None \<Rightarrow> raise EnrollmentError ''enrollment grant is invalid or expired''
     | Some (g, tn) \<Rightarrow>
         andthen (raise_if (t_status tn \<noteq> TenantActive \<or> et_revoked g \<noteq> None \<or> et_expires g \<le> t \<or>
             et_expected g \<noteq> None \<and> et_expected g \<noteq> Some dev)
           EnrollmentError ''enrollment grant is invalid or expired'')
         (andthen (require_account_grant (et_id g))
         (if et_used g \<noteq> None then resume_grant E g dev name platform t
          else
            bind (query (device_exists (et_tenant g) dev)) (\<lambda>existing.
            andthen (raise_if existing EnrollmentError ''device identity is already registered'')
            (andthen (insert_device (new_device_row (et_tenant g) dev name platform t))
            (andthen (insert_credential (new_credential_row cid (et_tenant g) dev encrypted t expires))
            (bind (update_tokens (\<lambda>e. et_id e = et_id g \<and> et_used e = None \<and> et_revoked e = None)
               (\<lambda>e. e\<lparr>et_used := Some t, et_claimed := Some dev\<rparr>)) (\<lambda>n.
            andthen (raise_if (n \<noteq> 1) EnrollmentError ''enrollment grant is no longer available'')
            (ret \<lparr>ed_tenant = et_tenant g, ed_device = dev, ed_credential = cid, ed_secret = secret, ed_expires = expires\<rparr>)))))))))"

definition claim_grant :: "env \<Rightarrow> string \<Rightarrow> string \<Rightarrow> string \<Rightarrow> string \<Rightarrow> datetime \<Rightarrow> int \<Rightarrow> enrolled_credential prog" where
  "claim_grant E token dev display_name platform now lifetime =
     andthen (require_identifier dev ''device identity'')
     (let name = strip display_name in
      andthen (raise_if (name = [] \<or> 100 < length name) ValueError ''device display name must contain between 1 and 100 characters'')
      (andthen (raise_if (platform \<noteq> ''macos'') ValueError ''device platform is not supported'')
      (andthen (raise_if (length token < 32 \<or> 128 < length token) EnrollmentError ''enrollment grant is invalid'')
      (andthen (raise_if (lifetime < days 1 \<or> days 365 < lifetime) ValueError
        ''device credential lifetime must be between 1 and 365 days'')
      (bind (utc_text now) (\<lambda>t.
       bind fresh (\<lambda>cid.
       bind fresh (\<lambda>secret.
       bind (cipher_encrypt E cid (utf8 secret)) (\<lambda>encrypted.
       atomically (claim_transaction E token dev name platform t (t + lifetime) cid secret encrypted))))))))))"

section \<open>Revocation\<close>

definition revoke_grant :: "string \<Rightarrow> string \<Rightarrow> datetime \<Rightarrow> bool prog" where
  "revoke_grant tenant token_id now = bind (utc_text now) (\<lambda>t.
     bind (update_tokens (\<lambda>e. et_tenant e = tenant \<and> et_id e = token_id \<and> et_used e = None \<and> et_revoked e = None)
       (\<lambda>e. e\<lparr>et_revoked := Some t\<rparr>)) (\<lambda>n. ret (n = 1)))"

definition revoke_credential :: "string \<Rightarrow> string \<Rightarrow> string \<Rightarrow> datetime \<Rightarrow> bool prog" where
  "revoke_credential tenant dev cid now = bind (utc_text now) (\<lambda>t. atomically
     (bind (query (\<lambda>d. row_count (\<lambda>c. dc_tenant c = tenant \<and> dc_device c = dev \<and> dc_id c \<noteq> cid \<and> live_at t c) (device_credentials d))) (\<lambda>replacement.
      andthen (raise_if (replacement < 1) EnrollmentError ''credential cannot be retired without an active replacement'')
      (bind (update_credentials (\<lambda>c. dc_tenant c = tenant \<and> dc_device c = dev \<and> dc_id c = cid \<and> dc_revoked c = None)
         (\<lambda>c. c\<lparr>dc_revoked := Some t\<rparr>)) (\<lambda>n. ret (n = 1))))))"

definition cancelled_rotation :: "instant \<Rightarrow> rotation_row \<Rightarrow> rotation_row" where
  "cancelled_rotation t r = r\<lparr>ro_status := RotCancelled, ro_cancelled := Some t, ro_envelope_ciphertext := None, ro_envelope_iv := None\<rparr>"

definition revoke_device :: "string \<Rightarrow> string \<Rightarrow> datetime \<Rightarrow> bool prog" where
  "revoke_device tenant dev now = bind (utc_text now) (\<lambda>t. atomically
     (bind (update_devices (\<lambda>v. dv_tenant v = tenant \<and> dv_id v = dev \<and> dv_status v \<noteq> DeviceRevoked)
        (\<lambda>v. v\<lparr>dv_status := DeviceRevoked, dv_revoked := Some t\<rparr>)) (\<lambda>n.
      andthen (if n = 1 then
          andthen (update_credentials (\<lambda>c. dc_tenant c = tenant \<and> dc_device c = dev \<and> dc_revoked c = None) (\<lambda>c. c\<lparr>dc_revoked := Some t\<rparr>))
          (andthen (update_rotations (\<lambda>r. ro_tenant r = tenant \<and> ro_device r = dev \<and> rotation_live (ro_status r)) (cancelled_rotation t))
          (andthen (update_tokens (\<lambda>e. et_tenant e = tenant \<and> et_expected e = Some dev \<and> et_used e = None \<and> et_revoked e = None)
             (\<lambda>e. e\<lparr>et_revoked := Some t\<rparr>)) (ret ())))
        else ret ())
      (ret (n = 1)))))"

section \<open>A claimed grant stays with its device\<close>

lemma utf8_decode_char: "utf8_decode (utf8_char c @ s) = map_option (Cons c) (utf8_decode s)"
proof (cases "code c < 128")
  case True
  then show ?thesis by (simp add: utf8_char_def Let_def)
next
  case False
  define q where "q = code c div 64"
  have "q < 4" unfolding q_def using code_less [of c] by (simp add: less_mult_imp_div_less)
  moreover have "2 \<le> q" unfolding q_def using False div_le_mono [of 128 "code c" 64] by simp
  ultimately have q: "q = 2 \<or> q = 3" by linarith
  define r where "r = code c mod 64"
  have r: "r < 64" by (simp add: r_def)
  have "q * 64 + r = code c" by (simp add: q_def r_def)
  then have c: "char_of (q * 64 + r) = c" by simp
  have "utf8_char c = [char_of (192 + q), char_of (128 + r)]" using False by (simp add: utf8_char_def Let_def q_def r_def)
  with q r c show ?thesis by auto
qed

lemma utf8_decode_utf8 [simp]: "utf8_decode (utf8 s) = Some s"
  by (induction s) (simp_all add: utf8_def utf8_decode_char)

definition credential_core :: "credential_row \<Rightarrow> string \<times> string \<times> string \<times> instant" where
  "credential_core c = (dc_id c, dc_ciphertext c, dc_iv c, dc_expires c)"

definition claimed_token :: "string \<Rightarrow> string \<Rightarrow> string \<Rightarrow> db \<Rightarrow> bool" where
  "claimed_token hash tenant dev d \<longleftrightarrow> (\<exists>e. List.find (\<lambda>e. et_hash e = hash) (enrollment_tokens d) = Some e \<and>
     et_used e \<noteq> None \<and> et_claimed e = Some dev \<and> et_tenant e = tenant)"

definition pinned :: "string \<Rightarrow> string \<Rightarrow> string \<Rightarrow> string \<times> string \<times> string \<times> instant \<Rightarrow> db \<Rightarrow> bool" where
  "pinned hash tenant dev core d \<longleftrightarrow> claimed_token hash tenant dev d \<and> device_exists tenant dev d \<and>
     map credential_core (initials tenant dev d) = [core]"

lemma find_update_other:
  "List.find Q xs = Some x \<Longrightarrow> \<not> P x \<Longrightarrow> (\<And>y. Q (f y) = Q y) \<Longrightarrow> List.find Q (update_where P f xs) = Some x"
  by (induction xs) (auto split: if_splits)

lemma find_append_Some: "List.find Q xs = Some x \<Longrightarrow> List.find Q (xs @ ys) = Some x"
  by (induction xs) auto

lemma claimed_token_append: "claimed_token h t dev d \<Longrightarrow> claimed_token h t dev (d\<lparr>enrollment_tokens := enrollment_tokens d @ ys\<rparr>)"
  by (auto simp: claimed_token_def dest: find_append_Some)

lemma claimed_token_update:
  assumes "claimed_token h t dev d" "\<And>e. P e \<Longrightarrow> et_used e = None" "\<And>e. et_hash (f e) = et_hash e"
  shows "claimed_token h t dev (d\<lparr>enrollment_tokens := update_where P f (enrollment_tokens d)\<rparr>)"
proof -
  from assms(1) obtain e where e: "List.find (\<lambda>e. et_hash e = h) (enrollment_tokens d) = Some e" "et_used e \<noteq> None"
      "et_claimed e = Some dev" "et_tenant e = t"
    by (auto simp: claimed_token_def)
  from e(2) assms(2) have "\<not> P e" by auto
  have "List.find (\<lambda>e. et_hash e = h) (update_where P f (enrollment_tokens d)) = Some e"
    by (rule find_update_other) (use e(1) \<open>\<not> P e\<close> assms(3) in simp_all)
  with e show ?thesis by (simp add: claimed_token_def)
qed

lemma claimed_token_frame: "enrollment_tokens d' = enrollment_tokens d \<Longrightarrow> claimed_token h t dev d' = claimed_token h t dev d"
  by (simp add: claimed_token_def)

lemma device_exists_update:
  "(\<And>v. dv_tenant (f v) = dv_tenant v \<and> dv_id (f v) = dv_id v) \<Longrightarrow>
     device_exists t dev (d\<lparr>devices := update_where P f (devices d)\<rparr>) = device_exists t dev d"
  by (auto simp: device_exists_def row_exists_iff set_update_where)

lemma initials_update:
  assumes "\<And>c. dc_tenant (f c) = dc_tenant c \<and> dc_device (f c) = dc_device c \<and> dc_name (f c) = dc_name c \<and>
    credential_core (f c) = credential_core c"
  shows "map credential_core (initials t dev (d\<lparr>device_credentials := update_where P f (device_credentials d)\<rparr>)) =
    map credential_core (initials t dev d)"
proof -
  have "map credential_core (filter (\<lambda>c. dc_tenant c = t \<and> dc_device c = dev \<and> dc_name c = initial_name) (update_where P f cs)) =
      map credential_core (filter (\<lambda>c. dc_tenant c = t \<and> dc_device c = dev \<and> dc_name c = initial_name) cs)" for cs
    using assms by (induction cs) auto
  then show ?thesis by (simp add: initials_def)
qed

lemma pinned_tokens_append: "pinned h t dev core d \<Longrightarrow> pinned h t dev core (d\<lparr>enrollment_tokens := enrollment_tokens d @ ys\<rparr>)"
  by (simp add: pinned_def claimed_token_append device_exists_def initials_def)

lemma pinned_tokens_update:
  "pinned h t dev core d \<Longrightarrow> (\<And>e. P e \<Longrightarrow> et_used e = None) \<Longrightarrow> (\<And>e. et_hash (f e) = et_hash e) \<Longrightarrow>
     pinned h t dev core (d\<lparr>enrollment_tokens := update_where P f (enrollment_tokens d)\<rparr>)"
  by (simp add: pinned_def claimed_token_update device_exists_def initials_def)

lemma pinned_devices_update:
  "pinned h t dev core d \<Longrightarrow> (\<And>v. dv_tenant (f v) = dv_tenant v \<and> dv_id (f v) = dv_id v) \<Longrightarrow>
     pinned h t dev core (d\<lparr>devices := update_where P f (devices d)\<rparr>)"
  by (simp add: pinned_def claimed_token_def device_exists_update initials_def)

lemma pinned_credentials_update:
  "pinned h t dev core d \<Longrightarrow> (\<And>c. dc_tenant (f c) = dc_tenant c \<and> dc_device (f c) = dc_device c \<and> dc_name (f c) = dc_name c \<and>
     credential_core (f c) = credential_core c) \<Longrightarrow>
     pinned h t dev core (d\<lparr>device_credentials := update_where P f (device_credentials d)\<rparr>)"
  by (simp add: pinned_def claimed_token_def device_exists_def initials_update)

lemma pinned_change:
  assumes "pinned h t dev core d" "enrollment_tokens d' = enrollment_tokens d"
    "devices d' = update_where P f (devices d)" "\<And>v. dv_tenant (f v) = dv_tenant v \<and> dv_id (f v) = dv_id v"
    "device_credentials d' = update_where Q g (device_credentials d)"
    "\<And>c. dc_tenant (g c) = dc_tenant c \<and> dc_device (g c) = dc_device c \<and> dc_name (g c) = dc_name c \<and> credential_core (g c) = credential_core c"
  shows "pinned h t dev core d'"
  using device_exists_update [of f t dev P d, OF assms(4)] initials_update [of g t dev Q d, OF assms(6)] assms(1,2,3,5)
  by (simp add: pinned_def claimed_token_def device_exists_def initials_def)

lemma pinned_others:
  "pinned h t dev core (d\<lparr>rotations := rs\<rparr>) = pinned h t dev core d"
  "pinned h t dev core (d\<lparr>auth_nonces := ns\<rparr>) = pinned h t dev core d"
  by (simp_all add: pinned_def claimed_token_def device_exists_def initials_def)

lemmas pinned_updates = pinned_tokens_append pinned_tokens_update pinned_devices_update pinned_credentials_update

lemma keeps_require_identifier [keeps_rules]: "keeps I (require_identifier v l)"
  unfolding require_identifier_def by (intro keeps_rules)

lemma keeps_require_account_grant [keeps_rules]: "keeps I (require_account_grant token_id)"
  unfolding require_account_grant_def by (intro keeps_rules)

lemma keeps_cipher [keeps_rules]: "keeps I (cipher_encrypt E cid s)" "keeps I (cipher_resolve E cid a b)"
  unfolding cipher_encrypt_def cipher_resolve_def cipher_decode_def by (intro keeps_rules)+

lemma keeps_resume_grant [keeps_rules]: "keeps I (resume_grant E g dev name platform t)"
  unfolding resume_grant_def by (intro keeps_rules)

lemma pinned_authenticate [keeps_rules]: "keeps (pinned h t dev core) (authenticate E R now)"
proof (rule wp_keepsI, rule wp_mono [OF authenticate_frame], goal_cases)
  case (1 w x w')
  then obtain ta c where w': "tables w' = consume_request E R ta c (tables w)" by blast
  show ?case
    by (rule pinned_change [OF 1(1), where P = "\<lambda>x. dv_tenant x = dc_tenant c \<and> dv_id x = dc_device c \<and> dv_status x = DeviceActive"
        and f = "\<lambda>x. x\<lparr>dv_last_seen := Some ta\<rparr>" and Q = "\<lambda>x. dc_id x = rq_credential R" and g = "\<lambda>x. x\<lparr>dc_last_used := Some ta\<rparr>"])
      (simp_all add: w' consume_request_def credential_core_def)
qed simp

definition resumed :: "env \<Rightarrow> enrollment_row \<Rightarrow> string \<Rightarrow> string \<Rightarrow> string \<Rightarrow> instant \<Rightarrow> db \<Rightarrow> enrolled_credential \<Rightarrow> bool" where
  "resumed E g dev name platform t d x \<longleftrightarrow> et_claimed g = Some dev \<and>
     (\<exists>v c bytes. initial_credential (et_tenant g) dev d = Some (v, c) \<and> dv_name v = name \<and> dv_platform v = platform \<and>
        dv_status v = DeviceActive \<and> dv_last_seen v = None \<and> dc_revoked c = None \<and> dc_activated c \<noteq> None \<and> t < dc_expires c \<and>
        resolved E c = Some bytes \<and> utf8_decode bytes = Some (ed_secret x) \<and>
        ed_tenant x = et_tenant g \<and> ed_device x = dev \<and> ed_credential x = dc_id c \<and> ed_expires x = dc_expires c)"

lemma resume_grant_wp:
  "wp (resume_grant E g dev name platform t) (\<lambda>x w'. tables w' = tables w \<and> resumed E g dev name platform t (tables w) x) (\<lambda>_ _. True) w"
  by (auto simp: resume_grant_def resumed_def wp_rules wp_cipher_resolve not_le split: option.split)

definition usable :: "enrollment_row \<Rightarrow> tenant_row \<Rightarrow> string \<Rightarrow> instant \<Rightarrow> bool" where
  "usable g tn dev t \<longleftrightarrow> t_status tn = TenantActive \<and> et_revoked g = None \<and> t < et_expires g \<and>
     (et_expected g = None \<or> et_expected g = Some dev)"

definition enrols :: "enrollment_row \<Rightarrow> device_row \<Rightarrow> credential_row \<Rightarrow> instant \<Rightarrow> db \<Rightarrow> db" where
  "enrols g v c t d = d\<lparr>devices := devices d @ [v], device_credentials := device_credentials d @ [c],
     enrollment_tokens := update_where (\<lambda>e. et_id e = et_id g \<and> et_used e = None \<and> et_revoked e = None)
       (\<lambda>e. e\<lparr>et_used := Some t, et_claimed := Some (dv_id v)\<rparr>) (enrollment_tokens d)\<rparr>"

definition claim_effect :: "env \<Rightarrow> string \<Rightarrow> string \<Rightarrow> string \<Rightarrow> string \<Rightarrow> instant \<Rightarrow> instant \<Rightarrow> string \<Rightarrow> string \<Rightarrow> string \<times> string \<Rightarrow>
    enrolled_credential \<Rightarrow> db \<Rightarrow> db \<Rightarrow> bool" where
  "claim_effect E token dev name platform t expires cid secret encrypted x d d' \<longleftrightarrow>
     (\<exists>g tn. grant_at (sha256_hex E (utf8 token)) d = Some (g, tn) \<and> usable g tn dev t \<and>
        (if et_used g = None then \<not> device_exists (et_tenant g) dev d \<and>
           d' = enrols g (new_device_row (et_tenant g) dev name platform t)
             (new_credential_row cid (et_tenant g) dev encrypted t expires) t d \<and>
           x = \<lparr>ed_tenant = et_tenant g, ed_device = dev, ed_credential = cid, ed_secret = secret, ed_expires = expires\<rparr>
         else d' = d \<and> resumed E g dev name platform t d x))"

lemma claim_transaction_wp:
  "wp (claim_transaction E token dev name platform t expires cid secret encrypted)
     (\<lambda>x w'. claim_effect E token dev name platform t expires cid secret encrypted x (tables w) (tables w'))
     (\<lambda>_ _. True) w"
proof (cases "grant_at (sha256_hex E (utf8 token)) (tables w)")
  case None
  then show ?thesis by (simp add: claim_transaction_def wp_rules)
next
  case (Some p)
  then obtain g tn where g: "grant_at (sha256_hex E (utf8 token)) (tables w) = Some (g, tn)" by (cases p) auto
  have "wp (resume_grant E g dev name platform t) (\<lambda>x w'. et_used g \<noteq> None \<longrightarrow> tables w' = tables w \<and> resumed E g dev name platform t (tables w) x)
      (\<lambda>_ _. True) w"
    by (rule wp_mono [OF resume_grant_wp]) simp_all
  then show ?thesis
    by (auto simp: claim_effect_def claim_transaction_def wp_rules g usable_def require_account_grant_def insert_device_def insert_credential_def
        enrollment_updates enrols_def new_device_row_def new_credential_row_def not_le elim!: wp_mono)
qed

lemma pinned_enrols:
  assumes "pinned h t dev core d" "\<not> device_exists (dv_tenant v) (dv_id v) d" "dc_tenant c = dv_tenant v" "dc_device c = dv_id v"
  shows "pinned h t dev core (enrols g v c now d)"
proof -
  from assms have "pinned h t dev core (d\<lparr>devices := devices d @ [v], device_credentials := device_credentials d @ [c]\<rparr>)"
    by (auto simp: pinned_def claimed_token_def device_exists_def row_exists_iff initials_def)
  then show ?thesis
    by (auto simp: enrols_def intro: pinned_tokens_update
        [of h t dev core "d\<lparr>devices := devices d @ [v], device_credentials := device_credentials d @ [c]\<rparr>", simplified])
qed

lemma pinned_claim [commits_rules]:
  "commits (pinned h t dev core) (claim_transaction E token dev' name platform now expires cid secret encrypted)"
  by (rule commitsI, rule wp_mono [OF claim_transaction_wp])
    (auto split: if_splits simp: claim_effect_def new_device_row_def new_credential_row_def intro!: pinned_enrols)

datatype enrollment_call =
    IssueGrant string string int "string option"
  | ClaimGrant string string string string int
  | RevokeGrant string string
  | RevokeCredential string string string
  | RevokeDevice string string
  | UseCredential collector_request

definition run_enrollment :: "env \<Rightarrow> enrollment_call \<Rightarrow> datetime \<Rightarrow> unit prog" where
  "run_enrollment E call now = (case call of
     IssueGrant tenant by_user expires_in expected \<Rightarrow> andthen (issue_grant E tenant by_user now expires_in expected) (ret ())
   | ClaimGrant token dev name platform lifetime \<Rightarrow> andthen (claim_grant E token dev name platform now lifetime) (ret ())
   | RevokeGrant tenant token_id \<Rightarrow> andthen (revoke_grant tenant token_id now) (ret ())
   | RevokeCredential tenant dev cid \<Rightarrow> andthen (revoke_credential tenant dev cid now) (ret ())
   | RevokeDevice tenant dev \<Rightarrow> andthen (revoke_device tenant dev now) (ret ())
   | UseCredential R \<Rightarrow> andthen (authenticate E R now) (ret ()))"

fun run_enrollments :: "env \<Rightarrow> (enrollment_call \<times> datetime) list \<Rightarrow> world \<Rightarrow> world" where
  "run_enrollments E [] w = w"
| "run_enrollments E ((call, now) # calls) w = run_enrollments E calls (after (run_enrollment E call now) w)"

lemma pinned_operations:
  "keeps (pinned h t dev core) (issue_grant E tenant u now ttl expected)"
  "keeps (pinned h t dev core) (claim_grant E token dev' name platform now lifetime)"
  "keeps (pinned h t dev core) (revoke_grant tenant token_id now)"
  "keeps (pinned h t dev core) (revoke_credential tenant dev' cid now)"
  "keeps (pinned h t dev core) (revoke_device tenant dev' now)"
  subgoal
    unfolding issue_grant_def insert_enrollment_def by (intro keeps_rules; auto simp: pinned_others credential_core_def intro!: pinned_updates)
  subgoal
    unfolding claim_grant_def by (intro keeps_rules commits_rules)
  subgoal
    unfolding revoke_grant_def enrollment_updates by (intro keeps_rules; auto simp: pinned_others credential_core_def intro!: pinned_updates)
  subgoal
    unfolding revoke_credential_def enrollment_updates by (intro keeps_rules commits_rules; auto simp: pinned_others credential_core_def intro!: pinned_updates)
  subgoal
    unfolding revoke_device_def enrollment_updates by (intro keeps_rules commits_rules; auto simp: pinned_others credential_core_def intro!: pinned_updates)
  done

lemma run_enrollments_pinned: "pinned h t dev core (tables w) \<Longrightarrow> pinned h t dev core (tables (run_enrollments E calls w))"
proof (induction E calls w rule: run_enrollments.induct)
  case (2 E call now calls w)
  have "keeps (pinned h t dev core) (run_enrollment E call now)"
    by (auto simp: run_enrollment_def split: enrollment_call.split intro!: keeps_rules pinned_operations)
  with 2 show ?case by (simp add: keeps_def after_def)
qed simp

section \<open>One grant, one credential\<close>

definition stored_form :: "env \<Rightarrow> string \<Rightarrow> string \<Rightarrow> string \<Rightarrow> string \<times> string" where
  "stored_form E cid iv secret = (cipher_encode (aead_encrypt E iv (utf8 secret) (cipher_aad cid)), cipher_encode iv)"

lemma claim_grant_wp:
  "wp (claim_grant E token dev name platform now life)
     (\<lambda>x w'. \<exists>t cid secret iv. now = Aware t \<and>
        claim_effect E token dev (strip name) platform t (t + life) cid secret (stored_form E cid iv secret) x (tables w) (tables w'))
     (\<lambda>_ w'. tables w' = tables w) w"
proof (cases now)
  case (Aware t)
  show ?thesis
    unfolding claim_grant_def Let_def require_identifier_def cipher_encrypt_def wp_rules Aware
    by (auto simp: wp_rules stored_form_def intro!: wp_mono [OF claim_transaction_wp]) blast
qed (simp add: claim_grant_def Let_def require_identifier_def wp_rules)

lemma find_update_same:
  "List.find Q xs = Some x \<Longrightarrow> P x \<Longrightarrow> (\<And>y. Q (f y) = Q y) \<Longrightarrow> List.find Q (update_where P f xs) = Some (f x)"
  by (induction xs) (auto split: if_splits)

definition credential_fk :: "db \<Rightarrow> bool" where
  "credential_fk d \<longleftrightarrow> list_all (\<lambda>c. device_exists (dc_tenant c) (dc_device c) d) (device_credentials d)"

lemma grant_atD: "grant_at h d = Some (g, tn) \<Longrightarrow> List.find (\<lambda>e. et_hash e = h) (enrollment_tokens d) = Some g"
  by (auto simp: grant_at_def split: option.splits)

lemma enrols_pinned:
  assumes "grant_at h d = Some (g, tn)" "et_used g = None" "et_revoked g = None" "credential_fk d" "\<not> device_exists (et_tenant g) dev d"
  shows "pinned h (et_tenant g) dev (cid, fst enc, snd enc, expires)
    (enrols g (new_device_row (et_tenant g) dev name platform t) (new_credential_row cid (et_tenant g) dev enc t expires) t d)"
proof -
  have "initials (et_tenant g) dev d = []"
    using assms(4,5) by (auto simp: initials_def credential_fk_def list_all_iff filter_empty_conv)
  moreover have "List.find (\<lambda>e. et_hash e = h) (update_where (\<lambda>e. et_id e = et_id g \<and> et_used e = None \<and> et_revoked e = None)
      (\<lambda>e. e\<lparr>et_used := Some t, et_claimed := Some dev\<rparr>) (enrollment_tokens d)) = Some (g\<lparr>et_used := Some t, et_claimed := Some dev\<rparr>)"
    by (rule find_update_same) (use grant_atD [OF assms(1)] assms(2,3) in simp_all)
  ultimately show ?thesis
    by (simp add: pinned_def claimed_token_def enrols_def new_device_row_def new_credential_row_def device_exists_def row_exists_iff
        initials_def credential_core_def)
qed

lemma resolved_stored_form:
  assumes "\<And>iv m a. aead_decrypt E iv (aead_encrypt E iv m a) a = Some m" "dc_ciphertext c = fst (stored_form E (dc_id c) iv secret)"
    "dc_iv c = snd (stored_form E (dc_id c) iv secret)"
  shows "resolved E c = Some (utf8 secret)"
  using assms by (simp add: resolved_def stored_form_def b64decode_cipher_encode)

lemma pinned_resumed:
  assumes pin: "pinned h tenant dev (cid, fst enc, snd enc, expires) d" and enc: "enc = stored_form E cid iv secret"
    and aead: "\<And>iv m a. aead_decrypt E iv (aead_encrypt E iv m a) a = Some m"
    and g: "grant_at h d = Some (g, tn)" and res: "resumed E g dev' name platform t d y"
  shows "dev' = dev \<and> y = \<lparr>ed_tenant = tenant, ed_device = dev, ed_credential = cid, ed_secret = secret, ed_expires = expires\<rparr> \<and>
    (\<exists>v. device_at tenant dev d = Some v \<and> dv_last_seen v = None)"
proof -
  from pin grant_atD [OF g] have g': "et_claimed g = Some dev" "et_tenant g = tenant" by (auto simp: pinned_def claimed_token_def)
  with res have dev: "dev' = dev" by (simp add: resumed_def)
  from res obtain v c bytes where c: "initial_credential tenant dev d = Some (v, c)" "dv_last_seen v = None" "resolved E c = Some bytes"
      "utf8_decode bytes = Some (ed_secret y)" "ed_tenant y = tenant" "ed_device y = dev" "ed_credential y = dc_id c" "ed_expires y = dc_expires c"
    using g' dev by (auto simp: resumed_def)
  from pin obtain c' where "initials tenant dev d = [c']" "credential_core c' = (cid, fst enc, snd enc, expires)"
    by (auto simp: pinned_def)
  with c(1) have core: "dc_id c = cid" "dc_ciphertext c = fst enc" "dc_iv c = snd enc" "dc_expires c = expires"
    by (auto simp: initial_credential_def order_by_def credential_core_def split: option.splits)
  then have "resolved E c = Some (utf8 secret)" by (intro resolved_stored_form [OF aead]) (simp_all add: enc)
  with c core dev show ?thesis
    by (cases y) (auto simp: initial_credential_def split: option.splits list.splits)
qed

text \<open>
  C33. An enrollment grant yields one credential for one device. Once a grant that was not used before has
  been claimed, then whatever grants are issued, claimed or revoked and whatever credentials and devices
  are used or revoked afterwards, another claim of the same grant either fails or is for the same device
  and returns exactly the same credential with the same secret and expiry, changes no table, and is only
  possible while the device has never authenticated.
\<close>

theorem grant_yields_one_credential:
  assumes aead: "\<And>iv m a. aead_decrypt E iv (aead_encrypt E iv m a) a = Some m"
    and unused: "\<And>e. e \<in> set (enrollment_tokens (tables w)) \<Longrightarrow> et_hash e = sha256_hex E (utf8 token) \<Longrightarrow> et_used e = None"
    and fk: "credential_fk (tables w)"
    and first: "claim_grant E token dev name platform now life w = (Inr x, w1)"
    and again: "claim_grant E token dev' name' platform' now' life' (run_enrollments E calls w1) = (Inr y, w2)"
  shows "dev' = dev \<and> y = x \<and> tables w2 = tables (run_enrollments E calls w1) \<and>
    (\<exists>v. device_at (ed_tenant x) dev (tables w2) = Some v \<and> dv_last_seen v = None)"
proof -
  let ?h = "sha256_hex E (utf8 token)"
  from wp_Inr [OF claim_grant_wp first] obtain t cid secret iv g tn where g: "grant_at ?h (tables w) = Some (g, tn)"
      and usable: "usable g tn dev t" and effect: "claim_effect E token dev (strip name) platform t (t + life) cid secret (stored_form E cid iv secret) x (tables w) (tables w1)"
    by (auto simp: claim_effect_def)
  have "et_used g = None" using find_SomeD [OF grant_atD [OF g]] unused by auto
  with effect g usable have free: "\<not> device_exists (et_tenant g) dev (tables w)"
    and x: "x = \<lparr>ed_tenant = et_tenant g, ed_device = dev, ed_credential = cid, ed_secret = secret, ed_expires = t + life\<rparr>"
    and w1: "tables w1 = enrols g (new_device_row (et_tenant g) dev (strip name) platform t)
      (new_credential_row cid (et_tenant g) dev (stored_form E cid iv secret) t (t + life)) t (tables w)"
    by (auto simp: claim_effect_def)
  have "pinned ?h (et_tenant g) dev (cid, fst (stored_form E cid iv secret), snd (stored_form E cid iv secret), t + life) (tables w1)"
    unfolding w1 using g \<open>et_used g = None\<close> _ fk free by (rule enrols_pinned) (use usable in \<open>simp add: usable_def\<close>)
  then have pin: "pinned ?h (et_tenant g) dev (cid, fst (stored_form E cid iv secret), snd (stored_form E cid iv secret), t + life)
      (tables (run_enrollments E calls w1))"
    by (rule run_enrollments_pinned)
  from wp_Inr [OF claim_grant_wp again] obtain t' cid' secret' iv' g' tn' where g': "grant_at ?h (tables (run_enrollments E calls w1)) = Some (g', tn')"
      and effect': "claim_effect E token dev' (strip name') platform' t' (t' + life') cid' secret' (stored_form E cid' iv' secret') y
        (tables (run_enrollments E calls w1)) (tables w2)"
    by (auto simp: claim_effect_def)
  from pin grant_atD [OF g'] have "et_used g' \<noteq> None" by (auto simp: pinned_def claimed_token_def)
  with effect' g' have same: "tables w2 = tables (run_enrollments E calls w1)"
    and res: "resumed E g' dev' (strip name') platform' t' (tables (run_enrollments E calls w1)) y"
    by (auto simp: claim_effect_def)
  from pinned_resumed [OF pin refl aead g' res] same x show ?thesis by simp
qed

definition sample_token :: string where
  "sample_token = replicate 32 (CHR ''a'')"

definition enroll_world :: world where
  "enroll_world = (world_at (sample_db\<lparr>enrollment_tokens := [\<lparr>et_id = ''g1'', et_tenant = ''t1'', et_hash = sha256_hex sample_env (utf8 sample_token),
     et_expected = None, et_created_by = ''adm'', et_created = 0, et_expires = 1000000000, et_used = None, et_revoked = None, et_claimed = None\<rparr>]\<rparr>))
       \<lparr>random_id := \<lambda>n. replicate 40 (CHR ''k'')\<rparr>"

definition sample_claim :: "enrolled_credential prog" where
  "sample_claim = claim_grant sample_env sample_token ''dev-1'' ''Mac'' ''macos'' (Aware 5) (days 90)"

lemma sample_claims: "succeeds (andthen sample_claim sample_claim) enroll_world"
proof -
  have ident: "credential_id_ok ''dev-1''" by (simp add: credential_id_ok_def identifier_char_def upper_char_def small_char_def is_digit_def code_def)
  have name: "strip ''Mac'' = ''Mac''" by (simp add: strip_def py_space_def code_def)
  have token: "length sample_token = 32" by (simp add: sample_token_def)
  have secret: "32 \<le> length (utf8 (replicate 40 (CHR ''k'')))"
    using length_utf8_ge [of "replicate 40 (CHR ''k'')"] by simp
  show ?thesis
    unfolding succeeds_wp sample_claim_def claim_grant_def Let_def require_identifier_def cipher_encrypt_def claim_transaction_def
      require_account_grant_def insert_device_def insert_credential_def enrollment_updates resume_grant_def
    using secret
    by (simp add: wp_rules ident name token enroll_world_def sample_db_def empty_db_def sample_tenant_def grant_at_def tenant_row_at_def
        account_of_grant_def device_exists_def tenant_exists_def row_exists_iff new_device_row_def new_credential_row_def initial_credential_def
        device_at_def initials_def order_by_def days_def cipher_resolve_def cipher_decode_def b64decode_cipher_encode sample_aead)
qed

theorem grant_yields_one_credential_witness:
  "\<exists>x w1 y w2. sample_claim enroll_world = (Inr x, w1) \<and> sample_claim (run_enrollments sample_env [] w1) = (Inr y, w2) \<and>
     y = x \<and> tables w2 = tables w1"
proof -
  from succeedsD [OF sample_claims] obtain x w1 y w2 where runs: "sample_claim enroll_world = (Inr x, w1)" "sample_claim w1 = (Inr y, w2)"
    by (auto simp: andthen_def bind_apply split: prod.splits sum.splits)
  then have again: "sample_claim (run_enrollments sample_env [] w1) = (Inr y, w2)" by simp
  have "y = x \<and> tables w2 = tables (run_enrollments sample_env [] w1)"
    using grant_yields_one_credential [OF sample_aead _ _ runs(1) [unfolded sample_claim_def] again [unfolded sample_claim_def]]
    by (simp add: enroll_world_def sample_db_def empty_db_def credential_fk_def)
  with runs show ?thesis by auto
qed

end
