(* ===== verification/Accounts.thy ===== *)
theory Accounts
  imports Networks Enrollment
begin

text \<open>
  Endpoint accounts of \<open>standalone/accounts.py\<close> (\<open>EndpointAccountService\<close>): creation by an
  administrator, sign-in of at most one session, the change of the initial password, the reset an
  administrator approves, and the enrollment grants of an account. \<open>P\<close> is the password library of
  theory \<open>Passwords\<close>. The theorem says what replacing a password revokes.
\<close>

section \<open>Names and tokens\<close>

definition account_local_char :: "char \<Rightarrow> bool" where
  "account_local_char c \<longleftrightarrow> slug_char c \<or> c \<in> set ''._-''"

definition alias_ok :: "string \<Rightarrow> bool" where
  "alias_ok s \<longleftrightarrow> s \<noteq> [] \<and> length s \<le> 64 \<and> slug_char (hd s) \<and> list_all account_local_char s"

definition local_part :: "string \<Rightarrow> string" where
  "local_part s = takeWhile (\<lambda>c. c \<noteq> CHR ''@'') s"

definition domain_part :: "string \<Rightarrow> string" where
  "domain_part s = tl (dropWhile (\<lambda>c. c \<noteq> CHR ''@'') s)"

definition username_ok :: "string \<Rightarrow> bool" where
  "username_ok s \<longleftrightarrow> length s \<le> 254 \<and> alias_ok (local_part s) \<and> domain_part s \<noteq> [] \<and>
     list_all (\<lambda>c. slug_char c \<or> c \<in> set ''.-'') (domain_part s)"

definition username :: "string \<Rightarrow> string prog" where
  "username value = (let normalized = lower (strip value) in
     andthen (raise_if (\<not> username_ok normalized) NetworkError ''Enter the full account name your network admin gave you.'')
     (ret normalized))"

definition token_hash :: "password_lib \<Rightarrow> string \<Rightarrow> string" where
  "token_hash P token = bytes_hex (pl_hmac P (pl_hmac P (pl_pepper P) ''endpoint-session-v1'') (utf8 token))"

definition account_audit :: "env \<Rightarrow> string \<Rightarrow> string \<Rightarrow> string \<Rightarrow> string \<Rightarrow> datetime \<Rightarrow> audit_row prog" where
  "account_audit E tenant action actor_id resource_id now =
     audit_append E tenant action ''account_workflow'' actor_id ''endpoint_account'' resource_id (JObj []) now"

section \<open>Rows and their constraints\<close>

definition account_exists :: "string \<Rightarrow> string \<Rightarrow> db \<Rightarrow> bool" where
  "account_exists tenant account d = row_exists (\<lambda>a. ea_tenant a = tenant \<and> ea_id a = account) (endpoint_accounts d)"

definition account_at :: "string \<Rightarrow> string \<Rightarrow> db \<Rightarrow> account_row option" where
  "account_at tenant account d = List.find (\<lambda>a. ea_tenant a = tenant \<and> ea_id a = account) (endpoint_accounts d)"

definition insert_account :: "account_row \<Rightarrow> unit prog" where
  "insert_account a = insert_checked
     (\<lambda>d. \<not> row_exists (\<lambda>x. ea_tenant x = ea_tenant a \<and> ea_id x = ea_id a \<or> ea_username x = ea_username a) (endpoint_accounts d) \<and>
          row_exists (\<lambda>t. t_id t = ea_tenant a) (tenants d))
     (\<lambda>d. d\<lparr>endpoint_accounts := endpoint_accounts d @ [a]\<rparr>)"

definition insert_endpoint_session :: "endpoint_session_row \<Rightarrow> unit prog" where
  "insert_endpoint_session s = insert_checked
     (\<lambda>d. \<not> row_exists (\<lambda>x. es_hash x = es_hash s) (endpoint_sessions d) \<and> account_exists (es_tenant s) (es_account s) d)
     (\<lambda>d. d\<lparr>endpoint_sessions := endpoint_sessions d @ [s]\<rparr>)"

definition insert_account_grant :: "account_grant_row \<Rightarrow> unit prog" where
  "insert_account_grant g = insert_checked
     (\<lambda>d. \<not> row_exists (\<lambda>x. ag_token x = ag_token g) (account_grants d) \<and>
          row_exists (\<lambda>e. et_id e = ag_token g) (enrollment_tokens d) \<and> account_exists (ag_tenant g) (ag_account g) d)
     (\<lambda>d. d\<lparr>account_grants := account_grants d @ [g]\<rparr>)"

text \<open>INSERT OR IGNORE: the request is dropped when its key or the index \<open>idx_password_reset_open\<close> is violated.\<close>

definition insert_reset_or_ignore :: "reset_row \<Rightarrow> bool prog" where
  "insert_reset_or_ignore r =
     bind (query (\<lambda>d. row_exists (\<lambda>x. pw_request x = pw_request r \<or>
        pw_tenant x = pw_tenant r \<and> pw_account x = pw_account r \<and> pw_resolved x = None) (password_resets d))) (\<lambda>ignored.
     if ignored then ret False
     else andthen (insert_checked (account_exists (pw_tenant r) (pw_account r)) (\<lambda>d. d\<lparr>password_resets := password_resets d @ [r]\<rparr>)) (ret True))"

definition update_accounts :: "(account_row \<Rightarrow> bool) \<Rightarrow> (account_row \<Rightarrow> account_row) \<Rightarrow> nat prog" where
  "update_accounts P f = update_rows endpoint_accounts endpoint_accounts_update no_trigger P f"

definition delete_endpoint_sessions :: "(endpoint_session_row \<Rightarrow> bool) \<Rightarrow> nat prog" where
  "delete_endpoint_sessions P = delete_rows endpoint_sessions endpoint_sessions_update P"

definition granted_to :: "string \<Rightarrow> string \<Rightarrow> db \<Rightarrow> enrollment_row \<Rightarrow> bool" where
  "granted_to tenant account d e = row_exists (\<lambda>g. ag_token g = et_id e \<and> ag_tenant g = tenant \<and> ag_account g = account) (account_grants d)"

definition revoke_unused_grants :: "string \<Rightarrow> string \<Rightarrow> instant \<Rightarrow> nat prog" where
  "revoke_unused_grants tenant account t = bind (query (granted_to tenant account)) (\<lambda>granted.
     update_tokens (\<lambda>e. et_used e = None \<and> granted e) (\<lambda>e. e\<lparr>et_revoked := Some t\<rparr>))"

section \<open>Creation\<close>

record created_account =
  ca_account_id :: string
  ca_username :: string
  ca_password :: string
  ca_must_change :: bool
  ca_expires :: instant

definition create_account_transaction :: "env \<Rightarrow> principal \<Rightarrow> string \<Rightarrow> string \<Rightarrow> string \<Rightarrow> string \<Rightarrow> datetime \<Rightarrow> (string \<times> instant) prog" where
  "create_account_transaction E p alias name encoded account now =
     andthen (require_admin_in p now)
     (bind (query (\<lambda>d. if tenant_active (pr_tenant p) d then domain_of (pr_tenant p) d else None)) (\<lambda>domain.
      case domain of
        None \<Rightarrow> raise NetworkError ''This network needs a login namespace before adding people.''
      | Some suffix \<Rightarrow>
          bind (username (alias @ ''@'' @ suffix)) (\<lambda>uname.
          bind (query (\<lambda>d. row_count (\<lambda>a. ea_tenant a = pr_tenant p) (endpoint_accounts d))) (\<lambda>count.
          andthen (raise_if (1000 \<le> count) NetworkError ''This network has reached its 1,000-account safety limit.'')
          (bind (utc_text now) (\<lambda>t.
           andthen (on_integrity_error
             (insert_account \<lparr>ea_tenant = pr_tenant p, ea_id = account, ea_username = uname, ea_name = name, ea_password_hash = encoded,
                ea_password_version = 1, ea_initial_expires = Some (t + days 7), ea_setup_completed = None, ea_status = AccountActive,
                ea_created = t\<rparr>)
             NetworkError ''That account name is already in use.'')
           (andthen (account_audit E (pr_tenant p) ''endpoint_account.created'' (pr_user p) account now)
           (ret (uname, t + days 7)))))))))"

definition create_account :: "env \<Rightarrow> password_lib \<Rightarrow> principal \<Rightarrow> string \<Rightarrow> string \<Rightarrow> datetime \<Rightarrow> created_account prog" where
  "create_account E P p alias display_name now =
     andthen (require_admin p)
     (andthen (raise_if (\<not> alias_ok alias) NetworkError ''Use a lowercase account name without an @domain suffix.'')
     (let name = strip display_name in
      andthen (raise_if (\<not> display_name_ok name) NetworkError ''Enter a display name of 1-120 characters.'')
      (bind fresh (\<lambda>password.
       bind (hash_password P password) (\<lambda>encoded.
       bind fresh (\<lambda>account.
       bind (atomically (create_account_transaction E p alias name encoded account now)) (\<lambda>(uname, expires).
       ret \<lparr>ca_account_id = account, ca_username = uname, ca_password = password, ca_must_change = (password \<noteq> []),
         ca_expires = expires\<rparr>)))))))"

record account_view =
  av_account :: account_row
  av_revision :: int

definition identity_revision_of :: "string \<Rightarrow> managed_kind \<Rightarrow> string \<Rightarrow> db \<Rightarrow> int" where
  "identity_revision_of tenant kind identity_id d =
     (case List.find (\<lambda>r. mr_tenant r = tenant \<and> mr_kind r = kind \<and> mr_identity r = identity_id) (management_revisions d) of
        None \<Rightarrow> 1 | Some r \<Rightarrow> mr_revision r)"

definition list_accounts :: "principal \<Rightarrow> account_view list prog" where
  "list_accounts p = andthen (require_admin p) (query (\<lambda>d. take 1000
     (map (\<lambda>a. \<lparr>av_account = a, av_revision = identity_revision_of (ea_tenant a) ManagedAccount (ea_id a) d\<rparr>)
       (order_by ea_created (filter (\<lambda>a. ea_tenant a = pr_tenant p) (endpoint_accounts d))))))"

section \<open>Sessions\<close>

record public_account =
  pa_account :: string
  pa_username :: string
  pa_name :: string
  pa_tenant :: string
  pa_must_change :: bool

record endpoint_login =
  el_token :: string
  el_expires :: instant
  el_account :: public_account

definition public_account_of :: "account_row \<Rightarrow> public_account" where
  "public_account_of a = \<lparr>pa_account = ea_id a, pa_username = ea_username a, pa_name = ea_name a, pa_tenant = ea_tenant a,
     pa_must_change = (ea_setup_completed a = None)\<rparr>"

definition issue_endpoint_session :: "password_lib \<Rightarrow> account_row \<Rightarrow> instant \<Rightarrow> endpoint_login prog" where
  "issue_endpoint_session P a t =
     bind fresh (\<lambda>token.
     andthen (delete_endpoint_sessions (\<lambda>s. es_expires s \<le> t))
     (andthen (delete_endpoint_sessions (\<lambda>s. es_tenant s = ea_tenant a \<and> es_account s = ea_id a))
     (andthen (insert_endpoint_session \<lparr>es_hash = token_hash P token, es_tenant = ea_tenant a, es_account = ea_id a,
         es_password_version = ea_password_version a, es_expires = t + minutes 15\<rparr>)
     (ret \<lparr>el_token = token, el_expires = t + minutes 15, el_account = public_account_of a\<rparr>))))"

definition login_row :: "string \<Rightarrow> db \<Rightarrow> account_row option" where
  "login_row uname d = (case List.find (\<lambda>a. ea_username a = uname) (endpoint_accounts d) of
     None \<Rightarrow> None
   | Some a \<Rightarrow> if ea_status a = AccountActive \<and> tenant_active (ea_tenant a) d \<and> domain_of (ea_tenant a) d = Some (domain_part uname)
       then Some a else None)"

definition login_transaction :: "password_lib \<Rightarrow> account_row \<Rightarrow> datetime \<Rightarrow> endpoint_login prog" where
  "login_transaction P row now =
     bind (query (\<lambda>d. case account_at (ea_tenant row) (ea_id row) d of
        None \<Rightarrow> None
      | Some a \<Rightarrow> if ea_status a = AccountActive \<and> tenant_active (ea_tenant a) d \<and> ea_password_version a = ea_password_version row
          then Some a else None)) (\<lambda>current.
     case current of
       None \<Rightarrow> raise SessionError ''account credentials are invalid''
     | Some a \<Rightarrow>
         andthen (case ea_initial_expires a of
             None \<Rightarrow> ret ()
           | Some x \<Rightarrow> bind (utc_text now) (\<lambda>t. raise_if (x \<le> t) SessionError ''account credentials are invalid''))
         (bind (utc_text now) (issue_endpoint_session P a)))"

definition login :: "password_lib \<Rightarrow> string \<Rightarrow> string \<Rightarrow> datetime \<Rightarrow> endpoint_login prog" where
  "login P uname password now =
     bind (catch (username uname) (\<lambda>e. if fst e \<in> {NetworkError, NetworkConflictError}
        then andthen (dummy_verify P password) (raise SessionError ''account credentials are invalid'')
        else raise (fst e) (snd e))) (\<lambda>normalized.
     bind (query (login_row normalized)) (\<lambda>row.
     case row of
       None \<Rightarrow> andthen (dummy_verify P password) (raise SessionError ''account credentials are invalid'')
     | Some a \<Rightarrow>
         bind (verify_password P password (ea_password_hash a)) (\<lambda>good.
         andthen (raise_if (\<not> good) SessionError ''account credentials are invalid'')
         (atomically (login_transaction P a now)))))"

definition session_account :: "password_lib \<Rightarrow> string \<Rightarrow> instant \<Rightarrow> db \<Rightarrow> account_row option" where
  "session_account P token t d = (case List.find (\<lambda>s. es_hash s = token_hash P token) (endpoint_sessions d) of
     None \<Rightarrow> None
   | Some s \<Rightarrow> (case account_at (es_tenant s) (es_account s) d of
       None \<Rightarrow> None
     | Some a \<Rightarrow> if t < es_expires s \<and> es_password_version s = ea_password_version a \<and> ea_status a = AccountActive \<and>
         tenant_active (ea_tenant a) d then Some a else None))"

definition endpoint_session :: "password_lib \<Rightarrow> string \<Rightarrow> datetime \<Rightarrow> bool \<Rightarrow> account_row prog" where
  "endpoint_session P token now must_be_ready =
     andthen (raise_if (\<not> (32 \<le> length token \<and> length token \<le> 128)) SessionError ''endpoint session is inactive'')
     (bind (utc_text now) (\<lambda>t.
      bind (query (session_account P token t)) (\<lambda>row.
      case row of
        None \<Rightarrow> raise SessionError ''endpoint session is inactive''
      | Some a \<Rightarrow> andthen (raise_if (must_be_ready \<and> ea_setup_completed a = None) HumanAuthorizationError
          ''change the initial password before connecting this Mac'') (ret a))))"

definition me :: "password_lib \<Rightarrow> string \<Rightarrow> datetime \<Rightarrow> (public_account \<times> string) prog" where
  "me P token now = bind (endpoint_session P token now False) (\<lambda>a.
     bind (query (\<lambda>d. case tenant_row_at (ea_tenant a) d of None \<Rightarrow> [] | Some t \<Rightarrow> t_name t)) (\<lambda>network.
     ret (public_account_of a, network)))"

definition logout :: "password_lib \<Rightarrow> string \<Rightarrow> unit prog" where
  "logout P token = andthen (delete_endpoint_sessions (\<lambda>s. es_hash s = token_hash P token)) (ret ())"

section \<open>Passwords\<close>

definition replaced_password :: "string \<Rightarrow> instant option \<Rightarrow> instant \<Rightarrow> account_row \<Rightarrow> account_row" where
  "replaced_password encoded completed t a = a\<lparr>ea_password_hash := encoded, ea_password_version := ea_password_version a + 1,
     ea_setup_completed := completed, ea_initial_expires := (if completed = None then Some (t + days 7) else None)\<rparr>"

definition replace_password :: "account_row \<Rightarrow> string \<Rightarrow> instant \<Rightarrow> bool \<Rightarrow> unit prog" where
  "replace_password row encoded t complete_setup =
     (let completed = (case ea_setup_completed row of Some x \<Rightarrow> Some x | None \<Rightarrow> if complete_setup then Some t else None) in
      andthen (update_accounts (\<lambda>a. ea_tenant a = ea_tenant row \<and> ea_id a = ea_id row) (replaced_password encoded completed t))
      (andthen (delete_endpoint_sessions (\<lambda>s. es_tenant s = ea_tenant row \<and> es_account s = ea_id row))
      (andthen (revoke_unused_grants (ea_tenant row) (ea_id row) t) (ret ()))))"

definition change_transaction :: "env \<Rightarrow> password_lib \<Rightarrow> string \<Rightarrow> string \<Rightarrow> datetime \<Rightarrow> endpoint_login prog" where
  "change_transaction E P token encoded now =
     bind (endpoint_session P token now False) (\<lambda>row.
     bind (utc_text now) (\<lambda>t.
     andthen (replace_password row encoded t True)
     (andthen (account_audit E (ea_tenant row) ''endpoint_account.password_changed'' (ea_id row) (ea_id row) now)
     (bind (query (account_at (ea_tenant row) (ea_id row))) (\<lambda>updated.
      case updated of None \<Rightarrow> raise AssertionError [] | Some a \<Rightarrow> issue_endpoint_session P a t)))))"

definition change_password :: "env \<Rightarrow> password_lib \<Rightarrow> string \<Rightarrow> string \<Rightarrow> datetime \<Rightarrow> endpoint_login prog" where
  "change_password E P token password now =
     bind (endpoint_session P token now False) (\<lambda>prior.
     andthen (raise_if (ea_setup_completed prior \<noteq> None) HumanAuthorizationError ''ask your network admin for a password reset'')
     (bind (verify_password P password (ea_password_hash prior)) (\<lambda>same.
      andthen (raise_if same NetworkError ''Choose a different password from the one your admin supplied.'')
      (bind (hash_password P password) (\<lambda>encoded.
       atomically (change_transaction E P token encoded now))))))"

definition request_reset :: "env \<Rightarrow> string \<Rightarrow> datetime \<Rightarrow> unit prog" where
  "request_reset E uname now =
     bind (catch (bind (username uname) (\<lambda>u. ret (Some u))) (\<lambda>e. if fst e \<in> {NetworkError, NetworkConflictError} then ret None else raise (fst e) (snd e)))
     (\<lambda>normalized. case normalized of
        None \<Rightarrow> ret ()
      | Some u \<Rightarrow> atomically
          (bind (query (\<lambda>d. case List.find (\<lambda>a. ea_username a = u) (endpoint_accounts d) of
              None \<Rightarrow> None
            | Some a \<Rightarrow> if ea_status a = AccountActive \<and> tenant_active (ea_tenant a) d then Some a else None)) (\<lambda>row.
           case row of
             None \<Rightarrow> ret ()
           | Some a \<Rightarrow>
               bind fresh (\<lambda>request_id.
               bind (utc_text now) (\<lambda>t.
               bind (insert_reset_or_ignore \<lparr>pw_request = request_id, pw_tenant = ea_tenant a, pw_account = ea_id a, pw_requested = t,
                   pw_resolved = None, pw_resolved_by = None\<rparr>) (\<lambda>changed.
               if changed then andthen (account_audit E (ea_tenant a) ''endpoint_account.reset_requested'' ''unauthenticated'' (ea_id a) now) (ret ())
               else ret ()))))))"

record reset_view =
  rv_request :: reset_row
  rv_account :: account_row

definition reset_requests :: "principal \<Rightarrow> reset_view list prog" where
  "reset_requests p = andthen (require_admin p) (query (\<lambda>d. take 1000 (List.map_filter
     (\<lambda>r. map_option (\<lambda>a. \<lparr>rv_request = r, rv_account = a\<rparr>) (account_at (pw_tenant r) (pw_account r) d))
     (order_by pw_requested (filter (\<lambda>r. pw_tenant r = pr_tenant p \<and> pw_resolved r = None) (password_resets d))))))"

record reset_result =
  rz_username :: string
  rz_password :: string
  rz_must_change :: bool

definition open_reset :: "string \<Rightarrow> string \<Rightarrow> db \<Rightarrow> account_row option" where
  "open_reset tenant request_id d = (case List.find (\<lambda>r. pw_request r = request_id) (password_resets d) of
     None \<Rightarrow> None
   | Some r \<Rightarrow> if pw_tenant r = tenant \<and> pw_resolved r = None
       then (case account_at (pw_tenant r) (pw_account r) d of
           None \<Rightarrow> None | Some a \<Rightarrow> if ea_status a = AccountActive then Some a else None)
       else None)"

definition reset_transaction :: "env \<Rightarrow> principal \<Rightarrow> string \<Rightarrow> string \<Rightarrow> datetime \<Rightarrow> account_row prog" where
  "reset_transaction E p request_id encoded now =
     andthen (require_admin_in p now)
     (bind (query (open_reset (pr_tenant p) request_id)) (\<lambda>row.
      case row of
        None \<Rightarrow> raise NetworkError ''That reset request is unavailable or already resolved.''
      | Some a \<Rightarrow>
          bind (utc_text now) (\<lambda>t.
          andthen (replace_password a encoded t False)
          (andthen (update_rows password_resets password_resets_update no_trigger (\<lambda>r. pw_request r = request_id)
             (\<lambda>r. r\<lparr>pw_resolved := Some t, pw_resolved_by := Some (pr_user p)\<rparr>))
          (andthen (account_audit E (pr_tenant p) ''endpoint_account.password_reset'' (pr_user p) (ea_id a) now) (ret a))))))"

definition reset_password :: "env \<Rightarrow> password_lib \<Rightarrow> principal \<Rightarrow> string \<Rightarrow> datetime \<Rightarrow> reset_result prog" where
  "reset_password E P p request_id now =
     andthen (require_admin p)
     (bind fresh (\<lambda>password.
      bind (hash_password P password) (\<lambda>encoded.
      bind (atomically (reset_transaction E p request_id encoded now)) (\<lambda>a.
      ret \<lparr>rz_username = ea_username a, rz_password = password, rz_must_change = (ea_setup_completed a = None)\<rparr>))))"

section \<open>Enrollment of a Mac by an account\<close>

record issued_grant =
  gg_token :: string
  gg_device :: string
  gg_expires :: instant

definition account_grant_transaction :: "env \<Rightarrow> password_lib \<Rightarrow> string \<Rightarrow> string \<Rightarrow> string \<Rightarrow> string \<Rightarrow> datetime \<Rightarrow> instant prog" where
  "account_grant_transaction E P token dev grant grant_id now =
     bind (endpoint_session P token now True) (\<lambda>row.
     bind (utc_text now) (\<lambda>t.
     andthen (revoke_unused_grants (ea_tenant row) (ea_id row) t)
     (andthen (insert_enrollment \<lparr>et_id = grant_id, et_tenant = ea_tenant row, et_hash = sha256_hex E (utf8 grant), et_expected = Some dev,
         et_created_by = ea_id row, et_created = t, et_expires = t + minutes 5, et_used = None, et_revoked = None, et_claimed = None\<rparr>)
     (andthen (insert_account_grant \<lparr>ag_token = grant_id, ag_tenant = ea_tenant row, ag_account = ea_id row,
         ag_password_version = ea_password_version row\<rparr>)
     (andthen (account_audit E (ea_tenant row) ''endpoint_account.enrollment_requested'' (ea_id row) grant_id now)
     (ret (t + minutes 5)))))))"

definition account_enrollment_grant :: "env \<Rightarrow> password_lib \<Rightarrow> string \<Rightarrow> string \<Rightarrow> datetime \<Rightarrow> issued_grant prog" where
  "account_enrollment_grant E P token dev now =
     andthen (raise_if (\<not> credential_id_ok dev) NetworkError ''This Mac needs a valid device identity.'')
     (bind fresh (\<lambda>grant.
      bind fresh (\<lambda>grant_id.
      bind (atomically (account_grant_transaction E P token dev grant grant_id now)) (\<lambda>expires.
      ret \<lparr>gg_token = grant, gg_device = dev, gg_expires = expires\<rparr>))))"

section \<open>What replacing a password revokes\<close>

interpretation account_change: keyed_update "\<lambda>a. (ea_tenant a, ea_id a)" "replaced_password encoded completed t" for encoded completed t
  by unfold_locales (simp add: replaced_password_def)

lemma account_at_replaced:
  "account_at tenant account (d\<lparr>endpoint_accounts := update_where P (replaced_password encoded completed t) (endpoint_accounts d)\<rparr>) =
     map_option (\<lambda>a. if P a then replaced_password encoded completed t a else a) (account_at tenant account d)"
  using account_change.upd_find [of "(tenant, account)" P] by (simp add: account_at_def)

lemma account_at_SomeD: "account_at tenant account d = Some a \<Longrightarrow> a \<in> set (endpoint_accounts d) \<and> ea_tenant a = tenant \<and> ea_id a = account"
  unfolding account_at_def by (drule find_SomeD) simp

lemma session_account_SomeD:
  "session_account P token t d = Some a \<Longrightarrow> account_at (ea_tenant a) (ea_id a) d = Some a \<and> ea_status a = AccountActive \<and>
     (\<exists>s \<in> set (endpoint_sessions d). es_hash s = token_hash P token \<and> es_tenant s = ea_tenant a \<and> es_account s = ea_id a)"
proof -
  assume "session_account P token t d = Some a"
  then obtain s where s: "s \<in> set (endpoint_sessions d)" "es_hash s = token_hash P token"
      "account_at (es_tenant s) (es_account s) d = Some a" "ea_status a = AccountActive"
    by (auto simp: session_account_def split: option.splits if_splits dest!: find_SomeD)
  with account_at_SomeD [OF s(3)] show ?thesis by auto
qed

lemma wp_endpoint_session:
  fixes w :: world
  assumes "\<And>t a. now = Aware t \<Longrightarrow> session_account P token t (tables w) = Some a \<Longrightarrow> Q a w" and "\<And>e. Er e w"
  shows "wp (endpoint_session P token now ready_needed) Q Er w"
  unfolding endpoint_session_def using assms by (auto simp: wp_rules split: option.split datetime.split)

definition cut_off :: "account_row \<Rightarrow> string option \<Rightarrow> db \<Rightarrow> bool" where
  "cut_off a kept d \<longleftrightarrow>
     (\<forall>s \<in> set (endpoint_sessions d). es_tenant s = ea_tenant a \<longrightarrow> es_account s = ea_id a \<longrightarrow> kept = Some (es_hash s)) \<and>
     (\<forall>e \<in> set (enrollment_tokens d). granted_to (ea_tenant a) (ea_id a) d e \<longrightarrow> et_used e = None \<longrightarrow> et_revoked e \<noteq> None)"

definition others_kept :: "account_row \<Rightarrow> instant \<Rightarrow> db \<Rightarrow> db \<Rightarrow> bool" where
  "others_kept a t d d' \<longleftrightarrow> (\<forall>s \<in> set (endpoint_sessions d). \<not> (es_tenant s = ea_tenant a \<and> es_account s = ea_id a) \<longrightarrow>
     t < es_expires s \<longrightarrow> s \<in> set (endpoint_sessions d'))"

definition password_replaced :: "account_row \<Rightarrow> instant \<Rightarrow> string option \<Rightarrow> db \<Rightarrow> db \<Rightarrow> bool" where
  "password_replaced a t kept d d' \<longleftrightarrow> account_at (ea_tenant a) (ea_id a) d = Some a \<and>
     (\<exists>b. account_at (ea_tenant a) (ea_id a) d' = Some b \<and> ea_password_version b = ea_password_version a + 1) \<and>
     cut_off a kept d' \<and> others_kept a t d d'"

lemma password_replaced_audit [simp]: "password_replaced a t kept d (with_audit l n c d') = password_replaced a t kept d d'"
  by (simp add: password_replaced_def cut_off_def others_kept_def account_at_def granted_to_def)

lemma wp_replace_password:
  fixes w :: world
  assumes "account_at (ea_tenant a) (ea_id a) (tables w) = Some a" and "\<And>v. password_replaced a t None (tables w) (tables v) \<Longrightarrow> Q () v"
  shows "wp (replace_password a encoded t complete_setup) Q Er w"
proof -
  have at: "account_at (ea_tenant a) (ea_id a) d' = map_option (\<lambda>b. if ea_tenant b = ea_tenant a \<and> ea_id b = ea_id a
      then replaced_password encoded completed t b else b) (account_at (ea_tenant a) (ea_id a) d)"
    if "endpoint_accounts d' = update_where (\<lambda>b. ea_tenant b = ea_tenant a \<and> ea_id b = ea_id a) (replaced_password encoded completed t) (endpoint_accounts d)"
    for d d' completed
    using account_at_replaced [where tenant = "ea_tenant a" and account = "ea_id a" and d = d
        and P = "\<lambda>b. ea_tenant b = ea_tenant a \<and> ea_id b = ea_id a" and encoded = encoded and completed = completed and t = t] that
    by (simp add: account_at_def)
  have "password_replaced a t None (tables w) d'"
    if "endpoint_accounts d' = update_where (\<lambda>b. ea_tenant b = ea_tenant a \<and> ea_id b = ea_id a) (replaced_password encoded completed t) (endpoint_accounts (tables w))"
      "endpoint_sessions d' = delete_where (\<lambda>s. es_tenant s = ea_tenant a \<and> es_account s = ea_id a) (endpoint_sessions (tables w))"
      "enrollment_tokens d' = update_where (\<lambda>e. et_used e = None \<and> granted_to (ea_tenant a) (ea_id a) (tables w) e) (\<lambda>e. e\<lparr>et_revoked := Some t\<rparr>) (enrollment_tokens (tables w))"
      "account_grants d' = account_grants (tables w)" for d' completed
    using assms(1) at [OF that(1)]
    by (auto simp: password_replaced_def cut_off_def others_kept_def that(2-4) granted_to_def set_update_where replaced_password_def split: if_splits)
  then have "Q () (v\<lparr>tables := d'\<rparr>)"
    if "endpoint_accounts d' = update_where (\<lambda>b. ea_tenant b = ea_tenant a \<and> ea_id b = ea_id a) (replaced_password encoded completed t) (endpoint_accounts (tables w))"
      "endpoint_sessions d' = delete_where (\<lambda>s. es_tenant s = ea_tenant a \<and> es_account s = ea_id a) (endpoint_sessions (tables w))"
      "enrollment_tokens d' = update_where (\<lambda>e. et_used e = None \<and> granted_to (ea_tenant a) (ea_id a) (tables w) e) (\<lambda>e. e\<lparr>et_revoked := Some t\<rparr>) (enrollment_tokens (tables w))"
      "account_grants d' = account_grants (tables w)" for d' completed v
    using that assms(2) [of "v\<lparr>tables := d'\<rparr>"] by simp
  then show ?thesis
    unfolding replace_password_def Let_def update_accounts_def delete_endpoint_sessions_def revoke_unused_grants_def update_tokens_def
    by (simp add: wp_rules granted_to_def)
qed

lemma wp_issue_endpoint_session:
  fixes w :: world
  assumes replaced: "password_replaced a t None d (tables w)" and b: "ea_tenant b = ea_tenant a" "ea_id b = ea_id a"
    and post: "\<And>x v. password_replaced a t (Some (token_hash P (el_token x))) d (tables v) \<Longrightarrow> Q x v"
  shows "wp (issue_endpoint_session P b t) Q (\<lambda>_ _. True) w"
proof -
  have "password_replaced a t (Some h) d ((tables w)\<lparr>endpoint_sessions := delete_where (\<lambda>s. es_tenant s = ea_tenant a \<and> es_account s = ea_id a)
      (delete_where (\<lambda>s. es_expires s \<le> t) (endpoint_sessions (tables w))) @ [s]\<rparr>)" if "es_hash s = h" for s h
  proof -
    let ?d = "(tables w)\<lparr>endpoint_sessions := delete_where (\<lambda>s. es_tenant s = ea_tenant a \<and> es_account s = ea_id a)
      (delete_where (\<lambda>s. es_expires s \<le> t) (endpoint_sessions (tables w))) @ [s]\<rparr>"
    have frame: "account_at tn i ?d = account_at tn i (tables w)" "granted_to tn i ?d = granted_to tn i (tables w)" for tn i
      by (simp_all add: account_at_def granted_to_def fun_eq_iff)
    have "cut_off a (Some h) ?d"
      unfolding cut_off_def frame using replaced that by (simp add: password_replaced_def cut_off_def)
    moreover have "others_kept a t d ?d"
      using replaced by (simp add: password_replaced_def others_kept_def not_le)
    ultimately show ?thesis using replaced unfolding password_replaced_def frame by blast
  qed
  note new = this
  show ?thesis
    unfolding issue_endpoint_session_def delete_endpoint_sessions_def insert_endpoint_session_def
    by (auto simp: wp_rules b intro!: post new)
qed

lemma wp_require_admin: "Q () w \<Longrightarrow> (\<And>e. Er e w) \<Longrightarrow> wp (require_admin p) Q Er w"
  unfolding require_admin_def by (auto simp: wp_rules split: option.split)

lemma wp_hash_password:
  fixes w :: world
  assumes "\<And>x k. Q x (w\<lparr>drawn := k\<rparr>)" and "\<And>e k. Er e (w\<lparr>drawn := k\<rparr>)"
  shows "wp (hash_password P password) Q Er w"
proof -
  have "Er e w" for e using assms(2) [of e "drawn w"] by simp
  then show ?thesis using assms unfolding hash_password_def validate_password_def by (simp add: wp_rules)
qed

lemma wp_account_audit:
  fixes w :: world
  assumes "\<And>x k l n c. Q x (w\<lparr>drawn := k, tables := with_audit l n c (tables w)\<rparr>)"
  shows "wp (account_audit E tenant action actor_id resource_id now) Q (\<lambda>_ _. True) w"
  unfolding account_audit_def by (rule wp_audit_append_raw) (use assms in auto)

lemma password_replaced_resets [simp]: "password_replaced a t kept d (d'\<lparr>password_resets := x\<rparr>) = password_replaced a t kept d d'"
  by (simp add: password_replaced_def cut_off_def others_kept_def account_at_def granted_to_def)

lemma wp_verify_password:
  fixes w :: world
  assumes "\<And>x. Q x w" and "\<And>e. Er e w"
  shows "wp (verify_password P password encoded) Q Er w"
  using assms unfolding verify_password_def by (auto simp: wp_rules split: option.split)

lemma account_at_key: "account_at tenant account d = Some a \<Longrightarrow> ea_tenant a = tenant" "account_at tenant account d = Some a \<Longrightarrow> ea_id a = account"
  by (auto dest: account_at_SomeD)

lemma session_account_at: "session_account P token t d = Some a \<Longrightarrow> account_at (ea_tenant a) (ea_id a) d = Some a"
  by (auto dest: session_account_SomeD)

lemma account_at_self: "account_at tenant account d = Some a \<Longrightarrow> account_at (ea_tenant a) (ea_id a) d = Some a"
  using account_at_SomeD by fastforce

definition authority_dead :: "env \<Rightarrow> password_lib \<Rightarrow> account_row \<Rightarrow> string option \<Rightarrow> world \<Rightarrow> bool" where
  "authority_dead E P a kept w \<longleftrightarrow>
     (\<forall>token now b v. endpoint_session P token now False w = (Inr b, v) \<longrightarrow> ea_tenant b = ea_tenant a \<longrightarrow> ea_id b = ea_id a \<longrightarrow>
        kept = Some (token_hash P token)) \<and>
     (\<forall>token g tn dev name platform now life. grant_at (sha256_hex E (utf8 token)) (tables w) = Some (g, tn) \<longrightarrow>
        granted_to (ea_tenant a) (ea_id a) (tables w) g \<longrightarrow> et_used g = None \<longrightarrow>
        \<not> succeeds (claim_grant E token dev name platform now life) w)"

lemma authority_dead_cut_off:
  assumes "cut_off a kept (tables w)"
  shows "authority_dead E P a kept w"
proof -
  have "kept = Some (token_hash P token)"
    if run: "endpoint_session P token now False w = (Inr b, v)" and b: "ea_tenant b = ea_tenant a" "ea_id b = ea_id a" for token now b v
  proof -
    have "wp (endpoint_session P token now False) (\<lambda>b _. \<exists>t. session_account P token t (tables w) = Some b) (\<lambda>_ _. True) w"
      by (rule wp_endpoint_session) auto
    from wp_Inr [OF this run] obtain t where "session_account P token t (tables w) = Some b" by blast
    from session_account_SomeD [OF this] b assms show ?thesis by (auto simp: cut_off_def)
  qed
  moreover have "\<not> succeeds (claim_grant E token dev name platform now life) w"
    if g: "grant_at (sha256_hex E (utf8 token)) (tables w) = Some (g, tn)" "granted_to (ea_tenant a) (ea_id a) (tables w) g" "et_used g = None"
    for token g tn dev name platform now life
  proof -
    have "g \<in> set (enrollment_tokens (tables w))"
      using g(1) by (auto simp: grant_at_def split: option.splits dest!: find_SomeD)
    with assms g(2,3) have "et_revoked g \<noteq> None" by (auto simp: cut_off_def)
    then have "wp (claim_grant E token dev name platform now life) (\<lambda>_ _. False) (\<lambda>_ _. True) w"
      using g(1) unfolding claim_grant_def claim_transaction_def Let_def
      by (simp add: wp_rules require_identifier_def cipher_encrypt_def split: datetime.split)
    then show ?thesis by (auto simp: succeeds_def wp_def split: sum.splits prod.splits)
  qed
  ultimately show ?thesis by (auto simp: authority_dead_def)
qed


section \<open>Calls\<close>

datatype account_call =
    Create_Account principal string string
  | List_Accounts principal
  | Log_In string string
  | Me string
  | Log_Out string
  | Change_Password string string
  | Request_Reset string
  | Reset_Requests principal
  | Reset_Password principal string
  | Account_Grant string string

definition run_account :: "env \<Rightarrow> password_lib \<Rightarrow> account_call \<Rightarrow> datetime \<Rightarrow> unit prog" where
  "run_account E P call now = (case call of
     Create_Account p alias name \<Rightarrow> andthen (create_account E P p alias name now) (ret ())
   | List_Accounts p \<Rightarrow> andthen (list_accounts p) (ret ())
   | Log_In uname password \<Rightarrow> andthen (login P uname password now) (ret ())
   | Me token \<Rightarrow> andthen (me P token now) (ret ())
   | Log_Out token \<Rightarrow> logout P token
   | Change_Password token password \<Rightarrow> andthen (change_password E P token password now) (ret ())
   | Request_Reset uname \<Rightarrow> request_reset E uname now
   | Reset_Requests p \<Rightarrow> andthen (reset_requests p) (ret ())
   | Reset_Password p request_id \<Rightarrow> andthen (reset_password E P p request_id now) (ret ())
   | Account_Grant token dev \<Rightarrow> andthen (account_enrollment_grant E P token dev now) (ret ()))"

end
