(* ===== verification/Response.thy ===== *)
theory Response
  imports Device_Auth Cases
begin

text \<open>
  Active-response governance of \<open>standalone/response.py\<close>: an action against a device is proposed by
  one human, approved or rejected by another, dispatched to the device when it polls, and closed by the
  device's signed result or by expiry; with the index, the CHECK constraint and the triggers of
  \<open>standalone/migrations.py\<close> that guard the table \<open>response_actions\<close>.
\<close>

section \<open>Statuses\<close>

fun action_status_name :: "action_status \<Rightarrow> string" where
  "action_status_name Proposed = ''proposed''"
| "action_status_name Approved = ''approved''"
| "action_status_name Rejected = ''rejected''"
| "action_status_name Dispatched = ''dispatched''"
| "action_status_name Succeeded = ''succeeded''"
| "action_status_name Failed = ''failed''"
| "action_status_name Expired = ''expired''"

definition action_types :: "string set" where
  "action_types = {''isolate_endpoint'', ''release_endpoint''}"

definition live_status :: "action_status \<Rightarrow> bool" where
  "live_status s \<longleftrightarrow> s \<in> {Proposed, Approved, Dispatched}"

section \<open>Constraints and triggers\<close>

definition idx_response_one_live_device :: "db \<Rightarrow> action_row \<Rightarrow> bool" where
  "idx_response_one_live_device d r \<longleftrightarrow> ra_target_type r = TargetDevice \<and> live_status (ra_status r) \<and>
     row_exists (\<lambda>x. ra_tenant x = ra_tenant r \<and> ra_target x = ra_target r \<and> ra_target_type x = TargetDevice \<and>
       live_status (ra_status x) \<and> ra_id x \<noteq> ra_id r) (response_actions d)"

definition response_action_identity_immutable :: "action_row \<Rightarrow> action_row \<Rightarrow> bool" where
  "response_action_identity_immutable old new \<longleftrightarrow>
     ra_tenant new \<noteq> ra_tenant old \<or> ra_id new \<noteq> ra_id old \<or> ra_case new \<noteq> ra_case old \<or>
     ra_type new \<noteq> ra_type old \<or> ra_target_type new \<noteq> ra_target_type old \<or> ra_target new \<noteq> ra_target old \<or>
     ra_rationale new \<noteq> ra_rationale old \<or> ra_risk new \<noteq> ra_risk old \<or>
     ra_proposed_by new \<noteq> ra_proposed_by old \<or> ra_proposed_at new \<noteq> ra_proposed_at old \<or>
     ra_expires new \<noteq> ra_expires old"

definition response_action_transition_guard :: "action_row \<Rightarrow> action_row \<Rightarrow> bool" where
  "response_action_transition_guard old new \<longleftrightarrow> \<not> (
     ra_status old = Proposed \<and> ra_status new \<in> {Approved, Rejected, Expired} \<or>
     ra_status old = Approved \<and> ra_status new \<in> {Dispatched, Expired} \<or>
     ra_status old = Dispatched \<and> ra_status new \<in> {Succeeded, Failed, Expired})"

definition response_action_approval_guard :: "action_row \<Rightarrow> action_row \<Rightarrow> bool" where
  "response_action_approval_guard old new \<longleftrightarrow> ra_status new = Approved \<and>
     (ra_approved_by new = None \<or> ra_approved_at new = None \<or> ra_approved_by new = Some (ra_proposed_by old) \<or>
      (case ra_approved_at new of None \<Rightarrow> False | Some t \<Rightarrow> ra_expires old \<le> t))"

definition response_action_rejection_guard :: "action_row \<Rightarrow> action_row \<Rightarrow> bool" where
  "response_action_rejection_guard old new \<longleftrightarrow> ra_status new = Rejected \<and>
     (ra_rejected_by new = None \<or> ra_rejected_at new = None \<or> ra_rejected_by new = Some (ra_proposed_by old) \<or>
      (case ra_rejected_at new of None \<Rightarrow> False | Some t \<Rightarrow> ra_expires old \<le> t) \<or>
      (case ra_rejection_reason new of None \<Rightarrow> True | Some r \<Rightarrow> list_all (\<lambda>c. c = CHR '' '') r))"

definition response_action_dispatch_guard :: "action_row \<Rightarrow> action_row \<Rightarrow> bool" where
  "response_action_dispatch_guard old new \<longleftrightarrow> ra_status new = Dispatched \<and>
     (ra_status old \<noteq> Approved \<or> ra_dispatched new = None \<or> ra_dispatch_count new \<noteq> 1 \<or>
      (case ra_dispatched new of None \<Rightarrow> False | Some t \<Rightarrow> ra_expires old \<le> t))"

definition response_action_result_guard :: "action_row \<Rightarrow> action_row \<Rightarrow> bool" where
  "response_action_result_guard old new \<longleftrightarrow> ra_status new \<in> {Succeeded, Failed} \<and>
     (ra_status old \<noteq> Dispatched \<or> ra_result_json new = None \<or> ra_result_device new = None \<or>
      ra_result_device new \<noteq> Some (ra_target old) \<or> ra_completed new = None \<or>
      (case ra_completed new of None \<Rightarrow> False | Some t \<Rightarrow> ra_expires old \<le> t))"

definition response_action_terminal_immutable :: "action_row \<Rightarrow> action_row \<Rightarrow> bool" where
  "response_action_terminal_immutable old new \<longleftrightarrow> ra_status old \<in> {Rejected, Succeeded, Failed, Expired}"

definition dispatch_count_check :: "action_row \<Rightarrow> bool" where
  "dispatch_count_check r \<longleftrightarrow> 0 \<le> ra_dispatch_count r \<and> ra_dispatch_count r \<le> 5"

definition status_guard :: "db \<Rightarrow> action_row \<Rightarrow> action_row \<Rightarrow> bool" where
  "status_guard d old new \<longleftrightarrow> response_action_identity_immutable old new \<or>
     response_action_transition_guard old new \<or> response_action_approval_guard old new \<or>
     response_action_rejection_guard old new \<or> response_action_dispatch_guard old new \<or>
     response_action_result_guard old new \<or> response_action_terminal_immutable old new \<or>
     \<not> dispatch_count_check new \<or> idx_response_one_live_device d new"

definition count_guard :: "db \<Rightarrow> action_row \<Rightarrow> action_row \<Rightarrow> bool" where
  "count_guard d old new \<longleftrightarrow> response_action_identity_immutable old new \<or>
     response_action_terminal_immutable old new \<or> \<not> dispatch_count_check new"

definition insert_action :: "action_row \<Rightarrow> unit prog" where
  "insert_action a = insert_checked
     (\<lambda>d. \<not> row_exists (\<lambda>x. ra_tenant x = ra_tenant a \<and> ra_id x = ra_id a) (response_actions d) \<and>
          case_exists (ra_tenant a) (ra_case a) d \<and> dispatch_count_check a \<and>
          \<not> idx_response_one_live_device d a)
     (\<lambda>d. d\<lparr>response_actions := response_actions d @ [a]\<rparr>)"

section \<open>Reading actions\<close>

record response_action =
  rv_id :: string
  rv_tenant :: string
  rv_case :: string
  rv_type :: string
  rv_target :: string
  rv_rationale :: string
  rv_status :: action_status
  rv_proposed_by :: string
  rv_proposed_at :: instant
  rv_approved_by :: "string option"
  rv_approved_at :: "instant option"
  rv_rejected_by :: "string option"
  rv_rejected_at :: "instant option"
  rv_rejection_reason :: "string option"
  rv_dispatch_count :: int
  rv_dispatched :: "instant option"
  rv_expires :: instant
  rv_completed :: "instant option"
  rv_summary :: "string option"
  rv_evidence :: "string list"

record agent_action =
  ga_id :: string
  ga_type :: string
  ga_target_type :: target_type
  ga_target :: string
  ga_rationale :: string
  ga_risk :: risk_level
  ga_expires :: instant

record response_result =
  rs_action :: string
  rs_status :: string
  rs_changed :: bool

definition invalid_result :: "'a prog" where
  "invalid_result = raise ResponseValidationError ''stored response result is invalid''"

fun json_texts :: "json list \<Rightarrow> string list option" where
  "json_texts [] = Some []"
| "json_texts (JStr s # js) = map_option ((#) s) (json_texts js)"
| "json_texts (_ # js) = None"

definition stored_result :: "string option \<Rightarrow> (string option \<times> string list) prog" where
  "stored_result value = (case value of
     None \<Rightarrow> ret (None, [])
   | Some text \<Rightarrow>
       (case loads text of
          Some (JObj kvs) \<Rightarrow>
            (case (map_of kvs ''summary'', map_of kvs ''evidence'') of
               (Some (JStr summary), Some (JList items)) \<Rightarrow>
                 (case json_texts items of None \<Rightarrow> invalid_result | Some evidence \<Rightarrow> ret (Some summary, evidence))
             | _ \<Rightarrow> invalid_result)
        | _ \<Rightarrow> invalid_result))"

definition check_action_type :: "string \<Rightarrow> unit prog" where
  "check_action_type ty = raise_if (ty \<notin> action_types) ResponseValidationError ''stored response action type is invalid''"

definition action_of :: "action_row \<Rightarrow> response_action prog" where
  "action_of r =
     bind (stored_result (ra_result_json r)) (\<lambda>(summary, evidence).
     andthen (check_action_type (ra_type r))
     (ret \<lparr>rv_id = ra_id r, rv_tenant = ra_tenant r, rv_case = ra_case r, rv_type = ra_type r, rv_target = ra_target r,
        rv_rationale = ra_rationale r, rv_status = ra_status r, rv_proposed_by = ra_proposed_by r,
        rv_proposed_at = ra_proposed_at r, rv_approved_by = ra_approved_by r, rv_approved_at = ra_approved_at r,
        rv_rejected_by = ra_rejected_by r, rv_rejected_at = ra_rejected_at r,
        rv_rejection_reason = ra_rejection_reason r, rv_dispatch_count = ra_dispatch_count r,
        rv_dispatched = ra_dispatched r, rv_expires = ra_expires r, rv_completed = ra_completed r,
        rv_summary = summary, rv_evidence = evidence\<rparr>))"

definition agent_action_of :: "action_row \<Rightarrow> agent_action prog" where
  "agent_action_of r = andthen (check_action_type (ra_type r))
     (ret \<lparr>ga_id = ra_id r, ga_type = ra_type r, ga_target_type = TargetDevice, ga_target = ra_target r,
        ga_rationale = ra_rationale r, ga_risk = RiskActive, ga_expires = ra_expires r\<rparr>)"

definition action_at :: "string \<Rightarrow> string \<Rightarrow> db \<Rightarrow> action_row option" where
  "action_at tenant aid d = List.find (\<lambda>r. ra_tenant r = tenant \<and> ra_id r = aid) (response_actions d)"

definition require_action :: "string \<Rightarrow> string \<Rightarrow> action_row prog" where
  "require_action tenant aid = bind (query (action_at tenant aid)) (\<lambda>row.
     case row of None \<Rightarrow> raise ResponseNotFoundError ''response action is unavailable'' | Some r \<Rightarrow> ret r)"

definition get_action :: "principal \<Rightarrow> string \<Rightarrow> response_action prog" where
  "get_action p aid =
     andthen (require_capability p (pr_tenant p) View)
     (bind (query (action_at (pr_tenant p) aid)) (\<lambda>row.
      case row of None \<Rightarrow> raise ResponseNotFoundError ''response action is unavailable'' | Some r \<Rightarrow> action_of r))"

definition case_is_closed :: "action_row \<Rightarrow> db \<Rightarrow> bool" where
  "case_is_closed r d = (case case_at (ra_tenant r) (ra_case r) d of None \<Rightarrow> True | Some c \<Rightarrow> cs_status c = CaseClosed)"

definition case_status_is :: "(case_status \<Rightarrow> bool) \<Rightarrow> action_row \<Rightarrow> db \<Rightarrow> bool" where
  "case_status_is P r d = row_exists (\<lambda>c. cs_tenant c = ra_tenant r \<and> cs_id c = ra_case r \<and> P (cs_status c)) (cases d)"

section \<open>Expiry\<close>

definition expire_one :: "env \<Rightarrow> action_row \<Rightarrow> datetime \<Rightarrow> string \<Rightarrow> unit prog" where
  "expire_one E row now reason =
     bind (utc_text now) (\<lambda>t.
     bind (update_rows response_actions response_actions_update status_guard
       (\<lambda>r. ra_tenant r = ra_tenant row \<and> ra_id r = ra_id row \<and> live_status (ra_status r))
       (\<lambda>r. r\<lparr>ra_status := Expired, ra_completed := Some t\<rparr>)) (\<lambda>changed.
     if changed = 1 then
       andthen (audit_append E (ra_tenant row) ''response.expired'' ''system'' ''standalone-response-governor''
         ''response_action'' (ra_id row)
         (JObj [(''previous_status'', JStr (action_status_name (ra_status row))), (''reason'', JStr reason)]) now)
       (ret ())
     else ret ()))"

definition on_device :: "string option \<Rightarrow> action_row \<Rightarrow> bool" where
  "on_device device r = (case device of None \<Rightarrow> True | Some dev \<Rightarrow> ra_target_type r = TargetDevice \<and> ra_target r = dev)"

definition expire_due :: "env \<Rightarrow> string \<Rightarrow> datetime \<Rightarrow> string option \<Rightarrow> unit prog" where
  "expire_due E tenant now device =
     bind (utc_text now) (\<lambda>t.
     bind (query (\<lambda>d. order_by ra_id (filter (\<lambda>r. ra_tenant r = tenant \<and> live_status (ra_status r) \<and>
        ra_expires r \<le> t \<and> on_device device r) (response_actions d)))) (\<lambda>rows.
     for_each (\<lambda>r. expire_one E r now ''deadline'') rows))"

definition expire_closed_case_actions :: "env \<Rightarrow> string \<Rightarrow> datetime \<Rightarrow> string option \<Rightarrow> unit prog" where
  "expire_closed_case_actions E tenant now device =
     bind (query (\<lambda>d. order_by ra_id (filter (\<lambda>r. ra_tenant r = tenant \<and> case_status_is (\<lambda>s. s = CaseClosed) r d \<and>
        ra_status r \<in> {Proposed, Approved} \<and> on_device device r) (response_actions d)))) (\<lambda>rows.
     for_each (\<lambda>r. expire_one E r now ''case_closed'') rows)"

section \<open>Operations by humans\<close>

definition propose_transaction ::
  "env \<Rightarrow> principal \<Rightarrow> string \<Rightarrow> string \<Rightarrow> string \<Rightarrow> string \<Rightarrow> string \<Rightarrow> datetime \<Rightarrow> datetime \<Rightarrow> unit prog" where
  "propose_transaction E p cid action_type device_id rationale action_id expires_at now =
     andthen (require_current_capability p Propose_Response now)
     (andthen (expire_due E (pr_tenant p) now (Some device_id))
     (andthen (expire_closed_case_actions E (pr_tenant p) now (Some device_id))
     (bind (query (\<lambda>d. row_exists (\<lambda>c. cs_tenant c = pr_tenant p \<and> cs_id c = cid \<and> cs_status c \<noteq> CaseClosed) (cases d))) (\<lambda>open_case.
     bind (query (\<lambda>d. row_exists (\<lambda>v. dv_tenant v = pr_tenant p \<and> dv_id v = device_id \<and> dv_status v = DeviceActive) (devices d))) (\<lambda>active.
     andthen (raise_if (\<not> open_case) ResponseNotFoundError ''response case is unavailable'')
     (andthen (raise_if (\<not> active) ResponseNotFoundError ''response target device is unavailable'')
     (bind (utc_text now) (\<lambda>t.
     bind (utc_text expires_at) (\<lambda>u.
     andthen (on_integrity_error (insert_action
         \<lparr>ra_tenant = pr_tenant p, ra_id = action_id, ra_case = cid, ra_type = action_type,
          ra_target_type = TargetDevice, ra_target = device_id, ra_rationale = rationale, ra_risk = RiskActive,
          ra_status = Proposed, ra_proposed_by = pr_user p, ra_proposed_at = t, ra_approved_by = None,
          ra_approved_at = None, ra_expires = u, ra_result_json = None, ra_completed = None,
          ra_rejected_by = None, ra_rejected_at = None, ra_rejection_reason = None, ra_dispatch_count = 0,
          ra_dispatched = None, ra_result_device = None\<rparr>)
         ResponseConflictError ''target device already has a live response action'')
     (andthen (audit_append E (pr_tenant p) ''response.proposed'' ''user'' (pr_user p) ''response_action'' action_id
         (JObj [(''action_type'', JStr action_type), (''case_id'', JStr cid), (''expires_at'', JStr (iso_text u)),
            (''target_id'', JStr device_id)]) now)
     (ret ())))))))))))"

definition propose ::
  "env \<Rightarrow> principal \<Rightarrow> string \<Rightarrow> string \<Rightarrow> string \<Rightarrow> string \<Rightarrow> datetime \<Rightarrow> int \<Rightarrow> response_action prog" where
  "propose E p cid action_type device_id rationale now expires_in =
     andthen (require_capability p (pr_tenant p) Propose_Response)
     (andthen (raise_if (action_type \<notin> action_types) ResponseValidationError ''response action type is not allowlisted'')
     (let why = strip rationale in
      andthen (raise_if (why = [] \<or> 500 < length why) ResponseValidationError
        ''response rationale must contain between 1 and 500 characters'')
      (andthen (raise_if (expires_in < 60 \<or> 900 < expires_in) ResponseValidationError
        ''response proposal expiry must be 60 to 900 seconds'')
      (bind fresh (\<lambda>action_id.
       andthen (atomically (propose_transaction E p cid action_type device_id why action_id
          (datetime_add now (seconds expires_in)) now))
       (get_action p action_id))))))"

definition approve_checked :: "env \<Rightarrow> principal \<Rightarrow> string \<Rightarrow> datetime \<Rightarrow> bool prog" where
  "approve_checked E p aid now =
     bind (require_action (pr_tenant p) aid) (\<lambda>row.
     andthen (raise_if (ra_proposed_by row = pr_user p) HumanAuthorizationError
       ''response proposer cannot approve the action'')
     (bind (query (case_is_closed row)) (\<lambda>closed.
     if closed then andthen (expire_one E row now ''case_closed'') (ret True)
     else bind (utc_text now) (\<lambda>t.
       if ra_expires row \<le> t then andthen (expire_one E row now ''deadline'') (ret True)
       else andthen (raise_if (ra_status row \<noteq> Proposed) ResponseConflictError
           ''response action is not awaiting approval'')
         (bind (update_rows response_actions response_actions_update status_guard
           (\<lambda>r. ra_tenant r = pr_tenant p \<and> ra_id r = aid \<and> ra_status r = Proposed \<and>
              ra_proposed_by r \<noteq> pr_user p \<and> t < ra_expires r)
           (\<lambda>r. r\<lparr>ra_status := Approved, ra_approved_by := Some (pr_user p), ra_approved_at := Some t\<rparr>)) (\<lambda>changed.
         andthen (raise_if (changed \<noteq> 1) ResponseConflictError ''response approval lost an atomic race'')
         (andthen (audit_append E (pr_tenant p) ''response.approved'' ''user'' (pr_user p) ''response_action'' aid
            (JObj [(''proposed_by'', JStr (ra_proposed_by row))]) now)
         (ret False))))))))"

definition approve_transaction :: "env \<Rightarrow> principal \<Rightarrow> string \<Rightarrow> datetime \<Rightarrow> bool prog" where
  "approve_transaction E p aid now =
     andthen (require_current_capability p Approve_Response now) (approve_checked E p aid now)"

definition approve :: "env \<Rightarrow> principal \<Rightarrow> string \<Rightarrow> datetime \<Rightarrow> response_action prog" where
  "approve E p aid now =
     andthen (require_capability p (pr_tenant p) Approve_Response)
     (bind (atomically (approve_transaction E p aid now)) (\<lambda>expired.
      andthen (raise_if expired ResponseExpiredError ''response proposal expired before approval'')
      (get_action p aid)))"

definition reject_checked :: "env \<Rightarrow> principal \<Rightarrow> string \<Rightarrow> string \<Rightarrow> datetime \<Rightarrow> bool prog" where
  "reject_checked E p aid reason now =
     bind (require_action (pr_tenant p) aid) (\<lambda>row.
     andthen (raise_if (ra_proposed_by row = pr_user p) HumanAuthorizationError
       ''response proposer cannot reject the action'')
     (bind (utc_text now) (\<lambda>t.
       if ra_expires row \<le> t then andthen (expire_one E row now ''deadline'') (ret True)
       else andthen (raise_if (ra_status row \<noteq> Proposed) ResponseConflictError
           ''response action is not awaiting review'')
         (bind (update_rows response_actions response_actions_update status_guard
           (\<lambda>r. ra_tenant r = pr_tenant p \<and> ra_id r = aid \<and> ra_status r = Proposed \<and>
              ra_proposed_by r \<noteq> pr_user p \<and> t < ra_expires r)
           (\<lambda>r. r\<lparr>ra_status := Rejected, ra_rejected_by := Some (pr_user p), ra_rejected_at := Some t,
              ra_rejection_reason := Some reason\<rparr>)) (\<lambda>changed.
         andthen (raise_if (changed \<noteq> 1) ResponseConflictError ''response rejection lost an atomic race'')
         (andthen (audit_append E (pr_tenant p) ''response.rejected'' ''user'' (pr_user p) ''response_action'' aid
            (JObj [(''reason'', JStr reason)]) now)
         (ret False)))))))"

definition reject_transaction :: "env \<Rightarrow> principal \<Rightarrow> string \<Rightarrow> string \<Rightarrow> datetime \<Rightarrow> bool prog" where
  "reject_transaction E p aid reason now =
     andthen (require_current_capability p Approve_Response now) (reject_checked E p aid reason now)"

definition reject :: "env \<Rightarrow> principal \<Rightarrow> string \<Rightarrow> string \<Rightarrow> datetime \<Rightarrow> response_action prog" where
  "reject E p aid reason now =
     andthen (require_capability p (pr_tenant p) Approve_Response)
     (let why = strip reason in
      andthen (raise_if (why = [] \<or> 500 < length why) ResponseValidationError
        ''rejection reason must contain between 1 and 500 characters'')
      (bind (atomically (reject_transaction E p aid why now)) (\<lambda>expired.
       andthen (raise_if expired ResponseExpiredError ''response proposal expired before review'')
       (get_action p aid))))"

definition list_actions :: "env \<Rightarrow> principal \<Rightarrow> datetime \<Rightarrow> int \<Rightarrow> response_action list prog" where
  "list_actions E p now limit =
     andthen (require_capability p (pr_tenant p) View)
     (andthen (raise_if (limit < 1 \<or> 200 < limit) ResponseValidationError
        ''response query limit must be between 1 and 200'')
     (bind (atomically (
        andthen (expire_due E (pr_tenant p) now None)
        (andthen (expire_closed_case_actions E (pr_tenant p) now None)
        (query (\<lambda>d. take (nat limit) (order_by_desc (\<lambda>r. (ra_proposed_at r, ra_id r))
           (filter (\<lambda>r. ra_tenant r = pr_tenant p) (response_actions d)))))))) (\<lambda>rows.
      map_prog action_of rows)))"

section \<open>Operations by devices\<close>

definition nulls_first :: "instant option \<Rightarrow> int \<times> int" where
  "nulls_first v = (case v of None \<Rightarrow> (0, 0) | Some t \<Rightarrow> (1, t))"

definition dispatchable :: "env \<Rightarrow> authenticated_device \<Rightarrow> instant \<Rightarrow> db \<Rightarrow> action_row list" where
  "dispatchable E dev t d = take 20 (order_by (\<lambda>r. (nulls_first (ra_approved_at r), ra_id r))
     (filter (\<lambda>r. ra_tenant r = ad_tenant dev \<and> ra_target_type r = TargetDevice \<and> ra_target r = ad_device dev \<and>
        case_status_is (\<lambda>s. s \<noteq> CaseClosed) r d \<and> ra_status r \<in> {Approved, Dispatched} \<and> t < ra_expires r \<and>
        ra_dispatch_count r < max_dispatch_attempts E) (response_actions d)))"

definition dispatch_update :: "authenticated_device \<Rightarrow> action_row \<Rightarrow> instant \<Rightarrow> nat prog" where
  "dispatch_update dev row t =
     (if ra_status row = Approved then
        update_rows response_actions response_actions_update status_guard
          (\<lambda>r. ra_tenant r = ad_tenant dev \<and> ra_id r = ra_id row \<and> ra_status r = Approved \<and> t < ra_expires r)
          (\<lambda>r. r\<lparr>ra_status := Dispatched, ra_dispatch_count := 1, ra_dispatched := Some t\<rparr>)
      else
        update_rows response_actions response_actions_update count_guard
          (\<lambda>r. ra_tenant r = ad_tenant dev \<and> ra_id r = ra_id row \<and> ra_status r = Dispatched \<and>
             ra_dispatch_count r = ra_dispatch_count row \<and> t < ra_expires r)
          (\<lambda>r. r\<lparr>ra_dispatch_count := ra_dispatch_count row + 1\<rparr>))"

definition dispatch_one :: "env \<Rightarrow> authenticated_device \<Rightarrow> datetime \<Rightarrow> action_row \<Rightarrow> agent_action prog" where
  "dispatch_one E dev now row =
     bind (utc_text now) (\<lambda>t.
     bind (dispatch_update dev row t) (\<lambda>changed.
     andthen (raise_if (changed \<noteq> 1) ResponseConflictError ''response dispatch lost an atomic race'')
     (andthen (audit_append E (ad_tenant dev)
        (if ra_status row = Approved then ''response.dispatched'' else ''response.dispatch_retried'')
        ''device'' (ad_device dev) ''response_action'' (ra_id row)
        (JObj [(''dispatch_count'', JInt (if ra_status row = Approved then 1 else ra_dispatch_count row + 1))]) now)
     (agent_action_of row))))"

definition poll_transaction :: "env \<Rightarrow> authenticated_device \<Rightarrow> datetime \<Rightarrow> agent_action list prog" where
  "poll_transaction E dev now =
     andthen (expire_due E (ad_tenant dev) now (Some (ad_device dev)))
     (andthen (expire_closed_case_actions E (ad_tenant dev) now (Some (ad_device dev)))
     (bind (utc_text now) (\<lambda>t.
      bind (query (dispatchable E dev t)) (\<lambda>rows.
      map_prog (dispatch_one E dev now) rows))))"

definition poll_device :: "env \<Rightarrow> collector_request \<Rightarrow> string \<Rightarrow> datetime \<Rightarrow> agent_action list prog" where
  "poll_device E R device_id now =
     bind (authenticate E R now) (\<lambda>dev.
     andthen (raise_if (device_id \<noteq> ad_device dev) DeviceActionBindingError
       ''collector action poll target does not match credential'')
     (atomically (poll_transaction E dev now)))"

definition result_status :: "string \<Rightarrow> action_status option" where
  "result_status s = (if s = ''succeeded'' then Some Succeeded else if s = ''failed'' then Some Failed else None)"

definition result_text :: "string list \<Rightarrow> string \<Rightarrow> string \<Rightarrow> string" where
  "result_text evidence status summary = dumps False (JObj [(''evidence'', JList (map JStr evidence)),
     (''status'', JStr status), (''summary'', JStr summary)])"

definition result_transaction ::
  "env \<Rightarrow> authenticated_device \<Rightarrow> string \<Rightarrow> action_status \<Rightarrow> string \<Rightarrow> string list \<Rightarrow> datetime \<Rightarrow> response_result option prog" where
  "result_transaction E dev aid status summary evidence now =
     (let text = result_text evidence (action_status_name status) summary in
      bind (require_action (ad_tenant dev) aid) (\<lambda>row.
      andthen (raise_if (ra_target_type row \<noteq> TargetDevice \<or> ra_target row \<noteq> ad_device dev) DeviceActionBindingError
        ''collector result does not match the response target'')
      (if ra_status row \<in> {Succeeded, Failed} then
         if ra_status row = status \<and> ra_result_device row = Some (ad_device dev) \<and> ra_result_json row = Some text
         then ret (Some \<lparr>rs_action = aid, rs_status = action_status_name status, rs_changed = False\<rparr>)
         else raise ResponseConflictError ''response action already has a different result''
       else if ra_status row \<noteq> Dispatched then
         raise ResponseConflictError ''response action was not dispatched''
       else bind (utc_text now) (\<lambda>t.
         if ra_expires row \<le> t then andthen (expire_one E row now ''deadline'') (ret None)
         else bind (update_rows response_actions response_actions_update status_guard
             (\<lambda>r. ra_tenant r = ad_tenant dev \<and> ra_id r = aid \<and> ra_status r = Dispatched \<and>
                ra_target_type r = TargetDevice \<and> ra_target r = ad_device dev \<and> t < ra_expires r)
             (\<lambda>r. r\<lparr>ra_status := status, ra_result_json := Some text, ra_result_device := Some (ad_device dev),
                ra_completed := Some t\<rparr>)) (\<lambda>changed.
           andthen (raise_if (changed \<noteq> 1) ResponseConflictError ''response result lost an atomic race'')
           (andthen (audit_append E (ad_tenant dev) (''response.'' @ action_status_name status) ''device'' (ad_device dev)
              ''response_action'' aid
              (JObj [(''evidence'', JList (map JStr evidence)), (''summary'', JStr summary)]) now)
           (ret (Some \<lparr>rs_action = aid, rs_status = action_status_name status, rs_changed = True\<rparr>))))))))"

definition submit_device_result ::
  "env \<Rightarrow> collector_request \<Rightarrow> string \<Rightarrow> string \<Rightarrow> string \<Rightarrow> string list \<Rightarrow> datetime \<Rightarrow> response_result prog" where
  "submit_device_result E R aid status_text summary evidence now =
     bind (authenticate E R now) (\<lambda>dev.
     case result_status status_text of
       None \<Rightarrow> raise ResponseValidationError ''response result status is invalid''
     | Some status \<Rightarrow>
       andthen (raise_if (strip summary = [] \<or> 500 < length (strip summary)) ResponseValidationError
         ''response result summary must contain between 1 and 500 characters'')
       (andthen (raise_if (20 < length evidence \<or> list_ex (\<lambda>item. strip item = [] \<or> 256 < length (strip item)) evidence)
         ResponseValidationError ''response evidence is outside the bounded contract'')
       (bind (atomically (result_transaction E dev aid status (strip summary) (map strip evidence) now)) (\<lambda>result.
        case result of
          None \<Rightarrow> raise ResponseExpiredError ''response action expired before its result arrived''
        | Some r \<Rightarrow> ret r))))"

section \<open>The lifecycle of an action\<close>

text \<open>
  The specification: the steps one action can take, seen from outside. An approval and a rejection
  name a human who did not propose the action, and every step but expiry happens before the deadline.
\<close>

inductive action_step :: "action_row \<Rightarrow> action_row \<Rightarrow> bool" where
  approved: "ra_status a = Proposed \<Longrightarrow> u \<noteq> ra_proposed_by a \<Longrightarrow> t < ra_expires a \<Longrightarrow>
    action_step a (a\<lparr>ra_status := Approved, ra_approved_by := Some u, ra_approved_at := Some t\<rparr>)"
| rejected: "ra_status a = Proposed \<Longrightarrow> u \<noteq> ra_proposed_by a \<Longrightarrow> t < ra_expires a \<Longrightarrow>
    action_step a (a\<lparr>ra_status := Rejected, ra_rejected_by := Some u, ra_rejected_at := Some t,
      ra_rejection_reason := Some reason\<rparr>)"
| dispatched: "ra_status a = Approved \<Longrightarrow> t < ra_expires a \<Longrightarrow>
    action_step a (a\<lparr>ra_status := Dispatched, ra_dispatch_count := 1, ra_dispatched := Some t\<rparr>)"
| retried: "ra_status a = Dispatched \<Longrightarrow> ra_dispatch_count a < 5 \<Longrightarrow>
    action_step a (a\<lparr>ra_dispatch_count := ra_dispatch_count a + 1\<rparr>)"
| finished: "ra_status a = Dispatched \<Longrightarrow> s \<in> {Succeeded, Failed} \<Longrightarrow> t < ra_expires a \<Longrightarrow>
    action_step a (a\<lparr>ra_status := s, ra_result_json := Some text, ra_result_device := Some (ra_target a),
      ra_completed := Some t\<rparr>)"
| lapsed: "live_status (ra_status a) \<Longrightarrow>
    action_step a (a\<lparr>ra_status := Expired, ra_completed := Some t\<rparr>)"

inductive_cases action_stepE: "action_step a b"

abbreviation action_steps :: "action_row \<Rightarrow> action_row \<Rightarrow> bool" where
  "action_steps \<equiv> action_step\<^sup>*\<^sup>*"

definition new_proposal :: "action_row \<Rightarrow> bool" where
  "new_proposal a \<longleftrightarrow> ra_status a = Proposed \<and> ra_target_type a = TargetDevice \<and> ra_type a \<in> action_types \<and>
     ra_dispatch_count a = 0 \<and> ra_approved_by a = None \<and> ra_result_device a = None \<and> ra_result_json a = None \<and>
     ra_proposed_at a < ra_expires a"

definition evolves :: "action_row list \<Rightarrow> action_row list \<Rightarrow> bool" where
  "evolves rows rows' \<longleftrightarrow> (\<exists>olds news. rows' = olds @ news \<and> list_all2 action_steps rows olds \<and>
     (\<forall>n \<in> set news. \<exists>a. new_proposal a \<and> action_steps a n))"

lemma evolves_refl: "evolves rows rows"
  unfolding evolves_def by (rule exI [of _ rows]) (simp add: list_all2_refl)

lemma list_all2_update_where:
  assumes "list_all2 action_steps rows olds" "\<forall>r \<in> set olds. P r \<longrightarrow> action_step r (f r)"
  shows "list_all2 action_steps rows (update_where P f olds)"
  using assms by (induction rule: list_all2_induct) (auto intro: rtranclp.rtrancl_into_rtrancl)

lemma evolves_update:
  assumes "evolves rows0 rows" "\<forall>r \<in> set rows. P r \<longrightarrow> action_step r (f r)"
  shows "evolves rows0 (update_where P f rows)"
proof -
  obtain olds news where r: "rows = olds @ news" "list_all2 action_steps rows0 olds"
      "\<forall>n \<in> set news. \<exists>a. new_proposal a \<and> action_steps a n"
    using assms(1) by (auto simp: evolves_def)
  have "list_all2 action_steps rows0 (update_where P f olds)"
    using r(1,2) assms(2) by (intro list_all2_update_where) auto
  moreover have "\<forall>n \<in> set (update_where P f news). \<exists>a. new_proposal a \<and> action_steps a n"
    using r(1,3) assms(2) by (fastforce simp: set_update_where intro: rtranclp.rtrancl_into_rtrancl)
  ultimately show ?thesis unfolding evolves_def r(1) update_where_append by blast
qed

lemma evolves_insert: "evolves rows0 rows \<Longrightarrow> new_proposal a \<Longrightarrow> evolves rows0 (rows @ [a])"
  unfolding evolves_def
  by (elim exE conjE, rule_tac x = olds in exI, rule_tac x = "news @ [a]" in exI) auto

section \<open>The table's invariant\<close>

definition action_ok :: "action_row \<Rightarrow> bool" where
  "action_ok a \<longleftrightarrow> ra_type a \<in> action_types \<and> ra_target_type a = TargetDevice \<and> 0 \<le> ra_dispatch_count a \<and> ra_dispatch_count a \<le> 5 \<and>
     (ra_status a \<in> {Approved, Dispatched, Succeeded, Failed} \<longrightarrow>
        (\<exists>u t. ra_approved_by a = Some u \<and> u \<noteq> ra_proposed_by a \<and> ra_approved_at a = Some t \<and> t < ra_expires a)) \<and>
     (ra_status a = Proposed \<longrightarrow> ra_approved_by a = None) \<and>
     (ra_status a \<in> {Dispatched, Succeeded, Failed} \<longrightarrow> 1 \<le> ra_dispatch_count a) \<and>
     (ra_status a \<in> {Proposed, Approved} \<longrightarrow> ra_dispatch_count a = 0) \<and>
     (ra_status a \<in> {Succeeded, Failed} \<longleftrightarrow> ra_result_json a \<noteq> None) \<and>
     (ra_result_device a \<noteq> None \<longrightarrow> ra_result_device a = Some (ra_target a) \<and> ra_status a \<in> {Succeeded, Failed}) \<and>
     (ra_status a = Rejected \<longrightarrow> (\<exists>u. ra_rejected_by a = Some u \<and> u \<noteq> ra_proposed_by a))"

lemma action_ok_new: "new_proposal a \<Longrightarrow> action_ok a"
  by (simp add: new_proposal_def action_ok_def)

lemma action_ok_step: "action_step a b \<Longrightarrow> action_ok a \<Longrightarrow> action_ok b"
  by (induction rule: action_step.induct) (simp_all add: action_ok_def live_status_def, (elim disjE; simp)+)

abbreviation action_key :: "action_row \<Rightarrow> string \<times> string" where
  "action_key a \<equiv> (ra_tenant a, ra_id a)"

definition device_rivals :: "action_row \<Rightarrow> action_row \<Rightarrow> bool" where
  "device_rivals a b \<longleftrightarrow> ra_tenant a = ra_tenant b \<and> ra_target a = ra_target b \<and> ra_id a \<noteq> ra_id b \<and>
     ra_target_type a = TargetDevice \<and> ra_target_type b = TargetDevice \<and>
     live_status (ra_status a) \<and> live_status (ra_status b)"

definition response_inv :: "db \<Rightarrow> bool" where
  "response_inv d \<longleftrightarrow> key_unique action_key (response_actions d) \<and> (\<forall>a \<in> set (response_actions d). action_ok a) \<and>
     (\<forall>a \<in> set (response_actions d). \<forall>b \<in> set (response_actions d). \<not> device_rivals a b)"

lemma action_step_identity:
  "action_step a b \<Longrightarrow> action_key b = action_key a \<and> ra_target b = ra_target a \<and> ra_target_type b = ra_target_type a \<and>
     ra_type b = ra_type a \<and> ra_proposed_by b = ra_proposed_by a \<and> ra_expires b = ra_expires a \<and> ra_case b = ra_case a"
  by (induction rule: action_step.induct) auto

lemma action_step_live: "action_step a b \<Longrightarrow> live_status (ra_status a)"
  by (induction rule: action_step.induct) (auto simp: live_status_def)

lemma response_inv_update:
  assumes inv: "response_inv d" and steps: "\<forall>r \<in> set (response_actions d). P r \<longrightarrow> action_step r (f r)"
  shows "response_inv (d\<lparr>response_actions := update_where P f (response_actions d)\<rparr>)"
proof -
  let ?g = "\<lambda>r. if P r then f r else r"
  have key: "action_key (?g r) = action_key r" if "r \<in> set (response_actions d)" for r
    using steps that action_step_identity by auto
  have "map action_key (update_where P f (response_actions d)) = map action_key (response_actions d)"
    unfolding update_where_def map_map o_def by (rule map_cong [OF refl]) (rule key)
  then have "key_unique action_key (update_where P f (response_actions d))"
    using inv by (simp only: key_unique_def response_inv_def)
  moreover have "action_ok (?g r)" if "r \<in> set (response_actions d)" for r
    using inv steps that action_ok_step by (auto simp: response_inv_def)
  moreover have "\<not> device_rivals (?g r) (?g s)" if r: "r \<in> set (response_actions d)" and s: "s \<in> set (response_actions d)" for r s
  proof
    assume "device_rivals (?g r) (?g s)"
    moreover have "action_key (?g x) = action_key x \<and> ra_target (?g x) = ra_target x \<and> ra_target_type (?g x) = ra_target_type x \<and>
        (live_status (ra_status (?g x)) \<longrightarrow> live_status (ra_status x))" if "x \<in> set (response_actions d)" for x
      using steps that action_step_identity [of x "f x"] action_step_live [of x "f x"] by auto
    ultimately have "device_rivals r s" using r s unfolding device_rivals_def by (metis prod.inject)
    with inv r s show False by (simp add: response_inv_def)
  qed
  ultimately show ?thesis by (simp add: response_inv_def set_update_where del: if_image_distrib)
qed

lemma response_inv_insert:
  assumes "response_inv d" "new_proposal a" "\<not> idx_response_one_live_device d a"
    and "\<not> row_exists (\<lambda>x. ra_tenant x = ra_tenant a \<and> ra_id x = ra_id a) (response_actions d)"
  shows "response_inv (d\<lparr>response_actions := response_actions d @ [a]\<rparr>)"
  using assms
  by (auto simp: response_inv_def action_ok_new idx_response_one_live_device_def device_rivals_def row_exists_iff
      new_proposal_def)

lemma response_inv_frame: "response_actions d' = response_actions d \<Longrightarrow> response_inv d' = response_inv d"
  by (simp add: response_inv_def)

section \<open>Properties closed under the lifecycle\<close>

text \<open>
  The interface between the service and a claim about its table: a property of the tables that
  survives the steps of the lifecycle, the insertion of a new proposal for a free device, and any change
  of other tables. Every operation of the service keeps such a property, because each of its UPDATE
  statements is one kind of step.
\<close>

lemma lapsed_step: "live_status (ra_status r) \<Longrightarrow> action_step r (r\<lparr>ra_status := Expired, ra_completed := Some t\<rparr>)"
  by (rule action_step.lapsed)

lemma finished_step:
  assumes "ra_status r = Dispatched" "ra_target r = dev" "t < ra_expires r" "status \<in> {Succeeded, Failed}"
  shows "action_step r (r\<lparr>ra_status := status, ra_result_json := Some text, ra_result_device := Some dev,
    ra_completed := Some t\<rparr>)"
  using action_step.finished [OF assms(1,4,3)] assms(2) by simp

lemma retried_step:
  assumes "ra_status r = Dispatched" "ra_dispatch_count r = n" "\<not> count_guard d r (r\<lparr>ra_dispatch_count := n + 1\<rparr>)"
  shows "action_step r (r\<lparr>ra_dispatch_count := n + 1\<rparr>)"
  using action_step.retried [OF assms(1)] assms(2,3) by (simp add: count_guard_def dispatch_count_check_def)

lemmas action_step_intros = action_step.approved action_step.rejected action_step.dispatched
  lapsed_step finished_step retried_step

lemma result_status_final: "result_status s = Some status \<Longrightarrow> status \<in> {Succeeded, Failed}"
  by (simp add: result_status_def split: if_splits)

locale action_property =
  fixes I :: "db \<Rightarrow> bool"
  assumes step: "I d \<Longrightarrow> (\<forall>r \<in> set (response_actions d). P r \<longrightarrow> action_step r (f r)) \<Longrightarrow>
      I (d\<lparr>response_actions := update_where P f (response_actions d)\<rparr>)"
    and proposal: "I d \<Longrightarrow> new_proposal a \<Longrightarrow> \<not> idx_response_one_live_device d a \<Longrightarrow>
      \<not> row_exists (\<lambda>x. ra_tenant x = ra_tenant a \<and> ra_id x = ra_id a) (response_actions d) \<Longrightarrow>
      I (d\<lparr>response_actions := response_actions d @ [a]\<rparr>)"
    and frame: "I d \<Longrightarrow> response_actions d' = response_actions d \<Longrightarrow> I d'"
begin

lemma commits_append: "commits I (audit_append E tenant action actor_type actor_id resource_type resource_id payload now)"
  by (rule keeps_commits, rule auditing.keeps_append) (erule frame, simp)

lemma commits_expire_one: "commits I (expire_one E row now reason)"
  unfolding expire_one_def
  by (intro commits_rules commits_append step) (auto intro!: action_step_intros)

lemma commits_expiries:
  "commits I (expire_due E tenant now device)" "commits I (expire_closed_case_actions E tenant now device)"
  unfolding expire_due_def expire_closed_case_actions_def
  by (intro commits_rules commits_expire_one)+

lemma commits_require_action: "commits I (require_action tenant aid)"
  unfolding require_action_def by (intro commits_rules)

lemma keeps_stored_result: "keeps I (stored_result v)"
  by (auto simp: stored_result_def invalid_result_def intro!: keeps_rules split: option.splits json.splits)

lemma keeps_action_of: "keeps I (action_of r)"
  unfolding action_of_def check_action_type_def by (intro keeps_rules keeps_stored_result)

lemma keeps_get_action: "keeps I (get_action p aid)"
  unfolding get_action_def by (intro keeps_rules keeps_action_of)

lemma commits_propose: "commits I (propose_transaction E p cid ty dev why aid (datetime_add now (seconds n)) now)"
  if "ty \<in> action_types" "60 \<le> n"
proof (cases now)
  case (Aware t)
  show ?thesis
    unfolding propose_transaction_def insert_action_def datetime_add_def Aware datetime.case utc_text_def bind_ret
    using that
    by (intro commits_rules commits_append commits_expiries proposal)
      (auto simp: new_proposal_def seconds_def)
qed (simp add: propose_transaction_def commits_def require_current_capability_def andthen_def bind_def utc_text_def
    raise_def split: sum.splits prod.splits)

lemma commits_reviews:
  "commits I (approve_transaction E p aid now)" "commits I (reject_transaction E p aid why now)"
  unfolding approve_transaction_def reject_transaction_def approve_checked_def reject_checked_def
  by (intro commits_rules commits_append commits_expire_one commits_require_action step;
      auto intro!: action_step_intros)+

lemma commits_dispatch_update: "commits I (dispatch_update dev row t)"
  unfolding dispatch_update_def
  by (intro commits_rules step; auto intro!: action_step_intros)

lemma commits_dispatch_one: "commits I (dispatch_one E dev now row)"
  unfolding dispatch_one_def agent_action_of_def check_action_type_def
  by (intro commits_rules commits_append commits_dispatch_update)

lemma commits_poll: "commits I (poll_transaction E dev now)"
  unfolding poll_transaction_def by (intro commits_rules commits_expiries commits_dispatch_one)

lemma commits_result:
  "status \<in> {Succeeded, Failed} \<Longrightarrow> commits I (result_transaction E dev aid status summary evidence now)"
  unfolding result_transaction_def Let_def
  by (intro commits_rules commits_append commits_expire_one commits_require_action step;
      auto intro!: action_step_intros)

lemma keeps_authenticate: "keeps I (authenticate E R now)"
  by (rule wp_keepsI, rule wp_mono [OF authenticate_frame]) (auto intro: frame simp: consume_request_def)

lemma keeps_response:
  "keeps I (propose E p cid ty dev why now n)"
  "keeps I (approve E p aid now)"
  "keeps I (reject E p aid reason now)"
  "keeps I (list_actions E p now limit)"
  "keeps I (poll_device E R device_id now)"
  "keeps I (submit_device_result E R aid status summary evidence now)"
proof -
  show "keeps I (propose E p cid ty dev why now n)"
    unfolding propose_def Let_def
    by (rule keeps_andthen [OF keeps_require_capability(1)])
      (intro keeps_guard keeps_bind keeps_fresh keeps_andthen keeps_atomically commits_propose keeps_get_action; simp)
  show "keeps I (approve E p aid now)" "keeps I (reject E p aid reason now)"
    unfolding approve_def reject_def Let_def
    by (intro keeps_rules commits_reviews keeps_get_action)+
  show "keeps I (list_actions E p now limit)"
    unfolding list_actions_def by (intro keeps_rules commits_rules commits_expiries keeps_action_of)
  show "keeps I (poll_device E R device_id now)"
    unfolding poll_device_def by (intro keeps_rules keeps_authenticate commits_poll)
  show "keeps I (submit_device_result E R aid status summary evidence now)"
    unfolding submit_device_result_def
    by (intro keeps_rules keeps_authenticate commits_result) (rule result_status_final)
qed

end

interpretation ledger: action_property response_inv
  by (rule action_property.intro) (blast intro: response_inv_update, blast intro: response_inv_insert,
      simp add: response_inv_def)

interpretation history: action_property "\<lambda>d. evolves rows0 (response_actions d)" for rows0
  by (rule action_property.intro) (simp_all add: evolves_update evolves_insert)

section \<open>Calls and sequences of calls\<close>

datatype response_call =
    CallPropose principal string string string string int
  | CallApprove principal string
  | CallReject principal string string
  | CallList principal int
  | CallPoll collector_request string
  | CallResult collector_request string string string "string list"

definition run_response :: "env \<Rightarrow> response_call \<Rightarrow> datetime \<Rightarrow> unit prog" where
  "run_response E call now = (case call of
     CallPropose p cid ty dev why n \<Rightarrow> andthen (propose E p cid ty dev why now n) (ret ())
   | CallApprove p aid \<Rightarrow> andthen (approve E p aid now) (ret ())
   | CallReject p aid reason \<Rightarrow> andthen (reject E p aid reason now) (ret ())
   | CallList p limit \<Rightarrow> andthen (list_actions E p now limit) (ret ())
   | CallPoll R dev \<Rightarrow> andthen (poll_device E R dev now) (ret ())
   | CallResult R aid status summary evidence \<Rightarrow>
       andthen (submit_device_result E R aid status summary evidence now) (ret ()))"

primrec run_responses :: "env \<Rightarrow> (response_call \<times> datetime) list \<Rightarrow> world \<Rightarrow> world" where
  "run_responses E [] w = w"
| "run_responses E (c # cs) w = run_responses E cs (after (run_response E (fst c) (snd c)) w)"

context action_property
begin

lemma keeps_run: "keeps I (run_response E call now)"
  unfolding run_response_def by (cases call) (auto intro!: keeps_rules keeps_response)

lemma run_kept: "I (tables w) \<Longrightarrow> I (tables (run_responses E calls w))"
proof (induction calls arbitrary: w)
  case (Cons c calls)
  have "I (tables (after (run_response E (fst c) (snd c)) w))"
    using keeps_run [of E "fst c" "snd c"] Cons.prems by (simp add: keeps_def after_def)
  with Cons.IH show ?case by simp
qed simp

end

lemma keeps_audit_stored_result: "keeps J (action_of r)" "keeps J (get_action p aid)"
  by (auto simp: get_action_def action_of_def check_action_type_def stored_result_def invalid_result_def
      intro!: keeps_rules split: option.splits json.splits)

lemma json_ok_texts [simp]: "json_ok (JList (map JStr xs))"
  by (induction xs) auto

lemma keeps_audit_authenticate: "keeps (audit_inv E) (authenticate E R now)"
  by (rule wp_keepsI, rule wp_mono [OF authenticate_frame]) (auto simp: consume_request_def)

lemma commits_audit_expiries:
  "commits (audit_inv E) (expire_one E row now reason)"
  "commits (audit_inv E) (expire_due E tenant now device)"
  "commits (audit_inv E) (expire_closed_case_actions E tenant now device)"
  unfolding expire_due_def expire_closed_case_actions_def expire_one_def
  by (intro commits_rules commits_audit_append; simp)+

lemma keeps_audit_responses: "keeps (audit_inv E) (run_response E call now)"
proof -
  have transactions: "commits (audit_inv E) (propose_transaction E p cid ty dev why aid expires now)"
    "commits (audit_inv E) (approve_transaction E p aid now)"
    "commits (audit_inv E) (reject_transaction E p aid why now)"
    "commits (audit_inv E) (dispatch_one E device now row)"
    "commits (audit_inv E) (result_transaction E device aid status summary evidence now)"
    for p cid ty dev why aid expires device row status summary evidence
    unfolding propose_transaction_def approve_transaction_def reject_transaction_def approve_checked_def reject_checked_def dispatch_one_def dispatch_update_def
      result_transaction_def insert_action_def agent_action_of_def check_action_type_def require_action_def Let_def
    by (intro commits_rules commits_audit_append commits_audit_expiries; simp)+
  show ?thesis
    unfolding run_response_def propose_def approve_def reject_def list_actions_def poll_device_def poll_transaction_def
      submit_device_result_def Let_def
    by (cases call; simp only: response_call.case;
        intro keeps_rules commits_rules transactions commits_audit_expiries keeps_audit_stored_result keeps_audit_authenticate)
qed

text \<open>
  C6. The response service implements the lifecycle: whatever sequence of calls is made, by whomever
  and with whatever outcome, the table of actions afterwards is the table before with each action moved
  along steps of \<open>action_step\<close>, followed by new actions that started as proposals against a device
  and moved along the same steps. In particular no action is ever removed, reordered or rewritten.
\<close>

theorem response_history:
  "evolves (response_actions (tables w)) (response_actions (tables (run_responses E calls w)))"
  by (rule history.run_kept) (rule evolves_refl)

text \<open>
  C7. The table keeps its invariant along every sequence of calls: action keys are unique; at most one
  live action per device; dispatch counts stay between zero and five; every action that is approved,
  dispatched or finished carries the approval of a human other than its proposer, given before its
  deadline; a result is present exactly on finished actions and comes from the target device.
\<close>

theorem response_inv_kept:
  assumes "response_inv (tables w)"
  shows "response_inv (tables (run_responses E calls w))"
  using assms by (rule ledger.run_kept)

lemma sample_response_inv: "response_inv sample_db"
  by (simp add: response_inv_def sample_db_def empty_db_def)

theorem response_inv_kept_witness:
  "response_inv (tables (run_responses sample_env
     [(CallPropose (sample_principal ''s2'' ''rsp'' Responder) ''c1'' ''isolate_endpoint'' ''dev1'' ''why'' 60, Aware 9)]
     (world_at sample_db)))"
  by (rule response_inv_kept) (simp add: sample_response_inv)

section \<open>Finished actions\<close>

lemma terminal_steps:
  assumes "action_steps a b" "\<not> live_status (ra_status a)"
  shows "b = a"
  using assms by (induction rule: converse_rtranclp_induct) (auto dest: action_step_live)

lemma steps_identity: "action_steps a b \<Longrightarrow> action_key b = action_key a"
  by (induction rule: rtranclp_induct) (auto dest: action_step_identity)

lemma find_steps:
  assumes "list_all2 action_steps rows olds" "List.find (\<lambda>r. ra_tenant r = tenant \<and> ra_id r = aid) rows = Some a"
  shows "\<exists>b. List.find (\<lambda>r. ra_tenant r = tenant \<and> ra_id r = aid) (olds @ news) = Some b \<and> action_steps a b"
  using assms
proof (induction rule: list_all2_induct)
  case (Cons x xs y ys)
  have "ra_tenant y = ra_tenant x" "ra_id y = ra_id x" using steps_identity [OF Cons(1)] by auto
  with Cons show ?case by auto
qed simp

lemma evolves_at:
  assumes "evolves (response_actions d) (response_actions d')" "action_at tenant aid d = Some a"
  shows "\<exists>b. action_at tenant aid d' = Some b \<and> action_steps a b"
proof -
  obtain olds news where "response_actions d' = olds @ news" "list_all2 action_steps (response_actions d) olds"
    using assms(1) by (auto simp: evolves_def)
  with find_steps [of "response_actions d" olds tenant aid a news] assms(2) show ?thesis
    by (simp add: action_at_def)
qed

text \<open>
  An action that was rejected, has a result or has expired is final: after any further calls it is
  still there, unchanged in every field.
\<close>

theorem terminal_action_final:
  assumes "action_at tenant aid (tables w) = Some a" "\<not> live_status (ra_status a)"
  shows "action_at tenant aid (tables (run_responses E calls w)) = Some a"
proof -
  obtain b where "action_at tenant aid (tables (run_responses E calls w)) = Some b" "action_steps a b"
    using evolves_at [OF history.run_kept [OF evolves_refl] assms(1)] by blast
  with terminal_steps [OF this(2) assms(2)] show ?thesis by simp
qed

definition sample_action :: "action_status \<Rightarrow> action_row" where
  "sample_action st = \<lparr>ra_tenant = ''t1'', ra_id = ''a1'', ra_case = ''c1'', ra_type = ''isolate_endpoint'',
     ra_target_type = TargetDevice, ra_target = ''dev1'', ra_rationale = ''why'', ra_risk = RiskActive,
     ra_status = st, ra_proposed_by = ''rsp'', ra_proposed_at = 0,
     ra_approved_by = (if st \<in> {Proposed, Rejected} then None else Some ''adm''),
     ra_approved_at = (if st \<in> {Proposed, Rejected} then None else Some 1), ra_expires = 900000000,
     ra_result_json = None, ra_completed = None, ra_rejected_by = (if st = Rejected then Some ''adm'' else None),
     ra_rejected_at = (if st = Rejected then Some 1 else None),
     ra_rejection_reason = (if st = Rejected then Some ''no'' else None),
     ra_dispatch_count = (if st = Dispatched then 1 else 0),
     ra_dispatched = (if st = Dispatched then Some 2 else None), ra_result_device = None\<rparr>"

definition response_db :: "action_status \<Rightarrow> db" where
  "response_db st = device_db\<lparr>cases := [sample_case], response_actions := [sample_action st]\<rparr>"

theorem terminal_action_final_witness:
  "action_at ''t1'' ''a1'' (tables (run_responses sample_env
     [(CallApprove (sample_principal ''s1'' ''adm'' Admin) ''a1'', Aware 9), (CallPoll sample_request ''dev1'', Aware 10)]
     (world_at (response_db Rejected)))) = Some (sample_action Rejected)"
proof (rule terminal_action_final)
  show "action_at ''t1'' ''a1'' (tables (world_at (response_db Rejected))) = Some (sample_action Rejected)"
    by (simp add: action_at_def response_db_def sample_action_def)
  show "\<not> live_status (ra_status (sample_action Rejected))" by (simp add: live_status_def sample_action_def)
qed

section \<open>Approval\<close>

definition only_response_tables :: "db \<Rightarrow> db \<Rightarrow> bool" where
  "only_response_tables d d' \<longleftrightarrow> d' = d\<lparr>response_actions := response_actions d',
     audit_log := audit_log d', audit_sequence := audit_sequence d', audit_checkpoints := audit_checkpoints d'\<rparr>"

definition expires_row :: "string \<Rightarrow> string \<Rightarrow> instant \<Rightarrow> db \<Rightarrow> db \<Rightarrow> bool" where
  "expires_row tenant aid t d d' \<longleftrightarrow> only_response_tables d d' \<and>
     response_actions d' = update_where (\<lambda>r. ra_tenant r = tenant \<and> ra_id r = aid \<and> live_status (ra_status r))
       (\<lambda>r. r\<lparr>ra_status := Expired, ra_completed := Some t\<rparr>) (response_actions d)"

lemma expire_one_wp:
  "wp (expire_one E row now reason)
     (\<lambda>_ w'. \<exists>t. now = Aware t \<and> expires_row (ra_tenant row) (ra_id row) t (tables w) (tables w'))
     (\<lambda>_ _. True) w"
  unfolding expire_one_def
  by (cases now)
    (auto simp: wp_rules expires_row_def only_response_tables_def with_audit_def intro!: auditing.wp_append)

lemma wp_require_action [wp_rules]:
  "wp (require_action tenant aid) Q Er w = (case action_at tenant aid (tables w) of
     None \<Rightarrow> Er (ResponseNotFoundError, ''response action is unavailable'') w | Some a \<Rightarrow> Q a w)"
  by (simp add: require_action_def wp_rules split: option.splits)

lemma action_atD:
  "action_at tenant aid d = Some a \<Longrightarrow> a \<in> set (response_actions d) \<and> ra_tenant a = tenant \<and> ra_id a = aid"
  unfolding action_at_def by (drule find_SomeD) simp

definition approves :: "principal \<Rightarrow> string \<Rightarrow> instant \<Rightarrow> db \<Rightarrow> action_row \<Rightarrow> bool" where
  "approves p aid t d a \<longleftrightarrow> authority p Approve_Response t d \<and> action_at (pr_tenant p) aid d = Some a \<and>
     ra_proposed_by a \<noteq> pr_user p \<and> ra_status a = Proposed \<and> t < ra_expires a \<and> \<not> case_is_closed a d"

definition lapsed_review :: "principal \<Rightarrow> string \<Rightarrow> instant \<Rightarrow> db \<Rightarrow> action_row \<Rightarrow> bool" where
  "lapsed_review p aid t d a \<longleftrightarrow> authority p Approve_Response t d \<and> action_at (pr_tenant p) aid d = Some a \<and>
     ra_proposed_by a \<noteq> pr_user p \<and> (case_is_closed a d \<or> ra_expires a \<le> t)"

definition approve_outcome :: "principal \<Rightarrow> string \<Rightarrow> datetime \<Rightarrow> db \<Rightarrow> bool \<Rightarrow> db \<Rightarrow> bool" where
  "approve_outcome p aid now d expired d' \<longleftrightarrow> (\<exists>t a. now = Aware t \<and>
     (if expired then lapsed_review p aid t d a \<and> expires_row (pr_tenant p) aid t d d'
      else approves p aid t d a \<and> only_response_tables d d' \<and>
        response_actions d' = update_where (\<lambda>r. ra_tenant r = pr_tenant p \<and> ra_id r = aid \<and>
            ra_status r = Proposed \<and> ra_proposed_by r \<noteq> pr_user p \<and> t < ra_expires r)
          (\<lambda>r. r\<lparr>ra_status := Approved, ra_approved_by := Some (pr_user p), ra_approved_at := Some t\<rparr>)
          (response_actions d)))"

lemma approve_lapse:
  assumes "lapsed_review p aid t (tables w) a" "now = Aware t"
  shows "wp (expire_one E a now reason) (\<lambda>_. wp (ret True) (\<lambda>x w'. approve_outcome p aid now (tables w) x (tables w'))
    (\<lambda>_ _. True)) (\<lambda>_ _. True) w"
  by (rule wp_mono [OF expire_one_wp])
    (use assms action_atD [of "pr_tenant p" aid "tables w" a] in \<open>auto simp: wp_rules lapsed_review_def approve_outcome_def\<close>)

lemma approve_checked_wp:
  assumes "authority p Approve_Response t (tables w)" "now = Aware t"
  shows "wp (approve_checked E p aid now) (\<lambda>x w'. approve_outcome p aid now (tables w) x (tables w')) (\<lambda>_ _. True) w"
proof (cases "action_at (pr_tenant p) aid (tables w)")
  case (Some a)
  show ?thesis
  proof (cases "ra_proposed_by a = pr_user p")
    case False
    then have lapse: "lapsed_review p aid t (tables w) a" if "case_is_closed a (tables w) \<or> ra_expires a \<le> t"
      using that assms Some by (simp add: lapsed_review_def)
    show ?thesis
      unfolding approve_checked_def
      using assms Some False lapse
      by (auto simp: wp_rules intro!: approve_lapse auditing.wp_append)
        (auto simp: approve_outcome_def approves_def only_response_tables_def with_audit_def)
  qed (simp add: approve_checked_def wp_rules Some)
qed (simp add: approve_checked_def wp_rules)

lemma approve_transaction_wp:
  "wp (approve_transaction E p aid now) (\<lambda>x w'. approve_outcome p aid now (tables w) x (tables w')) (\<lambda>_ _. True) w"
  unfolding approve_transaction_def wp_andthen
  by (rule wp_require_current) (simp_all add: approve_checked_wp)

interpretation action_approve: keyed_update action_key
    "\<lambda>r. r\<lparr>ra_status := Approved, ra_approved_by := Some u, ra_approved_at := Some t\<rparr>" for u t
  by unfold_locales simp

lemma find_key_action:
  "List.find (\<lambda>r. ra_tenant r = tenant \<and> ra_id r = aid) rows = List.find (\<lambda>r. action_key r = (tenant, aid)) rows"
  by (rule arg_cong [where f = "\<lambda>P. List.find P rows"]) auto

lemma approved_at:
  assumes "approve_outcome p aid now d False d'"
  shows "\<exists>t a. now = Aware t \<and> approves p aid t d a \<and>
    action_at (pr_tenant p) aid d' =
      Some (a\<lparr>ra_status := Approved, ra_approved_by := Some (pr_user p), ra_approved_at := Some t\<rparr>) \<and>
    (\<forall>tenant i. (tenant, i) \<noteq> (pr_tenant p, aid) \<longrightarrow> action_at tenant i d' = action_at tenant i d)"
proof -
  obtain t a where o: "now = Aware t" "approves p aid t d a"
    and rows: "response_actions d' = update_where (\<lambda>r. ra_tenant r = pr_tenant p \<and> ra_id r = aid \<and>
            ra_status r = Proposed \<and> ra_proposed_by r \<noteq> pr_user p \<and> t < ra_expires r)
          (\<lambda>r. r\<lparr>ra_status := Approved, ra_approved_by := Some (pr_user p), ra_approved_at := Some t\<rparr>)
          (response_actions d)"
    using assms by (auto simp: approve_outcome_def)
  have a: "action_at (pr_tenant p) aid d = Some a" using o(2) by (simp add: approves_def)
  have "action_at (pr_tenant p) aid d' =
      Some (a\<lparr>ra_status := Approved, ra_approved_by := Some (pr_user p), ra_approved_at := Some t\<rparr>)"
    using a o(2) action_atD [OF a]
    unfolding action_at_def rows find_key_action action_approve.upd_find by (simp add: approves_def)
  moreover have "action_at tenant i d' = action_at tenant i d" if "(tenant, i) \<noteq> (pr_tenant p, aid)" for tenant i
    unfolding action_at_def rows find_key_action by (rule action_approve.upd_find_other) (use that in auto)
  ultimately show ?thesis using o by blast
qed

lemma get_action_total:
  assumes "action_at (pr_tenant p) aid (tables w) = Some a" "View \<in> role_capabilities (pr_role p)"
    and "ra_type a \<in> action_types" "ra_result_json a = None"
  shows "wp (get_action p aid) (\<lambda>rv v. v = w \<and> rv_status rv = ra_status a \<and> rv_approved_by rv = ra_approved_by a)
    (\<lambda>_ _. False) w"
  using assms by (simp add: get_action_def action_of_def check_action_type_def stored_result_def wp_rules)

lemma approve_caps: "Approve_Response \<in> role_capabilities r \<Longrightarrow> View \<in> role_capabilities r"
  by (cases r) auto

lemma approved_read:
  assumes inv: "response_inv d" and a: "approves p aid t d a"
    and now: "action_at (pr_tenant p) aid (tables w) =
      Some (a\<lparr>ra_status := Approved, ra_approved_by := Some (pr_user p), ra_approved_at := Some t\<rparr>)"
  shows "wp (get_action p aid) (\<lambda>rv v. v = w \<and> rv_status rv = Approved \<and> rv_approved_by rv = Some (pr_user p))
    (\<lambda>_ _. False) w"
proof -
  have "action_ok a" using inv a action_atD by (auto simp: response_inv_def approves_def)
  moreover have "View \<in> role_capabilities (pr_role p)" using a by (auto simp: approves_def authority_def approve_caps)
  ultimately show ?thesis
    using get_action_total [OF now] a by (auto simp: action_ok_def approves_def)
qed



section \<open>What a polling device receives\<close>

definition delivered :: "authenticated_device \<Rightarrow> instant \<Rightarrow> db \<Rightarrow> agent_action \<Rightarrow> bool" where
  "delivered dev t d ga \<longleftrightarrow> (\<exists>a \<in> set (response_actions d). action_key a = (ad_tenant dev, ga_id ga) \<and>
     ra_status a = Dispatched \<and> ra_target a = ad_device dev \<and> t < ra_expires a \<and>
     ga_target ga = ad_device dev \<and> ga_type ga = ra_type a \<and> ga_expires ga = ra_expires a)"

lemma delivered_audit [simp]: "delivered dev t (with_audit l n c d) ga = delivered dev t d ga"
  by (simp add: delivered_def)

definition same_target :: "action_row \<Rightarrow> action_row \<Rightarrow> bool" where
  "same_target a b \<longleftrightarrow> action_key a = action_key b \<and> ra_target a = ra_target b \<and> ra_type a = ra_type b \<and>
     ra_expires a = ra_expires b"

lemma steps_same_target: "action_steps a b \<Longrightarrow> same_target a b"
  by (induction rule: rtranclp_induct) (auto simp: same_target_def dest: action_step_identity)

lemma evolves_row:
  assumes "evolves rows rows'" "a \<in> set rows"
  shows "\<exists>b \<in> set rows'. same_target a b"
proof -
  obtain olds news where "rows' = olds @ news" "list_all2 action_steps rows olds"
    using assms(1) by (auto simp: evolves_def)
  moreover obtain i where "i < length rows" "rows ! i = a" using assms(2) by (auto simp: in_set_conv_nth)
  with calculation(2) have "olds ! i \<in> set olds" "action_steps a (olds ! i)" by (auto simp: list_all2_conv_all_nth)
  ultimately show ?thesis using steps_same_target by auto
qed

lemma update_actions_wp:
  assumes "\<forall>r. P r \<longrightarrow> C r (f r)"
  shows "wp (update_rows response_actions response_actions_update g P f)
     (\<lambda>n w'. \<exists>P f. n = row_count P (response_actions (tables w)) \<and> (\<forall>r. P r \<longrightarrow> C r (f r)) \<and>
        tables w' = (tables w)\<lparr>response_actions := update_where P f (response_actions (tables w))\<rparr>)
     (\<lambda>_ _. True) w"
  unfolding wp_update_rows using assms by (intro conjI impI TrueI exI [of _ P] exI [of _ f]) simp_all

lemma dispatch_update_rows:
  "wp (dispatch_update dev row t)
     (\<lambda>n w'. \<exists>P f. n = row_count P (response_actions (tables w)) \<and>
        (\<forall>r. P r \<longrightarrow> ra_tenant r = ad_tenant dev \<and> ra_id r = ra_id row \<and> t < ra_expires r \<and> same_target r (f r) \<and>
           ra_status (f r) = Dispatched) \<and>
        tables w' = (tables w)\<lparr>response_actions := update_where P f (response_actions (tables w))\<rparr>)
     (\<lambda>_ _. True) w"
  unfolding dispatch_update_def
  by (cases "ra_status row = Approved"; simp only: if_True if_False simp_thms;
      rule update_actions_wp [where C = "\<lambda>r s. ra_tenant r = ad_tenant dev \<and> ra_id r = ra_id row \<and> t < ra_expires r \<and>
        same_target r s \<and> ra_status s = Dispatched"])
    (simp_all add: same_target_def)

lemma delivered_update:
  assumes rows: "response_actions d' = update_where P f (response_actions d)"
    and f: "\<forall>r. P r \<longrightarrow> ra_tenant r = tn \<and> ra_id r = i \<and> t < ra_expires r \<and> same_target r (f r) \<and> ra_status (f r) = Dispatched"
    and old: "delivered dev t d ga"
  shows "delivered dev t d' ga"
proof -
  obtain a where a: "a \<in> set (response_actions d)" "action_key a = (ad_tenant dev, ga_id ga)"
      "ra_status a = Dispatched" "ra_target a = ad_device dev" "t < ra_expires a"
      "ga_target ga = ad_device dev" "ga_type ga = ra_type a" "ga_expires ga = ra_expires a"
    using old by (auto simp: delivered_def)
  let ?b = "if P a then f a else a"
  have "?b \<in> set (response_actions d')" using a(1) by (auto simp: rows set_update_where)
  moreover have "same_target a ?b" "ra_status ?b = Dispatched" using f a(3) by (auto simp: same_target_def)
  ultimately show ?thesis using a unfolding delivered_def same_target_def by (intro bexI [of _ ?b]) auto
qed

lemma delivered_new:
  assumes rows: "response_actions d' = update_where P f (response_actions d)" and one: "row_count P (response_actions d) = 1"
    and f: "\<forall>r. P r \<longrightarrow> ra_tenant r = ad_tenant dev \<and> ra_id r = ra_id row \<and> t < ra_expires r \<and> same_target r (f r) \<and> ra_status (f r) = Dispatched"
    and inv: "key_unique action_key (response_actions d)"
    and b: "b \<in> set (response_actions d)" "same_target row b" "ra_tenant row = ad_tenant dev" "ra_target row = ad_device dev"
    and ga: "ga_id ga = ra_id row" "ga_target ga = ra_target row" "ga_type ga = ra_type row" "ga_expires ga = ra_expires row"
  shows "delivered dev t d' ga"
proof -
  obtain r where r: "r \<in> set (response_actions d)" "P r"
    using one row_count_0_iff [of P "response_actions d"] by auto
  then have "action_key r = action_key b" using f b(2,3) by (auto simp: same_target_def)
  then have "r = b" using key_unique_eq [OF inv r(1) b(1)] by blast
  then have "f r \<in> set (response_actions d')" "same_target row (f r)" "t < ra_expires (f r)" "ra_status (f r) = Dispatched"
    using r f b(2) by (auto simp: rows set_update_where same_target_def)
  then show ?thesis using b(3,4) ga unfolding delivered_def same_target_def by (intro bexI [of _ "f r"]) auto
qed

definition poll_state :: "action_row list \<Rightarrow> db \<Rightarrow> bool" where
  "poll_state rows0 d \<longleftrightarrow> response_inv d \<and> evolves rows0 (response_actions d)"

lemma dispatch_one_wp:
  assumes st: "poll_state rows0 (tables w)" and row: "row \<in> set rows0" "ra_tenant row = ad_tenant dev" "ra_target row = ad_device dev"
  shows "wp (dispatch_one E dev (Aware t) row)
     (\<lambda>ga w'. poll_state rows0 (tables w') \<and> (ga_id ga = ra_id row \<and> delivered dev t (tables w') ga) \<and>
        (\<forall>z ga. ga_id ga = ra_id z \<and> delivered dev t (tables w) ga \<longrightarrow> ga_id ga = ra_id z \<and> delivered dev t (tables w') ga))
     (\<lambda>_ _. True) w"
proof -
  obtain b where b: "b \<in> set (response_actions (tables w))" "same_target row b"
    using evolves_row [of rows0] st row(1) by (auto simp: poll_state_def)
  have inv: "key_unique action_key (response_actions (tables w))" using st by (simp add: poll_state_def response_inv_def)
  have "wp (dispatch_one E dev (Aware t) row) (\<lambda>_ w'. poll_state rows0 (tables w')) (\<lambda>_ _. True) w"
    using commitsD [OF ledger.commits_dispatch_one, of w E dev "Aware t" row]
      commitsD [OF history.commits_dispatch_one, of rows0 w E dev "Aware t" row] st
    by (simp add: poll_state_def wp_def split: prod.splits sum.splits)
  moreover have "wp (dispatch_one E dev (Aware t) row)
     (\<lambda>ga w'. ga_id ga = ra_id row \<and> delivered dev t (tables w') ga \<and>
        (\<forall>ga. delivered dev t (tables w) ga \<longrightarrow> delivered dev t (tables w') ga)) (\<lambda>_ _. True) w"
    unfolding dispatch_one_def agent_action_of_def check_action_type_def utc_text_def datetime.case bind_ret wp_bind
    apply (rule wp_mono [OF dispatch_update_rows])
     apply (clarsimp simp only: wp_andthen wp_raise_if if_split_asm)
     apply (intro conjI impI TrueI)
     apply (rule auditing.wp_append)
      apply (simp only: wp_rules)
      apply (intro conjI allI impI TrueI)
        apply simp
       apply (rule delivered_new [OF _ _ _ inv b row(2,3)])
            apply (simp_all add: wp_rules)
     apply (rule delivered_update, simp)
      apply assumption+
    done
  ultimately show ?thesis by (auto simp: wp_def split: prod.splits sum.splits)
qed

text \<open>An action that is neither due nor in a closed case survives the expiries of a poll.\<close>

definition holds_action :: "case_row list \<Rightarrow> action_row \<Rightarrow> db \<Rightarrow> bool" where
  "holds_action cs a d \<longleftrightarrow> response_inv d \<and> a \<in> set (response_actions d) \<and> cases d = cs"

lemma only_response_cases: "only_response_tables d d' \<Longrightarrow> cases d' = cases d"
  unfolding only_response_tables_def by (drule arg_cong [where f = cases]) simp

lemma expire_other:
  assumes "action_key row \<noteq> action_key a"
  shows "commits (holds_action cs a) (expire_one E row now reason)"
proof (rule commitsI)
  fix w :: world assume h: "holds_action cs a (tables w)"
  have inv: "wp (expire_one E row now reason) (\<lambda>_ w'. response_inv (tables w')) (\<lambda>_ _. True) w"
    using commitsD [OF ledger.commits_expire_one] h by (simp add: holds_action_def)
  have rows: "wp (expire_one E row now reason) (\<lambda>_ w'. a \<in> set (response_actions (tables w')) \<and> cases (tables w') = cs)
      (\<lambda>_ _. True) w"
  proof (rule wp_mono [OF expire_one_wp])
    fix x :: unit and w' assume "\<exists>t. now = Aware t \<and> expires_row (ra_tenant row) (ra_id row) t (tables w) (tables w')"
    then obtain t where e: "expires_row (ra_tenant row) (ra_id row) t (tables w) (tables w')" by blast
    have "cases (tables w') = cases (tables w)"
      using e only_response_cases by (simp add: expires_row_def)
    then show "a \<in> set (response_actions (tables w')) \<and> cases (tables w') = cs"
      using e h assms by (auto simp: expires_row_def holds_action_def set_update_where image_iff)
  qed simp
  show "wp (expire_one E row now reason) (\<lambda>_ w'. holds_action cs a (tables w')) (\<lambda>_ _. True) w"
    using inv rows by (auto simp: holds_action_def wp_def split: prod.splits sum.splits)
qed

lemma holds_unique:
  "holds_action cs a d \<Longrightarrow> r \<in> set (response_actions d) \<Longrightarrow> action_key r = action_key a \<Longrightarrow> r = a"
  using key_unique_eq [of action_key "response_actions d" r a] by (simp add: holds_action_def response_inv_def)

lemma expiries_spare:
  assumes "holds_action cs a (tables w)" "t < ra_expires a"
    and "\<not> row_exists (\<lambda>c. cs_tenant c = ra_tenant a \<and> cs_id c = ra_case a \<and> cs_status c = CaseClosed) cs"
  shows "wp (expire_due E tenant (Aware t) device) (\<lambda>_ w'. holds_action cs a (tables w')) (\<lambda>_ _. True) w"
    and "wp (expire_closed_case_actions E tenant (Aware t) device) (\<lambda>_ w'. holds_action cs a (tables w')) (\<lambda>_ _. True) w"
proof -
  have other: "action_key r \<noteq> action_key a" if "r \<in> set (response_actions (tables w))" "r \<noteq> a" for r
    using holds_unique [OF assms(1) that(1)] that(2) by blast
  have cs: "cases (tables w) = cs" using assms(1) by (simp add: holds_action_def)
  show "wp (expire_due E tenant (Aware t) device) (\<lambda>_ w'. holds_action cs a (tables w')) (\<lambda>_ _. True) w"
    unfolding expire_due_def utc_text_def datetime.case bind_ret wp_bind wp_query
    by (rule commitsD [OF commits_for_each, OF expire_other [OF other]]) (use assms in auto)
  show "wp (expire_closed_case_actions E tenant (Aware t) device) (\<lambda>_ w'. holds_action cs a (tables w')) (\<lambda>_ _. True) w"
    unfolding expire_closed_case_actions_def wp_bind wp_query
    by (rule commitsD [OF commits_for_each, OF expire_other [OF other]]) (use assms cs in \<open>auto simp: case_status_is_def\<close>)
qed

lemma dispatchable_rows:
  "r \<in> set (dispatchable E dev t d) \<Longrightarrow> r \<in> set (response_actions d) \<and> ra_tenant r = ad_tenant dev \<and> ra_target r = ad_device dev"
  unfolding dispatchable_def by (auto dest!: in_set_takeD)

lemma dispatch_rows_wp:
  assumes "response_inv (tables v)"
  shows "wp (map_prog (dispatch_one E dev (Aware t)) (dispatchable E dev t (tables v)))
     (\<lambda>gas w'. response_inv (tables w') \<and> map ga_id gas = map ra_id (dispatchable E dev t (tables v)) \<and>
        (\<forall>ga \<in> set gas. delivered dev t (tables w') ga)) (\<lambda>_ _. True) v"
proof (rule wp_mono [OF wp_map_prog_collect [where J = "poll_state (response_actions (tables v))"
        and R = "\<lambda>x ga d. ga_id ga = ra_id x \<and> delivered dev t d ga"]])
  show "poll_state (response_actions (tables v)) (tables v)"
    using assms by (simp add: poll_state_def evolves_refl)
  fix gas w'
  assume h: "poll_state (response_actions (tables v)) (tables w') \<and>
      list_all2 (\<lambda>x ga. ga_id ga = ra_id x \<and> delivered dev t (tables w') ga) (dispatchable E dev t (tables v)) gas \<and>
      (\<forall>z ga. ga_id ga = ra_id z \<and> delivered dev t (tables v) ga \<longrightarrow> ga_id ga = ra_id z \<and> delivered dev t (tables w') ga)"
  then have "map ga_id gas = map ra_id (dispatchable E dev t (tables v))"
    by (auto simp: list_all2_conv_all_nth intro: nth_equalityI)
  moreover have "\<forall>ga \<in> set gas. delivered dev t (tables w') ga"
    using h by (auto simp: list_all2_conv_all_nth in_set_conv_nth)
  ultimately show "response_inv (tables w') \<and> map ga_id gas = map ra_id (dispatchable E dev t (tables v)) \<and>
      (\<forall>ga \<in> set gas. delivered dev t (tables w') ga)"
    using h by (simp add: poll_state_def)
next
  fix x and w :: world assume "x \<in> set (dispatchable E dev t (tables v))" "poll_state (response_actions (tables v)) (tables w)"
  then show "wp (dispatch_one E dev (Aware t) x) (\<lambda>y w'. poll_state (response_actions (tables v)) (tables w') \<and>
      (ga_id y = ra_id x \<and> delivered dev t (tables w') y) \<and>
      (\<forall>z y. ga_id y = ra_id z \<and> delivered dev t (tables w) y \<longrightarrow> ga_id y = ra_id z \<and> delivered dev t (tables w') y))
    (\<lambda>_ _. True) w"
    by (intro dispatch_one_wp) (auto dest: dispatchable_rows)
qed simp

lemma poll_transaction_sound:
  assumes "response_inv (tables w)"
  shows "wp (poll_transaction E dev (Aware t))
     (\<lambda>gas w'. response_inv (tables w') \<and> (\<forall>ga \<in> set gas. delivered dev t (tables w') ga)) (\<lambda>_ _. True) w"
  unfolding poll_transaction_def wp_andthen utc_text_def datetime.case bind_ret
  by (rule wp_mono [OF commitsD [OF ledger.commits_expiries(1)]], rule assms,
      rule wp_mono [OF commitsD [OF ledger.commits_expiries(2)]], assumption,
      unfold wp_bind wp_query, rule wp_mono [OF dispatch_rows_wp])
    auto

lemma singleton_by_key: "distinct (map f xs) \<Longrightarrow> \<forall>x \<in> set xs. f x = k \<Longrightarrow> length xs \<le> 1"
  by (cases xs rule: list.exhaust [of _ "length xs \<le> 1"]; cases "tl xs") auto

lemma dispatchable_complete:
  assumes h: "holds_action cs a d" and a: "ra_tenant a = ad_tenant dev" "ra_target a = ad_device dev"
    "ra_status a \<in> {Approved, Dispatched}" "t < ra_expires a" "ra_dispatch_count a < max_dispatch_attempts E"
    and c: "row_exists (\<lambda>c. cs_tenant c = ra_tenant a \<and> cs_id c = ra_case a \<and> cs_status c \<noteq> CaseClosed) cs"
  shows "a \<in> set (dispatchable E dev t d)"
proof -
  let ?F = "filter (\<lambda>r. ra_tenant r = ad_tenant dev \<and> ra_target_type r = TargetDevice \<and> ra_target r = ad_device dev \<and>
        case_status_is (\<lambda>s. s \<noteq> CaseClosed) r d \<and> ra_status r \<in> {Approved, Dispatched} \<and> t < ra_expires r \<and>
        ra_dispatch_count r < max_dispatch_attempts E) (response_actions d)"
  have inv: "response_inv d" "a \<in> set (response_actions d)" "cases d = cs" using h by (simp_all add: holds_action_def)
  have ok: "action_ok a" using inv by (simp add: response_inv_def)
  have mem: "a \<in> set ?F" using a c ok inv by (simp add: case_status_is_def action_ok_def)
  have "action_key r = action_key a" if "r \<in> set ?F" for r
  proof -
    have "\<not> device_rivals r a" using inv that by (simp add: response_inv_def)
    then show ?thesis using that a ok by (auto simp: device_rivals_def live_status_def action_ok_def)
  qed
  moreover have "distinct (map action_key ?F)"
    using inv(1) by (simp add: response_inv_def key_unique_def distinct_map_filter)
  ultimately have "length ?F \<le> 1" by (intro singleton_by_key) blast+
  then have "length (order_by (\<lambda>r. (nulls_first (ra_approved_at r), ra_id r)) ?F) \<le> 20" by simp
  then show ?thesis using mem unfolding dispatchable_def by (simp only: take_all set_order_by)
qed

lemma poll_deviceD:
  assumes "poll_device E R device_id (Aware t) w = (Inr gas, w')"
  shows "\<exists>c v. accepts E R t (tables w) c \<and> dc_device c = device_id \<and> tables v = consume_request E R t c (tables w) \<and>
    atomically (poll_transaction E \<lparr>ad_tenant = dc_tenant c, ad_device = device_id, ad_credential = rq_credential R\<rparr> (Aware t)) v
      = (Inr gas, w')"
proof -
  obtain dev v where auth: "authenticate E R (Aware t) w = (Inr dev, v)" "device_id = ad_device dev"
      "atomically (poll_transaction E dev (Aware t)) v = (Inr gas, w')"
    using assms by (auto simp: poll_device_def bind_def andthen_def raise_if_def raise_def ret_def
        split: prod.splits sum.splits if_splits)
  obtain c where "accepts E R t (tables w) c" "tables v = consume_request E R t c (tables w)"
      "dev = \<lparr>ad_tenant = dc_tenant c, ad_device = dc_device c, ad_credential = rq_credential R\<rparr>"
    using wp_Inr [OF authenticate_wp auth(1)] by blast
  with auth(2,3) show ?thesis by auto
qed

lemma accepts_join: "accepts E R t d c \<Longrightarrow> \<exists>v tn. credential_join (rq_credential R) d = Some (c, v, tn)"
  unfolding accepts_def live_credential_def by blast

lemma accepts_unique: "accepts E R t d c \<Longrightarrow> accepts E R t d c' \<Longrightarrow> c = c'"
  by (drule accepts_join, drule accepts_join) auto

lemma consumed_response: "response_actions (consume_request E R t c d) = response_actions d" "cases (consume_request E R t c d) = cases d"
  by (simp_all add: consume_request_def)

text \<open>
  C8. A device receives only what two people agreed on. Whatever a successful poll returns was dispatched
  to the device whose credential signed the request, in its network, is not past its deadline, and is
  recorded as approved by a human other than the one who proposed it.
\<close>

theorem poll_device_delivers:
  assumes inv: "response_inv (tables w)" and run: "poll_device E R device_id (Aware t) w = (Inr gas, w')"
  shows "\<exists>c. accepts E R t (tables w) c \<and> dc_device c = device_id \<and>
    (\<forall>ga \<in> set gas. \<exists>a \<in> set (response_actions (tables w')). ra_tenant a = dc_tenant c \<and> ra_id a = ga_id ga \<and>
       ra_status a = Dispatched \<and> ra_target a = device_id \<and> ga_target ga = device_id \<and> ga_type ga = ra_type a \<and>
       t < ra_expires a \<and> (\<exists>u. ra_approved_by a = Some u \<and> u \<noteq> ra_proposed_by a))"
proof -
  obtain c v where c: "accepts E R t (tables w) c" "dc_device c = device_id" "tables v = consume_request E R t c (tables w)"
    and tx: "atomically (poll_transaction E \<lparr>ad_tenant = dc_tenant c, ad_device = device_id, ad_credential = rq_credential R\<rparr> (Aware t)) v
      = (Inr gas, w')"
    using poll_deviceD [OF run] by blast
  let ?dev = "\<lparr>ad_tenant = dc_tenant c, ad_device = device_id, ad_credential = rq_credential R\<rparr>"
  have "response_inv (tables (v\<lparr>in_tx := True\<rparr>))" using inv c(3) response_inv_frame [OF consumed_response(1)] by simp
  from poll_transaction_sound [OF this, of E ?dev t] tx
  have out: "response_inv (tables w')" "\<forall>ga \<in> set gas. delivered ?dev t (tables w') ga"
    by (auto simp: atomically_commit wp_def)
  have "\<exists>a \<in> set (response_actions (tables w')). ra_tenant a = dc_tenant c \<and> ra_id a = ga_id ga \<and>
       ra_status a = Dispatched \<and> ra_target a = device_id \<and> ga_target ga = device_id \<and> ga_type ga = ra_type a \<and>
       t < ra_expires a \<and> (\<exists>u. ra_approved_by a = Some u \<and> u \<noteq> ra_proposed_by a)" if "ga \<in> set gas" for ga
  proof -
    have "delivered ?dev t (tables w') ga" using out(2) that by blast
    then obtain a where a: "a \<in> set (response_actions (tables w'))" "action_key a = (dc_tenant c, ga_id ga)" "ra_status a = Dispatched"
      "ra_target a = device_id" "t < ra_expires a" "ga_target ga = device_id" "ga_type ga = ra_type a"
      by (auto simp: delivered_def)
    moreover have "action_ok a" using out(1) a(1) by (simp add: response_inv_def)
    ultimately show ?thesis by (auto simp: action_ok_def)
  qed
  with c show ?thesis by blast
qed

text \<open>
  C19. An approved action reaches its device: if the device polls successfully while an approved action
  against it is before its deadline and its case is open, the answer contains that action.
\<close>

theorem poll_device_complete:
  assumes inv: "response_inv (tables w)" "key_unique case_key (cases (tables w))"
    and run: "poll_device E R device_id (Aware t) w = (Inr gas, w')" and attempts: "1 \<le> max_dispatch_attempts E"
    and a: "a \<in> set (response_actions (tables w))" "ra_status a = Approved" "ra_target a = device_id" "t < ra_expires a"
    and here: "accepts E R t (tables w) c" "ra_tenant a = dc_tenant c"
    and open_case: "case_at (ra_tenant a) (ra_case a) (tables w) = Some k" "cs_status k \<noteq> CaseClosed"
  shows "ra_id a \<in> ga_id ` set gas"
proof -
  obtain c' v where c': "accepts E R t (tables w) c'" "tables v = consume_request E R t c' (tables w)"
    and tx: "atomically (poll_transaction E \<lparr>ad_tenant = dc_tenant c', ad_device = device_id, ad_credential = rq_credential R\<rparr> (Aware t)) v
      = (Inr gas, w')"
    using poll_deviceD [OF run] by blast
  have "c' = c" using c'(1) here(1) by (rule accepts_unique)
  let ?dev = "\<lparr>ad_tenant = dc_tenant c, ad_device = device_id, ad_credential = rq_credential R\<rparr>"
  let ?v = "v\<lparr>in_tx := True\<rparr>" and ?cs = "cases (tables w)"
  have k: "k \<in> set ?cs" "case_key k = (ra_tenant a, ra_case a)" using case_at_SomeD [OF open_case(1)] by auto
  have open_row: "row_exists (\<lambda>c. cs_tenant c = ra_tenant a \<and> cs_id c = ra_case a \<and> cs_status c \<noteq> CaseClosed) ?cs"
    using k open_case(2) by (auto simp: row_exists_iff)
  have not_closed: "\<not> row_exists (\<lambda>c. cs_tenant c = ra_tenant a \<and> cs_id c = ra_case a \<and> cs_status c = CaseClosed) ?cs"
  proof
    assume "row_exists (\<lambda>c. cs_tenant c = ra_tenant a \<and> cs_id c = ra_case a \<and> cs_status c = CaseClosed) ?cs"
    then obtain x where x: "x \<in> set ?cs" "case_key x = case_key k" "cs_status x = CaseClosed"
      using k(2) by (auto simp: row_exists_iff)
    with key_unique_eq [OF inv(2) x(1) k(1) x(2)] open_case(2) show False by simp
  qed
  have "response_inv (tables v)"
    unfolding c'(2) response_inv_frame [OF consumed_response(1)] by (rule inv(1))
  then have start: "holds_action ?cs a (tables ?v)"
    using a(1) by (simp add: holds_action_def c'(2) consumed_response)
  have count: "ra_dispatch_count a < max_dispatch_attempts E"
    using inv(1) a(1,2) attempts by (auto simp: response_inv_def action_ok_def)
  have rows: "wp (map_prog (dispatch_one E ?dev (Aware t)) (dispatchable E ?dev t (tables u)))
      (\<lambda>gas _. ra_id a \<in> ga_id ` set gas) (\<lambda>_ _. True) u" if h: "holds_action ?cs a (tables u)" for u
  proof (rule wp_mono [OF dispatch_rows_wp])
    show "response_inv (tables u)" using h by (simp add: holds_action_def)
    have "a \<in> set (dispatchable E ?dev t (tables u))"
      using dispatchable_complete [OF h _ _ _ a(4) count open_row, of ?dev] a here(2) by simp
    then show "ra_id a \<in> ga_id ` set gas" if "response_inv (tables w') \<and> map ga_id gas = map ra_id (dispatchable E ?dev t (tables u)) \<and>
        (\<forall>ga \<in> set gas. delivered ?dev t (tables w') ga)" for gas w'
      using that by (metis image_eqI list.set_map)
  qed simp
  have "wp (poll_transaction E ?dev (Aware t)) (\<lambda>gas _. ra_id a \<in> ga_id ` set gas) (\<lambda>_ _. True) ?v"
    unfolding poll_transaction_def wp_andthen utc_text_def datetime.case bind_ret
    by (rule wp_mono [OF expiries_spare(1) [OF start a(4) not_closed]],
        rule wp_mono [OF expiries_spare(2) [OF _ a(4) not_closed]], assumption, unfold wp_bind wp_query, rule rows)
      auto
  with tx \<open>c' = c\<close> show ?thesis by (auto simp: atomically_commit wp_def)
qed

section \<open>The sample device polls\<close>

lemmas response_guard_defs = status_guard_def count_guard_def response_action_identity_immutable_def
  response_action_transition_guard_def response_action_approval_guard_def response_action_rejection_guard_def
  response_action_dispatch_guard_def response_action_result_guard_def response_action_terminal_immutable_def
  dispatch_count_check_def idx_response_one_live_device_def live_status_def row_exists_def

lemma response_db_accepts:
  "accepts device_env sample_request 300000000 (response_db st) sample_credential"
proof -
  have "credential_join x (response_db st) = credential_join x device_db" for x
    by (auto simp: credential_join_def response_db_def split: option.splits)
  moreover have "auth_nonces (response_db st) = auth_nonces device_db" "rotations (response_db st) = rotations device_db"
    by (simp_all add: response_db_def)
  ultimately show ?thesis
    using device_db_accepts [of 300000000] by (simp add: accepts_def live_credential_def nonce_free_def pending_ack_def)
qed

lemma audit_inv_device: "audit_inv E (consume_request E' R t c (response_db st))"
  by (simp add: consume_request_def response_db_def device_db_def audit_inv_sample)

lemma no_expiry:
  assumes "\<forall>r \<in> set (response_actions (tables v)). t < ra_expires r \<and> \<not> case_status_is (\<lambda>s. s = CaseClosed) r (tables v)"
  shows "expire_due E tenant (Aware t) device v = (Inr (), v)"
    and "expire_closed_case_actions E tenant (Aware t) device v = (Inr (), v)"
proof -
  have "filter (\<lambda>r. ra_tenant r = tenant \<and> live_status (ra_status r) \<and> ra_expires r \<le> t \<and> on_device device r)
      (response_actions (tables v)) = []"
    "filter (\<lambda>r. ra_tenant r = tenant \<and> case_status_is (\<lambda>s. s = CaseClosed) r (tables v) \<and>
        ra_status r \<in> {Proposed, Approved} \<and> on_device device r) (response_actions (tables v)) = []"
    using assms by (auto simp: filter_empty_conv)
  then show "expire_due E tenant (Aware t) device v = (Inr (), v)"
    and "expire_closed_case_actions E tenant (Aware t) device v = (Inr (), v)"
    by (simp_all add: expire_due_def expire_closed_case_actions_def utc_text_def bind_ret order_by_def)
      (simp_all add: bind_def query_def ret_def)
qed

lemma sample_dispatch_update:
  assumes "response_actions (tables v) = [sample_action Approved]"
  shows "dispatch_update \<lparr>ad_tenant = ''t1'', ad_device = ''dev1'', ad_credential = ''cr1''\<rparr> (sample_action Approved) 300000000 v =
    (Inr 1, v\<lparr>tables := (tables v)\<lparr>response_actions := [(sample_action Approved)\<lparr>ra_status := Dispatched,
      ra_dispatch_count := 1, ra_dispatched := Some 300000000\<rparr>]\<rparr>\<rparr>)"
  using assms
  by (simp add: dispatch_update_def update_rows_def sample_action_def response_guard_defs bind_def andthen_def query_def
      raise_if_def ret_def execute_def)

lemma sample_poll_transaction:
  assumes d: "response_actions (tables v) = [sample_action Approved]" "cases (tables v) = [sample_case]"
    "audit_log (tables v) = []" "audit_checkpoints (tables v) = []" "tenants (tables v) = [sample_tenant]"
    and v: "in_tx v" "audit_inv device_env (tables v)"
  shows "succeeds (poll_transaction device_env \<lparr>ad_tenant = ''t1'', ad_device = ''dev1'', ad_credential = ''cr1''\<rparr>
    (Aware 300000000)) v"
proof -
  let ?dev = "\<lparr>ad_tenant = ''t1'', ad_device = ''dev1'', ad_credential = ''cr1''\<rparr>" and ?t = "300000000 :: int"
  let ?v = "v\<lparr>tables := (tables v)\<lparr>response_actions := [(sample_action Approved)\<lparr>ra_status := Dispatched,
      ra_dispatch_count := 1, ra_dispatched := Some ?t\<rparr>]\<rparr>\<rparr>"
  have quiet: "\<forall>r \<in> set (response_actions (tables v)). ?t < ra_expires r \<and> \<not> case_status_is (\<lambda>s. s = CaseClosed) r (tables v)"
    by (simp add: d case_status_is_def row_exists_def sample_case_def sample_action_def)
  have rows: "dispatchable device_env ?dev ?t (tables v) = [sample_action Approved]"
    by (simp add: dispatchable_def order_by_def d case_status_is_def row_exists_def sample_case_def sample_action_def
        device_env_def sample_env_def)
  have "succeeds (audit_append device_env ''t1'' ''response.dispatched'' ''device'' ''dev1'' ''response_action'' ''a1''
      (JObj [(''dispatch_count'', JInt 1)]) (Aware ?t)) ?v"
  proof (rule audit_append_succeeds)
    have "length (utf8 (dumps False (JObj [(''dispatch_count'', JInt 1)]))) = 20" by code_simp
    then show "length (utf8 (dumps False (JObj [(''dispatch_count'', JInt 1)]))) \<le> max_payload_bytes"
      by (simp add: max_payload_bytes_def)
  qed (simp_all add: v d sample_tenant_def)
  moreover have "wp (agent_action_of (sample_action Approved)) (\<lambda>_ _. True) (\<lambda>_ _. False) u" for u
    by (simp add: agent_action_of_def check_action_type_def wp_rules) (simp add: sample_action_def action_types_def)
  ultimately have "wp (audit_append device_env ''t1'' ''response.dispatched'' ''device'' ''dev1'' ''response_action'' ''a1''
      (JObj [(''dispatch_count'', JInt 1)]) (Aware ?t))
      (\<lambda>_. wp (agent_action_of (sample_action Approved)) (\<lambda>_ _. True) (\<lambda>_ _. False)) (\<lambda>_ _. False) ?v"
    unfolding succeeds_wp by (rule wp_mono) simp_all
  then have "wp (dispatch_one device_env ?dev (Aware ?t) (sample_action Approved)) (\<lambda>_ _. True) (\<lambda>_ _. False) v"
    unfolding dispatch_one_def utc_text_def datetime.case bind_ret wp_bind
    by (simp add: wp_def [of "dispatch_update _ _ _"] sample_dispatch_update [OF d(1)] wp_andthen wp_raise_if)
      (simp add: sample_action_def)
  then have "succeeds (map_prog (dispatch_one device_env ?dev (Aware ?t)) [sample_action Approved]) v"
    by (auto simp: succeeds_def wp_def bind_def ret_def split: prod.splits sum.splits)
  moreover have "poll_transaction device_env ?dev (Aware ?t) v = map_prog (dispatch_one device_env ?dev (Aware ?t)) [sample_action Approved] v"
    by (simp only: poll_transaction_def andthen_def utc_text_def datetime.case bind_ret bind_apply no_expiry [OF quiet]
        query_run rows prod.case sum.case)
  ultimately show ?thesis by (simp only: succeeds_def)
qed

lemma response_db_inv: "response_inv (response_db Approved)"
  by (simp add: response_inv_def response_db_def action_ok_def sample_action_def action_types_def device_rivals_def
      key_unique_def)

lemma sample_poll:
  "succeeds (poll_device device_env sample_request ''dev1'' (Aware 300000000)) (world_at (response_db Approved))"
proof -
  let ?w = "world_at (response_db Approved)" and ?t = "300000000 :: int"
  let ?dev = "\<lparr>ad_tenant = ''t1'', ad_device = ''dev1'', ad_credential = ''cr1''\<rparr>"
  have "succeeds (authenticate device_env sample_request (Aware ?t)) ?w"
    by (rule accepted [where c = sample_credential]) (simp add: response_db_accepts)
  then obtain dev v where auth: "authenticate device_env sample_request (Aware ?t) ?w = (Inr dev, v)"
    by (blast dest: succeedsD)
  then obtain c where c: "accepts device_env sample_request ?t (response_db Approved) c"
      "tables v = consume_request device_env sample_request ?t c (response_db Approved)"
      "dev = \<lparr>ad_tenant = dc_tenant c, ad_device = dc_device c, ad_credential = rq_credential sample_request\<rparr>"
    using wp_Inr [OF authenticate_wp] by fastforce
  have "c = sample_credential" using accepts_unique [OF c(1) response_db_accepts] .
  with c(3) have dev: "dev = ?dev" by (simp add: sample_credential_def sample_request_def)
  let ?d = "consume_request device_env sample_request ?t c (response_db Approved)"
  have d: "response_actions ?d = [sample_action Approved]" "cases ?d = [sample_case]" "audit_log ?d = []"
    "audit_checkpoints ?d = []" "tenants ?d = [sample_tenant]"
    by (simp_all add: consume_request_def response_db_def device_db_def sample_db_def empty_db_def)
  have "succeeds (poll_transaction device_env ?dev (Aware ?t)) (v\<lparr>in_tx := True\<rparr>)"
    by (rule sample_poll_transaction) (simp_all add: c(2) d audit_inv_device)
  then show ?thesis
    by (auto simp: succeeds_def poll_device_def bind_def auth dev andthen_def raise_if_def ret_def atomically_def
        split: prod.splits sum.splits)
qed

theorem poll_device_delivers_witness:
  "\<exists>gas w'. poll_device device_env sample_request ''dev1'' (Aware 300000000) (world_at (response_db Approved)) = (Inr gas, w') \<and>
    (\<exists>c. accepts device_env sample_request 300000000 (response_db Approved) c \<and> dc_device c = ''dev1'' \<and>
      (\<forall>ga \<in> set gas. \<exists>a \<in> set (response_actions (tables w')). ra_tenant a = dc_tenant c \<and> ra_id a = ga_id ga \<and>
         ra_status a = Dispatched \<and> ra_target a = ''dev1'' \<and> ga_target ga = ''dev1'' \<and> ga_type ga = ra_type a \<and>
         300000000 < ra_expires a \<and> (\<exists>u. ra_approved_by a = Some u \<and> u \<noteq> ra_proposed_by a)))"
proof -
  obtain gas where run: "poll_device device_env sample_request ''dev1'' (Aware 300000000) (world_at (response_db Approved)) =
      (Inr gas, after (poll_device device_env sample_request ''dev1'' (Aware 300000000)) (world_at (response_db Approved)))"
    using succeedsD [OF sample_poll] by blast
  have "response_inv (tables (world_at (response_db Approved)))" by (simp add: response_db_inv)
  from poll_device_delivers [OF this run] run show ?thesis unfolding world_at_simps by blast
qed

theorem poll_device_complete_witness:
  "\<exists>gas w'. poll_device device_env sample_request ''dev1'' (Aware 300000000) (world_at (response_db Approved)) = (Inr gas, w') \<and>
    ''a1'' \<in> ga_id ` set gas"
proof -
  obtain gas where run: "poll_device device_env sample_request ''dev1'' (Aware 300000000) (world_at (response_db Approved)) =
      (Inr gas, after (poll_device device_env sample_request ''dev1'' (Aware 300000000)) (world_at (response_db Approved)))"
    using succeedsD [OF sample_poll] by blast
  have "ra_id (sample_action Approved) \<in> ga_id ` set gas"
  proof (rule poll_device_complete [OF _ _ run])
    show "response_inv (tables (world_at (response_db Approved)))" by (simp add: response_db_inv)
    show "accepts device_env sample_request 300000000 (tables (world_at (response_db Approved))) sample_credential"
      by (simp add: response_db_accepts)
    show "case_at (ra_tenant (sample_action Approved)) (ra_case (sample_action Approved)) (tables (world_at (response_db Approved))) =
        Some sample_case"
      by (simp add: case_at_def response_db_def sample_action_def sample_case_def)
  qed (simp_all add: key_unique_def response_db_def sample_action_def sample_case_def sample_credential_def device_env_def sample_env_def)
  with run show ?thesis by (auto simp: sample_action_def)
qed

section \<open>Results\<close>

definition finished_with :: "authenticated_device \<Rightarrow> string \<Rightarrow> action_status \<Rightarrow> string \<Rightarrow> db \<Rightarrow> bool" where
  "finished_with dev aid status text d \<longleftrightarrow> (\<exists>a. action_at (ad_tenant dev) aid d = Some a \<and> ra_status a = status \<and>
     ra_result_device a = Some (ad_device dev) \<and> ra_result_json a = Some text \<and> ra_target_type a = TargetDevice \<and>
     ra_target a = ad_device dev)"

interpretation action_finish: keyed_update action_key
    "\<lambda>r. r\<lparr>ra_status := s, ra_result_json := Some body, ra_result_device := Some dev, ra_completed := Some t\<rparr>" for s body dev t
  by unfold_locales simp

lemma finished_update:
  assumes "action_at (ad_tenant dev) aid d = Some a" "ra_status a = Dispatched" "ra_target_type a = TargetDevice"
    "ra_target a = ad_device dev" "t < ra_expires a"
    and "response_actions d' = update_where (\<lambda>r. ra_tenant r = ad_tenant dev \<and> ra_id r = aid \<and> ra_status r = Dispatched \<and>
           ra_target_type r = TargetDevice \<and> ra_target r = ad_device dev \<and> t < ra_expires r)
         (\<lambda>r. r\<lparr>ra_status := status, ra_result_json := Some text, ra_result_device := Some (ad_device dev),
            ra_completed := Some t\<rparr>) (response_actions d)"
  shows "finished_with dev aid status text d'"
proof -
  have "action_at (ad_tenant dev) aid d' = Some (a\<lparr>ra_status := status, ra_result_json := Some text,
      ra_result_device := Some (ad_device dev), ra_completed := Some t\<rparr>)"
    using assms(1-5) action_atD [OF assms(1)]
    unfolding action_at_def assms(6) find_key_action action_finish.upd_find by simp
  then show ?thesis using assms(3,4) by (simp add: finished_with_def)
qed

lemma result_transaction_wp:
  assumes "status \<in> {Succeeded, Failed}"
  shows "wp (result_transaction E dev aid status summary evidence (Aware t))
     (\<lambda>r w'. r \<noteq> None \<longrightarrow> finished_with dev aid status (result_text evidence (action_status_name status) summary) (tables w'))
     (\<lambda>_ _. True) w"
proof (cases "action_at (ad_tenant dev) aid (tables w)")
  case (Some a)
  have expiry: "wp (expire_one E a (Aware t) reason) (\<lambda>_. wp (ret None) (\<lambda>r w'. (\<exists>y. r = Some y) \<longrightarrow> P r w') (\<lambda>_ _. True)) (\<lambda>_ _. True) w"
    for reason and P :: "response_result option \<Rightarrow> world \<Rightarrow> bool"
    by (rule wp_mono [OF expire_one_wp]) (simp_all add: wp_rules)
  show ?thesis
    unfolding result_transaction_def Let_def
    using Some assms
    by (auto simp: wp_rules intro!: auditing.wp_append expiry)
      ((simp add: finished_with_def; fail) | (rule finished_update [where d = "tables w" and a = a and t = t]; simp))+
qed (simp add: result_transaction_def wp_rules Let_def)

lemma finished_again:
  assumes "finished_with dev aid status (result_text evidence (action_status_name status) summary) (tables w)"
    and "status \<in> {Succeeded, Failed}"
  shows "result_transaction E dev aid status summary evidence now w =
    (Inr (Some \<lparr>rs_action = aid, rs_status = action_status_name status, rs_changed = False\<rparr>), w)"
  using assms
  by (auto simp: finished_with_def result_transaction_def Let_def require_action_def bind_def query_def andthen_def
      raise_if_def ret_def)

definition result_ok :: "string \<Rightarrow> string list \<Rightarrow> bool" where
  "result_ok summary evidence \<longleftrightarrow> \<not> (strip summary = [] \<or> 500 < length (strip summary)) \<and>
     \<not> (20 < length evidence \<or> list_ex (\<lambda>item. strip item = [] \<or> 256 < length (strip item)) evidence)"

lemma submitD:
  assumes "submit_device_result E R aid status_text summary evidence (Aware t) w = (Inr r, w')"
  shows "\<exists>c status v. accepts E R t (tables w) c \<and> result_status status_text = Some status \<and> result_ok summary evidence \<and>
    atomically (result_transaction E \<lparr>ad_tenant = dc_tenant c, ad_device = dc_device c, ad_credential = rq_credential R\<rparr>
      aid status (strip summary) (map strip evidence) (Aware t)) v = (Inr (Some r), w')"
proof -
  obtain dev v where auth: "authenticate E R (Aware t) w = (Inr dev, v)"
    using assms by (auto simp: submit_device_result_def bind_def split: prod.splits sum.splits)
  obtain c where c: "accepts E R t (tables w) c"
      "dev = \<lparr>ad_tenant = dc_tenant c, ad_device = dc_device c, ad_credential = rq_credential R\<rparr>"
    using wp_Inr [OF authenticate_wp auth] by blast
  obtain status where st: "result_status status_text = Some status"
    using assms auth by (cases "result_status status_text") (auto simp: submit_device_result_def bind_def raise_def)
  show ?thesis
    using assms auth c st
    by (auto simp: submit_device_result_def bind_def andthen_def raise_if_def raise_def ret_def result_ok_def
        split: prod.splits sum.splits if_splits option.splits)
qed

text \<open>
  Reporting a result is idempotent. Once a device's report for an action was accepted, sending the
  same report again in any later signed request of that device succeeds, says that nothing changed,
  and leaves the table of actions as it is.
\<close>

theorem result_idempotent:
  assumes first: "submit_device_result E R aid status summary evidence (Aware t) w = (Inr r, w')"
    and c: "accepts E R t (tables w) c" and c': "accepts E R' t' (tables w') c'"
    and same: "dc_tenant c' = dc_tenant c" "dc_device c' = dc_device c"
  shows "\<exists>w''. submit_device_result E R' aid status summary evidence (Aware t') w' =
      (Inr \<lparr>rs_action = aid, rs_status = status, rs_changed = False\<rparr>, w'') \<and>
    response_actions (tables w'') = response_actions (tables w')"
proof -
  let ?dev = "\<lparr>ad_tenant = dc_tenant c, ad_device = dc_device c, ad_credential = rq_credential R\<rparr>"
  let ?dev' = "\<lparr>ad_tenant = dc_tenant c, ad_device = dc_device c, ad_credential = rq_credential R'\<rparr>"
  obtain st v where st: "result_status status = Some st" "result_ok summary evidence"
    and tx: "atomically (result_transaction E ?dev aid st (strip summary) (map strip evidence) (Aware t)) v = (Inr (Some r), w')"
    using submitD [OF first] accepts_unique [OF c] by blast
  have final: "st \<in> {Succeeded, Failed}" using st(1) by (rule result_status_final)
  have name: "action_status_name st = status" using st(1) by (auto simp: result_status_def split: if_splits)
  have "finished_with ?dev aid st (result_text (map strip evidence) (action_status_name st) (strip summary)) (tables w')"
    using tx result_transaction_wp [OF final, of E ?dev aid "strip summary" "map strip evidence" t "v\<lparr>in_tx := True\<rparr>"]
    by (auto simp: atomically_commit wp_def)
  then have stored: "finished_with ?dev' aid st (result_text (map strip evidence) (action_status_name st) (strip summary)) d"
    if "response_actions d = response_actions (tables w')" for d
    using that by (simp add: finished_with_def action_at_def)
  obtain dev u where auth: "authenticate E R' (Aware t') w' = (Inr dev, u)"
    using succeedsD [OF accepted [OF c']] by blast
  obtain k where k: "accepts E R' t' (tables w') k" "tables u = consume_request E R' t' k (tables w')"
      "dev = \<lparr>ad_tenant = dc_tenant k, ad_device = dc_device k, ad_credential = rq_credential R'\<rparr>"
    using wp_Inr [OF authenticate_wp auth] by blast
  have dev: "dev = ?dev'" using accepts_unique [OF k(1) c'] k(3) same by simp
  have "result_transaction E ?dev' aid st (strip summary) (map strip evidence) (Aware t') (u\<lparr>in_tx := True\<rparr>) =
      (Inr (Some \<lparr>rs_action = aid, rs_status = action_status_name st, rs_changed = False\<rparr>), u\<lparr>in_tx := True\<rparr>)"
    by (rule finished_again [OF stored final]) (simp add: k(2) consumed_response)
  then have "submit_device_result E R' aid status summary evidence (Aware t') w' =
      (Inr \<lparr>rs_action = aid, rs_status = status, rs_changed = False\<rparr>, u\<lparr>in_tx := False\<rparr>)"
    using auth dev st name
    by (simp add: submit_device_result_def bind_def andthen_def raise_if_def ret_def atomically_def result_ok_def)
  then show ?thesis using k(2) by (simp add: consumed_response)
qed

lemma result_frame:
  "wp (result_transaction E dev aid status summary evidence (Aware t))
     (\<lambda>_ w'. only_response_tables (tables w) (tables w')) (\<lambda>_ _. True) w"
proof (cases "action_at (ad_tenant dev) aid (tables w)")
  case (Some a)
  have expiry: "wp (expire_one E a (Aware t) reason) (\<lambda>_. wp (ret None) (\<lambda>_ w'. only_response_tables (tables w) (tables w'))
      (\<lambda>_ _. True)) (\<lambda>_ _. True) w" for reason
    by (rule wp_mono [OF expire_one_wp]) (auto simp: wp_rules expires_row_def)
  show ?thesis
    unfolding result_transaction_def Let_def
    using Some
    by (auto simp: wp_rules intro!: auditing.wp_append expiry) (auto simp: only_response_tables_def with_audit_def)
qed (simp add: result_transaction_def wp_rules Let_def)

lemma sample_result_transaction:
  assumes d: "response_actions (tables v) = [sample_action Dispatched]"
    "audit_log (tables v) = []" "audit_checkpoints (tables v) = []" "tenants (tables v) = [sample_tenant]"
    and v: "in_tx v" "audit_inv device_env (tables v)"
  shows "\<exists>r w'. result_transaction device_env \<lparr>ad_tenant = ''t1'', ad_device = ''dev1'', ad_credential = ''cr1''\<rparr>
    ''a1'' Succeeded ''ok'' [] (Aware 300000000) v = (Inr (Some r), w')"
proof -
  let ?dev = "\<lparr>ad_tenant = ''t1'', ad_device = ''dev1'', ad_credential = ''cr1''\<rparr>" and ?t = "300000000 :: int"
  let ?v = "v\<lparr>tables := (tables v)\<lparr>response_actions := [(sample_action Dispatched)\<lparr>ra_status := Succeeded,
      ra_result_json := Some (result_text [] ''succeeded'' ''ok''), ra_result_device := Some ''dev1'',
      ra_completed := Some ?t\<rparr>]\<rparr>\<rparr>"
  have "succeeds (audit_append device_env ''t1'' ''response.succeeded'' ''device'' ''dev1'' ''response_action'' ''a1''
      (JObj [(''evidence'', JList []), (''summary'', JStr ''ok'')]) (Aware ?t)) ?v"
  proof (rule audit_append_succeeds)
    have "length (utf8 (dumps False (JObj [(''evidence'', JList []), (''summary'', JStr ''ok'')]))) = 30" by code_simp
    then show "length (utf8 (dumps False (JObj [(''evidence'', JList []), (''summary'', JStr ''ok'')]))) \<le> max_payload_bytes"
      by (simp add: max_payload_bytes_def)
  qed (simp_all add: v d sample_tenant_def)
  then have audit: "wp (audit_append device_env ''t1'' ''response.succeeded'' ''device'' ''dev1'' ''response_action'' ''a1''
      (JObj [(''evidence'', JList []), (''summary'', JStr ''ok'')]) (Aware ?t))
      (\<lambda>_. wp (ret (Some x)) (\<lambda>r _. \<exists>y. r = Some y) (\<lambda>_ _. False)) (\<lambda>_ _. False) ?v" for x :: response_result
    unfolding succeeds_wp by (rule wp_mono) (simp_all add: wp_rules)
  have find: "action_at ''t1'' ''a1'' (tables v) = Some (sample_action Dispatched)"
    by (simp add: action_at_def d sample_action_def)
  have "wp (result_transaction device_env ?dev ''a1'' Succeeded ''ok'' [] (Aware ?t)) (\<lambda>r _. \<exists>y. r = Some y) (\<lambda>_ _. False) v"
    unfolding result_transaction_def Let_def
    apply (simp add: wp_rules find d)
    apply (simp add: sample_action_def response_guard_defs)
    using audit by (simp add: sample_action_def)
  then show ?thesis by (auto simp: wp_def split: prod.splits sum.splits)
qed

lemma only_response_devices:
  assumes "only_response_tables d d'"
  shows "credential_join x d' = credential_join x d" "auth_nonces d' = auth_nonces d" "rotations d' = rotations d"
proof -
  have "device_credentials d' = device_credentials d" "devices d' = devices d" "tenants d' = tenants d"
    "auth_nonces d' = auth_nonces d" "rotations d' = rotations d"
    by (use arg_cong [OF assms [unfolded only_response_tables_def], of device_credentials] in simp)
      (use arg_cong [OF assms [unfolded only_response_tables_def], of devices] in simp,
       use arg_cong [OF assms [unfolded only_response_tables_def], of tenants] in simp,
       use arg_cong [OF assms [unfolded only_response_tables_def], of auth_nonces] in simp,
       use arg_cong [OF assms [unfolded only_response_tables_def], of rotations] in simp)
  then show "credential_join x d' = credential_join x d" "auth_nonces d' = auth_nonces d" "rotations d' = rotations d"
    by (simp_all add: credential_join_def split: option.splits)
qed

definition second_request :: collector_request where
  "second_request = sample_request\<lparr>rq_nonce := ''nonce-9876543210''\<rparr>"

lemma second_request_ok: "well_formed_request second_request"
  unfolding well_formed_request_def second_request_def sample_request_def collector_request.select_convs
    collector_request.update_convs
  by code_simp

lemma second_accepted:
  assumes "only_response_tables (consume_request device_env sample_request 300000000 sample_credential (response_db st)) d"
  shows "accepts device_env second_request 300000001 d (sample_credential\<lparr>dc_last_used := Some 300000000\<rparr>)"
proof -
  let ?d = "consume_request device_env sample_request 300000000 sample_credential (response_db st)"
  have "credential_join ''cr1'' ?d = Some (sample_credential\<lparr>dc_last_used := Some 300000000\<rparr>,
      sample_device\<lparr>dv_last_seen := Some 300000000\<rparr>, sample_tenant)"
    by (simp add: credential_join_def consume_request_def response_db_def device_db_def sample_db_def sample_credential_def
        sample_device_def sample_tenant_def sample_request_def)
  with only_response_devices(1) [OF assms]
  have j: "credential_join ''cr1'' d = Some (sample_credential\<lparr>dc_last_used := Some 300000000\<rparr>,
      sample_device\<lparr>dv_last_seen := Some 300000000\<rparr>, sample_tenant)" by simp
  have "live_credential device_env second_request 300000001 d (sample_credential\<lparr>dc_last_used := Some 300000000\<rparr>)"
    by (rule sample_live [OF _ _ j])
      (simp_all add: second_request_def sample_request_fields sample_device_def sample_tenant_def)
  moreover have "nonce_free second_request 300000001 d"
    unfolding nonce_free_def only_response_devices(2) [OF assms]
    by (simp add: consume_request_def response_db_def device_db_def sample_db_def empty_db_def second_request_def
        sample_request_def)
  ultimately show ?thesis
    using sample_timely [of second_request 300000001]
    by (simp add: accepts_def second_request_ok) (simp add: second_request_def sample_request_fields)
qed

theorem result_idempotent_witness:
  "\<exists>r w' w''. submit_device_result device_env sample_request ''a1'' ''succeeded'' ''ok'' [] (Aware 300000000)
      (world_at (response_db Dispatched)) = (Inr r, w') \<and>
    submit_device_result device_env second_request ''a1'' ''succeeded'' ''ok'' [] (Aware 300000001) w' =
      (Inr \<lparr>rs_action = ''a1'', rs_status = ''succeeded'', rs_changed = False\<rparr>, w'') \<and>
    response_actions (tables w'') = response_actions (tables w')"
proof -
  let ?w = "world_at (response_db Dispatched)" and ?t = "300000000 :: int"
  let ?dev = "\<lparr>ad_tenant = ''t1'', ad_device = ''dev1'', ad_credential = ''cr1''\<rparr>"
  let ?d = "consume_request device_env sample_request ?t sample_credential (response_db Dispatched)"
  obtain dev v where auth: "authenticate device_env sample_request (Aware ?t) ?w = (Inr dev, v)"
    using succeedsD [OF accepted [where c = sample_credential and w = ?w and E = device_env and R = sample_request and t = ?t]]
      response_db_accepts by auto
  then obtain c where c: "accepts device_env sample_request ?t (response_db Dispatched) c"
      "tables v = consume_request device_env sample_request ?t c (response_db Dispatched)"
      "dev = \<lparr>ad_tenant = dc_tenant c, ad_device = dc_device c, ad_credential = rq_credential sample_request\<rparr>"
    using wp_Inr [OF authenticate_wp] by fastforce
  have "c = sample_credential" using accepts_unique [OF c(1) response_db_accepts] .
  with c have dev: "dev = ?dev" and v: "tables v = ?d" by (simp_all add: sample_credential_def sample_request_def)
  have "response_actions ?d = [sample_action Dispatched]" "audit_log ?d = []" "audit_checkpoints ?d = []"
    "tenants ?d = [sample_tenant]"
    by (simp_all add: consume_request_def response_db_def device_db_def sample_db_def empty_db_def)
  then obtain r u where tx: "result_transaction device_env ?dev ''a1'' Succeeded ''ok'' [] (Aware ?t) (v\<lparr>in_tx := True\<rparr>) =
      (Inr (Some r), u)"
    using sample_result_transaction [of "v\<lparr>in_tx := True\<rparr>"] by (auto simp: v audit_inv_device)
  have "strip ''ok'' = ''ok''" by code_simp
  then have run: "submit_device_result device_env sample_request ''a1'' ''succeeded'' ''ok'' [] (Aware ?t) ?w =
      (Inr r, u\<lparr>in_tx := False\<rparr>)"
    using auth dev tx
    by (simp add: submit_device_result_def bind_def andthen_def raise_if_def ret_def atomically_def result_status_def)
  have "only_response_tables ?d (tables u)"
    using wp_Inr [OF result_frame tx] by (simp add: v)
  then have again: "accepts device_env second_request 300000001 (tables (u\<lparr>in_tx := False\<rparr>)) (sample_credential\<lparr>dc_last_used := Some ?t\<rparr>)"
    by (simp add: second_accepted)
  have before: "accepts device_env sample_request ?t (tables ?w) sample_credential" by (simp add: response_db_accepts)
  have "\<exists>w''. submit_device_result device_env second_request ''a1'' ''succeeded'' ''ok'' [] (Aware 300000001) (u\<lparr>in_tx := False\<rparr>) =
      (Inr \<lparr>rs_action = ''a1'', rs_status = ''succeeded'', rs_changed = False\<rparr>, w'') \<and>
    response_actions (tables w'') = response_actions (tables (u\<lparr>in_tx := False\<rparr>))"
    by (rule result_idempotent [OF run before again]) simp_all
  with run show ?thesis by blast
qed

end
