(* ===== verification/Lifecycle.thy ===== *)
theory Lifecycle
  imports Accounts Response
begin

text \<open>
  Revisioned management of \<open>standalone/network_lifecycle.py\<close> (\<open>NetworkLifecycleService\<close>)
  and the entry routes of \<open>standalone/network_routing.py\<close>: suspending and renaming a network,
  adopting its login namespace, changing team members, endpoint accounts and invitations, opening an
  entry route. Every update names the revision it was decided on. The theorems say that a stale update
  is refused and what suspending a network cuts off.
\<close>

section \<open>Revisions\<close>

text \<open>INSERT ... ON CONFLICT DO UPDATE: the row of a key is rewritten or added.\<close>

definition upsert :: "('r \<Rightarrow> bool) \<Rightarrow> ('r \<Rightarrow> 'r) \<Rightarrow> 'r \<Rightarrow> 'r list \<Rightarrow> 'r list" where
  "upsert P f r rows = (if row_exists P rows then update_where P f rows else rows @ [r])"

lemma find_upsert:
  assumes "\<And>x. P x \<Longrightarrow> P (f x)" "P r"
  shows "List.find P (upsert P f r rows) = Some (case List.find P rows of None \<Rightarrow> r | Some x \<Rightarrow> f x)"
proof -
  have "List.find P (update_where P f rows) = map_option f (List.find P rows)"
    using assms(1) by (induction rows) auto
  moreover have "List.find P rows = None \<longleftrightarrow> \<not> row_exists P rows"
    by (auto simp: row_exists_iff find_None_iff)
  ultimately show ?thesis using assms(2) by (auto simp: upsert_def find_append_None split: option.split)
qed

lemma find_upsert_apart:
  assumes "\<And>x. P x \<Longrightarrow> \<not> Q x" "\<And>x. P x \<Longrightarrow> \<not> Q (f x)" "\<not> Q r"
  shows "List.find Q (upsert P f r rows) = List.find Q rows"
proof -
  have "List.find Q (update_where P f rows) = List.find Q rows"
    using assms(1,2) by (induction rows) auto
  moreover have "List.find Q (rows @ [r]) = List.find Q rows"
    using assms(3) by (induction rows) auto
  ultimately show ?thesis by (simp add: upsert_def)
qed

text \<open>The upserts of \<open>_bump\<close> and \<open>_bump_identity\<close> with the tables' CHECK and foreign key.\<close>

definition bump :: "string \<Rightarrow> int \<Rightarrow> int prog" where
  "bump tenant revision = andthen (insert_checked
     (\<lambda>d. 0 < revision + 1 \<and> row_exists (\<lambda>t. t_id t = tenant) (tenants d))
     (\<lambda>d. d\<lparr>network_revisions := upsert (\<lambda>r. nr_tenant r = tenant) (\<lambda>r. r\<lparr>nr_revision := revision + 1\<rparr>)
        \<lparr>nr_tenant = tenant, nr_revision = revision + 1\<rparr> (network_revisions d)\<rparr>))
     (ret (revision + 1))"

definition revision_key :: "string \<Rightarrow> managed_kind \<Rightarrow> string \<Rightarrow> management_revision_row \<Rightarrow> bool" where
  "revision_key tenant kind identity_id r \<longleftrightarrow> mr_tenant r = tenant \<and> mr_kind r = kind \<and> mr_identity r = identity_id"

definition bump_identity :: "string \<Rightarrow> managed_kind \<Rightarrow> string \<Rightarrow> int \<Rightarrow> int prog" where
  "bump_identity tenant kind identity_id revision = andthen (insert_checked
     (\<lambda>d. 0 < revision + 1 \<and> row_exists (\<lambda>t. t_id t = tenant) (tenants d))
     (\<lambda>d. d\<lparr>management_revisions := upsert (revision_key tenant kind identity_id) (\<lambda>r. r\<lparr>mr_revision := revision + 1\<rparr>)
        \<lparr>mr_tenant = tenant, mr_kind = kind, mr_identity = identity_id, mr_revision = revision + 1\<rparr> (management_revisions d)\<rparr>))
     (ret (revision + 1))"

definition require_identity_revision :: "string \<Rightarrow> managed_kind \<Rightarrow> string \<Rightarrow> int \<Rightarrow> unit prog" where
  "require_identity_revision tenant kind identity_id revision =
     bind (query (identity_revision_of tenant kind identity_id)) (\<lambda>current.
     raise_if (revision \<noteq> current) NetworkConflictError ''this account changed; refresh before trying again'')"

definition require_owner :: "principal \<Rightarrow> datetime \<Rightarrow> unit prog" where
  "require_owner p now = andthen (require_admin_in p now) (bind (query (owner_at p)) (\<lambda>owner.
     raise_if (\<not> owner) HumanAuthorizationError ''only the platform owner can configure networks''))"

definition require_network :: "string \<Rightarrow> int \<Rightarrow> (tenant_row \<times> string option) prog" where
  "require_network tenant revision = bind (query (\<lambda>d. (tenant_row_at tenant d, domain_of tenant d, revision_of tenant d)))
     (\<lambda>(row, domain, current). case row of
        None \<Rightarrow> raise NetworkError ''that network is unavailable''
      | Some t \<Rightarrow> andthen (raise_if (revision \<noteq> current) NetworkConflictError ''the network changed; refresh before trying again'')
          (ret (t, domain)))"

section \<open>Networks\<close>

record network_update =
  nu_tenant :: string
  nu_revision :: int
  nu_status :: string

fun tenant_status_name :: "tenant_status \<Rightarrow> string" where
  "tenant_status_name TenantActive = ''active''"
| "tenant_status_name TenantSuspended = ''suspended''"

definition tenant_status_of :: "string \<Rightarrow> tenant_status option" where
  "tenant_status_of s = (if s = ''active'' then Some TenantActive else if s = ''suspended'' then Some TenantSuspended else None)"

definition expire_undelivered_actions :: "string \<Rightarrow> string option \<Rightarrow> instant \<Rightarrow> nat prog" where
  "expire_undelivered_actions tenant user t = update_rows response_actions response_actions_update status_guard
     (\<lambda>r. ra_tenant r = tenant \<and> (ra_status r = Proposed \<or> ra_status r = Approved) \<and>
        (user = None \<or> Some (ra_proposed_by r) = user \<or> ra_approved_by r = user \<and> user \<noteq> None))
     (\<lambda>r. r\<lparr>ra_status := Expired, ra_completed := Some t\<rparr>)"

definition count_json :: "string \<Rightarrow> nat \<Rightarrow> string \<times> json" where
  "count_json key n = (key, JInt (int n))"

definition suspend_network :: "string \<Rightarrow> instant \<Rightarrow> (string \<times> json) list prog" where
  "suspend_network tenant t =
     bind (update_rows sessions sessions_update no_trigger (\<lambda>s. se_tenant s = tenant \<and> se_revoked s = None)
        (\<lambda>s. s\<lparr>se_revoked := Some t\<rparr>)) (\<lambda>human.
     bind (delete_endpoint_sessions (\<lambda>s. es_tenant s = tenant)) (\<lambda>endpoint.
     andthen (update_rows auth_challenges auth_challenges_update no_trigger (\<lambda>c. ac_tenant c = Some tenant \<and> ac_consumed c = None)
        (\<lambda>c. c\<lparr>ac_consumed := Some t\<rparr>))
     (bind (update_rows human_invites human_invites_update human_invite_identity_immutable
        (\<lambda>i. hi_tenant i = tenant \<and> hi_revoked i = None \<and> hi_consumed i = None) (\<lambda>i. i\<lparr>hi_revoked := Some t\<rparr>)) (\<lambda>invitations.
     bind (update_tokens (\<lambda>e. et_tenant e = tenant \<and> et_revoked e = None) (\<lambda>e. e\<lparr>et_revoked := Some t\<rparr>)) (\<lambda>grants.
     bind (expire_undelivered_actions tenant None t) (\<lambda>responses.
     ret [count_json ''human_sessions'' human, count_json ''endpoint_sessions'' endpoint, count_json ''invitations'' invitations,
       count_json ''enrollment_grants'' grants, count_json ''undelivered_responses'' responses]))))))"

definition rewrite_network :: "env \<Rightarrow> principal \<Rightarrow> tenant_row \<Rightarrow> string \<Rightarrow> string \<Rightarrow> tenant_status \<Rightarrow> int \<Rightarrow> datetime \<Rightarrow> network_update prog" where
  "rewrite_network E p previous tenant name status revision now =
     bind (utc_text now) (\<lambda>t.
     bind (if status = TenantSuspended \<and> t_status previous \<noteq> status then suspend_network tenant t else ret []) (\<lambda>revoked.
     andthen (update_rows tenants tenants_update no_trigger (\<lambda>x. t_id x = tenant) (\<lambda>x. x\<lparr>t_name := name, t_status := status\<rparr>))
     (bind (bump tenant revision) (\<lambda>updated.
      let payload = JObj [(''previous_status'', JStr (tenant_status_name (t_status previous))), (''status'', JStr (tenant_status_name status)),
        (''previous_name'', JStr (t_name previous)), (''display_name'', JStr name), (''revision'', JInt updated), (''revoked'', JObj revoked)] in
      andthen (audit_append E tenant ''network.updated'' ''platform_owner'' (pr_user p) ''network'' tenant payload now)
      (andthen (if pr_tenant p = tenant then ret ()
          else andthen (audit_append E (pr_tenant p) ''network.updated'' ''platform_owner'' (pr_user p) ''network'' tenant payload now) (ret ()))
      (ret \<lparr>nu_tenant = tenant, nu_revision = updated, nu_status = tenant_status_name status\<rparr>))))))"

definition update_network_transaction ::
  "env \<Rightarrow> principal \<Rightarrow> string \<Rightarrow> string \<Rightarrow> tenant_status \<Rightarrow> int \<Rightarrow> datetime \<Rightarrow> network_update prog" where
  "update_network_transaction E p tenant name status revision now =
     andthen (require_owner p now)
     (bind (require_network tenant revision) (\<lambda>(previous, _).
      bind (query (\<lambda>d. row_exists (\<lambda>o'. po_home o' = tenant) (platform_owners d))) (\<lambda>home.
      andthen (raise_if (status = TenantSuspended \<and> home) NetworkError ''the platform owner's home network must remain active'')
      (if t_name previous = name \<and> t_status previous = status
       then ret \<lparr>nu_tenant = tenant, nu_revision = revision, nu_status = tenant_status_name status\<rparr>
       else rewrite_network E p previous tenant name status revision now))))"

definition update_network :: "env \<Rightarrow> principal \<Rightarrow> string \<Rightarrow> string \<Rightarrow> string \<Rightarrow> int \<Rightarrow> datetime \<Rightarrow> network_update prog" where
  "update_network E p tenant display_name status revision now =
     (let name = strip display_name in
      case tenant_status_of status of
        None \<Rightarrow> raise NetworkError ''enter a valid network name and status''
      | Some st \<Rightarrow> andthen (raise_if (\<not> display_name_ok name) NetworkError ''enter a valid network name and status'')
          (atomically (update_network_transaction E p tenant name st revision now)))"

record adopted_namespace =
  an_tenant :: string
  an_domain :: string
  an_revision :: int

definition adopt_transaction :: "env \<Rightarrow> principal \<Rightarrow> string \<Rightarrow> string \<Rightarrow> int \<Rightarrow> datetime \<Rightarrow> adopted_namespace prog" where
  "adopt_transaction E p tenant domain revision now =
     andthen (require_owner p now)
     (bind (require_network tenant revision) (\<lambda>(previous, current_domain).
      andthen (raise_if (current_domain \<noteq> None) NetworkConflictError ''this network already has an immutable login namespace'')
      (andthen (raise_if (t_status previous \<noteq> TenantActive) NetworkError ''resume the network before configuring its account namespace'')
      (bind (utc_text now) (\<lambda>t.
       andthen (on_integrity_error (insert_namespace \<lparr>nm_tenant = tenant, nm_domain = domain, nm_created = t\<rparr>)
         NetworkConflictError ''that account subdomain is already in use'')
       (bind (bump tenant revision) (\<lambda>updated.
        andthen (audit_append E tenant ''network.namespace_adopted'' ''platform_owner'' (pr_user p) ''network'' tenant
          (JObj [(''login_domain'', JStr domain), (''revision'', JInt updated)]) now)
        (ret \<lparr>an_tenant = tenant, an_domain = domain, an_revision = updated\<rparr>))))))))"

definition adopt_namespace :: "env \<Rightarrow> string option \<Rightarrow> principal \<Rightarrow> string \<Rightarrow> string \<Rightarrow> int \<Rightarrow> datetime \<Rightarrow> adopted_namespace prog" where
  "adopt_namespace E base p tenant slug revision now = (case base of
     None \<Rightarrow> raise NetworkError ''configure CONTROLFORGE_NETWORK_BASE_DOMAIN first''
   | Some suffix \<Rightarrow>
       andthen (raise_if (\<not> network_slug_ok slug) NetworkError
         ''choose a 3-48 character account subdomain using letters and hyphens'')
       (bind (normalize_domain (slug @ ''.'' @ suffix)) (\<lambda>domain. atomically (adopt_transaction E p tenant domain revision now))))"

section \<open>Team members\<close>

record member_view =
  mb_user :: user_row
  mb_revision :: int
  mb_owner :: bool

definition team :: "principal \<Rightarrow> datetime \<Rightarrow> (member_view list \<times> invite_row list) prog" where
  "team p now = andthen (require_admin_in p now) (bind (utc_text now) (\<lambda>t. query (\<lambda>d.
     (take 1000 (map (\<lambda>u. \<lparr>mb_user = u, mb_revision = identity_revision_of (us_tenant u) ManagedUser (us_id u) d,
          mb_owner = (row_exists (\<lambda>o'. po_user o' = us_id u) (platform_owners d) \<or> owner_projection (us_tenant u) (us_id u) d)\<rparr>)
        (order_by (\<lambda>u. (us_name u, us_id u)) (filter (\<lambda>u. us_tenant u = pr_tenant p) (users d)))),
      take 1000 (order_by hi_created (filter (\<lambda>i. hi_tenant i = pr_tenant p \<and> hi_consumed i = None \<and> hi_revoked i = None \<and>
        t < hi_expires i) (human_invites d)))))))"

fun user_status_name :: "user_status \<Rightarrow> string" where
  "user_status_name UserInvited = ''invited''"
| "user_status_name UserActive = ''active''"
| "user_status_name UserDisabled = ''disabled''"

record member_update =
  mu_user :: string
  mu_role :: role
  mu_status :: user_status
  mu_revision :: int

definition rewrite_member ::
  "env \<Rightarrow> principal \<Rightarrow> string \<Rightarrow> role \<Rightarrow> user_status \<Rightarrow> role \<Rightarrow> user_status \<Rightarrow> int \<Rightarrow> datetime \<Rightarrow> member_update prog" where
  "rewrite_member E p user new_role status expected_role expected_status revision now =
     bind (utc_text now) (\<lambda>t.
     andthen (update_rows users users_update no_trigger (\<lambda>u. us_tenant u = pr_tenant p \<and> us_id u = user)
       (\<lambda>u. u\<lparr>us_role := new_role, us_status := status\<rparr>))
     (bind (update_rows sessions sessions_update no_trigger
        (\<lambda>s. se_tenant s = pr_tenant p \<and> se_user s = user \<and> se_revoked s = None) (\<lambda>s. s\<lparr>se_revoked := Some t\<rparr>)) (\<lambda>revoked_sessions.
      bind (update_rows human_invites human_invites_update human_invite_identity_immutable
        (\<lambda>i. hi_tenant i = pr_tenant p \<and> hi_created_by i = user \<and> hi_consumed i = None \<and> hi_revoked i = None)
        (\<lambda>i. i\<lparr>hi_revoked := Some t\<rparr>)) (\<lambda>revoked_invites.
      bind (update_tokens (\<lambda>e. et_tenant e = pr_tenant p \<and> et_created_by e = user \<and> et_revoked e = None)
        (\<lambda>e. e\<lparr>et_revoked := Some t\<rparr>)) (\<lambda>revoked_grants.
      bind (expire_undelivered_actions (pr_tenant p) (Some user) t) (\<lambda>cancelled.
      andthen (update_rows auth_challenges auth_challenges_update no_trigger
        (\<lambda>c. ac_tenant c = Some (pr_tenant p) \<and> ac_user c = Some user \<and> ac_consumed c = None) (\<lambda>c. c\<lparr>ac_consumed := Some t\<rparr>))
      (bind (bump_identity (pr_tenant p) ManagedUser user revision) (\<lambda>updated.
       andthen (audit_append E (pr_tenant p) ''team.member_updated'' ''user'' (pr_user p) ''user'' user
         (JObj [(''previous_role'', JStr (role_name expected_role)), (''role'', JStr (role_name new_role)),
            (''previous_status'', JStr (user_status_name expected_status)), (''status'', JStr (user_status_name status)),
            count_json ''revoked_sessions'' revoked_sessions, count_json ''revoked_invitations'' revoked_invites,
            count_json ''revoked_enrollment_grants'' revoked_grants, count_json ''expired_undelivered_responses'' cancelled]) now)
       (ret \<lparr>mu_user = user, mu_role = new_role, mu_status = status, mu_revision = updated\<rparr>)))))))))"

definition update_member_transaction ::
  "env \<Rightarrow> principal \<Rightarrow> string \<Rightarrow> role \<Rightarrow> user_status \<Rightarrow> role \<Rightarrow> user_status \<Rightarrow> int \<Rightarrow> datetime \<Rightarrow> member_update prog" where
  "update_member_transaction E p user new_role status expected_role expected_status revision now =
     andthen (require_admin_in p now)
     (bind (query (user_of (pr_tenant p) user)) (\<lambda>row.
      andthen (require_identity_revision (pr_tenant p) ManagedUser user revision)
      (case row of
         None \<Rightarrow> raise NetworkError ''that team member is not in this network''
       | Some target \<Rightarrow>
           andthen (raise_if (us_role target \<noteq> expected_role \<or> us_status target \<noteq> expected_status) NetworkConflictError
             ''this team member changed; refresh before trying again'')
           (bind (query (\<lambda>d. row_exists (\<lambda>o'. po_user o' = user) (platform_owners d) \<or> owner_projection (pr_tenant p) user d)) (\<lambda>owner.
            andthen (raise_if (user = pr_user p \<or> owner) NetworkError
              ''your own sign-in and platform owner identities cannot be changed here'')
            (if us_role target = new_role \<and> us_status target = status
             then ret \<lparr>mu_user = user, mu_role = new_role, mu_status = status, mu_revision = revision\<rparr>
             else rewrite_member E p user new_role status expected_role expected_status revision now))))))"

definition update_member ::
  "env \<Rightarrow> principal \<Rightarrow> string \<Rightarrow> role \<Rightarrow> user_status \<Rightarrow> role \<Rightarrow> user_status \<Rightarrow> int \<Rightarrow> datetime \<Rightarrow> member_update prog" where
  "update_member E p user new_role status expected_role expected_status revision now =
     andthen (raise_if (status = UserInvited) NetworkError ''select a valid network role and sign-in state'')
     (atomically (update_member_transaction E p user new_role status expected_role expected_status revision now))"

section \<open>Endpoint accounts and invitations\<close>

record account_update =
  au_account :: string
  au_revision :: int
  au_status :: string

fun account_status_name :: "account_status \<Rightarrow> string" where
  "account_status_name AccountActive = ''active''"
| "account_status_name AccountDisabled = ''disabled''"

definition account_status_of :: "string \<Rightarrow> account_status option" where
  "account_status_of s = (if s = ''active'' then Some AccountActive else if s = ''disabled'' then Some AccountDisabled else None)"

definition switch_account :: "string \<Rightarrow> string \<Rightarrow> account_status \<Rightarrow> string \<Rightarrow> instant \<Rightarrow> nat prog" where
  "switch_account tenant account status user t =
     bind (delete_endpoint_sessions (\<lambda>s. es_tenant s = tenant \<and> es_account s = account)) (\<lambda>revoked.
     bind (query (granted_to tenant account)) (\<lambda>granted.
     andthen (update_tokens granted (\<lambda>e. e\<lparr>et_revoked := Some t\<rparr>))
     (andthen (update_accounts (\<lambda>a. ea_tenant a = tenant \<and> ea_id a = account) (\<lambda>a. a\<lparr>ea_password_version := ea_password_version a + 1\<rparr>))
     (andthen (if status = AccountDisabled
         then andthen (update_rows password_resets password_resets_update no_trigger
           (\<lambda>r. pw_tenant r = tenant \<and> pw_account r = account \<and> pw_resolved r = None)
           (\<lambda>r. r\<lparr>pw_resolved := Some t, pw_resolved_by := Some user\<rparr>)) (ret ())
         else ret ())
     (ret revoked)))))"

definition rewrite_account ::
  "env \<Rightarrow> principal \<Rightarrow> account_row \<Rightarrow> string \<Rightarrow> string \<Rightarrow> account_status \<Rightarrow> int \<Rightarrow> datetime \<Rightarrow> account_update prog" where
  "rewrite_account E p target account name status revision now =
     bind (utc_text now) (\<lambda>t.
     bind (if ea_status target \<noteq> status then switch_account (pr_tenant p) account status (pr_user p) t else ret 0) (\<lambda>revoked.
     andthen (update_accounts (\<lambda>a. ea_tenant a = pr_tenant p \<and> ea_id a = account) (\<lambda>a. a\<lparr>ea_name := name, ea_status := status\<rparr>))
     (bind (bump_identity (pr_tenant p) ManagedAccount account revision) (\<lambda>updated.
      andthen (audit_append E (pr_tenant p) ''endpoint_account.updated'' ''user'' (pr_user p) ''endpoint_account'' account
        (JObj [(''previous_status'', JStr (account_status_name (ea_status target))), (''status'', JStr (account_status_name status)),
           (''display_name'', JStr name), (''revision'', JInt updated), count_json ''revoked_sessions'' revoked,
           (''collector_credentials_unchanged'', JBool True)]) now)
      (ret \<lparr>au_account = account, au_revision = updated, au_status = account_status_name status\<rparr>)))))"

definition update_account_transaction ::
  "env \<Rightarrow> principal \<Rightarrow> string \<Rightarrow> string \<Rightarrow> account_status \<Rightarrow> int \<Rightarrow> datetime \<Rightarrow> account_update prog" where
  "update_account_transaction E p account name status revision now =
     andthen (require_admin_in p now)
     (bind (query (account_at (pr_tenant p) account)) (\<lambda>row.
      case row of
        None \<Rightarrow> raise NetworkError ''this person is not in the selected network''
      | Some target \<Rightarrow>
          andthen (require_identity_revision (pr_tenant p) ManagedAccount account revision)
          (if ea_name target = name \<and> ea_status target = status
           then ret \<lparr>au_account = account, au_revision = revision, au_status = account_status_name status\<rparr>
           else rewrite_account E p target account name status revision now)))"

definition update_account :: "env \<Rightarrow> principal \<Rightarrow> string \<Rightarrow> string \<Rightarrow> string \<Rightarrow> int \<Rightarrow> datetime \<Rightarrow> account_update prog" where
  "update_account E p account display_name status revision now =
     (let name = strip display_name in
      case account_status_of status of
        None \<Rightarrow> raise NetworkError ''enter a valid name and sign-in state''
      | Some st \<Rightarrow> andthen (raise_if (\<not> display_name_ok name) NetworkError ''enter a valid name and sign-in state'')
          (atomically (update_account_transaction E p account name st revision now)))"

definition revoke_invite :: "env \<Rightarrow> principal \<Rightarrow> string \<Rightarrow> datetime \<Rightarrow> unit prog" where
  "revoke_invite E p invite now = atomically
     (andthen (require_admin_in p now)
     (bind (utc_text now) (\<lambda>t.
      bind (update_rows human_invites human_invites_update human_invite_identity_immutable
        (\<lambda>i. hi_tenant i = pr_tenant p \<and> hi_id i = invite \<and> hi_consumed i = None \<and> hi_revoked i = None)
        (\<lambda>i. i\<lparr>hi_revoked := Some t\<rparr>)) (\<lambda>changed.
      andthen (raise_if (changed \<noteq> 1) NetworkConflictError ''this invitation was already used or revoked; refresh the team list'')
      (andthen (audit_append E (pr_tenant p) ''human_invite.revoked'' ''user'' (pr_user p) ''human_invite'' invite (JObj []) now)
      (ret ()))))))"

section \<open>Entry routes\<close>

definition eligible_entry_domain :: "string option \<Rightarrow> string option \<Rightarrow> string \<Rightarrow> bool" where
  "eligible_entry_domain value base_domain canonical_host = (case (base_domain, value) of
     (Some base, Some v) \<Rightarrow>
       (let domain = lower (strip v); prefix = takeWhile (\<lambda>c. c \<noteq> CHR ''.'') domain; suffix = tl (dropWhile (\<lambda>c. c \<noteq> CHR ''.'') domain) in
        length domain \<le> 190 \<and> domain_ok domain \<and> prefix \<noteq> [] \<and> domain = v \<and> suffix = base \<and> domain \<noteq> canonical_host)
   | _ \<Rightarrow> False)"

datatype routing_status = Route_Unavailable | Route_Paused | Route_Entry_Enabled | Route_Namespace_Only

record route_view =
  rw_entry :: "string option"
  rw_enabled :: bool
  rw_status :: routing_status

definition describe_route :: "string option \<Rightarrow> string \<Rightarrow> int \<Rightarrow> network_view \<Rightarrow> route_view" where
  "describe_route base host portnum n =
     (let eligible = eligible_entry_domain (nv_domain n) base host;
          port = (if portnum = 443 then [] else '':'' @ show_int portnum) in
      \<lparr>rw_entry = (if eligible then Some (''https://'' @ (case nv_domain n of None \<Rightarrow> [] | Some d \<Rightarrow> d) @ port @ ''/'') else None),
       rw_enabled = nv_route n,
       rw_status = (if \<not> eligible then Route_Unavailable
         else if t_status (nv_tenant n) \<noteq> TenantActive then Route_Paused
         else if nv_route n then Route_Entry_Enabled else Route_Namespace_Only)\<rparr>)"

record route_update =
  ru_tenant :: string
  ru_revision :: int
  ru_enabled :: bool

definition upsert_route :: "string \<Rightarrow> bool \<Rightarrow> instant \<Rightarrow> unit prog" where
  "upsert_route tenant enabled t = insert_checked
     (\<lambda>d. row_exists (\<lambda>n. nm_tenant n = tenant) (namespaces d))
     (\<lambda>d. d\<lparr>network_routes := upsert (\<lambda>r. rt_tenant r = tenant) (\<lambda>r. r\<lparr>rt_enabled := enabled, rt_updated := t\<rparr>)
        \<lparr>rt_tenant = tenant, rt_enabled = enabled, rt_updated = t\<rparr> (network_routes d)\<rparr>)"

definition switch_route :: "env \<Rightarrow> principal \<Rightarrow> string \<Rightarrow> string option \<Rightarrow> bool \<Rightarrow> int \<Rightarrow> datetime \<Rightarrow> route_update prog" where
  "switch_route E p tenant domain enabled revision now =
     bind (utc_text now) (\<lambda>t.
     andthen (upsert_route tenant enabled t)
     (bind (bump tenant revision) (\<lambda>updated.
      andthen (for_each (\<lambda>scope_tenant. andthen
         (audit_append E scope_tenant ''network.entry_route_updated'' ''platform_owner'' (pr_user p) ''network'' tenant
           (JObj [(''entry_enabled'', JBool enabled), (''login_domain'', case domain of None \<Rightarrow> JNull | Some s \<Rightarrow> JStr s),
              (''revision'', JInt updated), (''external_verification'', JStr ''not_verified'')]) now) (ret ()))
         (if pr_tenant p = tenant then [tenant] else [tenant, pr_tenant p]))
      (ret \<lparr>ru_tenant = tenant, ru_revision = updated, ru_enabled = enabled\<rparr>))))"

definition configure_transaction ::
  "env \<Rightarrow> string option \<Rightarrow> string \<Rightarrow> principal \<Rightarrow> string \<Rightarrow> bool \<Rightarrow> int \<Rightarrow> datetime \<Rightarrow> route_update prog" where
  "configure_transaction E base host p tenant enabled revision now =
     andthen (require_owner p now)
     (bind (require_network tenant revision) (\<lambda>(row, domain).
      andthen (raise_if (enabled \<and> (\<not> eligible_entry_domain domain base host \<or> t_status row \<noteq> TenantActive)) NetworkError
        ''configure an active network namespace under the current base domain first'')
      (bind (query (route_enabled tenant)) (\<lambda>previous.
       if previous = enabled then ret \<lparr>ru_tenant = tenant, ru_revision = revision, ru_enabled = enabled\<rparr>
       else switch_route E p tenant domain enabled revision now))))"

definition configure_route ::
  "env \<Rightarrow> string option \<Rightarrow> string \<Rightarrow> principal \<Rightarrow> string \<Rightarrow> bool \<Rightarrow> int \<Rightarrow> datetime \<Rightarrow> route_update prog" where
  "configure_route E base host p tenant enabled revision now = atomically (configure_transaction E base host p tenant enabled revision now)"

section \<open>Stale updates\<close>

datatype managed_call =
    Update_Network principal string string string int
  | Adopt_Namespace "string option" principal string string int
  | Configure_Route "string option" string principal string bool int
  | Update_Member principal string role user_status role user_status int
  | Update_Account principal string string string int

datatype managed = Managed_Network string | Managed_Identity string managed_kind string

fun managed_target :: "managed_call \<Rightarrow> managed" where
  "managed_target (Update_Network p tenant name status revision) = Managed_Network tenant"
| "managed_target (Adopt_Namespace base p tenant slug revision) = Managed_Network tenant"
| "managed_target (Configure_Route base host p tenant enabled revision) = Managed_Network tenant"
| "managed_target (Update_Member p user r st er es revision) = Managed_Identity (pr_tenant p) ManagedUser user"
| "managed_target (Update_Account p account name status revision) = Managed_Identity (pr_tenant p) ManagedAccount account"

fun quoted_revision :: "managed_call \<Rightarrow> int" where
  "quoted_revision (Update_Network p tenant name status revision) = revision"
| "quoted_revision (Adopt_Namespace base p tenant slug revision) = revision"
| "quoted_revision (Configure_Route base host p tenant enabled revision) = revision"
| "quoted_revision (Update_Member p user r st er es revision) = revision"
| "quoted_revision (Update_Account p account name status revision) = revision"

definition run_managed :: "env \<Rightarrow> managed_call \<Rightarrow> datetime \<Rightarrow> int prog" where
  "run_managed E call now = (case call of
     Update_Network p tenant name status revision \<Rightarrow> bind (update_network E p tenant name status revision now) (\<lambda>x. ret (nu_revision x))
   | Adopt_Namespace base p tenant slug revision \<Rightarrow> bind (adopt_namespace E base p tenant slug revision now) (\<lambda>x. ret (an_revision x))
   | Configure_Route base host p tenant enabled revision \<Rightarrow>
       bind (configure_route E base host p tenant enabled revision now) (\<lambda>x. ret (ru_revision x))
   | Update_Member p user r st er es revision \<Rightarrow> bind (update_member E p user r st er es revision now) (\<lambda>x. ret (mu_revision x))
   | Update_Account p account name status revision \<Rightarrow>
       bind (update_account E p account name status revision now) (\<lambda>x. ret (au_revision x)))"

fun managed_revision :: "managed \<Rightarrow> db \<Rightarrow> int" where
  "managed_revision (Managed_Network tenant) d = revision_of tenant d"
| "managed_revision (Managed_Identity tenant kind identity_id) d = identity_revision_of tenant kind identity_id d"

text \<open>The updates of a history that took effect: those whose answer carries a new revision.\<close>

fun effective_updates :: "env \<Rightarrow> (managed_call \<times> datetime) list \<Rightarrow> world \<Rightarrow> (managed \<times> int) list" where
  "effective_updates E [] w = []"
| "effective_updates E ((call, now) # calls) w = (case run_managed E call now w of
     (Inl _, w') \<Rightarrow> effective_updates E calls w'
   | (Inr new, w') \<Rightarrow>
       if new = quoted_revision call then effective_updates E calls w'
       else (managed_target call, quoted_revision call) # effective_updates E calls w')"

text \<open>What one update does to the revisions of all targets.\<close>

definition revised :: "managed \<Rightarrow> int \<Rightarrow> db \<Rightarrow> int \<Rightarrow> db \<Rightarrow> bool" where
  "revised target quoted d new d' \<longleftrightarrow> managed_revision target d = quoted \<and>
     (if new = quoted then d' = d
      else new = quoted + 1 \<and> (\<forall>x. managed_revision x d' = (if x = target then quoted + 1 else managed_revision x d)))"

definition same_revisions :: "db \<Rightarrow> db \<Rightarrow> bool" where
  "same_revisions d d' \<longleftrightarrow> (\<forall>x. managed_revision x d' = managed_revision x d)"

lemma same_revisionsI:
  "network_revisions d' = network_revisions d \<Longrightarrow> management_revisions d' = management_revisions d \<Longrightarrow> same_revisions d d'"
  unfolding same_revisions_def by (rule allI, case_tac x) (simp_all add: revision_of_def identity_revision_of_def)

lemma revision_of_bump:
  assumes "network_revisions d' = upsert (\<lambda>r. nr_tenant r = tenant) (\<lambda>r. r\<lparr>nr_revision := n\<rparr>) \<lparr>nr_tenant = tenant, nr_revision = n\<rparr> (network_revisions d)"
  shows "revision_of t d' = (if t = tenant then n else revision_of t d)"
proof (cases "t = tenant")
  case False
  then have "List.find (\<lambda>r. nr_tenant r = t) (network_revisions d') = List.find (\<lambda>r. nr_tenant r = t) (network_revisions d)"
    unfolding assms by (intro find_upsert_apart) auto
  with False show ?thesis by (simp add: revision_of_def)
qed (simp add: revision_of_def assms find_upsert split: option.split)

lemma identity_revision_of_key: "identity_revision_of tenant kind i d =
    (case List.find (revision_key tenant kind i) (management_revisions d) of None \<Rightarrow> 1 | Some r \<Rightarrow> mr_revision r)"
  by (simp add: identity_revision_of_def revision_key_def [abs_def])

lemma identity_revision_of_bump:
  assumes "management_revisions d' = upsert (revision_key tenant kind i) (\<lambda>r. r\<lparr>mr_revision := n\<rparr>)
      \<lparr>mr_tenant = tenant, mr_kind = kind, mr_identity = i, mr_revision = n\<rparr> (management_revisions d)"
  shows "identity_revision_of t k j d' = (if t = tenant \<and> k = kind \<and> j = i then n else identity_revision_of t k j d)"
proof (cases "t = tenant \<and> k = kind \<and> j = i")
  case True
  have "List.find (revision_key tenant kind i) (management_revisions d') = Some (case List.find (revision_key tenant kind i) (management_revisions d) of
      None \<Rightarrow> \<lparr>mr_tenant = tenant, mr_kind = kind, mr_identity = i, mr_revision = n\<rparr> | Some x \<Rightarrow> x\<lparr>mr_revision := n\<rparr>)"
    unfolding assms by (rule find_upsert) (simp_all add: revision_key_def)
  with True show ?thesis by (simp add: identity_revision_of_key split: option.split)
next
  case False
  then have "List.find (revision_key t k j) (management_revisions d') = List.find (revision_key t k j) (management_revisions d)"
    unfolding assms by (intro find_upsert_apart) (auto simp: revision_key_def)
  with False show ?thesis by (auto simp: identity_revision_of_key)
qed

definition revisions_are :: "network_revision_row list \<Rightarrow> management_revision_row list \<Rightarrow> db \<Rightarrow> bool" where
  "revisions_are X Y d \<longleftrightarrow> network_revisions d = X \<and> management_revisions d = Y"

definition revised_to :: "managed \<Rightarrow> int \<Rightarrow> db \<Rightarrow> db \<Rightarrow> bool" where
  "revised_to target n d d' \<longleftrightarrow> (\<forall>x. managed_revision x d' = (if x = target then n else managed_revision x d))"

lemma managed_revision_audit [simp]: "managed_revision x (with_audit l n c d) = managed_revision x d"
  by (cases x) (simp_all add: revision_of_def identity_revision_of_def)

lemma commits_revisions_audit:
  "commits (revisions_are X Y) (audit_append E t action actor_type actor_id resource_type resource_id payload now)"
  "commits (revised_to target n d) (audit_append E t action actor_type actor_id resource_type resource_id payload now)"
  by (rule keeps_commits, rule auditing.keeps_append, simp add: revisions_are_def revised_to_def)+

lemma keeps_revisions_updates:
  "keeps (revisions_are X Y) (suspend_network tenant t)"
  "keeps (revisions_are X Y) (switch_account tenant account st user t)"
  "keeps (revisions_are X Y) (update_tokens A f)" "keeps (revisions_are X Y) (update_accounts B g)"
  "keeps (revisions_are X Y) (expire_undelivered_actions tenant u t)"
  "keeps (revisions_are X Y) (upsert_route tenant enabled t)" "keeps (revisions_are X Y) (insert_namespace r)"
  "keeps (revisions_are X Y) (update_rows tenants tenants_update no_trigger C h)"
  "keeps (revisions_are X Y) (update_rows users users_update no_trigger D i)"
  "keeps (revisions_are X Y) (update_rows sessions sessions_update no_trigger F j)"
  "keeps (revisions_are X Y) (update_rows human_invites human_invites_update human_invite_identity_immutable G k)"
  "keeps (revisions_are X Y) (update_rows auth_challenges auth_challenges_update no_trigger H l)"
  unfolding suspend_network_def switch_account_def update_tokens_def update_accounts_def delete_endpoint_sessions_def
    expire_undelivered_actions_def upsert_route_def insert_namespace_def
  by (intro keeps_rules; simp add: revisions_are_def)+

lemmas commits_revisions_updates = keeps_revisions_updates [THEN keeps_commits]

lemma wp_before:
  assumes "commits J m" "J (tables w)" "\<And>x v. J (tables v) \<Longrightarrow> wp (f x) Q (\<lambda>_ _. True) v"
  shows "wp (bind m f) Q (\<lambda>_ _. True) w"
  unfolding wp_bind by (rule wp_mono [OF commitsD [OF assms(1,2)]]) (use assms(3) in auto)

lemma wp_before_then:
  "commits J m \<Longrightarrow> J (tables w) \<Longrightarrow> (\<And>v. J (tables v) \<Longrightarrow> wp k Q (\<lambda>_ _. True) v) \<Longrightarrow> wp (andthen m k) Q (\<lambda>_ _. True) w"
  unfolding andthen_def by (rule wp_before)

lemma wp_bumps:
  fixes w d :: _
  assumes "revisions_are (network_revisions d) (management_revisions d) (tables w)"
  shows "(\<And>v. revised_to (Managed_Network tenant) (revision + 1) d (tables v) \<Longrightarrow> wp (f (revision + 1)) Q (\<lambda>_ _. True) v) \<Longrightarrow>
      wp (bind (bump tenant revision) f) Q (\<lambda>_ _. True) w"
    "(\<And>v. revised_to (Managed_Identity tenant kind i) (revision + 1) d (tables v) \<Longrightarrow> wp (f (revision + 1)) Q (\<lambda>_ _. True) v) \<Longrightarrow>
      wp (bind (bump_identity tenant kind i revision) f) Q (\<lambda>_ _. True) w"
proof -
  have net: "revised_to (Managed_Network tenant) n d d'"
    if "network_revisions d' = upsert (\<lambda>r. nr_tenant r = tenant) (\<lambda>r. r\<lparr>nr_revision := n\<rparr>) \<lparr>nr_tenant = tenant, nr_revision = n\<rparr> (network_revisions d)"
      "management_revisions d' = management_revisions d" for d' n
    unfolding revised_to_def
    by (rule allI, case_tac x) (use that revision_of_bump [OF that(1)] in \<open>simp_all add: identity_revision_of_def\<close>)
  have ident: "revised_to (Managed_Identity tenant kind i) n d d'"
    if "management_revisions d' = upsert (revision_key tenant kind i) (\<lambda>r. r\<lparr>mr_revision := n\<rparr>)
        \<lparr>mr_tenant = tenant, mr_kind = kind, mr_identity = i, mr_revision = n\<rparr> (management_revisions d)"
      "network_revisions d' = network_revisions d" for d' n
    unfolding revised_to_def
    by (rule allI, case_tac x) (use that identity_revision_of_bump [OF that(1)] in \<open>simp_all add: revision_of_def\<close>)
  show "wp (bind (bump tenant revision) f) Q (\<lambda>_ _. True) w"
    if "\<And>v. revised_to (Managed_Network tenant) (revision + 1) d (tables v) \<Longrightarrow> wp (f (revision + 1)) Q (\<lambda>_ _. True) v"
    using assms by (auto simp: bump_def wp_bind wp_andthen wp_insert_checked wp_ret revisions_are_def intro!: that net)
  show "wp (bind (bump_identity tenant kind i revision) f) Q (\<lambda>_ _. True) w"
    if "\<And>v. revised_to (Managed_Identity tenant kind i) (revision + 1) d (tables v) \<Longrightarrow> wp (f (revision + 1)) Q (\<lambda>_ _. True) v"
    using assms by (auto simp: bump_identity_def wp_bind wp_andthen wp_insert_checked wp_ret revisions_are_def intro!: that ident)
qed

lemma wp_aware: "(\<And>t. now = Aware t \<Longrightarrow> wp (f t) Q (\<lambda>_ _. True) w) \<Longrightarrow> wp (bind (utc_text now) f) Q (\<lambda>_ _. True) w"
  by (cases now) (simp_all add: wp_rules)

lemma rewrites_revise:
  fixes w :: world
  shows "wp (rewrite_network E p previous tenant name st revision now)
      (\<lambda>x w'. nu_revision x = revision + 1 \<and> revised_to (Managed_Network tenant) (revision + 1) (tables w) (tables w')) (\<lambda>_ _. True) w"
    "wp (rewrite_member E p user r ust er es revision now)
      (\<lambda>x w'. mu_revision x = revision + 1 \<and> revised_to (Managed_Identity (pr_tenant p) ManagedUser user) (revision + 1) (tables w) (tables w')) (\<lambda>_ _. True) w"
    "wp (rewrite_account E p target account name ast revision now)
      (\<lambda>x w'. au_revision x = revision + 1 \<and> revised_to (Managed_Identity (pr_tenant p) ManagedAccount account) (revision + 1) (tables w) (tables w')) (\<lambda>_ _. True) w"
    "wp (switch_route E p tenant domain enabled revision now)
      (\<lambda>x w'. ru_revision x = revision + 1 \<and> revised_to (Managed_Network tenant) (revision + 1) (tables w) (tables w')) (\<lambda>_ _. True) w"
proof -
  let ?J = "revisions_are (network_revisions (tables w)) (management_revisions (tables w))"
  have J: "?J (tables w)" by (simp add: revisions_are_def)
  note pre = wp_before [where J = ?J] wp_before_then [where J = ?J]
  note tail = wp_owner_audit [OF _ commits_revisions_audit(2)]
  show "wp (rewrite_network E p previous tenant name st revision now)
      (\<lambda>x w'. nu_revision x = revision + 1 \<and> revised_to (Managed_Network tenant) (revision + 1) (tables w) (tables w')) (\<lambda>_ _. True) w"
    unfolding rewrite_network_def Let_def
    by (rule wp_aware, (rule pre wp_bumps(1), (intro commits_revisions_updates commits_rules J | assumption)+)+)
      (auto simp: wp_rules intro!: tail)
  show "wp (rewrite_member E p user r ust er es revision now)
      (\<lambda>x w'. mu_revision x = revision + 1 \<and> revised_to (Managed_Identity (pr_tenant p) ManagedUser user) (revision + 1) (tables w) (tables w')) (\<lambda>_ _. True) w"
    unfolding rewrite_member_def
    by (rule wp_aware, (rule pre wp_bumps(2), (intro commits_revisions_updates commits_rules J | assumption)+)+)
      (auto simp: wp_rules intro!: tail)
  show "wp (rewrite_account E p target account name ast revision now)
      (\<lambda>x w'. au_revision x = revision + 1 \<and> revised_to (Managed_Identity (pr_tenant p) ManagedAccount account) (revision + 1) (tables w) (tables w')) (\<lambda>_ _. True) w"
    unfolding rewrite_account_def
    by (rule wp_aware, (rule pre wp_bumps(2), (intro commits_revisions_updates commits_rules J | assumption)+)+)
      (auto simp: wp_rules intro!: tail)
  show "wp (switch_route E p tenant domain enabled revision now)
      (\<lambda>x w'. ru_revision x = revision + 1 \<and> revised_to (Managed_Network tenant) (revision + 1) (tables w) (tables w')) (\<lambda>_ _. True) w"
    unfolding switch_route_def
    by (rule wp_aware, rule pre(2), (intro commits_revisions_updates J)+, rule wp_bumps(1), assumption)
      (auto simp: wp_rules intro!: tail)
qed

lemma wp_require_owner: "(owner_at p (tables w) \<Longrightarrow> Q () w) \<Longrightarrow> (\<And>e. Er e w) \<Longrightarrow> wp (require_owner p now) Q Er w"
  for w :: world
  unfolding require_owner_def require_admin_in_def by (subst wp_andthen, rule wp_require_current) (auto simp: wp_rules)

lemma wp_require_network:
  fixes w :: world
  assumes "\<And>t. tenant_row_at tenant (tables w) = Some t \<Longrightarrow> revision_of tenant (tables w) = revision \<Longrightarrow> Q (t, domain_of tenant (tables w)) w"
    and "\<And>e. Er e w"
  shows "wp (require_network tenant revision) Q Er w"
  unfolding require_network_def using assms by (auto simp: wp_rules split: option.split)

lemma revised_rewritten: "managed_revision target d = q \<Longrightarrow> n = q + 1 \<Longrightarrow> revised_to target (q + 1) d d' \<Longrightarrow> revised target q d n d'"
  by (simp add: revised_def revised_to_def)

lemma revised_same: "managed_revision target d = q \<Longrightarrow> revised target q d q d"
  by (simp add: revised_def)

lemma wp_transaction:
  fixes w :: world
  assumes "wp m (\<lambda>x w'. R x (tables w')) (\<lambda>_ _. True) (w\<lparr>in_tx := True\<rparr>)"
  shows "wp (atomically m) (\<lambda>x w'. R x (tables w')) (\<lambda>_ w'. tables w' = tables w) w"
  unfolding wp_atomically by (rule wp_mono [OF assms]) auto

lemma transactions_revise:
  fixes w :: world
  shows "wp (update_network_transaction E p tenant name st revision now)
      (\<lambda>x w'. revised (Managed_Network tenant) revision (tables w) (nu_revision x) (tables w')) (\<lambda>_ _. True) w"
    "wp (adopt_transaction E p tenant domain revision now)
      (\<lambda>x w'. revised (Managed_Network tenant) revision (tables w) (an_revision x) (tables w')) (\<lambda>_ _. True) w"
    "wp (configure_transaction E base host p tenant enabled revision now)
      (\<lambda>x w'. revised (Managed_Network tenant) revision (tables w) (ru_revision x) (tables w')) (\<lambda>_ _. True) w"
    "wp (update_member_transaction E p user r ust er es revision now)
      (\<lambda>x w'. revised (Managed_Identity (pr_tenant p) ManagedUser user) revision (tables w) (mu_revision x) (tables w')) (\<lambda>_ _. True) w"
    "wp (update_account_transaction E p account name ast revision now)
      (\<lambda>x w'. revised (Managed_Identity (pr_tenant p) ManagedAccount account) revision (tables w) (au_revision x) (tables w')) (\<lambda>_ _. True) w"
proof -
  note rewritten = wp_mono [OF rewrites_revise(1)] wp_mono [OF rewrites_revise(2)] wp_mono [OF rewrites_revise(3)] wp_mono [OF rewrites_revise(4)]
  show "wp (update_network_transaction E p tenant name st revision now)
      (\<lambda>x w'. revised (Managed_Network tenant) revision (tables w) (nu_revision x) (tables w')) (\<lambda>_ _. True) w"
    unfolding update_network_transaction_def
    by (subst wp_andthen, rule wp_require_owner, subst wp_bind, rule wp_require_network)
      (auto simp: wp_rules intro!: rewritten revised_rewritten revised_same)
  show "wp (configure_transaction E base host p tenant enabled revision now)
      (\<lambda>x w'. revised (Managed_Network tenant) revision (tables w) (ru_revision x) (tables w')) (\<lambda>_ _. True) w"
    unfolding configure_transaction_def
    by (subst wp_andthen, rule wp_require_owner, subst wp_bind, rule wp_require_network)
      (auto simp: wp_rules intro!: rewritten revised_rewritten revised_same)
  show "wp (update_member_transaction E p user r ust er es revision now)
      (\<lambda>x w'. revised (Managed_Identity (pr_tenant p) ManagedUser user) revision (tables w) (mu_revision x) (tables w')) (\<lambda>_ _. True) w"
    unfolding update_member_transaction_def require_admin_in_def require_identity_revision_def
    by (subst wp_andthen, rule wp_require_current)
      (auto simp: wp_rules intro!: rewritten revised_rewritten revised_same split: option.split)
  show "wp (update_account_transaction E p account name ast revision now)
      (\<lambda>x w'. revised (Managed_Identity (pr_tenant p) ManagedAccount account) revision (tables w) (au_revision x) (tables w')) (\<lambda>_ _. True) w"
    unfolding update_account_transaction_def require_admin_in_def require_identity_revision_def
    by (subst wp_andthen, rule wp_require_current)
      (auto simp: wp_rules intro!: rewritten revised_rewritten revised_same split: option.split)
  show "wp (adopt_transaction E p tenant domain revision now)
      (\<lambda>x w'. revised (Managed_Network tenant) revision (tables w) (an_revision x) (tables w')) (\<lambda>_ _. True) w"
  proof -
    let ?J = "revisions_are (network_revisions (tables w)) (management_revisions (tables w))"
    have "wp (bind (utc_text now) (\<lambda>t.
       andthen (on_integrity_error (insert_namespace \<lparr>nm_tenant = tenant, nm_domain = domain, nm_created = t\<rparr>)
         NetworkConflictError ''that account subdomain is already in use'')
       (bind (bump tenant revision) (\<lambda>updated.
        andthen (audit_append E tenant ''network.namespace_adopted'' ''platform_owner'' (pr_user p) ''network'' tenant
          (JObj [(''login_domain'', JStr domain), (''revision'', JInt updated)]) now)
        (ret \<lparr>an_tenant = tenant, an_domain = domain, an_revision = updated\<rparr>)))))
      (\<lambda>x w'. an_revision x = revision + 1 \<and> revised_to (Managed_Network tenant) (revision + 1) (tables w) (tables w')) (\<lambda>_ _. True) w" for revision
      by (rule wp_aware, rule wp_before_then [where J = ?J], (intro commits_revisions_updates commits_rules, simp add: revisions_are_def), rule wp_bumps(1), assumption)
        (auto simp: wp_rules intro!: wp_owner_audit [OF _ commits_revisions_audit(2)])
    note tail = wp_mono [OF this]
    show ?thesis
      unfolding adopt_transaction_def
      by (subst wp_andthen, rule wp_require_owner, subst wp_bind, rule wp_require_network)
        (auto simp: wp_andthen [of "raise_if b c m" for b c m] wp_raise_if wp_case_prod intro!: tail revised_rewritten)
  qed
qed

lemma run_managed_revises:
  "wp (run_managed E call now)
     (\<lambda>new w'. revised (managed_target call) (quoted_revision call) (tables w) new (tables w')) (\<lambda>_ w'. tables w' = tables w) w"
proof -
  note tx = wp_mono [OF wp_transaction [OF transactions_revise(1)]] wp_mono [OF wp_transaction [OF transactions_revise(2)]]
    wp_mono [OF wp_transaction [OF transactions_revise(3)]] wp_mono [OF wp_transaction [OF transactions_revise(4)]]
    wp_mono [OF wp_transaction [OF transactions_revise(5)]]
  show ?thesis
    by (cases call)
      (auto simp: run_managed_def update_network_def adopt_namespace_def configure_route_def update_member_def update_account_def
         normalize_domain_def Let_def wp_bind wp_andthen wp_raise_if wp_ret wp_raise intro!: tx split: option.split)
qed

lemma effective_updates_later:
  "(x, q) \<in> set (effective_updates E calls w) \<Longrightarrow> managed_revision x (tables w) \<le> q"
proof (induction E calls w rule: effective_updates.induct)
  case (2 E call now calls w)
  show ?case
  proof (cases "run_managed E call now w")
    case (Pair r w')
    show ?thesis
    proof (cases r)
      case (Inl e)
      with Pair have run: "run_managed E call now w = (Inl e, w')" by simp
      from wp_Inl [OF run_managed_revises run] have "tables w' = tables w" by simp
      with "2.IH"(1) [OF run [symmetric] refl] "2.prems" run show ?thesis by simp
    next
      case (Inr new)
      with Pair have run: "run_managed E call now w = (Inr new, w')" by simp
      from wp_Inr [OF run_managed_revises run] have rev: "revised (managed_target call) (quoted_revision call) (tables w) new (tables w')" .
      then have "managed_revision x (tables w) \<le> managed_revision x (tables w')"
        by (auto simp: revised_def split: if_splits)
      moreover have "managed_revision x (tables w') \<le> q" if "(x, q) \<in> set (effective_updates E calls w')"
        using "2.IH"(2,3) [OF run [symmetric] refl] that by blast
      ultimately show ?thesis
        using "2.prems" run rev by (auto simp: revised_def split: if_splits)
    qed
  qed
qed simp

text \<open>
  C38. No update is lost. Whatever updates of networks, routes, team members and accounts are made, in any
  order and by anybody, at most one of those that take effect was decided on any given revision of the
  thing it changes: of two updates prepared on the same view the later one is refused. A refused update,
  and one that changes nothing, leaves every table as it was.
\<close>

theorem no_lost_update:
  "distinct (effective_updates E calls w) \<and>
   wp (run_managed E call now) (\<lambda>new w'. new = quoted_revision call \<and> tables w' = tables w \<or>
       new = managed_revision (managed_target call) (tables w) + 1 \<and> quoted_revision call = managed_revision (managed_target call) (tables w) \<and>
       managed_revision (managed_target call) (tables w') = new)
     (\<lambda>_ w'. tables w' = tables w) w"
proof
  show "distinct (effective_updates E calls w)"
  proof (induction E calls w rule: effective_updates.induct)
    case (2 E call now calls w)
    have "(managed_target call, quoted_revision call) \<notin> set (effective_updates E calls w')"
      if "run_managed E call now w = (Inr new, w')" "new \<noteq> quoted_revision call" for new w'
      using wp_Inr [OF run_managed_revises that(1)] that(2) effective_updates_later [of "managed_target call" "quoted_revision call" E calls w']
      by (auto simp: revised_def)
    with 2 show ?case by (auto split: prod.splits sum.splits)
  qed simp
  show "wp (run_managed E call now) (\<lambda>new w'. new = quoted_revision call \<and> tables w' = tables w \<or>
       new = managed_revision (managed_target call) (tables w) + 1 \<and> quoted_revision call = managed_revision (managed_target call) (tables w) \<and>
       managed_revision (managed_target call) (tables w') = new)
     (\<lambda>_ w'. tables w' = tables w) w"
    by (rule wp_mono [OF run_managed_revises]) (auto simp: revised_def split: if_splits)
qed

section \<open>Suspending a network\<close>

definition cut_tables :: "string \<Rightarrow> db \<Rightarrow> bool" where
  "cut_tables tenant d \<longleftrightarrow> (\<forall>s \<in> set (sessions d). se_tenant s = tenant \<longrightarrow> se_revoked s \<noteq> None) \<and>
     (\<forall>s \<in> set (endpoint_sessions d). es_tenant s \<noteq> tenant) \<and>
     (\<forall>c \<in> set (auth_challenges d). ac_tenant c = Some tenant \<longrightarrow> ac_consumed c \<noteq> None) \<and>
     (\<forall>i \<in> set (human_invites d). hi_tenant i = tenant \<longrightarrow> hi_revoked i \<noteq> None \<or> hi_consumed i \<noteq> None) \<and>
     (\<forall>e \<in> set (enrollment_tokens d). et_tenant e = tenant \<longrightarrow> et_revoked e \<noteq> None) \<and>
     (\<forall>r \<in> set (response_actions d). ra_tenant r = tenant \<longrightarrow> ra_status r \<noteq> Proposed \<and> ra_status r \<noteq> Approved)"

definition outside_kept :: "string \<Rightarrow> db \<Rightarrow> db \<Rightarrow> bool" where
  "outside_kept tenant d d' \<longleftrightarrow> filter (\<lambda>t. t_id t \<noteq> tenant) (tenants d') = filter (\<lambda>t. t_id t \<noteq> tenant) (tenants d) \<and>
     filter (\<lambda>s. se_tenant s \<noteq> tenant) (sessions d') = filter (\<lambda>s. se_tenant s \<noteq> tenant) (sessions d) \<and>
     filter (\<lambda>s. es_tenant s \<noteq> tenant) (endpoint_sessions d') = filter (\<lambda>s. es_tenant s \<noteq> tenant) (endpoint_sessions d) \<and>
     filter (\<lambda>e. et_tenant e \<noteq> tenant) (enrollment_tokens d') = filter (\<lambda>e. et_tenant e \<noteq> tenant) (enrollment_tokens d) \<and>
     filter (\<lambda>r. ra_tenant r \<noteq> tenant) (response_actions d') = filter (\<lambda>r. ra_tenant r \<noteq> tenant) (response_actions d) \<and>
     users d' = users d \<and> devices d' = devices d \<and> device_credentials d' = device_credentials d \<and> endpoint_accounts d' = endpoint_accounts d \<and>
     cases d' = cases d \<and> events d' = events d \<and> alerts d' = alerts d"

definition switched_off :: "string \<Rightarrow> db \<Rightarrow> db \<Rightarrow> bool" where
  "switched_off tenant d d' \<longleftrightarrow> cut_tables tenant d' \<and> outside_kept tenant d d' \<and> \<not> tenant_active tenant d'"

definition cutting :: "string \<Rightarrow> db \<Rightarrow> db \<Rightarrow> bool" where
  "cutting tenant d d' \<longleftrightarrow> cut_tables tenant d' \<and> outside_kept tenant d d'"

lemma filter_update_apart: "(\<And>r. P r \<Longrightarrow> \<not> Q r) \<Longrightarrow> (\<And>r. P r \<Longrightarrow> \<not> Q (f r)) \<Longrightarrow> filter Q (update_where P f rows) = filter Q rows"
  by (induction rows) auto

lemma filter_delete_apart: "(\<And>r. P r \<Longrightarrow> \<not> Q r) \<Longrightarrow> filter Q (delete_where P rows) = filter Q rows"
  by (induction rows) (auto simp: delete_where_def)

lemma switched_off_audit [simp]: "switched_off tenant d (with_audit l n c d') = switched_off tenant d d'"
  by (simp add: switched_off_def cut_tables_def outside_kept_def tenant_active_def)

lemma commits_switched_off:
  "commits (switched_off tenant d) (audit_append E t action actor_type actor_id resource_type resource_id payload now)"
  by (rule keeps_commits, rule auditing.keeps_append) simp

lemma cuttingI:
  assumes "sessions d' = update_where (\<lambda>s. se_tenant s = tenant \<and> se_revoked s = None) (\<lambda>s. s\<lparr>se_revoked := Some t\<rparr>) (sessions d)"
    and "endpoint_sessions d' = delete_where (\<lambda>s. es_tenant s = tenant) (endpoint_sessions d)"
    and "auth_challenges d' = update_where (\<lambda>c. ac_tenant c = Some tenant \<and> ac_consumed c = None) (\<lambda>c. c\<lparr>ac_consumed := Some t\<rparr>) (auth_challenges d)"
    and "human_invites d' = update_where (\<lambda>i. hi_tenant i = tenant \<and> hi_revoked i = None \<and> hi_consumed i = None) (\<lambda>i. i\<lparr>hi_revoked := Some t\<rparr>) (human_invites d)"
    and "enrollment_tokens d' = update_where (\<lambda>e. et_tenant e = tenant \<and> et_revoked e = None) (\<lambda>e. e\<lparr>et_revoked := Some t\<rparr>) (enrollment_tokens d)"
    and "response_actions d' = update_where (\<lambda>r. ra_tenant r = tenant \<and> (ra_status r = Proposed \<or> ra_status r = Approved))
      (\<lambda>r. r\<lparr>ra_status := Expired, ra_completed := Some t\<rparr>) (response_actions d)"
    and "tenants d' = tenants d" "users d' = users d" "devices d' = devices d" "device_credentials d' = device_credentials d"
      "endpoint_accounts d' = endpoint_accounts d" "cases d' = cases d" "events d' = events d" "alerts d' = alerts d"
  shows "cutting tenant d d'"
proof -
  have "cut_tables tenant d'"
    unfolding cut_tables_def assms set_update_where set_delete_where by (intro conjI ballI; auto simp del: if_image_distrib split: if_splits)
  moreover have "outside_kept tenant d d'"
    unfolding outside_kept_def assms by (intro conjI filter_update_apart filter_delete_apart; simp)
  ultimately show ?thesis by (simp add: cutting_def)
qed

lemma wp_suspend_network:
  fixes w :: world
  assumes "\<And>x v. cutting tenant (tables w) (tables v) \<Longrightarrow> tenants (tables v) = tenants (tables w) \<Longrightarrow> Q x v"
  shows "wp (suspend_network tenant t) Q (\<lambda>_ _. True) w"
  unfolding suspend_network_def delete_endpoint_sessions_def update_tokens_def expire_undelivered_actions_def
  by (simp add: wp_rules) (intro impI assms cuttingI; simp)

lemma switched_offI:
  assumes c: "cutting tenant d0 d" "tenants d = tenants d0"
    and d': "tenants d' = update_where (\<lambda>x. t_id x = tenant) (\<lambda>x. x\<lparr>t_name := name, t_status := TenantSuspended\<rparr>) (tenants d0)"
    and same: "sessions d' = sessions d" "endpoint_sessions d' = endpoint_sessions d" "auth_challenges d' = auth_challenges d"
      "human_invites d' = human_invites d" "enrollment_tokens d' = enrollment_tokens d" "response_actions d' = response_actions d"
      "users d' = users d" "devices d' = devices d" "device_credentials d' = device_credentials d"
      "endpoint_accounts d' = endpoint_accounts d" "cases d' = cases d" "events d' = events d" "alerts d' = alerts d"
  shows "switched_off tenant d0 d'"
proof -
  have "\<not> tenant_active tenant d'"
    unfolding tenant_active_def row_exists_iff d' set_update_where by (clarsimp simp del: if_image_distrib split: if_splits)
  moreover have "cut_tables tenant d'" using c(1) by (simp add: cutting_def cut_tables_def same)
  moreover have "filter (\<lambda>t. t_id t \<noteq> tenant) (tenants d') = filter (\<lambda>t. t_id t \<noteq> tenant) (tenants d0)"
    unfolding d' by (rule filter_update_apart) simp_all
  ultimately show ?thesis using c(1) by (simp add: switched_off_def cutting_def outside_kept_def same)
qed

lemma wp_rewrite_suspended:
  fixes w :: world
  assumes "t_status previous = TenantActive"
  shows "wp (rewrite_network E p previous tenant name TenantSuspended revision now)
    (\<lambda>_ w'. switched_off tenant (tables w) (tables w')) (\<lambda>_ _. True) w"
proof (cases now)
  case (Aware t)
  have tail: "wp (andthen (update_rows tenants tenants_update no_trigger (\<lambda>x. t_id x = tenant) (\<lambda>x. x\<lparr>t_name := name, t_status := TenantSuspended\<rparr>))
     (bind (bump tenant revision) (\<lambda>updated.
      andthen (audit_append E tenant action actor_type actor_id resource_type resource_id (payload updated) now)
      (andthen (if pr_tenant p = tenant then ret ()
          else andthen (audit_append E (pr_tenant p) action actor_type actor_id resource_type resource_id (payload2 updated) now) (ret ()))
      (ret (x updated)))))) (\<lambda>_ w'. switched_off tenant (tables w) (tables w')) (\<lambda>_ _. True) v"
    if v: "cutting tenant (tables w) (tables v)" "tenants (tables v) = tenants (tables w)"
    for action actor_type actor_id resource_type resource_id payload payload2 x v
    unfolding bump_def
    by (auto simp: wp_rules v(2) intro!: wp_owner_audit [OF _ commits_switched_off] switched_offI [OF v])
  show ?thesis
    unfolding rewrite_network_def Let_def Aware utc_text_def datetime.case bind_ret wp_bind [of "if b then m else k" for b m k]
    using assms by (simp add: Aware) (rule wp_suspend_network, rule tail [unfolded Aware])
qed (simp add: rewrite_network_def wp_rules)

lemma wp_suspends:
  fixes w :: world
  assumes "tenant_row_at tenant (tables w) = Some r" "t_status r = TenantActive"
  shows "wp (update_network E p tenant name ''suspended'' revision now)
    (\<lambda>_ w'. switched_off tenant (tables w) (tables w')) (\<lambda>_ w'. tables w' = tables w) w"
proof -
  have "wp (update_network_transaction E p tenant n TenantSuspended revision now)
      (\<lambda>_ w'. switched_off tenant (tables w) (tables w')) (\<lambda>_ _. True) (w\<lparr>in_tx := True\<rparr>)" for n
    unfolding update_network_transaction_def
    by (subst wp_andthen, rule wp_require_owner, subst wp_bind, rule wp_require_network)
      (use assms in \<open>auto simp: wp_query wp_bind wp_andthen wp_raise_if intro!: wp_mono [OF wp_rewrite_suspended]\<close>)
  from wp_transaction [OF this] show ?thesis
    by (simp add: update_network_def tenant_status_of_def Let_def wp_andthen wp_raise_if)
qed

definition network_dead :: "env \<Rightarrow> string \<Rightarrow> world \<Rightarrow> bool" where
  "network_dead E tenant w \<longleftrightarrow>
     (\<forall>token now q v. authenticate_session E token now w = (Inr q, v) \<longrightarrow> pr_tenant q \<noteq> tenant) \<and>
     (\<forall>q cap now v. require_current_capability q cap now w = (Inr (), v) \<longrightarrow> pr_tenant q \<noteq> tenant) \<and>
     (\<forall>P token now r a v. endpoint_session P token now r w = (Inr a, v) \<longrightarrow> ea_tenant a \<noteq> tenant) \<and>
     (\<forall>token dev name platform now life c v. claim_grant E token dev name platform now life w = (Inr c, v) \<longrightarrow> ed_tenant c \<noteq> tenant) \<and>
     (\<forall>R now dev v. authenticate E R now w = (Inr dev, v) \<longrightarrow> ad_tenant dev \<noteq> tenant)"

lemma inactive_row: "List.find (\<lambda>t. t_id t = tenant) (tenants d) = Some tn \<Longrightarrow> t_status tn = TenantActive \<Longrightarrow> tenant_active tenant d"
  by (auto simp: tenant_active_def row_exists_iff dest!: find_SomeD)

lemma network_dead_inactive:
  assumes off: "\<not> tenant_active tenant (tables w)"
  shows "network_dead E tenant w"
proof -
  have "pr_tenant q \<noteq> tenant" if "authenticate_session E token now w = (Inr q, v)" for token now q v
    using wp_Inr [OF authenticate_session_wp that] off by (auto simp: session_live_def principal_from_row_def)
  moreover have "pr_tenant q \<noteq> tenant" if "require_current_capability q cap now w = (Inr (), v)" for q cap now v
    using wp_Inr [OF require_current_capability_wp that] off
    by (auto simp: authority_def current_member_def split: option.splits if_splits)
  moreover have "ea_tenant a \<noteq> tenant" if run: "endpoint_session P token now r w = (Inr a, v)" for P token now r a v
  proof -
    have "wp (endpoint_session P token now r) (\<lambda>a _. \<exists>t. session_account P token t (tables w) = Some a) (\<lambda>_ _. True) w"
      by (rule wp_endpoint_session) auto
    from wp_Inr [OF this run] off show ?thesis by (auto simp: session_account_def split: option.splits if_splits)
  qed
  moreover have "ed_tenant c \<noteq> tenant" if "claim_grant E token dev name platform now life w = (Inr c, v)" for token dev name platform now life c v
    using wp_Inr [OF claim_grant_wp that] off
    by (auto simp: claim_effect_def usable_def grant_at_def tenant_row_at_def resumed_def split: option.splits if_splits dest: inactive_row)
  moreover have "ad_tenant dev \<noteq> tenant" if "authenticate E R now w = (Inr dev, v)" for R now dev v
    using wp_Inr [OF authenticate_frame that] off
    by (auto simp: accepts_def live_credential_def credential_join_def split: option.splits dest: inactive_row)
  ultimately show ?thesis by (auto simp: network_dead_def)
qed


definition two_networks :: db where
  "two_networks = sample_db\<lparr>tenants := [sample_tenant, sample_tenant\<lparr>t_id := ''t2'', t_slug := ''beta'', t_name := ''Beta''\<rparr>],
     platform_owners := [\<lparr>po_home = ''t1'', po_user = ''adm'', po_created = 0\<rparr>]\<rparr>"


end
