(* ===== verification/Worker.thy ===== *)
theory Worker
  imports Store Device_Auth
begin

text \<open>
  The processes around the store: the restart-safe detection worker of \<open>standalone/worker.py\<close>, the
  supervisor's cycle of \<open>standalone/supervisor.py\<close>, and the authenticated ingestion service of
  \<open>standalone/ingestion.py\<close>. The detector is a parameter (theory \<open>Detections\<close> gives the
  repository's own); an exception it raises is a value of the sum type.
\<close>

section \<open>The worker\<close>

datatype detector =
    Plain "security_event \<Rightarrow> exn + detection_alert list"
  | Historical "security_event \<Rightarrow> security_event list \<Rightarrow> exn + detection_alert list"

record worker =
  wk_detector :: detector
  wk_lease_seconds :: int
  wk_max_attempts :: int
  wk_retry_delay :: int
  wk_rules :: rule_book

record worker_result =
  wr_leased :: nat
  wr_succeeded :: nat
  wr_retried :: nat
  wr_dead :: nat
  wr_alerts :: nat

definition new_worker :: "detector \<Rightarrow> int \<Rightarrow> int \<Rightarrow> int \<Rightarrow> rule_book \<Rightarrow> worker prog" where
  "new_worker D lease_seconds max_attempts retry_delay B =
     andthen (raise_if (rb_detector B = [] \<or> 128 < length (rb_detector B)) ValueError
       ''detector_version must contain between 1 and 128 characters'')
     (andthen (raise_if (retry_delay < 0 \<or> 3600 < retry_delay) ValueError
       ''retry_delay_seconds must be between 0 and 3600'')
     (ret \<lparr>wk_detector = D, wk_lease_seconds = lease_seconds, wk_max_attempts = max_attempts,
        wk_retry_delay = retry_delay, wk_rules = B\<rparr>))"

definition lift_result :: "exn + 'a \<Rightarrow> 'a prog" where
  "lift_result r = (case r of Inl e \<Rightarrow> raise (fst e) (snd e) | Inr x \<Rightarrow> ret x)"

definition decide :: "pipeline \<Rightarrow> detector \<Rightarrow> string \<Rightarrow> security_event \<Rightarrow> detection_alert list prog" where
  "decide L D tenant e = (case D of
     Historical f \<Rightarrow> bind (load_detection_history L tenant e 10000) (\<lambda>history. lift_result (f e history))
   | Plain f \<Rightarrow> lift_result (f e))"

definition attempt_job :: "env \<Rightarrow> pipeline \<Rightarrow> worker \<Rightarrow> string \<Rightarrow> string \<Rightarrow> datetime \<Rightarrow> job_lease \<Rightarrow> persistence_result prog" where
  "attempt_job E L W tenant worker now l =
     bind (load_event L tenant (jl_event l)) (\<lambda>row.
     case row of
       None \<Rightarrow> raise RuntimeError ''leased detection event is missing''
     | Some e \<Rightarrow>
         bind (decide L (wk_detector W) tenant e) (\<lambda>as.
         persist_alerts_and_complete_job E (wk_rules W) tenant (jl_job l) worker as now))"

definition backoff :: "int \<Rightarrow> int \<Rightarrow> int" where
  "backoff retry_delay attempts = min (retry_delay * 2 ^ nat (min (attempts - 1) 10)) 86400"

datatype job_outcome = Done nat | Retried | Buried | Unchanged

definition process_job :: "env \<Rightarrow> pipeline \<Rightarrow> worker \<Rightarrow> string \<Rightarrow> string \<Rightarrow> datetime \<Rightarrow> job_lease \<Rightarrow> job_outcome prog" where
  "process_job E L W tenant worker now l =
     catch (bind (attempt_job E L W tenant worker now l) (\<lambda>p. ret (Done (ps_inserted p))))
       (\<lambda>exc. bind (fail_job tenant (jl_job l) worker now (snd exc) (wk_max_attempts W)
            (backoff (wk_retry_delay W) (jl_attempts l))) (\<lambda>tr.
          ret (if jt_changed tr \<and> jt_status tr = JobRetry then Retried
               else if jt_changed tr \<and> jt_status tr = JobDead then Buried else Unchanged)))"

fun tally :: "worker_result \<Rightarrow> job_outcome \<Rightarrow> worker_result" where
  "tally r (Done n) = r\<lparr>wr_succeeded := wr_succeeded r + 1, wr_alerts := wr_alerts r + n\<rparr>"
| "tally r Retried = r\<lparr>wr_retried := wr_retried r + 1\<rparr>"
| "tally r Buried = r\<lparr>wr_dead := wr_dead r + 1\<rparr>"
| "tally r Unchanged = r"

definition run_once :: "env \<Rightarrow> pipeline \<Rightarrow> worker \<Rightarrow> string \<Rightarrow> string \<Rightarrow> datetime \<Rightarrow> int \<Rightarrow> worker_result prog" where
  "run_once E L W tenant worker now limit =
     bind (lease_jobs tenant worker limit now (wk_lease_seconds W)) (\<lambda>leases.
     bind (map_prog (process_job E L W tenant worker now) leases) (\<lambda>outcomes.
     ret (foldl tally \<lparr>wr_leased = length leases, wr_succeeded = 0, wr_retried = 0, wr_dead = 0, wr_alerts = 0\<rparr> outcomes)))"

section \<open>The supervisor\<close>

definition run_cycle :: "env \<Rightarrow> pipeline \<Rightarrow> worker \<Rightarrow> string \<Rightarrow> datetime \<Rightarrow> worker_result list prog" where
  "run_cycle E L W worker now = bind active_tenant_ids (map_prog (\<lambda>tenant. run_once E L W tenant worker now 25))"

section \<open>The ingestion service\<close>

record ingestion_result =
  ig_tenant :: string
  ig_device :: string
  ig_accepted :: nat
  ig_duplicates :: nat
  ig_event_ids :: "string list"

definition ingest_bound_events :: "env \<Rightarrow> pipeline \<Rightarrow> authenticated_device \<Rightarrow> security_event list \<Rightarrow> datetime \<Rightarrow> ingestion_result prog" where
  "ingest_bound_events E L p es now =
     andthen (raise_if (\<exists>e \<in> set es. sv_device e \<noteq> Some (ad_device p)) DeviceBindingError
       ''every collector event must match the authenticated device'')
     (bind (ingest_events E L (ad_tenant p) es now) (\<lambda>rs.
      ret \<lparr>ig_tenant = ad_tenant p, ig_device = ad_device p,
        ig_accepted = length (filter ir_accepted rs), ig_duplicates = length (filter (\<lambda>r. \<not> ir_accepted r) rs),
        ig_event_ids = map ir_event (filter ir_accepted rs)\<rparr>))"

definition collector_ingest :: "env \<Rightarrow> pipeline \<Rightarrow> nat \<Rightarrow> collector_request \<Rightarrow> datetime \<Rightarrow> ingestion_result prog" where
  "collector_ingest E L max_body R now =
     andthen (raise_if (max_body < length (rq_body R)) CollectorIngestionError
       ''collector request exceeds the ingestion limit'')
     (bind (authenticate E R now) (\<lambda>p.
      case validate_batch L (rq_body R) of
        None \<Rightarrow> raise CollectorIngestionError ''collector event batch failed schema validation''
      | Some es \<Rightarrow> ingest_bound_events E L p es now))"

section \<open>The worker settles what it leases\<close>

text \<open>
  What the worker's loop relies on: handling a leased job never raises, settles that job, and neither
  takes the other leases away nor reopens a job already settled.
\<close>

locale job_handler =
  fixes handle :: "job_lease \<Rightarrow> 'o prog" and Inv :: "db \<Rightarrow> bool"
    and mine :: "job_lease \<Rightarrow> db \<Rightarrow> bool" and settled :: "job_lease \<Rightarrow> 'o \<Rightarrow> db \<Rightarrow> bool"
  assumes handle_step: "Inv (tables w) \<Longrightarrow> mine l (tables w) \<Longrightarrow>
    wp (handle l) (\<lambda>r w'. Inv (tables w') \<and> settled l r (tables w') \<and>
        (\<forall>k. jl_job k \<noteq> jl_job l \<longrightarrow> mine k (tables w) \<longrightarrow> mine k (tables w')) \<and>
        (\<forall>k s. jl_job k \<noteq> jl_job l \<longrightarrow> settled k s (tables w) \<longrightarrow> settled k s (tables w')))
      (\<lambda>_ _. False) w"
begin

lemma handle_all:
  assumes "Inv (tables w)" "distinct (map jl_job ls)" "\<forall>l \<in> set ls. mine l (tables w)"
  shows "wp (map_prog handle ls) (\<lambda>rs w'. Inv (tables w') \<and> list_all2 (\<lambda>l r. settled l r (tables w')) ls rs \<and>
      (\<forall>k s. jl_job k \<notin> jl_job ` set ls \<longrightarrow> settled k s (tables w) \<longrightarrow> settled k s (tables w')))
    (\<lambda>_ _. False) w"
  using assms
proof (induction ls arbitrary: w)
  case (Cons l ls)
  have other: "\<forall>k \<in> set ls. jl_job k \<noteq> jl_job l" using Cons.prems(2) by (auto simp: image_iff)
  have "wp (handle l) (\<lambda>r w'. Inv (tables w') \<and> settled l r (tables w') \<and> (\<forall>k \<in> set ls. mine k (tables w')) \<and>
      (\<forall>k s. jl_job k \<noteq> jl_job l \<longrightarrow> settled k s (tables w) \<longrightarrow> settled k s (tables w'))) (\<lambda>_ _. False) w"
    by (rule wp_mono [OF handle_step]) (use Cons.prems other in auto)
  then show ?case
    unfolding map_prog.simps wp_bind wp_ret_fun
    by (rule wp_mono) (rule wp_mono [OF Cons.IH], use Cons.prems in auto)
qed (simp add: wp_rules)

end

definition worker_ok :: "worker \<Rightarrow> bool" where
  "worker_ok W \<longleftrightarrow> 5 \<le> wk_lease_seconds W \<and> wk_lease_seconds W \<le> 3600 \<and> 1 \<le> wk_max_attempts W \<and> wk_max_attempts W \<le> 100 \<and>
     0 \<le> wk_retry_delay W \<and> wk_retry_delay W \<le> 3600"

definition my_lease :: "worker \<Rightarrow> string \<Rightarrow> string \<Rightarrow> instant \<Rightarrow> job_lease \<Rightarrow> db \<Rightarrow> bool" where
  "my_lease W tenant worker t l d \<longleftrightarrow> worker_ok W \<and> (\<exists>j. job_at tenant (jl_job l) d = Some j \<and>
     owns_lease worker t j \<and> jb_attempts j = jl_attempts l)"

definition outcome_ok :: "worker \<Rightarrow> job_outcome \<Rightarrow> job_row \<Rightarrow> bool" where
  "outcome_ok W r j \<longleftrightarrow> (case r of
     Done n \<Rightarrow> jb_status j = JobSucceeded
   | Retried \<Rightarrow> jb_status j = JobRetry \<and> jb_attempts j < wk_max_attempts W
   | Buried \<Rightarrow> jb_status j = JobDead \<and> wk_max_attempts W \<le> jb_attempts j
   | Unchanged \<Rightarrow> False)"

definition job_settled :: "worker \<Rightarrow> string \<Rightarrow> job_lease \<Rightarrow> job_outcome \<Rightarrow> db \<Rightarrow> bool" where
  "job_settled W tenant l r d \<longleftrightarrow> (\<exists>j. job_at tenant (jl_job l) d = Some j \<and>
     outcome_ok W r j \<and> jb_attempts j = jl_attempts l)"

lemma job_at_iff:
  "queue_inv d \<Longrightarrow> job_at tenant job d = Some j \<longleftrightarrow> j \<in> set (detection_jobs d) \<and> job_key j = (tenant, job)"
  using key_unique_find [of job_key "detection_jobs d" j] by (auto simp: queue_inv_def job_at_key dest: find_SomeD)

lemma moves_job_at:
  assumes inv: "queue_inv d" and j: "job_at tenant job d = Some j" and moves: "queue_moves (\<lambda>x. x = j) f d d'"
  shows "job_at tenant job d' = Some (f j)" "k \<noteq> job \<Longrightarrow> job_at tenant k d' = job_at tenant k d"
proof -
  have inv': "queue_inv d'" by (rule queue_moves_inv [OF moves inv])
  have jrow: "j \<in> set (detection_jobs d)" "job_key j = (tenant, job)" using j by (simp_all add: job_at_iff [OF inv])
  have key: "job_key (f j) = (tenant, job)" using moves jrow job_step_facts(1) by (auto simp: queue_moves_def)
  have rows: "set (detection_jobs d') = (\<lambda>x. if x = j then f j else x) ` set (detection_jobs d)"
    using moves unfolding queue_moves_def update_where_def by (auto simp: image_iff)
  show "job_at tenant job d' = Some (f j)"
    unfolding job_at_iff [OF inv'] rows using jrow key by auto
  have "job_at tenant k d' = Some i \<longleftrightarrow> job_at tenant k d = Some i" if "k \<noteq> job" for i
    unfolding job_at_iff [OF inv] job_at_iff [OF inv'] rows using jrow key that by auto
  then show "job_at tenant k d' = job_at tenant k d" if "k \<noteq> job"
    using that by (cases "job_at tenant k d") (auto simp del: not_None_eq intro: option.exhaust)
qed

lemma keeps_validated: "keeps I (validated L r)"
  by (auto simp: validated_def intro: keeps_rules split: sum.splits)

lemma reads_event: "keeps I (load_event L tenant eid)"
  unfolding load_event_def by (intro keeps_rules keeps_validated)

lemma reads_history: "keeps I (load_detection_history L tenant e limit)"
  unfolding load_detection_history_def correlation_cutoff_def bounded_history_def
  by (intro keeps_rules keeps_validated)

lemma reads_decide: "keeps I (decide L D tenant e)"
  by (auto simp: decide_def lift_result_def intro!: keeps_rules reads_history split: detector.splits sum.splits)

lemma attempt_job_wp:
  assumes inv: "detection_inv (tables w)"
  shows "wp (attempt_job E L W tenant worker (Aware t) l)
     (\<lambda>p w'. detection_inv (tables w') \<and>
        (\<exists>j. job_at tenant (jl_job l) (tables w) = Some j \<and> queue_moves (\<lambda>x. x = j) (succeed_job t) (tables w) (tables w')))
     (\<lambda>_ w'. tables w' = tables w) w"
proof -
  have persist: "wp (persist_alerts_and_complete_job E (wk_rules W) tenant (jl_job l) worker as (Aware t))
     (\<lambda>p w'. detection_inv (tables w') \<and>
        (\<exists>j. job_at tenant (jl_job l) (tables w) = Some j \<and> queue_moves (\<lambda>x. x = j) (succeed_job t) (tables w) (tables w')))
     (\<lambda>_ w'. tables w' = tables w) v" if "tables v = tables w" for as v
    by (rule wp_mono [OF persist_wp]) (use inv that in \<open>auto simp: detection_inv_def dest!: persists_moves intro: queue_moves_inv\<close>)
  have read: "wp m (\<lambda>_ v. tables v = tables w) (\<lambda>_ v. tables v = tables w) v"
    if "keeps (\<lambda>d. d = tables w) m" "tables v = tables w" for v and m :: "'x prog"
    using keeps_wp [OF that] .
  show ?thesis
    unfolding attempt_job_def wp_bind
    by (rule wp_mono [OF read [OF reads_event]])
      (auto simp: wp_rules intro!: wp_mono [OF read [OF reads_decide]] persist split: option.splits)
qed

lemma backoff_bounds: "0 \<le> r \<Longrightarrow> 0 \<le> backoff r a" "backoff r a \<le> 86400"
  by (simp_all add: backoff_def)

lemma fail_job_wp:
  assumes inv: "queue_inv (tables w)" and m: "1 \<le> m" "m \<le> 100" and delay: "0 \<le> delay" "delay \<le> 86400"
    and j: "job_at tenant job (tables w) = Some j" "owned_by worker j"
  shows "wp (fail_job tenant job worker (Aware t) err m delay)
     (\<lambda>tr w'. jt_changed tr \<and> jt_status tr = (if m \<le> jb_attempts j then JobDead else JobRetry) \<and>
        (\<exists>s. fst s = jt_status tr \<and> settles s t j (tables w) (tables w'))) (\<lambda>_ _. False) w"
proof -
  have "wp (transition_owned_job tenant job worker (Aware t) False (Some (take 1000 err)) m delay)
     (\<lambda>tr w'. jt_changed tr \<and> jt_status tr = (if m \<le> jb_attempts j then JobDead else JobRetry) \<and>
        (\<exists>s. fst s = jt_status tr \<and> settles s t j (tables w) (tables w'))) (\<lambda>_ _. False) w"
    by (rule wp_mono [OF transition_owned_job_wp [OF inv]])
      (use j in \<open>auto simp: settlement_def split: if_splits intro: exI [of _ "(_, _)"]\<close>)
  then show ?thesis using m delay by (simp add: fail_job_def wp_rules)
qed

lemma process_job_wp:
  assumes inv: "detection_inv (tables w)" and mine: "my_lease W tenant worker t l (tables w)"
  shows "wp (process_job E L W tenant worker (Aware t) l)
     (\<lambda>r w'. detection_inv (tables w') \<and> (\<exists>j f. job_at tenant (jl_job l) (tables w) = Some j \<and>
        queue_moves (\<lambda>x. x = j) f (tables w) (tables w') \<and> outcome_ok W r (f j) \<and>
        jb_attempts (f j) = jb_attempts j))
     (\<lambda>_ _. False) w"
proof -
  obtain j where j: "job_at tenant (jl_job l) (tables w) = Some j" "owns_lease worker t j" and W: "worker_ok W"
    using mine by (auto simp: my_lease_def)
  have own: "owned_by worker j" using j(2) by (simp add: owns_lease_def owned_by_def)
  have failed: "wp (fail_job tenant (jl_job l) worker (Aware t) err (wk_max_attempts W) (backoff (wk_retry_delay W) (jl_attempts l)))
     (\<lambda>tr w'. detection_inv (tables w') \<and> (\<exists>j f. job_at tenant (jl_job l) (tables w) = Some j \<and>
        queue_moves (\<lambda>x. x = j) f (tables w) (tables w') \<and>
        outcome_ok W (if jt_changed tr \<and> jt_status tr = JobRetry then Retried
               else if jt_changed tr \<and> jt_status tr = JobDead then Buried else Unchanged) (f j) \<and>
        jb_attempts (f j) = jb_attempts j))
     (\<lambda>_ _. False) v" if v: "tables v = tables w" for err v
  proof (rule wp_mono [OF fail_job_wp [where j = j]], goal_cases)
    case (8 tr w')
    then obtain s where s: "jt_changed tr" "jt_status tr = (if wk_max_attempts W \<le> jb_attempts j then JobDead else JobRetry)"
      "fst s = jt_status tr" "settles s t j (tables w) (tables w')" by (auto simp: v)
    have moves: "queue_moves (\<lambda>x. x = j) (settle_row (fst s) (fst (snd s)) (snd (snd s)) t) (tables w) (tables w')"
      by (rule settles_moves) (use s in auto)
    moreover have "detection_inv (tables w')"
      using inv s(4) queue_moves_inv [OF moves] by (simp add: detection_inv_def settles_def)
    ultimately show ?case using s j(1) by (auto simp: outcome_ok_def settle_row_def)
  qed (use inv j own W v backoff_bounds in \<open>auto simp: detection_inv_def worker_ok_def\<close>)
  have succeeded: "outcome_ok W (Done n) (succeed_job t i)" "jb_attempts (succeed_job t i) = jb_attempts i" for n i
    by (simp_all add: outcome_ok_def succeed_job_def)
  show ?thesis
    unfolding process_job_def wp_catch wp_bind wp_ret_fun
    by (rule wp_mono [OF attempt_job_wp [OF inv]]) (use succeeded in \<open>blast intro: failed\<close>)+
qed

interpretation worker_jobs: job_handler "process_job E L W tenant worker (Aware t)" detection_inv "my_lease W tenant worker t" "job_settled W tenant"
  for E L W tenant worker t
proof (unfold_locales, rule wp_mono [OF process_job_wp], goal_cases)
  case (3 w l r w')
  then obtain j f where j: "job_at tenant (jl_job l) (tables w) = Some j" "queue_moves (\<lambda>x. x = j) f (tables w) (tables w')"
    "outcome_ok W r (f j)" "jb_attempts (f j) = jb_attempts j" "detection_inv (tables w')" by blast
  note at = moves_job_at [OF _ j(1,2)]
  show ?case using 3(1,2) j(1,3-5) at by (auto simp: my_lease_def job_settled_def detection_inv_def)
qed simp_all

lemma lease_for_worker_wp:
  assumes inv: "detection_inv (tables w)" and W: "worker_ok W" and id: "worker \<noteq> []" "length worker \<le> 128"
    and limit: "1 \<le> limit" "limit \<le> 100"
  shows "wp (lease_jobs tenant worker limit (Aware t) (wk_lease_seconds W))
    (\<lambda>ls w'. detection_inv (tables w') \<and> map jl_job ls = ready_jobs tenant t (nat limit) (tables w) \<and>
       (\<forall>l \<in> set ls. my_lease W tenant worker t l (tables w') \<and>
          (\<exists>j. job_at tenant (jl_job l) (tables w) = Some j \<and> jl_attempts l = jb_attempts j + 1)))
    (\<lambda>_ _. False) w"
proof -
  have q: "queue_inv (tables w)" using inv by (simp add: detection_inv_def)
  have mine: "my_lease W tenant worker t l (tables w') \<and>
      (\<exists>j. job_at tenant (jl_job l) (tables w) = Some j \<and> jl_attempts l = jb_attempts j + 1)"
    if c: "claims tenant worker t x (ready_jobs tenant t (nat limit) (tables w)) (tables w) (tables w')" and x: "t < x"
      and l: "claimed_as tenant worker x (tables w') l" "jl_job l \<in> set (ready_jobs tenant t (nat limit) (tables w))" for x l and w' :: world
  proof -
    obtain j where j: "job_at tenant (jl_job l) (tables w) = Some j" using ready_jobs_sound [OF q l(2)] by blast
    have j': "job_at tenant (jl_job l) (tables w') = Some (lease_row worker t x j)" using claims_job_at [OF c] j l(2) by simp
    have "queue_inv (tables w')" by (rule queue_moves_inv [OF claims_moves [OF q c x] q])
    then have "l = lease_record x (lease_row worker t x j)"
      using l(1) j' unfolding claimed_as_def by (auto simp: job_at_iff lease_record_def job_key_def queue_inv_def dest: key_unique_eq)
    then show ?thesis using j j' W x by (simp add: my_lease_def owns_lease_def lease_row_def lease_record_def)
  qed
  note both = wp_conj [THEN iffD2, OF conjI [OF lease_jobs_wp [OF q] lease_contract [OF inv]]]
  show ?thesis
  proof (rule wp_mono [OF both], goal_cases)
    case (1 ls w')
    then have ids: "map jl_job ls = ready_jobs tenant t (nat limit) (tables w)"
      and c: "claims tenant worker t (t + seconds (wk_lease_seconds W)) (ready_jobs tenant t (nat limit) (tables w)) (tables w) (tables w')"
      and all: "\<forall>l \<in> set ls. claimed_as tenant worker (t + seconds (wk_lease_seconds W)) (tables w') l"
      and inv': "detection_inv (tables w')" by auto
    have x: "t < t + seconds (wk_lease_seconds W)" using W by (simp add: worker_ok_def seconds_def)
    have "jl_job l \<in> set (ready_jobs tenant t (nat limit) (tables w))" if "l \<in> set ls" for l
      using that unfolding ids [symmetric] by simp
    with mine [OF c x] all ids inv' show ?case by blast
  qed (use W id limit in \<open>auto simp: worker_ok_def\<close>)
qed

lemma tally_counts:
  assumes "list_all2 (\<lambda>l r. job_settled W tenant l r d) ls rs"
  shows "wr_leased (foldl tally r0 rs) = wr_leased r0"
    "wr_succeeded (foldl tally r0 rs) + wr_retried (foldl tally r0 rs) + wr_dead (foldl tally r0 rs) =
       wr_succeeded r0 + wr_retried r0 + wr_dead r0 + length ls"
  using assms
proof (induction ls rs arbitrary: r0 rule: list_all2_induct)
  case (Cons l ls r rs)
  { case 1 show ?case using Cons.IH(1) by (cases r) simp_all }
  { case 2 show ?case using Cons.IH(2) [of "tally r0 r"] Cons.hyps(1) by (cases r) (simp_all add: job_settled_def outcome_ok_def) }
qed simp_all

text \<open>
  C15. A run of the worker always returns and leaves no job behind: whatever the detector does (it may
  raise on any event), the run returns a result, keeps the invariant, and every job it leased, which
  are the oldest due jobs up to the limit, has been tried once more and has succeeded, waits for a
  retry with attempts left, or is dead with its attempts used up; the counts it reports add up.
\<close>

theorem worker_run_settles:
  assumes "detection_inv (tables w)" and "worker_ok W" and "worker \<noteq> []" and "length worker \<le> 128"
    and "1 \<le> limit" and "limit \<le> 100"
  shows "\<exists>r w'. run_once E L W tenant worker (Aware t) limit w = (Inr r, w') \<and> detection_inv (tables w') \<and>
    wr_leased r = length (ready_jobs tenant t (nat limit) (tables w)) \<and>
    wr_leased r = wr_succeeded r + wr_retried r + wr_dead r \<and>
    (\<forall>job \<in> set (ready_jobs tenant t (nat limit) (tables w)). \<exists>j j'. job_at tenant job (tables w) = Some j \<and>
       job_at tenant job (tables w') = Some j' \<and> jb_attempts j' = jb_attempts j + 1 \<and>
       (jb_status j' = JobSucceeded \<or> jb_status j' = JobRetry \<and> jb_attempts j' < wk_max_attempts W \<or>
        jb_status j' = JobDead \<and> wk_max_attempts W \<le> jb_attempts j'))"
proof -
  let ?ids = "ready_jobs tenant t (nat limit) (tables w)"
  let ?settled = "\<lambda>d. \<forall>job \<in> set ?ids. \<exists>j j'. job_at tenant job (tables w) = Some j \<and>
       job_at tenant job d = Some j' \<and> jb_attempts j' = jb_attempts j + 1 \<and>
       (jb_status j' = JobSucceeded \<or> jb_status j' = JobRetry \<and> jb_attempts j' < wk_max_attempts W \<or>
        jb_status j' = JobDead \<and> wk_max_attempts W \<le> jb_attempts j')"
  have settled: "?settled d" if rs: "list_all2 (\<lambda>l r. job_settled W tenant l r d) ls rs" and ids: "map jl_job ls = ?ids"
    and first: "\<forall>l \<in> set ls. \<exists>j. job_at tenant (jl_job l) (tables w) = Some j \<and> jl_attempts l = jb_attempts j + 1" for d ls rs
  proof
    fix job assume "job \<in> set ?ids"
    then obtain l where l: "l \<in> set ls" "jl_job l = job" unfolding ids [symmetric] by auto
    then obtain r where "job_settled W tenant l r d" using rs by (auto simp: list_all2_conv_all_nth in_set_conv_nth)
    with first l show "\<exists>j j'. job_at tenant job (tables w) = Some j \<and>
       job_at tenant job d = Some j' \<and> jb_attempts j' = jb_attempts j + 1 \<and>
       (jb_status j' = JobSucceeded \<or> jb_status j' = JobRetry \<and> jb_attempts j' < wk_max_attempts W \<or>
        jb_status j' = JobDead \<and> wk_max_attempts W \<le> jb_attempts j')"
      by (cases r) (fastforce simp: job_settled_def outcome_ok_def)+
  qed
  have "wp (run_once E L W tenant worker (Aware t) limit)
    (\<lambda>r w'. detection_inv (tables w') \<and> wr_leased r = length ?ids \<and> wr_leased r = wr_succeeded r + wr_retried r + wr_dead r \<and> ?settled (tables w'))
    (\<lambda>_ _. False) w"
    unfolding run_once_def wp_bind wp_ret_fun
  proof (rule wp_mono [OF lease_for_worker_wp [OF assms]], goal_cases)
    case (1 ls w1)
    have len: "length ls = length ?ids" using 1 by (metis length_map)
    have "distinct (map jl_job ls)" using 1 assms(1) by (simp add: distinct_ready_jobs detection_inv_def)
    then show ?case
      by (intro wp_mono [OF worker_jobs.handle_all [where t = t]])
        (use 1 settled len in \<open>auto simp: tally_counts\<close>)
  qed
  then show ?thesis by (auto simp: wp_def split: prod.splits sum.splits)
qed

definition sample_worker :: worker where
  "sample_worker = \<lparr>wk_detector = Plain (\<lambda>e. Inl (RuntimeError, ''boom'')), wk_lease_seconds = 60, wk_max_attempts = 5,
     wk_retry_delay = 5, wk_rules = sample_book\<rparr>"

theorem worker_run_settles_witness:
  "\<exists>r w'. run_once sample_env sample_pipeline sample_worker ''t1'' ''w1'' (Aware 9) 5 (world_at (queue_db sample_job)) = (Inr r, w') \<and>
     detection_inv (tables w') \<and> wr_leased r = wr_succeeded r + wr_retried r + wr_dead r"
  using worker_run_settles [of "world_at (queue_db sample_job)" sample_worker "''w1''" 5 sample_env sample_pipeline "''t1''" 9,
      unfolded world_at_simps, OF sample_detection_inv(1)]
  by (auto simp: worker_ok_def sample_worker_def)

section \<open>Ingestion by collectors\<close>

definition ingested_batch :: "env \<Rightarrow> pipeline \<Rightarrow> collector_request \<Rightarrow> instant \<Rightarrow> ingestion_result \<Rightarrow> db \<Rightarrow> db \<Rightarrow> bool" where
  "ingested_batch E L R t r d d' \<longleftrightarrow> (\<exists>c es. accepts E R t d c \<and> ig_tenant r = dc_tenant c \<and> ig_device r = dc_device c \<and>
     validate_batch L (rq_body R) = Some es \<and>
     list_all (\<lambda>e. sv_device e = Some (ig_device r) \<and> holds_event E L (ig_tenant r) e d') es \<and>
     ig_accepted r + ig_duplicates r = length es \<and> length (ig_event_ids r) = ig_accepted r \<and>
     list_all (\<lambda>i. \<exists>e \<in> set es. sv_id e = i) (ig_event_ids r))"

lemma ingest_events_wp:
  "wp (ingest_events E L tenant es now)
     (\<lambda>rs w'. list_all2 (\<lambda>e r. ir_event r = sv_id e \<and> holds_event E L tenant e (tables w')) es rs)
     (\<lambda>_ w'. tables w' = tables w) w"
  by (auto simp: ingest_events_def wp_rules ingested_def split: datetime.splits
      intro!: wp_mono [OF ingest_batch_wp] elim!: list_all2_mono)

lemma batch_result:
  assumes "list_all2 (\<lambda>e r. ir_event r = sv_id e \<and> holds_event E L tenant e d) es rs"
  shows "list_all (\<lambda>e. holds_event E L tenant e d) es"
    "length (filter ir_accepted rs) + length (filter (\<lambda>r. \<not> ir_accepted r) rs) = length es"
    "list_all (\<lambda>i. \<exists>e \<in> set es. sv_id e = i) (map ir_event (filter ir_accepted rs))"
  using assms by (induction es rs rule: list_all2_induct) (auto simp: list_all_iff)

lemma ingest_bound_wp:
  assumes "accepts E R t d c" "ad_tenant p = dc_tenant c" "ad_device p = dc_device c" "validate_batch L (rq_body R) = Some es"
  shows "wp (ingest_bound_events E L p es now) (\<lambda>r w'. ingested_batch E L R t r d (tables w')) (\<lambda>_ w'. tables w' = tables w) w"
proof -
  have bound: "wp (ingest_events E L (ad_tenant p) es now) (\<lambda>rs w'. ingested_batch E L R t
       \<lparr>ig_tenant = ad_tenant p, ig_device = ad_device p,
        ig_accepted = length (filter ir_accepted rs), ig_duplicates = length (filter (\<lambda>r. \<not> ir_accepted r) rs),
        ig_event_ids = map ir_event (filter ir_accepted rs)\<rparr> d (tables w')) (\<lambda>_ w'. tables w' = tables w) w"
    if "\<forall>e \<in> set es. sv_device e = Some (ad_device p)"
  proof (rule wp_mono [OF ingest_events_wp], goal_cases)
    case (1 rs w')
    note result = batch_result [OF 1]
    show ?case unfolding ingested_batch_def by (intro exI [of _ c] exI [of _ es])
      (use assms that result in \<open>simp add: list_all_iff\<close>)
  qed simp
  then show ?thesis by (auto simp: ingest_bound_events_def wp_rules wp_ret_fun)
qed

text \<open>
  C16. The ingestion endpoint is bound to the device: when a batch is accepted, the request was
  authenticated for a live credential, the body is a valid batch, every event in it carries the
  device of that credential and is now stored with its content in that device's network, and the
  reported counts cover the whole batch. When it is refused, for whatever reason and at whatever
  stage, no event and no job has been added.
\<close>

theorem collector_ingest_bound:
  "case collector_ingest E L max_body R now w of
     (Inr r, w') \<Rightarrow> \<exists>t. now = Aware t \<and> length (rq_body R) \<le> max_body \<and> ingested_batch E L R t r (tables w) (tables w')
   | (Inl e, w') \<Rightarrow> events (tables w') = events (tables w) \<and> detection_jobs (tables w') = detection_jobs (tables w)"
proof -
  have "wp (collector_ingest E L max_body R now)
     (\<lambda>r w'. \<exists>t. now = Aware t \<and> length (rq_body R) \<le> max_body \<and> ingested_batch E L R t r (tables w) (tables w'))
     (\<lambda>_ w'. events (tables w') = events (tables w) \<and> detection_jobs (tables w') = detection_jobs (tables w)) w"
  proof (cases "max_body < length (rq_body R)")
    case False
    have "wp (case validate_batch L (rq_body R) of
        None \<Rightarrow> raise CollectorIngestionError ''collector event batch failed schema validation''
      | Some es \<Rightarrow> ingest_bound_events E L p es now)
       (\<lambda>r w'. \<exists>t. now = Aware t \<and> length (rq_body R) \<le> max_body \<and> ingested_batch E L R t r (tables w) (tables w'))
       (\<lambda>_ w'. events (tables w') = events (tables w) \<and> detection_jobs (tables w') = detection_jobs (tables w)) v"
      if "now = Aware t" "accepts E R t (tables w) c" "ad_tenant p = dc_tenant c" "ad_device p = dc_device c"
        "tables v = consume_request E R t c (tables w)" for p t c v
      using that False
      by (cases "validate_batch L (rq_body R)")
        (auto simp: wp_raise consume_request_def intro!: wp_mono [OF ingest_bound_wp [OF that(2-4)]])
    then show ?thesis
      using False by (auto simp: collector_ingest_def wp_andthen wp_raise_if wp_bind intro!: wp_mono [OF authenticate_frame])
  qed (simp add: collector_ingest_def wp_rules)
  then show ?thesis by (auto simp: wp_def split: prod.splits sum.splits)
qed

end
