(* ===== verification/Retention.thy ===== *)
theory Retention
  imports Store
begin

text \<open>
  Telemetry retention of \<open>standalone/retention.py\<close>: the policy of a network, the preview of what
  would be removed, and the run that removes settled jobs and unreferenced events older than the
  cutoff, refused when the audit log of the network does not verify.
\<close>

section \<open>Policy\<close>

record retention_policy =
  pl_days :: int
  pl_updated_by :: "string option"
  pl_updated :: "instant option"

record retention_preview =
  pv_days :: int
  pv_cutoff :: instant
  pv_jobs :: nat
  pv_events :: nat

definition validate_days :: "int \<Rightarrow> unit prog" where
  "validate_days dys = raise_if (\<not> (30 \<le> dys \<and> dys \<le> 3650)) RetentionError
     ''telemetry retention must be between 30 and 3650 days''"

definition policy_at :: "string \<Rightarrow> db \<Rightarrow> policy_row option" where
  "policy_at tenant d = List.find (\<lambda>r. rp_tenant r = tenant) (retention_policies d)"

definition policy_days :: "string \<Rightarrow> int prog" where
  "policy_days tenant = bind (query (policy_at tenant)) (\<lambda>row.
     let dys = (case row of Some r \<Rightarrow> rp_days r | None \<Rightarrow> 90) in andthen (validate_days dys) (ret dys))"

definition get_policy :: "principal \<Rightarrow> retention_policy prog" where
  "get_policy p = andthen (require_capability p (pr_tenant p) View)
     (bind (query (policy_at (pr_tenant p))) (\<lambda>row.
      case row of None \<Rightarrow> ret \<lparr>pl_days = 90, pl_updated_by = None, pl_updated = None\<rparr>
      | Some r \<Rightarrow> ret \<lparr>pl_days = rp_days r, pl_updated_by = Some (rp_updated_by r), pl_updated = Some (rp_updated r)\<rparr>))"

definition upsert_policy :: "policy_row \<Rightarrow> unit prog" where
  "upsert_policy r = insert_checked
     (\<lambda>d. tenant_exists (rp_tenant r) d \<and> 30 \<le> rp_days r \<and> rp_days r \<le> 3650 \<and> user_exists (rp_tenant r) (rp_updated_by r) d)
     (\<lambda>d. d\<lparr>retention_policies :=
        (if row_exists (\<lambda>x. rp_tenant x = rp_tenant r) (retention_policies d)
         then update_where (\<lambda>x. rp_tenant x = rp_tenant r) (\<lambda>_. r) (retention_policies d)
         else retention_policies d @ [r])\<rparr>)"

definition set_policy :: "env \<Rightarrow> principal \<Rightarrow> int \<Rightarrow> datetime \<Rightarrow> retention_policy prog" where
  "set_policy E p dys now =
     andthen (require_capability p (pr_tenant p) Manage)
     (andthen (validate_days dys)
     (andthen (atomically (
        bind (policy_days (pr_tenant p)) (\<lambda>previous.
        bind (utc_text now) (\<lambda>t.
        andthen (upsert_policy \<lparr>rp_tenant = pr_tenant p, rp_days = dys, rp_updated_by = pr_user p, rp_updated = t\<rparr>)
        (andthen (audit_append E (pr_tenant p) ''retention.policy_changed'' ''user'' (pr_user p) ''retention_policy'' (pr_tenant p)
           (JObj [(''from_days'', JInt previous), (''to_days'', JInt dys)]) now)
        (ret ()))))))
     (bind (utc_text now) (\<lambda>t. ret \<lparr>pl_days = dys, pl_updated_by = Some (pr_user p), pl_updated = Some t\<rparr>))))"

section \<open>Preview and run\<close>

definition settled_before :: "string \<Rightarrow> instant \<Rightarrow> job_row \<Rightarrow> bool" where
  "settled_before tenant cutoff j \<longleftrightarrow> jb_tenant j = tenant \<and> (jb_status j = JobSucceeded \<or> jb_status j = JobDead) \<and> jb_updated j < cutoff"

definition has_alert :: "event_row \<Rightarrow> db \<Rightarrow> bool" where
  "has_alert e d \<longleftrightarrow> row_exists (\<lambda>a. al_tenant a = ev_tenant e \<and> al_event a = ev_id e) (alerts d)"

definition has_job :: "event_row \<Rightarrow> db \<Rightarrow> bool" where
  "has_job e d \<longleftrightarrow> row_exists (\<lambda>j. jb_tenant j = ev_tenant e \<and> jb_event j = ev_id e) (detection_jobs d)"

definition has_live_job :: "instant \<Rightarrow> event_row \<Rightarrow> db \<Rightarrow> bool" where
  "has_live_job cutoff e d \<longleftrightarrow> row_exists (\<lambda>j. jb_tenant j = ev_tenant e \<and> jb_event j = ev_id e \<and>
     \<not> ((jb_status j = JobSucceeded \<or> jb_status j = JobDead) \<and> jb_updated j < cutoff)) (detection_jobs d)"

definition make_preview :: "string \<Rightarrow> int \<Rightarrow> datetime \<Rightarrow> retention_preview prog" where
  "make_preview tenant dys now = bind (utc_text (datetime_add now (- days dys))) (\<lambda>cutoff.
     bind (query (\<lambda>d. row_count (settled_before tenant cutoff) (detection_jobs d))) (\<lambda>jobs.
     bind (query (\<lambda>d. row_count (\<lambda>e. ev_tenant e = tenant \<and> ev_received e < cutoff \<and> \<not> has_alert e d \<and>
        \<not> has_live_job cutoff e d) (events d))) (\<lambda>evs.
     ret \<lparr>pv_days = dys, pv_cutoff = cutoff, pv_jobs = jobs, pv_events = evs\<rparr>)))"

definition preview :: "principal \<Rightarrow> datetime \<Rightarrow> retention_preview prog" where
  "preview p now = andthen (require_capability p (pr_tenant p) View)
     (bind (policy_days (pr_tenant p)) (\<lambda>dys. make_preview (pr_tenant p) dys now))"

definition latest_run :: "principal \<Rightarrow> run_row option prog" where
  "latest_run p = andthen (require_capability p (pr_tenant p) View)
     (query (\<lambda>d. case order_by_desc (\<lambda>r. (rr_at r, rr_id r)) (filter (\<lambda>r. rr_tenant r = pr_tenant p) (retention_runs d)) of
        [] \<Rightarrow> None | r # _ \<Rightarrow> Some r))"

definition insert_run :: "run_row \<Rightarrow> unit prog" where
  "insert_run r = insert_checked
     (\<lambda>d. \<not> row_exists (\<lambda>x. rr_tenant x = rr_tenant r \<and> rr_id x = rr_id r) (retention_runs d) \<and> 0 \<le> rr_jobs r \<and> 0 \<le> rr_events r \<and>
        tenant_exists (rr_tenant r) d \<and> user_exists (rr_tenant r) (rr_by r) d)
     (\<lambda>d. d\<lparr>retention_runs := retention_runs d @ [r]\<rparr>)"

definition delete_expired_events :: "string \<Rightarrow> instant \<Rightarrow> nat prog" where
  "delete_expired_events tenant cutoff =
     bind (query (\<lambda>d e. ev_tenant e = tenant \<and> ev_received e < cutoff \<and> \<not> has_job e d \<and> \<not> has_alert e d))
       (delete_rows events events_update)"

definition apply_transaction :: "env \<Rightarrow> principal \<Rightarrow> string \<Rightarrow> datetime \<Rightarrow> run_row prog" where
  "apply_transaction E p run_id now =
     bind (policy_days (pr_tenant p)) (\<lambda>dys.
     bind (make_preview (pr_tenant p) dys now) (\<lambda>pv.
     bind (delete_rows detection_jobs detection_jobs_update (settled_before (pr_tenant p) (pv_cutoff pv))) (\<lambda>jobs.
     bind (delete_expired_events (pr_tenant p) (pv_cutoff pv)) (\<lambda>evs.
     andthen (raise_if (jobs \<noteq> pv_jobs pv \<or> evs \<noteq> pv_events pv) RetentionError
       ''retention counts changed inside the locked transaction'')
     (bind (utc_text now) (\<lambda>t.
      let run = \<lparr>rr_tenant = pr_tenant p, rr_id = run_id, rr_cutoff = pv_cutoff pv, rr_jobs = int jobs, rr_events = int evs,
            rr_by = pr_user p, rr_at = t\<rparr> in
      andthen (insert_run run)
      (andthen (audit_append E (pr_tenant p) ''retention.applied'' ''user'' (pr_user p) ''retention_run'' run_id
         (JObj [(''cutoff_at'', JStr (iso_text (pv_cutoff pv))), (''telemetry_days'', JInt dys),
           (''terminal_jobs_deleted'', JInt (int jobs)), (''unreferenced_events_deleted'', JInt (int evs))]) now)
      (ret run))))))))"

definition apply_retention :: "env \<Rightarrow> principal \<Rightarrow> datetime \<Rightarrow> run_row prog" where
  "apply_retention E p now =
     andthen (require_capability p (pr_tenant p) Manage)
     (bind (audit_verify E (pr_tenant p)) (\<lambda>v.
      andthen (raise_if (\<not> vf_valid v) RetentionError ''retention refused because audit verification failed'')
      (bind fresh (\<lambda>run_id.
       atomically (apply_transaction E p run_id now)))))"

section \<open>What a run removes\<close>

definition expired_event :: "string \<Rightarrow> instant \<Rightarrow> db \<Rightarrow> event_row \<Rightarrow> bool" where
  "expired_event tenant cutoff d e \<longleftrightarrow> ev_tenant e = tenant \<and> ev_received e < cutoff \<and> \<not> has_alert e d \<and> \<not> has_live_job cutoff e d"

definition retained :: "string \<Rightarrow> instant \<Rightarrow> db \<Rightarrow> db" where
  "retained tenant cutoff d = d\<lparr>detection_jobs := delete_where (settled_before tenant cutoff) (detection_jobs d),
     events := delete_where (expired_event tenant cutoff d) (events d)\<rparr>"

lemma job_left_iff:
  assumes "ev_tenant e = tenant"
  shows "has_job e (d\<lparr>detection_jobs := delete_where (settled_before tenant cutoff) (detection_jobs d)\<rparr>) = has_live_job cutoff e d"
  using assms by (auto simp: has_job_def has_live_job_def row_exists_iff settled_before_def)

text \<open>The two statements remove exactly what the preview counted.\<close>

lemma expired_events_wp:
  "wp (delete_expired_events tenant cutoff) Q Er
     (w\<lparr>tables := (tables w)\<lparr>detection_jobs := delete_where (settled_before tenant cutoff) (detection_jobs (tables w))\<rparr>\<rparr>) =
   Q (row_count (expired_event tenant cutoff (tables w)) (events (tables w))) (w\<lparr>tables := retained tenant cutoff (tables w)\<rparr>)"
proof -
  let ?d = "(tables w)\<lparr>detection_jobs := delete_where (settled_before tenant cutoff) (detection_jobs (tables w))\<rparr>"
  have "(\<lambda>e. ev_tenant e = tenant \<and> ev_received e < cutoff \<and> \<not> has_job e ?d \<and> \<not> has_alert e ?d) = expired_event tenant cutoff (tables w)"
    by (rule ext) (auto simp: expired_event_def job_left_iff has_alert_def)
  then show ?thesis by (simp add: delete_expired_events_def wp_rules retained_def)
qed

definition retention_effect :: "env \<Rightarrow> principal \<Rightarrow> instant \<Rightarrow> run_row \<Rightarrow> db \<Rightarrow> db \<Rightarrow> bool" where
  "retention_effect E p t run d d' \<longleftrightarrow> Manage \<in> role_capabilities (pr_role p) \<and> vf_valid (verify_log E (pr_tenant p) d) \<and>
     rr_jobs run = int (row_count (settled_before (pr_tenant p) (rr_cutoff run)) (detection_jobs d)) \<and>
     rr_events run = int (row_count (expired_event (pr_tenant p) (rr_cutoff run) d) (events d)) \<and>
     rr_cutoff run \<le> t - days 30 \<and>
     (\<exists>l n cps. d' = with_audit (audit_log d @ [l]) n cps ((retained (pr_tenant p) (rr_cutoff run) d)\<lparr>retention_runs := retention_runs d @ [run]\<rparr>))"

lemma retained_frame [simp]:
  "audit_log (retained tenant cutoff d) = audit_log d" "retention_runs (retained tenant cutoff d) = retention_runs d"
  "tenants (retained tenant cutoff d) = tenants d" "users (retained tenant cutoff d) = users d"
  by (simp_all add: retained_def)

lemma retention_effectI:
  assumes "Manage \<in> role_capabilities (pr_role p)" "vf_valid (verify_log E (pr_tenant p) d)"
    "rr_jobs run = int (row_count (settled_before (pr_tenant p) (rr_cutoff run)) (detection_jobs d))"
    "rr_events run = int (row_count (expired_event (pr_tenant p) (rr_cutoff run) d) (events d))" "rr_cutoff run \<le> t - days 30"
  shows "retention_effect E p t run d (with_audit (audit_log d @ [l]) n cps
    ((retained (pr_tenant p) (rr_cutoff run) d)\<lparr>retention_runs := retention_runs d @ [run]\<rparr>))"
  using assms by (auto simp: retention_effect_def)

lemma apply_transaction_wp:
  assumes "Manage \<in> role_capabilities (pr_role p)" "vf_valid (verify_log E (pr_tenant p) (tables w))"
  shows "wp (apply_transaction E p run_id now) (\<lambda>run w'. \<exists>t. now = Aware t \<and> retention_effect E p t run (tables w) (tables w'))
     (\<lambda>_ _. True) w"
proof (cases now)
  case (Aware t)
  have count: "row_count (\<lambda>e. ev_tenant e = tenant \<and> ev_received e < c \<and> \<not> has_alert e d \<and> \<not> has_live_job c e d) (events d) =
      row_count (expired_event tenant c d) (events d)" for tenant c d
    unfolding expired_event_def [abs_def] ..
  show ?thesis
    using assms
    by (auto simp: apply_transaction_def policy_days_def validate_days_def make_preview_def wp_rules wp_funs expired_events_wp count Let_def
        insert_run_def Aware datetime_add_def days_def
        intro!: auditing.wp_append retention_effectI [where run = "\<lparr>rr_tenant = _, rr_id = _, rr_cutoff = _, rr_jobs = _, rr_events = _, rr_by = _, rr_at = _\<rparr>", simplified days_def, simplified])
qed (auto simp: apply_transaction_def policy_days_def validate_days_def make_preview_def wp_rules Let_def datetime_add_def)

lemma apply_retention_wp:
  "wp (apply_retention E p now) (\<lambda>run w'. \<exists>t. now = Aware t \<and> retention_effect E p t run (tables w) (tables w'))
     (\<lambda>_ w'. tables w' = tables w) w"
  by (auto simp: apply_retention_def require_capability_def audit_verify_def wp_rules intro!: wp_mono [OF apply_transaction_wp])

lemma live_job_kept: "has_live_job cutoff e d \<Longrightarrow> e \<in> set (events d) \<Longrightarrow> e \<in> set (events (retained tenant cutoff d))"
  by (auto simp: retained_def expired_event_def)

lemma retained_queue_inv:
  assumes inv: "queue_inv d"
  shows "queue_inv (retained tenant cutoff d)"
proof -
  have "job_event_key j \<in> event_key ` set (events (retained tenant cutoff d))" if j: "j \<in> set (detection_jobs (retained tenant cutoff d))" for j
  proof -
    have jd: "j \<in> set (detection_jobs d)" "\<not> settled_before tenant cutoff j" using j by (auto simp: retained_def)
    obtain e where e: "event_at (jb_tenant j) (jb_event j) d = Some e" using event_at_job [OF inv jd(1)] by blast
    have "e \<in> set (events (retained tenant cutoff d))"
    proof (cases "ev_tenant e = tenant")
      case True
      then have "has_live_job cutoff e d"
        using jd event_at_SomeD [OF e] by (auto simp: has_live_job_def row_exists_iff settled_before_def)
      with event_at_SomeD [OF e] show ?thesis by (auto intro: live_job_kept)
    next
      case False
      with event_at_SomeD [OF e] show ?thesis by (auto simp: retained_def expired_event_def)
    qed
    with event_at_SomeD [OF e] show ?thesis by (force simp: job_event_key_def event_key_def)
  qed
  with inv show ?thesis by (auto simp: queue_inv_def retained_def intro: key_unique_delete)
qed

lemma retention_effect_inv:
  assumes eff: "retention_effect E p t run d d'" and inv: "detection_inv d"
  shows "detection_inv d'"
proof -
  obtain l n cps where d': "d' = with_audit (audit_log d @ [l]) n cps ((retained (pr_tenant p) (rr_cutoff run) d)\<lparr>retention_runs := retention_runs d @ [run]\<rparr>)"
    using eff by (auto simp: retention_effect_def)
  have "queue_inv d' = queue_inv (retained (pr_tenant p) (rr_cutoff run) d)" by (simp add: d' queue_inv_def)
  moreover have "case_inv d' = case_inv d" by (rule case_inv_frame) (simp_all add: d' retained_def)
  ultimately show ?thesis using inv retained_queue_inv by (simp add: detection_inv_def)
qed


lemma keeps_audit_retention:
  "keeps (audit_inv E) (apply_retention E p now)"
  "keeps (audit_inv E) (set_policy E p dys now)"
  unfolding apply_retention_def apply_transaction_def set_policy_def upsert_policy_def insert_run_def policy_days_def validate_days_def
    make_preview_def delete_expired_events_def require_capability_def audit_verify_def Let_def
  by (intro keeps_rules commits_rules commits_audit_append; simp)+


end
