(* ===== verification/Rate_Limit.thy ===== *)
theory Rate_Limit
  imports Sample_Data
begin

text \<open>
  The sliding-window rate limiter of \<open>standalone/ratelimit.py\<close>. Its state, an ordered dictionary of
  deques, is the list of buckets with the least recently used first; the lock makes one call one step.
\<close>

section \<open>Model\<close>

type_synonym attempts = "(string \<times> instant list) list"

record rate_decision =
  rd_allowed :: bool
  rd_retry_after :: int

definition new_limiter :: "int \<Rightarrow> exn + attempts" where
  "new_limiter max_keys = (if max_keys < 128 \<or> 65536 < max_keys
     then Inl (ValueError, ''rate-limit key capacity must be between 128 and 65536'') else Inr [])"

definition bucket :: "env \<Rightarrow> string \<Rightarrow> string \<Rightarrow> exn + string" where
  "bucket E scope key = (if scope = [] \<or> 64 < length scope
     then Inl (ValueError, ''rate-limit scope must contain between 1 and 64 characters'')
     else let normalized = casefold (strip key);
              known = (if normalized = [] \<or> 512 < length normalized then ''unknown'' else normalized) in
          Inr (scope @ '':'' @ sha256_hex E (utf8 known)))"

definition pop_bucket :: "string \<Rightarrow> attempts \<Rightarrow> instant list \<times> attempts" where
  "pop_bucket b s = (case map_of s b of None \<Rightarrow> [] | Some xs \<Rightarrow> xs, filter (\<lambda>kv. fst kv \<noteq> b) s)"

definition evict :: "nat \<Rightarrow> attempts \<Rightarrow> attempts" where
  "evict max_keys s = drop (length s - max_keys) s"

definition decide_bucket :: "nat \<Rightarrow> string \<Rightarrow> instant \<Rightarrow> nat \<Rightarrow> int \<Rightarrow> attempts \<Rightarrow> rate_decision \<times> attempts" where
  "decide_bucket max_keys b t limit window s =
     (case pop_bucket b s of (old, rest) \<Rightarrow>
      let live = dropWhile (\<lambda>x. x \<le> t - window) old in
      if limit \<le> length live
      then (\<lparr>rd_allowed = False, rd_retry_after = max 1 ((hd live + window - t) div 1000000 + 1)\<rparr>, rest @ [(b, live)])
      else (\<lparr>rd_allowed = True, rd_retry_after = 0\<rparr>, evict max_keys (rest @ [(b, live @ [t])])))"

definition check_rate :: "env \<Rightarrow> nat \<Rightarrow> string \<Rightarrow> string \<Rightarrow> datetime \<Rightarrow> int \<Rightarrow> int \<Rightarrow> attempts \<Rightarrow> (exn + rate_decision) \<times> attempts" where
  "check_rate E max_keys scope key now limit window s =
     (case now of Naive _ \<Rightarrow> (Inl (ValueError, ''rate-limit clock must be timezone-aware''), s)
      | Aware t \<Rightarrow>
        if limit < 1 \<or> 10000 < limit then (Inl (ValueError, ''rate limit must be between 1 and 10000''), s)
        else if window < seconds 1 \<or> days 1 < window
        then (Inl (ValueError, ''rate-limit window must be between 1 second and 1 day''), s)
        else case bucket E scope key of Inl e \<Rightarrow> (Inl e, s)
          | Inr b \<Rightarrow> (case decide_bucket max_keys b t (nat limit) window s of (r, s') \<Rightarrow> (Inr r, s')))"

section \<open>The state is bounded\<close>

definition limiter_inv :: "nat \<Rightarrow> attempts \<Rightarrow> bool" where
  "limiter_inv max_keys s \<longleftrightarrow> distinct (map fst s) \<and> length s \<le> max_keys \<and> (\<forall>kv \<in> set s. length (snd kv) \<le> 10000)"

lemma length_filter_key:
  "distinct (map fst s) \<Longrightarrow> length (filter (\<lambda>kv. fst kv \<noteq> b) s) = length s - (if b \<in> fst ` set s then 1 else 0)"
proof (induction s)
  case (Cons kv s)
  have "filter (\<lambda>kv. fst kv \<noteq> b) s = s" if "b \<notin> fst ` set s" using that by (auto simp: filter_id_conv)
  with Cons show ?case by (cases s) (auto simp: Suc_diff_le)
qed simp

lemma pop_bucket_inv:
  assumes "limiter_inv n s" "pop_bucket b s = (old, rest)"
  shows "distinct (map fst rest)" "b \<notin> fst ` set rest" "length rest \<le> n" "\<forall>kv \<in> set rest. length (snd kv) \<le> 10000"
    "length old \<le> 10000"
  using assms length_filter_key [of s b]
  by (auto simp: limiter_inv_def pop_bucket_def distinct_map_filter split: option.splits dest: map_of_SomeD
      intro: le_trans [OF length_filter_le])

lemma pop_bucket_room:
  assumes "limiter_inv n s" "pop_bucket b s = (old, rest)" "old \<noteq> []"
  shows "length rest < n"
proof -
  have b: "b \<in> fst ` set s" using assms(2,3) by (force simp: pop_bucket_def split: option.splits dest: map_of_SomeD)
  then have "s \<noteq> []" by auto
  with b assms length_filter_key [of s b] show ?thesis by (cases s) (auto simp: limiter_inv_def pop_bucket_def)
qed

lemma evict_inv:
  "distinct (map fst s) \<Longrightarrow> \<forall>kv \<in> set s. length (snd kv) \<le> 10000 \<Longrightarrow> limiter_inv n (evict n s)"
  by (auto simp: limiter_inv_def evict_def drop_map [symmetric] distinct_drop dest: in_set_dropD)

lemma decide_bucket_inv:
  assumes inv: "limiter_inv n s" and limit: "1 \<le> limit" "limit \<le> 10000"
    and run: "decide_bucket n b t limit window s = (r, s')"
  shows "limiter_inv n s'"
proof -
  obtain old rest where pop: "pop_bucket b s = (old, rest)" by (cases "pop_bucket b s")
  define live where "live = dropWhile (\<lambda>x. x \<le> t - window) old"
  note rest = pop_bucket_inv [OF inv pop]
  have len: "length live \<le> 10000" using rest(5) length_dropWhile_le [of "\<lambda>x. x \<le> t - window" old] by (simp add: live_def)
  show ?thesis
  proof (cases "limit \<le> length live")
    case True
    then have "old \<noteq> []" using limit by (auto simp: live_def)
    with True run pop rest len pop_bucket_room [OF inv pop] show ?thesis
      by (auto simp: decide_bucket_def live_def [symmetric] limiter_inv_def)
  next
    case False
    with run pop rest limit show ?thesis
      by (auto simp: decide_bucket_def live_def [symmetric] Let_def intro!: evict_inv)
  qed
qed

section \<open>The limit holds over every window\<close>

text \<open>
  A call that reaches the decision, on the bucket of its scope and key. Over a run of calls the times
  at which a bucket was allowed are recorded; the limiter's deque is the live part of that record.
\<close>

type_synonym call = "string \<times> instant"

fun run_limiter :: "nat \<Rightarrow> (string \<Rightarrow> nat) \<Rightarrow> (string \<Rightarrow> int) \<Rightarrow> call list \<Rightarrow> attempts \<Rightarrow> bool list" where
  "run_limiter n limit window [] s = []"
| "run_limiter n limit window ((b, t) # cs) s =
     (case decide_bucket n b t (limit b) (window b) s of (r, s') \<Rightarrow> rd_allowed r # run_limiter n limit window cs s')"

definition allowed_times :: "string \<Rightarrow> call list \<Rightarrow> bool list \<Rightarrow> instant list" where
  "allowed_times b cs rs = map (\<lambda>(c, _). snd c) (filter (\<lambda>(c, r). fst c = b \<and> r) (zip cs rs))"

definition in_window :: "int \<Rightarrow> instant \<Rightarrow> instant list \<Rightarrow> nat" where
  "in_window window t xs = length (filter (\<lambda>x. t - window < x \<and> x \<le> t) xs)"

lemma allowed_times_Cons:
  "allowed_times b (c # cs) (r # rs) = (if fst c = b \<and> r then [snd c] else []) @ allowed_times b cs rs"
  by (simp add: allowed_times_def)

text \<open>What the deque of a bucket remembers of the times it was allowed, as long as nothing is evicted.\<close>

definition remembers :: "int \<Rightarrow> instant \<Rightarrow> instant list \<Rightarrow> instant list \<Rightarrow> bool" where
  "remembers window now past xs \<longleftrightarrow> sorted past \<and> (\<forall>x \<in> set past. x \<le> now) \<and>
     (\<exists>gone. past = gone @ xs \<and> (\<forall>x \<in> set gone. x \<le> now - window))"

lemma remembers_later: "remembers window now past xs \<Longrightarrow> now \<le> t \<Longrightarrow> remembers window t past xs"
  unfolding remembers_def by fastforce

lemma filter_sorted_dropWhile: "sorted xs \<Longrightarrow> filter (\<lambda>x. c < x) xs = dropWhile (\<lambda>x. x \<le> (c :: int)) xs"
proof (induction xs)
  case (Cons x xs)
  have "filter (\<lambda>y. c < y) xs = xs" if "c < x" using that Cons.prems by (auto simp: filter_id_conv)
  with Cons show ?case by auto
qed simp

lemma remembers_live:
  assumes "remembers window now past xs" "now \<le> t"
  shows "remembers window t past (dropWhile (\<lambda>x. x \<le> t - window) xs)"
    "dropWhile (\<lambda>x. x \<le> t - window) xs = filter (\<lambda>x. t - window < x) past"
proof -
  obtain gone where past: "past = gone @ xs" "\<forall>x \<in> set gone. x \<le> t - window" and le: "\<forall>x \<in> set past. x \<le> t" and sorted: "sorted past"
    using remembers_later [OF assms] by (auto simp: remembers_def)
  have "past = (gone @ takeWhile (\<lambda>x. x \<le> t - window) xs) @ dropWhile (\<lambda>x. x \<le> t - window) xs" by (simp add: past)
  moreover have "\<forall>x \<in> set (gone @ takeWhile (\<lambda>x. x \<le> t - window) xs). x \<le> t - window"
    using past(2) by (auto dest: set_takeWhileD)
  ultimately show "remembers window t past (dropWhile (\<lambda>x. x \<le> t - window) xs)"
    using le sorted unfolding remembers_def by blast
  have "filter (\<lambda>x. t - window < x) gone = []" using past(2) by (auto simp: filter_empty_conv)
  then show "dropWhile (\<lambda>x. x \<le> t - window) xs = filter (\<lambda>x. t - window < x) past"
    using sorted by (simp add: past(1) filter_sorted_dropWhile sorted_append)
qed

lemma remembers_new: "remembers window t past xs \<Longrightarrow> remembers window t (past @ [t]) (xs @ [t])"
  by (auto simp: remembers_def sorted_append)

lemma in_window_new:
  assumes "in_window window u past \<le> limit" "length (filter (\<lambda>x. t - window < x) past) < limit"
  shows "in_window window u (past @ [t]) \<le> limit"
proof (cases "t \<le> u")
  case True
  have "length (filter (\<lambda>x. u - window < x \<and> x \<le> u) past) \<le> length (filter (\<lambda>x. t - window < x) past)"
    using True by (induction past) auto
  with assms show ?thesis by (simp add: in_window_def)
qed (use assms(1) in \<open>simp add: in_window_def\<close>)

definition deque_of :: "string \<Rightarrow> attempts \<Rightarrow> instant list" where
  "deque_of b s = (case map_of s b of None \<Rightarrow> [] | Some xs \<Rightarrow> xs)"

definition tracked :: "(string \<Rightarrow> int) \<Rightarrow> (string \<Rightarrow> nat) \<Rightarrow> string set \<Rightarrow> instant \<Rightarrow> (string \<Rightarrow> instant list) \<Rightarrow> attempts \<Rightarrow> bool" where
  "tracked window limit bs now past s \<longleftrightarrow> distinct (map fst s) \<and> fst ` set s \<subseteq> bs \<and>
     (\<forall>b. remembers (window b) now (past b) (deque_of b s)) \<and> (\<forall>b t. in_window (window b) t (past b) \<le> limit b)"

lemma map_of_filter_other: "b' \<noteq> b \<Longrightarrow> map_of (filter (\<lambda>kv. fst kv \<noteq> b) s) b' = map_of s b'"
  by (induction s) auto

lemma map_of_filter_same: "map_of (filter (\<lambda>kv. fst kv \<noteq> b) s) b = None"
  by (induction s) auto

lemma deque_of_put: "deque_of b' (filter (\<lambda>kv. fst kv \<noteq> b) s @ [(b, xs)]) = (if b' = b then xs else deque_of b' s)"
  by (simp add: deque_of_def map_add_def map_of_filter_other map_of_filter_same split: option.splits)

lemma keys_put:
  assumes "distinct (map fst s)" "fst ` set s \<subseteq> bs" "b \<in> bs" "finite bs" "card bs \<le> n"
  shows "distinct (map fst (filter (\<lambda>kv. fst kv \<noteq> b) s @ [(b, xs)]))" "fst ` set (filter (\<lambda>kv. fst kv \<noteq> b) s @ [(b, xs)]) \<subseteq> bs"
    "length (filter (\<lambda>kv. fst kv \<noteq> b) s @ [(b, xs)]) \<le> n"
proof -
  let ?s = "filter (\<lambda>kv. fst kv \<noteq> b) s @ [(b, xs)]"
  show d: "distinct (map fst ?s)" using assms(1) by (auto simp: distinct_map_filter)
  show k: "fst ` set ?s \<subseteq> bs" using assms(2,3) by auto
  have "length ?s = card (set (map fst ?s))" using distinct_card [OF d] by (simp only: length_map)
  also have "\<dots> \<le> card bs" using assms(4) k by (intro card_mono) (simp_all only: set_map)
  finally show "length ?s \<le> n" using assms(5) by simp
qed

lemma tracked_step:
  assumes tr: "tracked window limit bs now past s" and t: "now \<le> t" and b: "b \<in> bs" "finite bs" "card bs \<le> n"
    and run: "decide_bucket n b t (limit b) (window b) s = (r, s')"
  shows "tracked window limit bs t (if rd_allowed r then past(b := past b @ [t]) else past) s'"
proof -
  define live where "live = dropWhile (\<lambda>x. x \<le> t - window b) (deque_of b s)"
  have all: "distinct (map fst s)" "fst ` set s \<subseteq> bs" "\<And>b. remembers (window b) now (past b) (deque_of b s)"
    "\<And>b u. in_window (window b) u (past b) \<le> limit b" using tr by (auto simp: tracked_def)
  have now: "remembers (window b) t (past b) live" "live = filter (\<lambda>x. t - window b < x) (past b)"
    using remembers_live [OF all(3) t] by (simp_all add: live_def)
  note put = keys_put [OF all(1,2) b]
  have later: "remembers (window c) t (past c) (deque_of c s)" for c by (rule remembers_later [OF all(3) t])
  show ?thesis
  proof (cases "limit b \<le> length live")
    case True
    then have "s' = filter (\<lambda>kv. fst kv \<noteq> b) s @ [(b, live)]" "\<not> rd_allowed r"
      using run by (auto simp: decide_bucket_def pop_bucket_def deque_of_def live_def Let_def)
    with put [of live] later now(1) all(4) show ?thesis by (simp add: tracked_def deque_of_put)
  next
    case False
    then have s': "s' = filter (\<lambda>kv. fst kv \<noteq> b) s @ [(b, live @ [t])]" and ok: "rd_allowed r"
      using run put(3) [of "live @ [t]"] by (auto simp: decide_bucket_def pop_bucket_def deque_of_def live_def Let_def evict_def)
    have "in_window (window b) u (past b @ [t]) \<le> limit b" for u
      using in_window_new [OF all(4)] False now(2) by simp
    with s' ok put [of "live @ [t]"] later remembers_new [OF now(1)] all(4) show ?thesis by (simp add: tracked_def deque_of_put)
  qed
qed

lemma run_tracked:
  assumes "tracked window limit bs now past s" "sorted (map snd cs)" "\<forall>c \<in> set cs. now \<le> snd c" "fst ` set cs \<subseteq> bs"
    "finite bs" "card bs \<le> n"
  shows "in_window (window b) t (past b @ allowed_times b cs (run_limiter n limit window cs s)) \<le> limit b"
  using assms
proof (induction cs arbitrary: s now past)
  case Nil
  then show ?case by (simp add: tracked_def allowed_times_def)
next
  case (Cons c cs)
  obtain k u where c: "c = (k, u)" by (cases c)
  obtain r s' where run: "decide_bucket n k u (limit k) (window k) s = (r, s')" by (cases "decide_bucket n k u (limit k) (window k) s")
  let ?past = "if rd_allowed r then past(k := past k @ [u]) else past"
  have "tracked window limit bs u ?past s'"
    by (rule tracked_step [OF Cons.prems(1) _ _ _ _ run]) (use Cons.prems c in auto)
  then have "in_window (window b) t (?past b @ allowed_times b cs (run_limiter n limit window cs s')) \<le> limit b"
    by (rule Cons.IH) (use Cons.prems c in auto)
  then show ?case by (simp add: c run allowed_times_Cons split: if_splits)
qed

fun run_checks :: "env \<Rightarrow> nat \<Rightarrow> (string \<Rightarrow> nat) \<Rightarrow> (string \<Rightarrow> int) \<Rightarrow> (string \<times> string \<times> instant) list \<Rightarrow> attempts \<Rightarrow> (exn + rate_decision) list \<times> attempts" where
  "run_checks E n limit window [] s = ([], s)"
| "run_checks E n limit window ((scope, key, t) # cs) s =
     (let b = (case bucket E scope key of Inr b \<Rightarrow> b | Inl _ \<Rightarrow> []) in
      case check_rate E n scope key (Aware t) (int (limit b)) (window b) s of (r, s') \<Rightarrow>
      (case run_checks E n limit window cs s' of (rs, s'') \<Rightarrow> (r # rs, s'')))"

definition allowed_result :: "exn + rate_decision \<Rightarrow> bool" where
  "allowed_result r = (case r of Inr d \<Rightarrow> rd_allowed d | Inl _ \<Rightarrow> False)"

definition policy_ok :: "(string \<Rightarrow> nat) \<Rightarrow> (string \<Rightarrow> int) \<Rightarrow> bool" where
  "policy_ok limit window \<longleftrightarrow> (\<forall>b. 1 \<le> limit b \<and> limit b \<le> 10000 \<and> seconds 1 \<le> window b \<and> window b \<le> days 1)"

definition calls_of :: "env \<Rightarrow> (string \<times> string \<times> instant) list \<Rightarrow> call list" where
  "calls_of E cs = map (\<lambda>(scope, key, t). (case bucket E scope key of Inr b \<Rightarrow> b | Inl _ \<Rightarrow> [], t)) cs"

definition scopes_ok :: "(string \<times> string \<times> instant) list \<Rightarrow> bool" where
  "scopes_ok cs \<longleftrightarrow> list_all (\<lambda>(scope, key, t). scope \<noteq> [] \<and> length scope \<le> 64) cs"

lemma run_checks_limiter:
  assumes "policy_ok limit window" "scopes_ok cs"
  shows "map allowed_result (fst (run_checks E n limit window cs s)) = run_limiter n limit window (calls_of E cs) s"
  using assms(2)
proof (induction cs arbitrary: s)
  case (Cons c cs)
  obtain scope key t where c: "c = (scope, key, t)" by (cases c)
  obtain b where b: "bucket E scope key = Inr b" using Cons.prems by (auto simp: c scopes_ok_def bucket_def Let_def)
  have p: "1 \<le> limit b \<and> limit b \<le> 10000 \<and> seconds 1 \<le> window b \<and> window b \<le> days 1" using assms(1) by (simp add: policy_ok_def)
  obtain r s' where r: "decide_bucket n b t (limit b) (window b) s = (r, s')" by (cases "decide_bucket n b t (limit b) (window b) s")
  have check: "check_rate E n scope key (Aware t) (int (limit b)) (window b) s = (Inr r, s')"
    using p by (simp add: check_rate_def b r)
  have "scopes_ok cs" using Cons.prems by (simp add: scopes_ok_def c)
  then show ?case
    using Cons.IH [of s'] by (simp add: c b r check calls_of_def allowed_result_def [of "Inr r"] case_prod_unfold Let_def)
qed (simp add: calls_of_def)

lemma run_checks_inv:
  assumes "policy_ok limit window" "limiter_inv n s"
  shows "limiter_inv n (snd (run_checks E n limit window cs s))"
  using assms(2)
proof (induction cs arbitrary: s)
  case (Cons c cs)
  obtain scope key t where c: "c = (scope, key, t)" by (cases c)
  let ?b = "case bucket E scope key of Inr b \<Rightarrow> b | Inl _ \<Rightarrow> []"
  have "limiter_inv n (snd (check_rate E n scope key (Aware t) (int (limit ?b)) (window ?b) s))"
    using Cons.prems decide_bucket_inv [OF Cons.prems, of "limit ?b"] assms(1)
    by (auto simp: check_rate_def policy_ok_def split: sum.splits prod.splits)
  from Cons.IH [OF this] show ?case by (simp add: c Let_def case_prod_unfold)
qed simp

text \<open>
  C30. The rate limiter enforces its limit over every sliding window and stays small. For any run of
  checks in order of time, each bucket always checked against its own limit and window: whatever
  window of that length is considered, at most the limit of the calls on the bucket in it were let
  through, provided no more buckets are used than the limiter can hold; and the state never holds
  more buckets than its capacity or more than ten thousand times per bucket.
\<close>

theorem rate_limit_enforced:
  assumes "policy_ok limit window" and "scopes_ok cs" and "sorted (map (snd \<circ> snd) cs)"
    and "card (fst ` set (calls_of E cs)) \<le> max_keys"
  shows "in_window (window b) t (allowed_times b (calls_of E cs) (map allowed_result (fst (run_checks E max_keys limit window cs [])))) \<le> limit b \<and>
    limiter_inv max_keys (snd (run_checks E max_keys limit window cs []))"
proof
  have times: "map snd (calls_of E cs) = map (snd \<circ> snd) cs" by (simp add: calls_of_def case_prod_unfold comp_def)
  have first: "\<exists>now. \<forall>c \<in> set (calls_of E cs). now \<le> snd c"
    using assms(3) times by (cases "calls_of E cs") (auto simp flip: times)
  then obtain now where now: "\<forall>c \<in> set (calls_of E cs). now \<le> snd c" by blast
  have "tracked window limit (fst ` set (calls_of E cs)) now (\<lambda>_. []) []"
    by (simp add: tracked_def remembers_def deque_of_def in_window_def)
  from run_tracked [OF this _ now, of max_keys b t] assms(3,4) times
  show "in_window (window b) t (allowed_times b (calls_of E cs) (map allowed_result (fst (run_checks E max_keys limit window cs [])))) \<le> limit b"
    by (simp add: run_checks_limiter [OF assms(1,2)])
  show "limiter_inv max_keys (snd (run_checks E max_keys limit window cs []))"
    by (rule run_checks_inv [OF assms(1)]) (simp add: limiter_inv_def)
qed

theorem rate_limit_enforced_witness:
  "in_window 60000000 5000000 (allowed_times ''login:ip'' [(''login:ip'', 1000000), (''login:ip'', 2000000), (''login:ip'', 3000000)]
     (map allowed_result (fst (run_checks sample_env 128 (\<lambda>_. 2) (\<lambda>_. 60000000)
       [(''login'', ''IP'', 1000000), (''login'', '' ip'', 2000000), (''login'', ''ip'', 3000000)] [])))) \<le> 2"
proof -
  let ?cs = "[(''login'', ''IP'', 1000000), (''login'', '' ip'', 2000000), (''login'', ''ip'', 3000000)] :: (string \<times> string \<times> instant) list"
  have calls: "calls_of sample_env ?cs = [(''login:ip'', 1000000), (''login:ip'', 2000000), (''login:ip'', 3000000)]" by code_simp
  have "policy_ok (\<lambda>_. 2) (\<lambda>_. 60000000)" by (simp add: policy_ok_def seconds_def days_def)
  moreover have "scopes_ok ?cs" "sorted (map (snd \<circ> snd) ?cs)" by (simp_all add: scopes_ok_def)
  ultimately show ?thesis
    using rate_limit_enforced [of "\<lambda>_. 2" "\<lambda>_. 60000000" ?cs sample_env 128 "''login:ip''" 5000000] by (simp add: calls)
qed

end
