(* ===== verification/Sigma.thy ===== *)
theory Sigma
  imports Events Py_Text
begin

text \<open>
  The evaluator for the documented subset of Sigma (\<open>SigmaSubsetEvaluator\<close> of
  \<open>controlforge/detections.py\<close>): the tokeniser of conditions, the recursive-descent parser that
  evaluates while it parses, and the matching of selections against an event. What the regular
  expression and address libraries decide, and how Python prints a container or compares a float, are
  the parameters in \<open>sigma_lib\<close>. The parser carries fuel; that the fuel it starts with is
  always enough is proved below.
\<close>

section \<open>Characters and wildcards\<close>

definition ident_char :: "char \<Rightarrow> bool" where
  "ident_char c \<longleftrightarrow> (let n = code c in 97 \<le> n \<and> n \<le> 122 \<or> 65 \<le> n \<and> n \<le> 90 \<or> 48 \<le> n \<and> n \<le> 57 \<or> c \<in> set ''_*?-'')"

definition word_char :: "char \<Rightarrow> bool" where
  "word_char c \<longleftrightarrow> (let n = code c in 97 \<le> n \<and> n \<le> 122 \<or> 65 \<le> n \<and> n \<le> 90 \<or> 48 \<le> n \<and> n \<le> 57 \<or> n = 95 \<or>
     n \<in> {170, 178, 179, 181, 185, 186, 188, 189, 190} \<or> 192 \<le> n \<and> n \<noteq> 215 \<and> n \<noteq> 247)"

text \<open>\<open>fnmatch.fnmatch\<close> on a platform whose paths keep their case.\<close>

fun in_class :: "string \<Rightarrow> char \<Rightarrow> bool" where
  "in_class [] c = False"
| "in_class [x] c = (c = x)"
| "in_class [x, y] c = (c = x \<or> c = y)"
| "in_class (x # y # z # r) c =
     (if y = CHR ''-'' then code x \<le> code c \<and> code c \<le> code z \<or> in_class r c else c = x \<or> in_class (y # z # r) c)"

definition split_class :: "string \<Rightarrow> (bool \<times> string \<times> string) option" where
  "split_class p =
     (let (neg, body) = (case p of CHR ''!'' # r \<Rightarrow> (True, r) | _ \<Rightarrow> (False, p));
          (front, rest) = (case body of CHR '']'' # r \<Rightarrow> ('']'', r) | _ \<Rightarrow> ([], body));
          inside = takeWhile (\<lambda>c. c \<noteq> CHR '']'') rest in
      if length inside = length rest then None else Some (neg, front @ inside, drop (Suc (length inside)) rest))"

lemma split_class_shorter: "split_class p = Some (neg, inside, rest) \<Longrightarrow> length rest < length p"
  by (auto simp: split_class_def Let_def split: prod.splits list.splits if_splits char.splits bool.splits)

function fnmatch :: "string \<Rightarrow> string \<Rightarrow> bool" where
  "fnmatch name [] = (name = [])"
| "fnmatch name (p # ps) =
     (if p = CHR ''*'' then fnmatch name ps \<or> (case name of [] \<Rightarrow> False | _ # r \<Rightarrow> fnmatch r (p # ps))
      else case name of [] \<Rightarrow> False
      | c # r \<Rightarrow>
        if p = CHR ''?'' then fnmatch r ps
        else if p = CHR ''['' then
          (case split_class ps of None \<Rightarrow> c = p \<and> fnmatch r ps
           | Some (neg, inside, rest) \<Rightarrow> in_class inside c \<noteq> neg \<and> fnmatch r rest)
        else c = p \<and> fnmatch r ps)"
  by pat_completeness auto
termination
  by (relation "measure (\<lambda>(name, pat). length name + length pat)") (auto dest: split_class_shorter)

section \<open>Tokens\<close>

text \<open>
  The alternatives of the token pattern in their order: a quantified selection, a connective that ends
  at a word boundary, a parenthesis, a name. Each returns the matched text and the rest.
\<close>

definition matches_word :: "string \<Rightarrow> string \<Rightarrow> (string \<times> string) option" where
  "matches_word word s = (if lower (take (length word) s) = word then Some (take (length word) s, drop (length word) s) else None)"

definition quantified :: "string \<Rightarrow> string \<Rightarrow> (string \<times> string) option" where
  "quantified q s =
     Option.bind (matches_word q s) (\<lambda>(a, r1).
     let gap1 = takeWhile py_space r1; r2 = drop (length gap1) r1 in
     if gap1 = [] then None else
     Option.bind (matches_word ''of'' r2) (\<lambda>(b, r3).
     let gap2 = takeWhile py_space r3; r4 = drop (length gap2) r3; name = takeWhile ident_char r4 in
     if gap2 = [] \<or> name = [] then None
     else Some (a @ gap1 @ b @ gap2 @ name, drop (length name) r4)))"

definition connective :: "string \<Rightarrow> string \<Rightarrow> (string \<times> string) option" where
  "connective word s = Option.bind (matches_word word s) (\<lambda>(a, r).
     if (case r of [] \<Rightarrow> True | c # _ \<Rightarrow> \<not> word_char c) then Some (a, r) else None)"

definition paren :: "char \<Rightarrow> string \<Rightarrow> (string \<times> string) option" where
  "paren p s = (case s of c # r \<Rightarrow> if c = p then Some ([c], r) else None | [] \<Rightarrow> None)"

definition plain_name :: "string \<Rightarrow> (string \<times> string) option" where
  "plain_name s = (let name = takeWhile ident_char s in if name = [] then None else Some (name, drop (length name) s))"

fun first_match :: "(string \<Rightarrow> (string \<times> string) option) list \<Rightarrow> string \<Rightarrow> (string \<times> string) option" where
  "first_match [] s = None"
| "first_match (p # ps) s = (case p s of Some r \<Rightarrow> Some r | None \<Rightarrow> first_match ps s)"

definition condition_token :: "string \<Rightarrow> (string \<times> string) option" where
  "condition_token s = first_match [quantified ''1'', quantified ''all'', connective ''and'', connective ''or'', connective ''not'',
     paren (CHR ''(''), paren (CHR '')''), plain_name] (dropWhile py_space s)"

function squeeze :: "string \<Rightarrow> string" where
  "squeeze [] = []"
| "squeeze (c # s) = (if py_space c then CHR '' '' # squeeze (dropWhile py_space s) else c # squeeze s)"
  by pat_completeness auto
termination
  by (relation "measure length") (auto simp: le_imp_less_Suc length_dropWhile_le)

definition normal_token :: "string \<Rightarrow> string" where
  "normal_token raw = (let token = squeeze (strip raw); lowered = casefold token in
     if lowered \<in> {''and'', ''or'', ''not''} then lowered else token)"

lemma matches_word_split: "matches_word w s = Some (a, r) \<Longrightarrow> length s = length w + length r \<and> length a = length w"
proof -
  assume m: "matches_word w s = Some (a, r)"
  then have "length (lower (take (length w) s)) = length w" by (auto simp: matches_word_def split: if_splits)
  with m show ?thesis by (auto simp: matches_word_def lower_def split: if_splits)
qed

lemma quantified_shorter: "quantified q s = Some (raw, rest) \<Longrightarrow> length rest < length s"
  by (fastforce simp: quantified_def Let_def bind_eq_Some_conv split: if_splits dest!: matches_word_split
      dest: takeWhile_eq_Nil_iff [THEN iffD1])

lemma connective_shorter: "connective w s = Some (raw, rest) \<Longrightarrow> w \<noteq> [] \<Longrightarrow> length rest < length s"
  by (auto simp: connective_def bind_eq_Some_conv split: if_splits list.splits dest!: matches_word_split)

lemma paren_shorter: "paren p s = Some (raw, rest) \<Longrightarrow> length rest < length s"
  by (auto simp: paren_def split: list.splits if_splits)

lemma plain_name_shorter: "plain_name s = Some (raw, rest) \<Longrightarrow> length rest < length s"
  by (cases s) (auto simp: plain_name_def Let_def split: if_splits)

lemma first_match_in: "first_match ps s = Some r \<Longrightarrow> \<exists>p \<in> set ps. p s = Some r"
  by (induction ps) (auto split: option.splits)

lemma condition_token_shorter: "condition_token s = Some (raw, rest) \<Longrightarrow> length rest < length s"
proof -
  let ?d = "dropWhile py_space s"
  assume "condition_token s = Some (raw, rest)"
  then have "length rest < length ?d"
    unfolding condition_token_def
    by (auto dest!: first_match_in simp: quantified_shorter connective_shorter paren_shorter plain_name_shorter
        simp del: first_match.simps)
  also have "\<dots> \<le> length s" by (rule length_dropWhile_le)
  finally show ?thesis .
qed

function tokenize_from :: "string \<Rightarrow> exn + string list" where
  "tokenize_from s =
     (if s = [] then Inr []
      else case condition_token s of
        None \<Rightarrow> if strip s = [] then Inr [] else Inl (ValueError, ''unsupported Sigma condition near: '' @ s)
      | Some (raw, rest) \<Rightarrow> (case tokenize_from rest of Inl e \<Rightarrow> Inl e | Inr ts \<Rightarrow> Inr (normal_token raw # ts)))"
  by pat_completeness auto
termination
  by (relation "measure length") (auto dest: condition_token_shorter)

declare tokenize_from.simps [simp del]

definition tokenize_condition :: "string \<Rightarrow> exn + string list" where
  "tokenize_condition condition = (case tokenize_from condition of
     Inl e \<Rightarrow> Inl e
   | Inr ts \<Rightarrow> if ts = [] then Inl (ValueError, ''Sigma condition cannot be empty'') else Inr ts)"

section \<open>The parser\<close>

text \<open>
  A verdict is whether the condition matched and the reasons. The parser holds the tokens that are left;
  \<^const>\<open>None\<close> is running out of fuel, \<open>Some (Inl e)\<close> an exception. The evaluation
  of one symbol is the argument \<open>ev\<close>.
\<close>

type_synonym verdict = "bool \<times> string list"
type_synonym parsed = "(exn + verdict \<times> string list) option"

definition continue :: "parsed \<Rightarrow> (verdict \<Rightarrow> string list \<Rightarrow> parsed) \<Rightarrow> parsed" where
  "continue p k = (case p of None \<Rightarrow> None | Some (Inl e) \<Rightarrow> Some (Inl e) | Some (Inr (v, ts)) \<Rightarrow> k v ts)"

lemma continue_cong [fundef_cong]:
  "p = q \<Longrightarrow> (\<And>v ts. q = Some (Inr (v, ts)) \<Longrightarrow> k v ts = l v ts) \<Longrightarrow> continue p k = continue q l"
  by (auto simp: continue_def split: option.splits sum.splits)

definition and_verdict :: "verdict \<Rightarrow> verdict \<Rightarrow> verdict" where
  "and_verdict v w = (if fst v \<and> fst w then (True, snd v @ snd w) else (False, []))"

definition or_verdict :: "verdict \<Rightarrow> verdict \<Rightarrow> verdict" where
  "or_verdict v w = (if \<not> fst v \<and> fst w then (True, snd w) else v)"

definition not_verdict :: "verdict \<Rightarrow> verdict" where
  "not_verdict v = (\<not> fst v, [])"

function parse_or :: "nat \<Rightarrow> (string \<Rightarrow> exn + verdict) \<Rightarrow> string list \<Rightarrow> parsed"
  and or_loop :: "nat \<Rightarrow> (string \<Rightarrow> exn + verdict) \<Rightarrow> verdict \<Rightarrow> string list \<Rightarrow> parsed"
  and parse_and :: "nat \<Rightarrow> (string \<Rightarrow> exn + verdict) \<Rightarrow> string list \<Rightarrow> parsed"
  and and_loop :: "nat \<Rightarrow> (string \<Rightarrow> exn + verdict) \<Rightarrow> verdict \<Rightarrow> string list \<Rightarrow> parsed"
  and parse_not :: "nat \<Rightarrow> (string \<Rightarrow> exn + verdict) \<Rightarrow> string list \<Rightarrow> parsed"
  and parse_primary :: "nat \<Rightarrow> (string \<Rightarrow> exn + verdict) \<Rightarrow> string list \<Rightarrow> parsed" where
  "parse_or 0 ev ts = None"
| "parse_or (Suc n) ev ts = continue (parse_and n ev ts) (or_loop n ev)"
| "or_loop 0 ev v ts = None"
| "or_loop (Suc n) ev v ts =
     (case ts of
        t # r \<Rightarrow> if t = ''or'' then continue (parse_and n ev r) (\<lambda>w. or_loop n ev (or_verdict v w)) else Some (Inr (v, ts))
      | [] \<Rightarrow> Some (Inr (v, ts)))"
| "parse_and 0 ev ts = None"
| "parse_and (Suc n) ev ts = continue (parse_not n ev ts) (and_loop n ev)"
| "and_loop 0 ev v ts = None"
| "and_loop (Suc n) ev v ts =
     (case ts of
        t # r \<Rightarrow> if t = ''and'' then continue (parse_not n ev r) (\<lambda>w. and_loop n ev (and_verdict v w)) else Some (Inr (v, ts))
      | [] \<Rightarrow> Some (Inr (v, ts)))"
| "parse_not 0 ev ts = None"
| "parse_not (Suc n) ev ts =
     (case ts of
        t # r \<Rightarrow> if t = ''not'' then continue (parse_not n ev r) (\<lambda>v rest. Some (Inr (not_verdict v, rest)))
                 else parse_primary n ev ts
      | [] \<Rightarrow> parse_primary n ev ts)"
| "parse_primary 0 ev ts = None"
| "parse_primary (Suc n) ev ts =
     (case ts of
        [] \<Rightarrow> Some (Inl (ValueError, ''unexpected end of Sigma condition''))
      | symbol # r \<Rightarrow>
          if symbol = ''('' then
            continue (parse_or n ev r) (\<lambda>v rest.
              case rest of
                c # rest' \<Rightarrow> if c = '')'' then Some (Inr (v, rest')) else Some (Inl (ValueError, ''unclosed parenthesis in Sigma condition''))
              | [] \<Rightarrow> Some (Inl (ValueError, ''unclosed parenthesis in Sigma condition'')))
          else if symbol = '')'' then Some (Inl (ValueError, ''unexpected closing parenthesis in Sigma condition''))
          else (case ev symbol of Inl e \<Rightarrow> Some (Inl e) | Inr v \<Rightarrow> Some (Inr (v, r))))"
  by pat_completeness simp_all
termination by size_change

text \<open>
  The fuel for a list of tokens: descending from a disjunction to a symbol takes five calls, and every
  token is consumed once.
\<close>

definition parse_fuel :: "string list \<Rightarrow> nat" where
  "parse_fuel ts = 5 * length ts + 5"

definition evaluate_tokens :: "(string \<Rightarrow> exn + verdict) \<Rightarrow> string list \<Rightarrow> (exn + verdict) option" where
  "evaluate_tokens ev ts = (case parse_or (parse_fuel ts) ev ts of
     None \<Rightarrow> None
   | Some (Inl e) \<Rightarrow> Some (Inl e)
   | Some (Inr (v, [])) \<Rightarrow> Some (Inr v)
   | Some (Inr (v, t # _)) \<Rightarrow> Some (Inl (ValueError, ''unexpected token in Sigma condition: '' @ t)))"

subsection \<open>The fuel is enough\<close>

definition within :: "nat \<Rightarrow> parsed \<Rightarrow> bool" where
  "within n p \<longleftrightarrow> (case p of None \<Rightarrow> False | Some (Inl e) \<Rightarrow> True | Some (Inr (v, r)) \<Rightarrow> length r \<le> n)"

lemma within_continue:
  assumes "within m p" "\<And>v r. p = Some (Inr (v, r)) \<Longrightarrow> length r \<le> m \<Longrightarrow> within n (k v r)"
  shows "within n (continue p k)"
proof (cases p)
  case (Some x)
  with assms show ?thesis by (cases x) (auto simp: within_def continue_def)
qed (use assms in \<open>simp add: within_def\<close>)

lemma within_Some [simp]: "within n (Some (Inl e))" "within n (Some (Inr (v, r))) \<longleftrightarrow> length r \<le> n"
  by (simp_all add: within_def)

lemma within_mono: "within m p \<Longrightarrow> m \<le> n \<Longrightarrow> within n p"
  by (auto simp: within_def split: option.splits sum.splits)

lemma within_loop:
  assumes "within m p" "m \<le> n" "\<And>v r. p = Some (Inr (v, r)) \<Longrightarrow> length r \<le> m \<Longrightarrow> within (length r) (k v r)"
  shows "within n (continue p k)"
  using assms(1) by (rule within_continue) (meson assms(2,3) order_trans within_mono)

lemma enough_fuel:
  "5 * length ts + 4 < n \<Longrightarrow> within (length ts - 1) (parse_or n ev ts)"
  "5 * length ts < n \<Longrightarrow> within (length ts) (or_loop n ev v ts)"
  "5 * length ts + 3 < n \<Longrightarrow> within (length ts - 1) (parse_and n ev ts)"
  "5 * length ts < n \<Longrightarrow> within (length ts) (and_loop n ev v ts)"
  "5 * length ts + 2 < n \<Longrightarrow> within (length ts - 1) (parse_not n ev ts)"
  "5 * length ts + 1 < n \<Longrightarrow> within (length ts - 1) (parse_primary n ev ts)"
proof (induction n ev ts and n ev v ts and n ev ts and n ev v ts and n ev ts and n ev ts
    rule: parse_or_or_loop_parse_and_and_loop_parse_not_parse_primary.induct)
  case (2 n ev ts)
  then show ?case
    by (auto intro!: within_loop [of "length ts - 1"])
next
  case (4 n ev v ts)
  then show ?case
    by (auto split: list.splits intro!: within_loop [of "length ts - 2"])
next
  case (6 n ev ts)
  then show ?case
    by (auto intro!: within_loop [of "length ts - 1"])
next
  case (8 n ev v ts)
  then show ?case
    by (auto split: list.splits intro!: within_loop [of "length ts - 2"])
next
  case (10 n ev ts)
  then show ?case
    by (auto split: list.splits intro!: within_continue [of "length ts - 2"])
next
  case (12 n ev ts)
  then show ?case
    by (auto split: list.splits sum.splits if_split_asm intro!: within_continue [of "length ts - 2"])
qed auto

subsection \<open>More fuel changes nothing\<close>

definition below :: "parsed \<Rightarrow> parsed \<Rightarrow> bool" where
  "below p q \<longleftrightarrow> p = None \<or> p = q"

lemma below_simps [simp]: "below None q" "below p p"
  by (simp_all add: below_def)

lemma below_continue: "below p q \<Longrightarrow> (\<And>v r. below (k v r) (l v r)) \<Longrightarrow> below (continue p k) (continue q l)"
  by (auto simp: below_def continue_def split: option.splits sum.splits)

definition more_fuel :: "nat \<Rightarrow> nat \<Rightarrow> (string \<Rightarrow> exn + verdict) \<Rightarrow> bool" where
  "more_fuel n m ev \<longleftrightarrow> (\<forall>v ts. below (parse_or n ev ts) (parse_or m ev ts) \<and> below (or_loop n ev v ts) (or_loop m ev v ts) \<and>
     below (parse_and n ev ts) (parse_and m ev ts) \<and> below (and_loop n ev v ts) (and_loop m ev v ts) \<and>
     below (parse_not n ev ts) (parse_not m ev ts) \<and> below (parse_primary n ev ts) (parse_primary m ev ts))"

lemma more_fuelD:
  assumes "more_fuel n m ev"
  shows "below (parse_or n ev ts) (parse_or m ev ts)" "below (or_loop n ev v ts) (or_loop m ev v ts)"
    "below (parse_and n ev ts) (parse_and m ev ts)" "below (and_loop n ev v ts) (and_loop m ev v ts)"
    "below (parse_not n ev ts) (parse_not m ev ts)" "below (parse_primary n ev ts) (parse_primary m ev ts)"
  using assms unfolding more_fuel_def by blast+

lemma more_fuel_Suc:
  assumes "more_fuel n m ev"
  shows "more_fuel (Suc n) (Suc m) ev"
  unfolding more_fuel_def
  by (intro allI conjI) (simp_all add: below_continue more_fuelD [OF assms] split: list.split)

lemma fuel_step: "more_fuel n (Suc n) ev"
proof (induction n)
  case 0
  show ?case by (simp add: more_fuel_def)
qed (rule more_fuel_Suc)

lemma below_chain:
  assumes "\<And>n. below (f n) (f (Suc n))" "m \<le> n" "f m = Some r"
  shows "f n = Some r"
  using assms(2)
proof (induction n rule: dec_induct)
  case (step k)
  with assms(1) [of k] show ?case by (simp add: below_def)
qed (rule assms(3))

lemmas fuel_mono =
  below_chain [of "\<lambda>n. parse_or n ev ts" for ev ts, OF more_fuelD(1) [OF fuel_step]]
  below_chain [of "\<lambda>n. or_loop n ev v ts" for ev v ts, OF more_fuelD(2) [OF fuel_step]]
  below_chain [of "\<lambda>n. parse_and n ev ts" for ev ts, OF more_fuelD(3) [OF fuel_step]]
  below_chain [of "\<lambda>n. and_loop n ev v ts" for ev v ts, OF more_fuelD(4) [OF fuel_step]]
  below_chain [of "\<lambda>n. parse_not n ev ts" for ev ts, OF more_fuelD(5) [OF fuel_step]]
  below_chain [of "\<lambda>n. parse_primary n ev ts" for ev ts, OF more_fuelD(6) [OF fuel_step]]

subsection \<open>The parser without fuel\<close>

definition sbind :: "exn + 'a \<Rightarrow> ('a \<Rightarrow> exn + 'b) \<Rightarrow> exn + 'b" where
  "sbind x k = (case x of Inl e \<Rightarrow> Inl e | Inr y \<Rightarrow> k y)"

lemma sbind_simps [simp]: "sbind (Inl e) k = Inl e" "sbind (Inr y) k = k y"
  by (simp_all add: sbind_def)

lemma sbind_assoc [simp]: "sbind (sbind x k) l = sbind x (\<lambda>y. sbind (k y) l)"
  by (cases x) simp_all

definition full_or :: "(string \<Rightarrow> exn + verdict) \<Rightarrow> string list \<Rightarrow> exn + verdict \<times> string list" where
  "full_or ev ts = the (parse_or (5 * length ts + 5) ev ts)"

definition full_or_loop :: "(string \<Rightarrow> exn + verdict) \<Rightarrow> verdict \<Rightarrow> string list \<Rightarrow> exn + verdict \<times> string list" where
  "full_or_loop ev v ts = the (or_loop (5 * length ts + 1) ev v ts)"

definition full_and :: "(string \<Rightarrow> exn + verdict) \<Rightarrow> string list \<Rightarrow> exn + verdict \<times> string list" where
  "full_and ev ts = the (parse_and (5 * length ts + 4) ev ts)"

definition full_and_loop :: "(string \<Rightarrow> exn + verdict) \<Rightarrow> verdict \<Rightarrow> string list \<Rightarrow> exn + verdict \<times> string list" where
  "full_and_loop ev v ts = the (and_loop (5 * length ts + 1) ev v ts)"

definition full_not :: "(string \<Rightarrow> exn + verdict) \<Rightarrow> string list \<Rightarrow> exn + verdict \<times> string list" where
  "full_not ev ts = the (parse_not (5 * length ts + 3) ev ts)"

definition full_primary :: "(string \<Rightarrow> exn + verdict) \<Rightarrow> string list \<Rightarrow> exn + verdict \<times> string list" where
  "full_primary ev ts = the (parse_primary (5 * length ts + 2) ev ts)"

lemma within_the: "within m p \<Longrightarrow> p = Some (the p)"
  by (cases p) (simp_all add: within_def)

lemma full_eqs:
  "5 * length ts + 4 < n \<Longrightarrow> parse_or n ev ts = Some (full_or ev ts)"
  "5 * length ts < n \<Longrightarrow> or_loop n ev v ts = Some (full_or_loop ev v ts)"
  "5 * length ts + 3 < n \<Longrightarrow> parse_and n ev ts = Some (full_and ev ts)"
  "5 * length ts < n \<Longrightarrow> and_loop n ev v ts = Some (full_and_loop ev v ts)"
  "5 * length ts + 2 < n \<Longrightarrow> parse_not n ev ts = Some (full_not ev ts)"
  "5 * length ts + 1 < n \<Longrightarrow> parse_primary n ev ts = Some (full_primary ev ts)"
  unfolding full_or_def full_or_loop_def full_and_def full_and_loop_def full_not_def full_primary_def
  by (rule fuel_mono; (rule within_the [OF enough_fuel(1)] within_the [OF enough_fuel(2)] within_the [OF enough_fuel(3)]
    within_the [OF enough_fuel(4)] within_the [OF enough_fuel(5)] within_the [OF enough_fuel(6)])?; simp)+

lemma full_rest:
  "full_or ev ts = Inr (v, r) \<Longrightarrow> length r \<le> length ts - 1"
  "full_and ev ts = Inr (v, r) \<Longrightarrow> length r \<le> length ts - 1"
  "full_not ev ts = Inr (v, r) \<Longrightarrow> length r \<le> length ts - 1"
  using enough_fuel(1) [of ts "5 * length ts + 5" ev] full_eqs(1) [of ts "5 * length ts + 5" ev]
    enough_fuel(3) [of ts "5 * length ts + 4" ev] full_eqs(3) [of ts "5 * length ts + 4" ev]
    enough_fuel(5) [of ts "5 * length ts + 3" ev] full_eqs(5) [of ts "5 * length ts + 3" ev]
  by auto

lemma continue_Some: "(\<And>v r. x = Inr (v, r) \<Longrightarrow> k v r = Some (l v r)) \<Longrightarrow> continue (Some x) k = Some (sbind x (\<lambda>(v, r). l v r))"
  by (cases x) (auto simp: continue_def)

lemma full_simps:
  "full_or ev ts = sbind (full_and ev ts) (\<lambda>(v, r). full_or_loop ev v r)"
  "full_or_loop ev v (''or'' # r) = sbind (full_and ev r) (\<lambda>(w, s). full_or_loop ev (or_verdict v w) s)"
  "full_and ev ts = sbind (full_not ev ts) (\<lambda>(v, r). full_and_loop ev v r)"
  "full_and_loop ev v (''and'' # r) = sbind (full_not ev r) (\<lambda>(w, s). full_and_loop ev (and_verdict v w) s)"
  "full_not ev (''not'' # r) = sbind (full_not ev r) (\<lambda>(v, s). Inr (not_verdict v, s))"
  "full_primary ev (''('' # r) = sbind (full_or ev r) (\<lambda>(v, s).
     case s of c # s' \<Rightarrow> if c = '')'' then Inr (v, s') else Inl (ValueError, ''unclosed parenthesis in Sigma condition'')
     | [] \<Rightarrow> Inl (ValueError, ''unclosed parenthesis in Sigma condition''))"
proof -
  define n where "n = 5 * length ts + 5 * length r + 20"
  have n: "5 * length ts + 5 * length r + 10 < n" by (simp add: n_def)
  note fuel = full_eqs(1) [of ts "Suc n" ev] full_eqs(2) [of "''or'' # r" "Suc n" ev v] full_eqs(3) [of ts "Suc n" ev]
    full_eqs(4) [of "''and'' # r" "Suc n" ev v] full_eqs(5) [of "''not'' # r" "Suc n" ev] full_eqs(6) [of "''('' # r" "Suc n" ev]
  have "continue (Some (full_and ev ts)) (or_loop n ev) = Some (sbind (full_and ev ts) (\<lambda>(v, r). full_or_loop ev v r))"
    using n by (intro continue_Some full_eqs) (auto dest!: full_rest)
  then show "full_or ev ts = sbind (full_and ev ts) (\<lambda>(v, r). full_or_loop ev v r)"
    using n fuel(1) full_eqs(3) [of ts n ev] by simp
  have "continue (Some (full_and ev r)) (\<lambda>w. or_loop n ev (or_verdict v w)) =
      Some (sbind (full_and ev r) (\<lambda>(w, s). full_or_loop ev (or_verdict v w) s))"
    using n by (intro continue_Some full_eqs) (auto dest!: full_rest)
  then show "full_or_loop ev v (''or'' # r) = sbind (full_and ev r) (\<lambda>(w, s). full_or_loop ev (or_verdict v w) s)"
    using n fuel(2) full_eqs(3) [of r n ev] by simp
  have "continue (Some (full_not ev ts)) (and_loop n ev) = Some (sbind (full_not ev ts) (\<lambda>(v, r). full_and_loop ev v r))"
    using n by (intro continue_Some full_eqs) (auto dest!: full_rest)
  then show "full_and ev ts = sbind (full_not ev ts) (\<lambda>(v, r). full_and_loop ev v r)"
    using n fuel(3) full_eqs(5) [of ts n ev] by simp
  have "continue (Some (full_not ev r)) (\<lambda>w. and_loop n ev (and_verdict v w)) =
      Some (sbind (full_not ev r) (\<lambda>(w, s). full_and_loop ev (and_verdict v w) s))"
    using n by (intro continue_Some full_eqs) (auto dest!: full_rest)
  then show "full_and_loop ev v (''and'' # r) = sbind (full_not ev r) (\<lambda>(w, s). full_and_loop ev (and_verdict v w) s)"
    using n fuel(4) full_eqs(5) [of r n ev] by simp
  have "continue (Some (full_not ev r)) (\<lambda>v s. Some (Inr (not_verdict v, s))) =
      Some (sbind (full_not ev r) (\<lambda>(v, s). Inr (not_verdict v, s)))"
    by (rule continue_Some) simp
  then show "full_not ev (''not'' # r) = sbind (full_not ev r) (\<lambda>(v, s). Inr (not_verdict v, s))"
    using n fuel(5) full_eqs(5) [of r n ev] by simp
  have "continue (Some (full_or ev r)) (\<lambda>v s.
      case s of c # s' \<Rightarrow> if c = '')'' then Some (Inr (v, s')) else Some (Inl (ValueError, ''unclosed parenthesis in Sigma condition''))
      | [] \<Rightarrow> Some (Inl (ValueError, ''unclosed parenthesis in Sigma condition''))) =
    Some (sbind (full_or ev r) (\<lambda>(v, s).
      case s of c # s' \<Rightarrow> if c = '')'' then Inr (v, s') else Inl (ValueError, ''unclosed parenthesis in Sigma condition'')
      | [] \<Rightarrow> Inl (ValueError, ''unclosed parenthesis in Sigma condition'')))"
    by (rule continue_Some) (simp split: list.split)
  then show "full_primary ev (''('' # r) = sbind (full_or ev r) (\<lambda>(v, s).
     case s of c # s' \<Rightarrow> if c = '')'' then Inr (v, s') else Inl (ValueError, ''unclosed parenthesis in Sigma condition'')
     | [] \<Rightarrow> Inl (ValueError, ''unclosed parenthesis in Sigma condition''))"
    using n fuel(6) full_eqs(1) [of r n ev] by simp
qed

lemma full_stops:
  "ts = [] \<or> hd ts \<noteq> ''or'' \<Longrightarrow> full_or_loop ev v ts = Inr (v, ts)"
  "ts = [] \<or> hd ts \<noteq> ''and'' \<Longrightarrow> full_and_loop ev v ts = Inr (v, ts)"
  "ts = [] \<or> hd ts \<noteq> ''not'' \<Longrightarrow> full_not ev ts = full_primary ev ts"
  "t \<noteq> ''('' \<Longrightarrow> t \<noteq> '')'' \<Longrightarrow> full_primary ev (t # ts) = sbind (ev t) (\<lambda>v. Inr (v, ts))"
proof -
  define n where "n = 5 * length ts + 20"
  have n: "5 * length ts + 10 < n" by (simp add: n_def)
  show "ts = [] \<or> hd ts \<noteq> ''or'' \<Longrightarrow> full_or_loop ev v ts = Inr (v, ts)"
    using n full_eqs(2) [of ts "Suc n" ev v] by (auto split: list.splits if_splits)
  show "ts = [] \<or> hd ts \<noteq> ''and'' \<Longrightarrow> full_and_loop ev v ts = Inr (v, ts)"
    using n full_eqs(4) [of ts "Suc n" ev v] by (auto split: list.splits if_splits)
  show "ts = [] \<or> hd ts \<noteq> ''not'' \<Longrightarrow> full_not ev ts = full_primary ev ts"
    using n full_eqs(5) [of ts "Suc n" ev] full_eqs(6) [of ts n ev]
    by (auto split: list.splits if_splits simp del: parse_primary.simps)
  show "t \<noteq> ''('' \<Longrightarrow> t \<noteq> '')'' \<Longrightarrow> full_primary ev (t # ts) = sbind (ev t) (\<lambda>v. Inr (v, ts))"
    using n full_eqs(6) [of "t # ts" "Suc n" ev] by (auto split: sum.splits)
qed

section \<open>What a condition means\<close>

text \<open>
  The grammar of conditions: a disjunction of conjunctions of negations of symbols and parenthesised
  conditions, with the connectives grouping to the left. A condition tree evaluates every symbol from
  left to right, so an exception of any symbol is the result.
\<close>

datatype cond = Sym string | Neg cond | Conj cond cond | Disj cond cond

inductive or_form :: "cond \<Rightarrow> string list \<Rightarrow> bool"
  and and_form :: "cond \<Rightarrow> string list \<Rightarrow> bool"
  and not_form :: "cond \<Rightarrow> string list \<Rightarrow> bool"
  and primary_form :: "cond \<Rightarrow> string list \<Rightarrow> bool" where
  or_last: "and_form c ts \<Longrightarrow> or_form c ts"
| or_more: "or_form a xs \<Longrightarrow> and_form b ys \<Longrightarrow> or_form (Disj a b) (xs @ ''or'' # ys)"
| and_last: "not_form c ts \<Longrightarrow> and_form c ts"
| and_more: "and_form a xs \<Longrightarrow> not_form b ys \<Longrightarrow> and_form (Conj a b) (xs @ ''and'' # ys)"
| negated: "not_form c ts \<Longrightarrow> not_form (Neg c) (''not'' # ts)"
| plain: "primary_form c ts \<Longrightarrow> hd ts \<noteq> ''not'' \<Longrightarrow> not_form c ts"
| symbol: "t \<noteq> ''('' \<Longrightarrow> t \<noteq> '')'' \<Longrightarrow> primary_form (Sym t) [t]"
| grouped: "or_form c ts \<Longrightarrow> primary_form c (''('' # ts @ ['')''])"

primrec cond_value :: "(string \<Rightarrow> exn + verdict) \<Rightarrow> cond \<Rightarrow> exn + verdict" where
  "cond_value ev (Sym t) = ev t"
| "cond_value ev (Neg c) = sbind (cond_value ev c) (\<lambda>v. Inr (\<not> fst v, []))"
| "cond_value ev (Conj a b) = sbind (cond_value ev a) (\<lambda>v. sbind (cond_value ev b) (\<lambda>w.
     Inr (fst v \<and> fst w, if fst v \<and> fst w then snd v @ snd w else [])))"
| "cond_value ev (Disj a b) = sbind (cond_value ev a) (\<lambda>v. sbind (cond_value ev b) (\<lambda>w.
     Inr (fst v \<or> fst w, if fst v \<or> \<not> fst w then snd v else snd w)))"

lemma primary_form_Nil: "or_form c ts \<Longrightarrow> ts \<noteq> []" "and_form c ts \<Longrightarrow> ts \<noteq> []" "not_form c ts \<Longrightarrow> ts \<noteq> []"
  "primary_form c ts \<Longrightarrow> ts \<noteq> []"
  by (induction rule: or_form_and_form_not_form_primary_form.inducts) auto

lemma or_verdict_eq: "or_verdict v w = (fst v \<or> fst w, if fst v \<or> \<not> fst w then snd v else snd w)"
  by (cases v) (auto simp: or_verdict_def)

lemma and_verdict_eq: "and_verdict v w = (fst v \<and> fst w, if fst v \<and> fst w then snd v @ snd w else [])"
  by (auto simp: and_verdict_def)

lemma parse_of_form:
  "or_form c ts \<Longrightarrow> rest = [] \<or> hd rest \<noteq> ''and'' \<Longrightarrow> full_or ev (ts @ rest) = sbind (cond_value ev c) (\<lambda>v. full_or_loop ev v rest)"
  "and_form c ts \<Longrightarrow> full_and ev (ts @ rest) = sbind (cond_value ev c) (\<lambda>v. full_and_loop ev v rest)"
  "not_form c ts \<Longrightarrow> full_not ev (ts @ rest) = sbind (cond_value ev c) (\<lambda>v. Inr (v, rest))"
  "primary_form c ts \<Longrightarrow> full_primary ev (ts @ rest) = sbind (cond_value ev c) (\<lambda>v. Inr (v, rest))"
proof (induction arbitrary: rest and rest and rest and rest rule: or_form_and_form_not_form_primary_form.inducts)
  case (or_last c ts)
  then show ?case by (simp add: full_simps(1) full_stops(2))
next
  case (or_more a xs b ys)
  then show ?case by (simp add: full_simps(2) full_stops(2) or_verdict_eq)
next
  case (and_last c ts)
  then show ?case by (simp add: full_simps(3))
next
  case (and_more a xs b ys)
  then show ?case by (simp add: full_simps(4) and_verdict_eq)
next
  case (negated c ts)
  then show ?case by (simp add: full_simps(5) not_verdict_def)
next
  case (plain c ts)
  then show ?case using primary_form_Nil(4) [of c ts] by (simp add: full_stops(3))
next
  case (symbol t)
  then show ?case by (simp add: full_stops(4))
next
  case (grouped c ts)
  then show ?case by (simp add: full_simps(6) full_stops(1))
qed

text \<open>Conversely, whatever the parser accepts has a tree with the value the parser returns.\<close>

lemma continue_SomeD: "continue p k = Some (Inr x) \<Longrightarrow> \<exists>v r. p = Some (Inr (v, r)) \<and> k v r = Some (Inr x)"
  by (auto simp: continue_def split: option.splits sum.splits)

definition sound_parse :: "nat \<Rightarrow> (string \<Rightarrow> exn + verdict) \<Rightarrow> bool" where
  "sound_parse n ev \<longleftrightarrow>
    (\<forall>ts v r. parse_or n ev ts = Some (Inr (v, r)) \<longrightarrow> (\<exists>c xs. ts = xs @ r \<and> or_form c xs \<and> cond_value ev c = Inr v)) \<and>
    (\<forall>ts u v r a ws. or_loop n ev u ts = Some (Inr (v, r)) \<longrightarrow> or_form a ws \<longrightarrow> cond_value ev a = Inr u \<longrightarrow>
       (\<exists>c xs. ts = xs @ r \<and> or_form c (ws @ xs) \<and> cond_value ev c = Inr v)) \<and>
    (\<forall>ts v r. parse_and n ev ts = Some (Inr (v, r)) \<longrightarrow> (\<exists>c xs. ts = xs @ r \<and> and_form c xs \<and> cond_value ev c = Inr v)) \<and>
    (\<forall>ts u v r a ws. and_loop n ev u ts = Some (Inr (v, r)) \<longrightarrow> and_form a ws \<longrightarrow> cond_value ev a = Inr u \<longrightarrow>
       (\<exists>c xs. ts = xs @ r \<and> and_form c (ws @ xs) \<and> cond_value ev c = Inr v)) \<and>
    (\<forall>ts v r. parse_not n ev ts = Some (Inr (v, r)) \<longrightarrow> (\<exists>c xs. ts = xs @ r \<and> not_form c xs \<and> cond_value ev c = Inr v)) \<and>
    (\<forall>ts v r. parse_primary n ev ts = Some (Inr (v, r)) \<longrightarrow> (\<exists>c xs. ts = xs @ r \<and> primary_form c xs \<and> cond_value ev c = Inr v))"

lemma sound_parseD:
  assumes "sound_parse n ev"
  shows "parse_or n ev ts = Some (Inr (v, r)) \<Longrightarrow> \<exists>c xs. ts = xs @ r \<and> or_form c xs \<and> cond_value ev c = Inr v"
    "or_loop n ev u ts = Some (Inr (v, r)) \<Longrightarrow> or_form a ws \<Longrightarrow> cond_value ev a = Inr u \<Longrightarrow>
     \<exists>c xs. ts = xs @ r \<and> or_form c (ws @ xs) \<and> cond_value ev c = Inr v"
    "parse_and n ev ts = Some (Inr (v, r)) \<Longrightarrow> \<exists>c xs. ts = xs @ r \<and> and_form c xs \<and> cond_value ev c = Inr v"
    "and_loop n ev u ts = Some (Inr (v, r)) \<Longrightarrow> and_form a ws \<Longrightarrow> cond_value ev a = Inr u \<Longrightarrow>
     \<exists>c xs. ts = xs @ r \<and> and_form c (ws @ xs) \<and> cond_value ev c = Inr v"
    "parse_not n ev ts = Some (Inr (v, r)) \<Longrightarrow> \<exists>c xs. ts = xs @ r \<and> not_form c xs \<and> cond_value ev c = Inr v"
    "parse_primary n ev ts = Some (Inr (v, r)) \<Longrightarrow> \<exists>c xs. ts = xs @ r \<and> primary_form c xs \<and> cond_value ev c = Inr v"
  using assms unfolding sound_parse_def by meson+

lemma sound_or_step:
  assumes "sound_parse n ev" "parse_or (Suc n) ev ts = Some (Inr (v, r))"
  shows "\<exists>c xs. ts = xs @ r \<and> or_form c xs \<and> cond_value ev c = Inr v"
proof -
  from assms(2) obtain u s where con: "parse_and n ev ts = Some (Inr (u, s))" and loop: "or_loop n ev u s = Some (Inr (v, r))"
    by (auto dest: continue_SomeD)
  from sound_parseD(3) [OF assms(1) con] obtain b ys where b: "ts = ys @ s" "and_form b ys" "cond_value ev b = Inr u" by blast
  from sound_parseD(2) [OF assms(1) loop or_last [OF b(2)] b(3)] b(1) show ?thesis by auto
qed

lemma sound_or_loop_step:
  assumes "sound_parse n ev" "or_loop (Suc n) ev u ts = Some (Inr (v, r))" "or_form a ws" "cond_value ev a = Inr u"
  shows "\<exists>c xs. ts = xs @ r \<and> or_form c (ws @ xs) \<and> cond_value ev c = Inr v"
proof -
  show ?thesis
  proof (cases "ts \<noteq> [] \<and> hd ts = ''or''")
    case True
    then obtain q where ts: "ts = ''or'' # q" by (cases ts) auto
    with assms(2) obtain w s where con: "parse_and n ev q = Some (Inr (w, s))" and loop: "or_loop n ev (or_verdict u w) s = Some (Inr (v, r))"
      by (auto dest: continue_SomeD)
    from sound_parseD(3) [OF assms(1) con] obtain b ys where b: "q = ys @ s" "and_form b ys" "cond_value ev b = Inr w" by blast
    have "cond_value ev (Disj a b) = Inr (or_verdict u w)" using assms(4) b(3) by (simp add: or_verdict_eq)
    from sound_parseD(2) [OF assms(1) loop or_more [OF assms(3) b(2)] this] b(1) ts show ?thesis by auto
  next
    case False
    with assms(2,3,4) show ?thesis by (auto split: list.splits if_splits)
  qed
qed

lemma sound_and_step:
  assumes "sound_parse n ev" "parse_and (Suc n) ev ts = Some (Inr (v, r))"
  shows "\<exists>c xs. ts = xs @ r \<and> and_form c xs \<and> cond_value ev c = Inr v"
proof -
  from assms(2) obtain u s where neg: "parse_not n ev ts = Some (Inr (u, s))" and loop: "and_loop n ev u s = Some (Inr (v, r))"
    by (auto dest: continue_SomeD)
  from sound_parseD(5) [OF assms(1) neg] obtain b ys where b: "ts = ys @ s" "not_form b ys" "cond_value ev b = Inr u" by blast
  from sound_parseD(4) [OF assms(1) loop and_last [OF b(2)] b(3)] b(1) show ?thesis by auto
qed

lemma sound_and_loop_step:
  assumes "sound_parse n ev" "and_loop (Suc n) ev u ts = Some (Inr (v, r))" "and_form a ws" "cond_value ev a = Inr u"
  shows "\<exists>c xs. ts = xs @ r \<and> and_form c (ws @ xs) \<and> cond_value ev c = Inr v"
proof -
  show ?thesis
  proof (cases "ts \<noteq> [] \<and> hd ts = ''and''")
    case True
    then obtain q where ts: "ts = ''and'' # q" by (cases ts) auto
    with assms(2) obtain w s where neg: "parse_not n ev q = Some (Inr (w, s))" and loop: "and_loop n ev (and_verdict u w) s = Some (Inr (v, r))"
      by (auto dest: continue_SomeD)
    from sound_parseD(5) [OF assms(1) neg] obtain b ys where b: "q = ys @ s" "not_form b ys" "cond_value ev b = Inr w" by blast
    have "cond_value ev (Conj a b) = Inr (and_verdict u w)" using assms(4) b(3) by (simp add: and_verdict_eq)
    from sound_parseD(4) [OF assms(1) loop and_more [OF assms(3) b(2)] this] b(1) ts show ?thesis by auto
  next
    case False
    with assms(2,3,4) show ?thesis by (auto split: list.splits if_splits)
  qed
qed

lemma sound_not_step:
  assumes "sound_parse n ev" "parse_not (Suc n) ev ts = Some (Inr (v, r))"
  shows "\<exists>c xs. ts = xs @ r \<and> not_form c xs \<and> cond_value ev c = Inr v"
proof -
  show ?thesis
  proof (cases "ts \<noteq> [] \<and> hd ts = ''not''")
    case True
    then obtain q where ts: "ts = ''not'' # q" by (cases ts) auto
    with assms(2) obtain w where neg: "parse_not n ev q = Some (Inr (w, r))" and v: "v = not_verdict w"
      by (auto dest!: continue_SomeD)
    from sound_parseD(5) [OF assms(1) neg] obtain b ys where b: "q = ys @ r" "not_form b ys" "cond_value ev b = Inr w" by blast
    with ts v have "ts = (''not'' # ys) @ r" "not_form (Neg b) (''not'' # ys)" "cond_value ev (Neg b) = Inr v"
      by (auto intro: negated simp: not_verdict_def)
    then show ?thesis by blast
  next
    case False
    with assms(2) have "parse_primary n ev ts = Some (Inr (v, r))" by (auto split: list.splits if_splits)
    from sound_parseD(6) [OF assms(1) this] obtain c xs where c: "ts = xs @ r" "primary_form c xs" "cond_value ev c = Inr v" by blast
    moreover have "xs \<noteq> []" using c(2) by (rule primary_form_Nil)
    ultimately show ?thesis using False by (auto intro: plain)
  qed
qed

lemma sound_primary_step:
  assumes "sound_parse n ev" "parse_primary (Suc n) ev ts = Some (Inr (v, r))"
  shows "\<exists>c xs. ts = xs @ r \<and> primary_form c xs \<and> cond_value ev c = Inr v"
proof -
  from assms(2) obtain t q where ts: "ts = t # q" by (cases ts) auto
  show ?thesis
  proof (cases "t = ''(''")
    case True
    with assms(2) ts have "parse_or n ev q = Some (Inr (v, '')'' # r))"
      by (auto dest!: continue_SomeD split: list.splits if_splits)
    from sound_parseD(1) [OF assms(1) this] obtain c xs where "q = xs @ '')'' # r" "or_form c xs" "cond_value ev c = Inr v" by blast
    with ts True have "ts = (''('' # xs @ ['')'']) @ r" "primary_form c (''('' # xs @ ['')''])" "cond_value ev c = Inr v"
      by (auto intro: grouped)
    then show ?thesis by blast
  next
    case False
    with assms(2) ts have "t \<noteq> '')''" "ev t = Inr v" "q = r" by (auto split: if_splits sum.splits)
    with ts False have "ts = [t] @ r" "primary_form (Sym t) [t]" "cond_value ev (Sym t) = Inr v" by (auto intro: symbol)
    then show ?thesis by blast
  qed

qed

lemma sound_parse: "sound_parse n ev"
proof (induction n)
  case 0
  show ?case by (simp add: sound_parse_def)
next
  case (Suc n)
  then show ?case
    unfolding sound_parse_def [of "Suc n"]
    by (intro conjI allI impI)
      (blast intro: sound_or_step sound_or_loop_step sound_and_step sound_and_loop_step sound_not_step sound_primary_step)+
qed

lemmas form_of_parse = sound_parseD [OF sound_parse]

section \<open>Matching a selection\<close>

text \<open>
  What the evaluator asks of libraries: \<open>re.search\<close> with case ignored (it may raise
  \<open>re.error\<close>), membership of an address in a network (a malformed address or network is
  no member), the text Python prints for a container, the value of \<open>==\<close> when one side is a
  float, and \<open>datetime.isoformat\<close>. A rule's detection section is a document of JSON values.
\<close>

record sigma_lib =
  sl_search :: "string \<Rightarrow> string \<Rightarrow> exn + bool"
  sl_in_network :: "string \<Rightarrow> string \<Rightarrow> bool"
  sl_repr :: "json \<Rightarrow> string"
  sl_float_eq :: "json \<Rightarrow> json \<Rightarrow> bool"
  sl_isoformat :: "datetime \<Rightarrow> string"

definition py_str :: "sigma_lib \<Rightarrow> json \<Rightarrow> string" where
  "py_str lib v = (case v of JStr s \<Rightarrow> s | JBool b \<Rightarrow> if b then ''True'' else ''False'' | JInt i \<Rightarrow> show_int i
     | JNull \<Rightarrow> ''None'' | JFloat s \<Rightarrow> s | _ \<Rightarrow> sl_repr lib v)"

fun as_int :: "json \<Rightarrow> int option" where
  "as_int (JInt i) = Some i"
| "as_int (JBool b) = Some (if b then 1 else 0)"
| "as_int _ = None"

fun is_float :: "json \<Rightarrow> bool" where
  "is_float (JFloat s) = True"
| "is_float _ = False"

function py_eq :: "sigma_lib \<Rightarrow> json \<Rightarrow> json \<Rightarrow> bool" where
  "py_eq lib x y =
     (if is_float x \<or> is_float y then sl_float_eq lib x y
      else case (x, y) of
        (JNull, JNull) \<Rightarrow> True
      | (JStr s, JStr t) \<Rightarrow> s = t
      | (JList xs, JList ys) \<Rightarrow> length xs = length ys \<and> list_all (\<lambda>(a, b). py_eq lib a b) (zip xs ys)
      | (JObj ks, JObj ls) \<Rightarrow> length ks = length ls \<and>
          list_all (\<lambda>(k, a). case map_of ls k of None \<Rightarrow> False | Some b \<Rightarrow> py_eq lib a b) ks
      | _ \<Rightarrow> as_int x \<noteq> None \<and> as_int x = as_int y)"
  by pat_completeness auto
termination
proof (relation "measure (\<lambda>(lib, x, y). size x)", goal_cases)
  case (2 lib x y p q xs ys ab a b)
  then have "a \<in> set xs" by (auto dest: set_zip_leftD)
  then have "size a \<le> size_list size xs" by (rule size_list_estimation') simp
  with 2 show ?case by auto
next
  case (3 lib x y p q ks ls ka k a b)
  then have "(k, a) \<in> set ks" by simp
  then have "size a \<le> size_list (size_prod (\<lambda>_. 0) size) ks"
    by (rule size_list_estimation') simp
  with 3 show ?case by auto
qed simp

declare py_eq.simps [simp del]

definition contains_text :: "string \<Rightarrow> string \<Rightarrow> bool" where
  "contains_text part s = list_ex (\<lambda>i. take (length part) (drop i s) = part) [0..<Suc (length s)]"

definition match_scalar :: "sigma_lib \<Rightarrow> string \<Rightarrow> json \<Rightarrow> json \<Rightarrow> exn + bool" where
  "match_scalar lib oper actual expected =
     (let actual_text = casefold (py_str lib actual); expected_text = casefold (py_str lib expected) in
      if oper = ''equals'' then Inr (py_eq lib actual expected \<or> fnmatch actual_text expected_text)
      else if oper = ''contains'' then Inr (contains_text expected_text actual_text)
      else if oper = ''startswith'' then Inr (take (length expected_text) actual_text = expected_text)
      else if oper = ''endswith'' then Inr (length expected_text \<le> length actual_text \<and>
        drop (length actual_text - length expected_text) actual_text = expected_text)
      else if oper = ''re'' then sl_search lib (py_str lib expected) (py_str lib actual)
      else if oper = ''cidr'' then Inr (sl_in_network lib (py_str lib actual) (py_str lib expected))
      else Inl (ValueError, ''unsupported operator: '' @ oper))"

fun any_result :: "('a \<Rightarrow> exn + bool) \<Rightarrow> 'a list \<Rightarrow> exn + bool" where
  "any_result f [] = Inr False"
| "any_result f (x # xs) = sbind (f x) (\<lambda>b. if b then Inr True else any_result f xs)"

definition as_list :: "json \<Rightarrow> json list" where
  "as_list v = (case v of JList vs \<Rightarrow> vs | _ \<Rightarrow> [v])"

definition match_value :: "sigma_lib \<Rightarrow> json \<Rightarrow> json \<Rightarrow> string \<Rightarrow> exn + bool" where
  "match_value lib actual expected oper =
     any_result (\<lambda>(a, x). match_scalar lib oper a x) (List.product (as_list actual) (as_list expected))"

definition or_empty :: "string option \<Rightarrow> string" where
  "or_empty x = (case x of None \<Rightarrow> [] | Some s \<Rightarrow> s)"

definition field_value :: "sigma_lib \<Rightarrow> security_event \<Rightarrow> string \<Rightarrow> json" where
  "field_value lib e field =
     (case map_of [(''event_id'', sv_id e), (''event_type'', sv_type e), (''timestamp'', sl_isoformat lib (sv_timestamp e)),
        (''actor'', sv_actor e), (''source_ip'', or_empty (sv_source_ip e)), (''target'', or_empty (sv_target e))] field of
        Some s \<Rightarrow> JStr s
      | None \<Rightarrow> (case map_of (sv_attributes e) field of Some v \<Rightarrow> v | None \<Rightarrow> JStr []))"

definition supported_operators :: "string list" where
  "supported_operators = [''contains'', ''startswith'', ''endswith'', ''re'', ''cidr'']"

definition parse_expression :: "string \<Rightarrow> exn + string \<times> string" where
  "parse_expression expr =
     (let field = takeWhile (\<lambda>c. c \<noteq> CHR ''|'') expr; oper = drop (Suc (length field)) expr in
      if length field = length expr then Inr (field, ''equals'')
      else if oper \<notin> set supported_operators then Inl (ValueError, ''unsupported Sigma modifier: '' @ oper)
      else Inr (field, oper))"

text \<open>\<open>json.dumps\<close> without key sorting, for the reason texts.\<close>

fun render :: "json \<Rightarrow> string" where
  "render (JList vs) = ''['' @ join_comma (map render vs) @ '']''"
| "render (JObj kvs) = ''{'' @ join_comma (map (\<lambda>(k, v). json_string False k @ '':'' @ render v) kvs) @ ''}''"
| "render v = dumps False v"

definition safe_expected :: "json \<Rightarrow> string" where
  "safe_expected v = (let rendered = render v in if length rendered \<le> 80 then rendered else take 77 rendered @ ''...'')"

fun match_mapping :: "sigma_lib \<Rightarrow> security_event \<Rightarrow> (string \<times> json) list \<Rightarrow> exn + verdict" where
  "match_mapping lib e [] = Inr (True, [])"
| "match_mapping lib e ((expr, expected) # criteria) =
     sbind (parse_expression expr) (\<lambda>(field, oper).
     sbind (match_value lib (field_value lib e field) expected oper) (\<lambda>m.
     if \<not> m then Inr (False, [])
     else sbind (match_mapping lib e criteria) (\<lambda>(b, reasons).
       Inr (if b then (True, (expr @ '' matched '' @ safe_expected expected) # reasons) else (False, [])))))"

fun match_branches :: "sigma_lib \<Rightarrow> security_event \<Rightarrow> string \<Rightarrow> json list \<Rightarrow> exn + verdict" where
  "match_branches lib e name [] = Inr (False, [])"
| "match_branches lib e name (branch # branches) =
     (case branch of
        JObj criteria \<Rightarrow> sbind (match_mapping lib e criteria) (\<lambda>v. if fst v then Inr (True, snd v) else match_branches lib e name branches)
      | _ \<Rightarrow> Inl (ValueError, ''selection '' @ name @ '' must be a mapping or list of mappings''))"

definition evaluate_named :: "sigma_lib \<Rightarrow> (string \<times> json) list \<Rightarrow> security_event \<Rightarrow> string \<Rightarrow> exn + verdict" where
  "evaluate_named lib selections e name = (case map_of selections name of
     None \<Rightarrow> Inl (ValueError, ''unknown selection in condition: '' @ name)
   | Some selection \<Rightarrow> match_branches lib e name (as_list selection))"

fun evaluate_any :: "sigma_lib \<Rightarrow> (string \<times> json) list \<Rightarrow> security_event \<Rightarrow> string list \<Rightarrow> exn + verdict" where
  "evaluate_any lib selections e [] = Inr (False, [])"
| "evaluate_any lib selections e (name # names) =
     sbind (evaluate_named lib selections e (strip name)) (\<lambda>v.
       if fst v then Inr (True, snd v) else evaluate_any lib selections e names)"

fun all_named :: "sigma_lib \<Rightarrow> (string \<times> json) list \<Rightarrow> security_event \<Rightarrow> string list \<Rightarrow> string list \<Rightarrow> exn + string list option" where
  "all_named lib selections e acc [] = Inr (Some acc)"
| "all_named lib selections e acc (name # names) =
     sbind (evaluate_named lib selections e (strip name)) (\<lambda>v.
       if \<not> fst v then Inr None else all_named lib selections e (acc @ snd v) names)"

definition evaluate_all :: "sigma_lib \<Rightarrow> (string \<times> json) list \<Rightarrow> security_event \<Rightarrow> string list \<Rightarrow> exn + verdict" where
  "evaluate_all lib selections e names = sbind (all_named lib selections e [] names) (\<lambda>r. case r of
     None \<Rightarrow> Inr (False, []) | Some reasons \<Rightarrow> Inr (names \<noteq> [], reasons))"

definition of_pattern :: "string \<Rightarrow> string \<Rightarrow> string option" where
  "of_pattern start s = (case strip_prefix start s of
     Some pat \<Rightarrow> if pat \<noteq> [] \<and> list_all ident_char pat then Some pat else None | None \<Rightarrow> None)"

definition candidates :: "(string \<times> json) list \<Rightarrow> string \<Rightarrow> string list" where
  "candidates selections pat = filter (\<lambda>name. fnmatch name pat) (map fst selections)"

definition symbol_value :: "sigma_lib \<Rightarrow> (string \<times> json) list \<Rightarrow> security_event \<Rightarrow> string \<Rightarrow> exn + verdict" where
  "symbol_value lib selections e s = (case of_pattern ''1 of '' s of
     Some pat \<Rightarrow> evaluate_any lib selections e (candidates selections pat)
   | None \<Rightarrow> (case of_pattern ''all of '' s of
       Some pat \<Rightarrow> evaluate_all lib selections e (candidates selections pat)
     | None \<Rightarrow> evaluate_named lib selections e s))"

definition evaluate_condition :: "sigma_lib \<Rightarrow> string \<Rightarrow> (string \<times> json) list \<Rightarrow> security_event \<Rightarrow> exn + verdict" where
  "evaluate_condition lib condition selections e = (case tokenize_condition condition of
     Inl exc \<Rightarrow> Inl exc
   | Inr tokens \<Rightarrow> the (evaluate_tokens (symbol_value lib selections e) tokens))"

section \<open>Rules\<close>

record sigma_rule =
  sr_id :: string
  sr_version :: int
  sr_title :: string
  sr_description :: string
  sr_status :: string
  sr_logsource :: "(string \<times> string) list"
  sr_detection :: "(string \<times> json) list"
  sr_level :: severity
  sr_tags :: "string list"

definition short_digest :: "env \<Rightarrow> string \<Rightarrow> string" where
  "short_digest E fingerprint = take 20 (sha256_hex E (utf8 fingerprint))"

definition sigma_alert :: "env \<Rightarrow> sigma_rule \<Rightarrow> security_event \<Rightarrow> string list \<Rightarrow> detection_alert" where
  "sigma_alert E rule e reasons = \<lparr>at_id = short_digest E (sr_id rule @ '':'' @ sv_id e), at_rule = sr_id rule,
     at_title = sr_title rule, at_severity = sr_level rule, at_event = sv_id e, at_actor = sv_actor e,
     at_reasons = reasons, at_tags = sr_tags rule, at_created = sv_timestamp e\<rparr>"

definition evaluate_rule :: "env \<Rightarrow> sigma_lib \<Rightarrow> sigma_rule \<Rightarrow> security_event \<Rightarrow> exn + detection_alert option" where
  "evaluate_rule E lib rule e = (case map_of (sr_detection rule) ''condition'' of
     Some (JStr condition) \<Rightarrow>
       (let selections = filter (\<lambda>(k, v). k \<notin> {''condition'', ''timeframe''}) (sr_detection rule) in
        sbind (evaluate_condition lib condition selections e) (\<lambda>(matched, reasons).
        Inr (if matched then Some (sigma_alert E rule e reasons) else None)))
   | _ \<Rightarrow> Inl (ValueError, sr_id rule @ '': detection.condition must be a string''))"

section \<open>Correctness\<close>

text \<open>
  C31. Evaluating a Sigma condition always ends: for every list of tokens and every way of evaluating the
  symbols, the recursive-descent parser returns a verdict or raises, within a number of calls that is
  linear in the number of tokens. This holds for malformed conditions too.
\<close>

theorem sigma_parser_returns: "\<exists>r. evaluate_tokens ev tokens = Some r"
proof -
  have "within (length tokens - 1) (parse_or (parse_fuel tokens) ev tokens)"
    by (rule enough_fuel) (simp add: parse_fuel_def)
  then show ?thesis
    by (auto simp: evaluate_tokens_def within_def split: option.splits sum.splits list.splits)
qed

lemma evaluate_tokens_full:
  "evaluate_tokens ev ts = Some (sbind (full_or ev ts) (\<lambda>(v, r). case r of
     [] \<Rightarrow> Inr v | t # _ \<Rightarrow> Inl (ValueError, ''unexpected token in Sigma condition: '' @ t)))"
  using full_eqs(1) [of ts "parse_fuel ts" ev]
  by (auto simp: evaluate_tokens_def parse_fuel_def split: sum.splits list.splits)

lemma evaluate_tokens_form:
  assumes "or_form c tokens"
  shows "evaluate_tokens ev tokens = Some (cond_value ev c)"
  using parse_of_form(1) [OF assms, of "[]" ev] by (cases "cond_value ev c") (simp_all add: evaluate_tokens_full full_stops(1))

text \<open>
  C27. A Sigma condition means what its boolean expression means. Evaluation yields a verdict exactly when
  the condition splits into tokens, the tokens form a condition of the grammar (disjunctions of
  conjunctions of negations, grouped to the left, with parentheses), and the boolean expression built
  from the symbols' own verdicts has that verdict; so negation binds more strongly than conjunction and
  conjunction more strongly than disjunction, and every malformed condition raises.
\<close>

theorem sigma_condition_meaning:
  "evaluate_condition lib condition selections e = Inr v \<longleftrightarrow>
     (\<exists>tokens c. tokenize_condition condition = Inr tokens \<and> or_form c tokens \<and>
        cond_value (symbol_value lib selections e) c = Inr v)"
proof (cases "tokenize_condition condition")
  case (Inr tokens)
  let ?ev = "symbol_value lib selections e"
  have "\<exists>c. or_form c tokens \<and> cond_value ?ev c = Inr v" if "evaluate_condition lib condition selections e = Inr v"
  proof -
    from that have "full_or ?ev tokens = Inr (v, [])"
      by (cases "full_or ?ev tokens") (auto simp: evaluate_condition_def Inr evaluate_tokens_full split: list.splits)
    then have "parse_or (parse_fuel tokens) ?ev tokens = Some (Inr (v, []))"
      using full_eqs(1) [of tokens "parse_fuel tokens" ?ev] by (simp add: parse_fuel_def)
    from form_of_parse(1) [OF this] show ?thesis by auto
  qed
  then show ?thesis using Inr by (auto simp: evaluate_condition_def evaluate_tokens_form)
qed (simp add: evaluate_condition_def)

end
