(* ===== verification/Detections.thy ===== *)
theory Detections
  imports Sigma Sample_Data
begin

text \<open>
  The rest of \<open>controlforge/detections.py\<close>: the built-in stateless decisions, the four streaming
  detectors, the evaluation of an event against durable history, the provenance digests and the
  pipeline that composes them with the Sigma rules. Floating-point arithmetic is the parameter
  \<open>float_lib\<close>; comparing a naive with an aware time raises, as in Python. The theorems relate the
  streaming detectors to the evaluation over history.
\<close>

section \<open>Numbers and times\<close>

record 'f float_lib =
  fl_literal :: "string \<Rightarrow> 'f"
  fl_of_int :: "int \<Rightarrow> 'f"
  fl_finite :: "'f \<Rightarrow> bool"
  fl_trunc :: "'f \<Rightarrow> int"
  fl_add :: "'f \<Rightarrow> 'f \<Rightarrow> 'f"
  fl_sub :: "'f \<Rightarrow> 'f \<Rightarrow> 'f"
  fl_mul :: "'f \<Rightarrow> 'f \<Rightarrow> 'f"
  fl_div :: "'f \<Rightarrow> 'f \<Rightarrow> 'f"
  fl_square :: "'f \<Rightarrow> 'f"
  fl_le :: "'f \<Rightarrow> 'f \<Rightarrow> bool"
  fl_radians :: "'f \<Rightarrow> 'f"
  fl_sin :: "'f \<Rightarrow> exn + 'f"
  fl_cos :: "'f \<Rightarrow> exn + 'f"
  fl_sqrt :: "'f \<Rightarrow> exn + 'f"
  fl_atan2 :: "'f \<Rightarrow> 'f \<Rightarrow> 'f"
  fl_seconds :: "int \<Rightarrow> 'f"
  fl_format :: "nat \<Rightarrow> 'f \<Rightarrow> string"

text \<open>\<open>float(n)\<close> raises for an integer that rounds beyond the largest double.\<close>

definition float_overflows :: "int \<Rightarrow> bool" where
  "float_overflows n \<longleftrightarrow> 2 ^ 1024 - 2 ^ 970 \<le> \<bar>n\<bar>"

definition plain_number :: "json \<Rightarrow> bool" where
  "plain_number v = (case v of JInt _ \<Rightarrow> True | JFloat _ \<Rightarrow> True | _ \<Rightarrow> False)"

definition to_float :: "'f float_lib \<Rightarrow> json \<Rightarrow> exn + 'f" where
  "to_float L v = (case v of
     JInt n \<Rightarrow> if float_overflows n then Inl (OverflowError, ''int too large to convert to float'') else Inr (fl_of_int L n)
   | JFloat s \<Rightarrow> Inr (fl_literal L s)
   | _ \<Rightarrow> Inl (TypeError, ''float() argument must be a string or a real number''))"

definition to_int :: "'f float_lib \<Rightarrow> json \<Rightarrow> int" where
  "to_int L v = (case v of JInt n \<Rightarrow> n | JFloat s \<Rightarrow> fl_trunc L (fl_literal L s) | _ \<Rightarrow> 0)"

definition finite_number :: "'f float_lib \<Rightarrow> json \<Rightarrow> exn + int option" where
  "finite_number L v = (if \<not> plain_number v then Inr None
     else sbind (to_float L v) (\<lambda>x. Inr (if fl_finite L x then Some (to_int L v) else None)))"

definition attribute :: "security_event \<Rightarrow> string \<Rightarrow> json" where
  "attribute e k = (case map_of (sv_attributes e) k of Some v \<Rightarrow> v | None \<Rightarrow> JNull)"

definition coordinates :: "'f float_lib \<Rightarrow> security_event \<Rightarrow> exn + ('f \<times> 'f) option" where
  "coordinates L e = (let latitude = attribute e ''latitude''; longitude = attribute e ''longitude'' in
     if \<not> plain_number latitude \<or> \<not> plain_number longitude then Inr None
     else sbind (to_float L latitude) (\<lambda>a. if \<not> fl_finite L a then Inr None
     else sbind (to_float L longitude) (\<lambda>b. Inr (if fl_finite L b then Some (a, b) else None))))"

definition dt_value :: "datetime \<Rightarrow> int" where
  "dt_value t = (case t of Naive x \<Rightarrow> x | Aware x \<Rightarrow> x)"

definition dt_compare :: "(int \<Rightarrow> int \<Rightarrow> bool) \<Rightarrow> datetime \<Rightarrow> datetime \<Rightarrow> exn + bool" where
  "dt_compare R s t = (case (s, t) of
     (Naive x, Naive y) \<Rightarrow> Inr (R x y)
   | (Aware x, Aware y) \<Rightarrow> Inr (R x y)
   | _ \<Rightarrow> Inl (TypeError, ''can't compare offset-naive and offset-aware datetimes''))"

section \<open>Built-in decisions\<close>

record builtin_outcome =
  bo_value :: string
  bo_title :: string
  bo_severity :: severity

record builtin_detection =
  bs_rule :: string
  bs_version :: int
  bs_event_type :: string
  bs_attribute :: string
  bs_outcomes :: "builtin_outcome list"
  bs_tags :: "string list"

definition builtin_detections :: "builtin_detection list" where
  "builtin_detections = [\<lparr>bs_rule = ''CF-CONTROL-001'', bs_version = 1, bs_event_type = ''endpoint_control_status'',
     bs_attribute = ''status'',
     bs_outcomes = [\<lparr>bo_value = ''failed'', bo_title = ''Required endpoint security control failed'', bo_severity = SevHigh\<rparr>,
       \<lparr>bo_value = ''degraded'', bo_title = ''Endpoint security control degraded'', bo_severity = SevMedium\<rparr>],
     bs_tags = [''control-assurance'', ''endpoint-security'', ''defense-evasion'']\<rparr>]"

definition evidence_value :: "json \<Rightarrow> string" where
  "evidence_value v = (case v of JBool b \<Rightarrow> if b then ''true'' else ''false'' | _ \<Rightarrow> ''unknown'')"

definition builtin_alert :: "env \<Rightarrow> security_event \<Rightarrow> builtin_detection \<Rightarrow> string \<Rightarrow> builtin_outcome \<Rightarrow> detection_alert" where
  "builtin_alert E e spec value outcome = \<lparr>at_id = short_digest E (bs_rule spec @ '':'' @ sv_id e), at_rule = bs_rule spec,
     at_title = bo_title outcome, at_severity = bo_severity outcome, at_event = sv_id e, at_actor = sv_actor e,
     at_reasons = [''endpoint control '' @ (case sv_target e of Some t \<Rightarrow> if t = [] then ''unknown'' else t | None \<Rightarrow> ''unknown'')
         @ '' reported '' @ value,
       ''installed='' @ evidence_value (attribute e ''installed'') @ '' running='' @ evidence_value (attribute e ''running'')],
     at_tags = bs_tags spec, at_created = sv_timestamp e\<rparr>"

definition evaluate_builtin :: "env \<Rightarrow> security_event \<Rightarrow> builtin_detection \<Rightarrow> detection_alert option" where
  "evaluate_builtin E e spec =
     (if sv_type e \<noteq> bs_event_type spec then None
      else let value = (case attribute e (bs_attribute spec) of JStr s \<Rightarrow> casefold s | _ \<Rightarrow> []) in
        map_option (builtin_alert E e spec value) (List.find (\<lambda>o1. bo_value o1 = value) (bs_outcomes spec)))"

definition evaluate_builtin_stateless_event :: "env \<Rightarrow> security_event \<Rightarrow> detection_alert list" where
  "evaluate_builtin_stateless_event E e = List.map_filter (evaluate_builtin E e) builtin_detections"

section \<open>Streaming detectors\<close>

definition stateful_alert :: "env \<Rightarrow> security_event \<Rightarrow> stateful_correlation \<Rightarrow> string \<Rightarrow> string list \<Rightarrow> detection_alert" where
  "stateful_alert E e spec scope reasons = \<lparr>at_id = short_digest E (scope @ '':'' @ sv_id e), at_rule = sc_rule spec,
     at_title = sc_title spec, at_severity = sc_severity spec, at_event = sv_id e, at_actor = sv_actor e,
     at_reasons = reasons, at_tags = sc_tags spec, at_created = sv_timestamp e\<rparr>"

text \<open>
  A detector's history is a queue. An event is appended and what lies before the window is popped from
  the front; a comparison that raises stops the popping.
\<close>

fun pop_expired :: "datetime \<Rightarrow> (datetime \<times> 'a) list \<Rightarrow> exn option \<times> (datetime \<times> 'a) list" where
  "pop_expired cutoff [] = (None, [])"
| "pop_expired cutoff (x # xs) = (case dt_compare (<) (fst x) cutoff of
     Inl e \<Rightarrow> (Some e, x # xs)
   | Inr b \<Rightarrow> if b then pop_expired cutoff xs else (None, x # xs))"

definition slide :: "int \<Rightarrow> (datetime \<times> 'a) list \<Rightarrow> datetime \<times> 'a \<Rightarrow> exn option \<times> (datetime \<times> 'a) list" where
  "slide window h x = pop_expired (datetime_add (fst x) (- window)) (h @ [x])"

definition window_text :: "int \<Rightarrow> string" where
  "window_text window = show_int (window div minutes 1) @ ''m''"

record bulk_detector =
  bd_events :: nat
  bd_bytes :: int
  bd_window :: int
  bd_history :: "string \<Rightarrow> (datetime \<times> int \<times> string) list"

definition bulk_alert :: "env \<Rightarrow> security_event \<Rightarrow> nat \<Rightarrow> int \<Rightarrow> string \<Rightarrow> detection_alert" where
  "bulk_alert E e count volume within_text = stateful_alert E e bulk_access_spec (''bulk-sensitive-access:'' @ sv_actor e)
     [show_nat count @ '' access events within '' @ within_text, show_int volume @ '' bytes accessed'']"

definition bulk_evaluate :: "env \<Rightarrow> 'f float_lib \<Rightarrow> bulk_detector \<Rightarrow> security_event \<Rightarrow> (exn + detection_alert option) \<times> bulk_detector" where
  "bulk_evaluate E L d e =
     (if sv_type e \<noteq> ''sensitive_data_access'' then (Inr None, d)
      else case finite_number L (case map_of (sv_attributes e) ''bytes'' of Some v \<Rightarrow> v | None \<Rightarrow> JInt 0) of
        Inl exc \<Rightarrow> (Inl exc, d)
      | Inr None \<Rightarrow> (Inr None, d)
      | Inr (Some n) \<Rightarrow>
          (let (failed, kept) = slide (bd_window d) (bd_history d (sv_actor e)) (sv_timestamp e, n, sv_id e);
               d' = d\<lparr>bd_history := (bd_history d)(sv_actor e := kept)\<rparr>;
               volume = sum_list (map (fst \<circ> snd) kept) in
           case failed of
             Some exc \<Rightarrow> (Inl exc, d')
           | None \<Rightarrow> (Inr (if length kept < bd_events d \<and> volume < bd_bytes d then None
               else Some (bulk_alert E e (length kept) volume (window_text (bd_window d)))), d')))"

record stuffing_detector =
  sd_failures :: nat
  sd_accounts :: nat
  sd_window :: int
  sd_history :: "string \<Rightarrow> (datetime \<times> string \<times> string) list"

definition source_of :: "security_event \<Rightarrow> string option" where
  "source_of e = (case sv_source_ip e of Some ip \<Rightarrow> if ip = [] then None else Some ip | None \<Rightarrow> None)"

definition stuffing_alert :: "env \<Rightarrow> security_event \<Rightarrow> string \<Rightarrow> nat \<Rightarrow> nat \<Rightarrow> string \<Rightarrow> detection_alert" where
  "stuffing_alert E e ip count accounts within_text = stateful_alert E e stuffing_spec (''credential-stuffing:'' @ ip)
     [show_nat count @ '' failed authentications from '' @ ip, show_nat accounts @ '' distinct accounts within '' @ within_text]"

definition stuffing_evaluate :: "env \<Rightarrow> stuffing_detector \<Rightarrow> security_event \<Rightarrow> (exn + detection_alert option) \<times> stuffing_detector" where
  "stuffing_evaluate E d e = (case source_of e of
     None \<Rightarrow> (Inr None, d)
   | Some ip \<Rightarrow>
       if sv_type e \<noteq> ''edge_auth_failure'' then (Inr None, d)
       else
         (let (failed, kept) = slide (sd_window d) (sd_history d ip) (sv_timestamp e, sv_actor e, sv_id e);
              d' = d\<lparr>sd_history := (sd_history d)(ip := kept)\<rparr>;
              accounts = length (remdups (map (casefold \<circ> fst \<circ> snd) kept)) in
          case failed of
            Some exc \<Rightarrow> (Inl exc, d')
          | None \<Rightarrow> (Inr (if length kept < sd_failures d \<or> accounts < sd_accounts d then None
              else Some (stuffing_alert E e ip (length kept) accounts (window_text (sd_window d)))), d')))"

record replay_detector =
  rd_window :: int
  rd_previous :: "string \<rightharpoonup> datetime \<times> string \<times> string \<times> string"

definition replay_alert :: "env \<Rightarrow> security_event \<Rightarrow> string \<Rightarrow> string \<Rightarrow> string \<Rightarrow> string \<Rightarrow> detection_alert" where
  "replay_alert E e h before ip within_text = stateful_alert E e replay_spec (''session-replay:'' @ h)
     [''session hash reused from '' @ before @ '' and '' @ ip, ''reuse occurred within '' @ within_text]"

definition replay_evaluate :: "env \<Rightarrow> replay_detector \<Rightarrow> security_event \<Rightarrow> (exn + detection_alert option) \<times> replay_detector" where
  "replay_evaluate E d e = (case (source_of e, session_hash e) of
     (Some ip, Some h) \<Rightarrow>
       if sv_type e \<noteq> ''edge_session_use'' then (Inr None, d)
       else
         (let d' = d\<lparr>rd_previous := (rd_previous d)(h \<mapsto> (sv_timestamp e, ip, sv_actor e, sv_id e))\<rparr> in
          case rd_previous d h of
            None \<Rightarrow> (Inr None, d')
          | Some (before, ip', _, _) \<Rightarrow>
              (sbind (dt_compare (\<le>) (sv_timestamp e) before) (\<lambda>stale.
               Inr (if stale \<or> rd_window d < dt_value (sv_timestamp e) - dt_value before \<or> ip = ip' then None
                 else Some (replay_alert E e h ip' ip (window_text (rd_window d))))), d'))
   | _ \<Rightarrow> (Inr None, d))"

record 'f travel_detector =
  td_maximum :: 'f
  td_previous :: "string \<rightharpoonup> datetime \<times> 'f \<times> 'f \<times> string"

definition haversine_km :: "'f float_lib \<Rightarrow> 'f \<Rightarrow> 'f \<Rightarrow> 'f \<Rightarrow> 'f \<Rightarrow> exn + 'f" where
  "haversine_km L lat1 lon1 lat2 lon2 =
     (let radius_km = fl_literal L ''6371.0''; two = fl_of_int L 2;
          phi1 = fl_radians L lat1; phi2 = fl_radians L lat2;
          delta_phi = fl_radians L (fl_sub L lat2 lat1); delta_lambda = fl_radians L (fl_sub L lon2 lon1) in
      sbind (fl_sin L (fl_div L delta_phi two)) (\<lambda>s1.
      sbind (fl_cos L phi1) (\<lambda>c1.
      sbind (fl_cos L phi2) (\<lambda>c2.
      sbind (fl_sin L (fl_div L delta_lambda two)) (\<lambda>s2.
      let value = fl_add L (fl_square L s1) (fl_mul L (fl_mul L c1 c2) (fl_square L s2)) in
      sbind (fl_sqrt L value) (\<lambda>r1.
      sbind (fl_sqrt L (fl_sub L (fl_of_int L 1) value)) (\<lambda>r2.
      Inr (fl_mul L (fl_mul L radius_km two) (fl_atan2 L r1 r2)))))))))"

definition travel_alert :: "env \<Rightarrow> 'f float_lib \<Rightarrow> security_event \<Rightarrow> 'f \<Rightarrow> 'f \<Rightarrow> 'f \<Rightarrow> detection_alert" where
  "travel_alert E L e speed distance hrs = stateful_alert E e travel_spec (''impossible-travel:'' @ sv_actor e)
     [''calculated travel velocity '' @ fl_format L 0 speed @ '' km/h'',
      ''distance '' @ fl_format L 0 distance @ '' km over '' @ fl_format L 2 hrs @ ''h'']"

definition judge_travel :: "env \<Rightarrow> 'f float_lib \<Rightarrow> 'f \<Rightarrow> security_event \<Rightarrow> datetime \<Rightarrow> 'f \<times> 'f \<Rightarrow> 'f \<times> 'f \<Rightarrow> exn + detection_alert option" where
  "judge_travel E L maximum e before from here =
     (let hrs = fl_div L (fl_seconds L (dt_value (sv_timestamp e) - dt_value before)) (fl_of_int L 3600) in
      sbind (haversine_km L (fst from) (snd from) (fst here) (snd here)) (\<lambda>distance.
      let speed = fl_div L distance hrs in
      Inr (if fl_le L speed maximum then None else Some (travel_alert E L e speed distance hrs))))"

definition travel_evaluate :: "env \<Rightarrow> 'f float_lib \<Rightarrow> 'f travel_detector \<Rightarrow> security_event \<Rightarrow>
    (exn + detection_alert option) \<times> 'f travel_detector" where
  "travel_evaluate E L d e =
     (if sv_type e \<noteq> ''authentication_success'' then (Inr None, d)
      else case coordinates L e of
        Inl exc \<Rightarrow> (Inl exc, d)
      | Inr None \<Rightarrow> (Inr None, d)
      | Inr (Some (lat, lon)) \<Rightarrow>
          (let d' = d\<lparr>td_previous := (td_previous d)(sv_actor e \<mapsto> (sv_timestamp e, lat, lon, sv_id e))\<rparr> in
           case td_previous d (sv_actor e) of
             None \<Rightarrow> (Inr None, d')
           | Some (before, lat', lon', _) \<Rightarrow>
               (sbind (dt_compare (\<le>) (sv_timestamp e) before) (\<lambda>stale.
                if stale then Inr None else judge_travel E L (td_maximum d) e before (lat', lon') (lat, lon)), d')))"

section \<open>Evaluation against durable history\<close>

text \<open>\<open>history_by_id\<close>: a later item with the same identifier replaces an earlier one in its place.\<close>

definition put_event :: "security_event list \<Rightarrow> security_event \<Rightarrow> security_event list" where
  "put_event items item = (if sv_id item \<in> sv_id ` set items then map (\<lambda>x. if sv_id x = sv_id item then item else x) items
     else items @ [item])"

definition history_with :: "security_event \<Rightarrow> security_event list \<Rightarrow> security_event list" where
  "history_with e prior = foldl put_event [] (filter (\<lambda>x. sv_id x \<noteq> sv_id e) prior) @ [e]"

fun collect :: "('a \<Rightarrow> exn + 'b option) \<Rightarrow> 'a list \<Rightarrow> exn + 'b list" where
  "collect f [] = Inr []"
| "collect f (x # xs) = sbind (f x) (\<lambda>y. sbind (collect f xs) (\<lambda>ys. Inr (case y of None \<Rightarrow> ys | Some b \<Rightarrow> b # ys)))"

definition within_bounds :: "datetime \<Rightarrow> datetime \<Rightarrow> datetime \<Rightarrow> exn + bool" where
  "within_bounds from until t = sbind (dt_compare (\<le>) from t) (\<lambda>a. if a then dt_compare (\<le>) t until else Inr False)"

definition bulk_sample :: "'f float_lib \<Rightarrow> security_event \<Rightarrow> datetime \<Rightarrow> security_event \<Rightarrow> exn + int option" where
  "bulk_sample L e cutoff item =
     (if sv_type item \<noteq> sv_type e \<or> sv_actor item \<noteq> sv_actor e then Inr None
      else sbind (dt_compare (<) (sv_timestamp item) cutoff) (\<lambda>early. if early then Inr None
      else sbind (dt_compare (>) (sv_timestamp item) (sv_timestamp e)) (\<lambda>late. if late then Inr None
      else finite_number L (attribute item ''bytes''))))"

definition history_bulk :: "env \<Rightarrow> 'f float_lib \<Rightarrow> stateful_correlation \<Rightarrow> security_event \<Rightarrow> security_event list \<Rightarrow> exn + detection_alert list" where
  "history_bulk E L spec e history =
     sbind (finite_number L (attribute e ''bytes'')) (\<lambda>own.
     if own = None then Inr []
     else case (sc_window_minutes spec, sc_event_threshold spec, sc_byte_threshold spec) of
       (Some window, Some threshold, Some volume) \<Rightarrow>
         sbind (collect (bulk_sample L e (window_start e window)) history) (\<lambda>samples.
         Inr (if length samples < threshold \<and> sum_list samples < volume then []
           else [stateful_alert E e spec (''bulk-sensitive-access:'' @ sv_actor e)
             [show_nat (length samples) @ '' access events within '' @ show_int window @ ''m'',
              show_int (sum_list samples) @ '' bytes accessed'']]))
     | _ \<Rightarrow> Inl (RuntimeError, ''bulk-access correlation contract is incomplete''))"

definition later :: "security_event \<Rightarrow> security_event \<Rightarrow> bool" where
  "later a b \<longleftrightarrow> dt_value (sv_timestamp a) < dt_value (sv_timestamp b) \<or>
     dt_value (sv_timestamp a) = dt_value (sv_timestamp b) \<and> sv_id a < sv_id b"

definition latest :: "security_event list \<Rightarrow> security_event option" where
  "latest items = (case items of [] \<Rightarrow> None | x # xs \<Rightarrow> Some (foldl (\<lambda>m y. if later m y then y else m) x xs))"

definition travel_candidate :: "security_event \<Rightarrow> security_event \<Rightarrow> exn + security_event option" where
  "travel_candidate e item =
     (if sv_id item \<noteq> sv_id e \<and> sv_type item = sv_type e \<and> sv_actor item = sv_actor e then
        sbind (dt_compare (<) (sv_timestamp item) (sv_timestamp e)) (\<lambda>b. Inr (if b then Some item else None))
      else Inr None)"

definition history_travel :: "env \<Rightarrow> 'f float_lib \<Rightarrow> stateful_correlation \<Rightarrow> security_event \<Rightarrow> security_event list \<Rightarrow> exn + detection_alert list" where
  "history_travel E L spec e history =
     sbind (coordinates L e) (\<lambda>own. case own of None \<Rightarrow> Inr [] | Some here \<Rightarrow>
     sbind (collect (travel_candidate e) history) (\<lambda>candidates.
     case latest candidates of None \<Rightarrow> Inr [] | Some previous \<Rightarrow>
     sbind (coordinates L previous) (\<lambda>there. case there of None \<Rightarrow> Inr [] | Some from \<Rightarrow>
     case sc_maximum_speed_kph spec of
       None \<Rightarrow> Inl (RuntimeError, ''impossible-travel correlation contract is incomplete'')
     | Some maximum \<Rightarrow>
         sbind (judge_travel E L (fl_of_int L maximum) e (sv_timestamp previous) from here) (\<lambda>alert.
         Inr (case alert of None \<Rightarrow> [] | Some a \<Rightarrow> [a])))))"

definition stuffing_candidate :: "security_event \<Rightarrow> datetime \<Rightarrow> security_event \<Rightarrow> exn + security_event option" where
  "stuffing_candidate e cutoff item =
     (if sv_type item = sv_type e \<and> sv_source_ip item = sv_source_ip e then
        sbind (within_bounds cutoff (sv_timestamp e) (sv_timestamp item)) (\<lambda>b. Inr (if b then Some item else None))
      else Inr None)"

definition history_stuffing :: "env \<Rightarrow> stateful_correlation \<Rightarrow> security_event \<Rightarrow> security_event list \<Rightarrow> exn + detection_alert list" where
  "history_stuffing E spec e history = (case source_of e of None \<Rightarrow> Inr [] | Some ip \<Rightarrow>
     (case (sc_window_minutes spec, sc_event_threshold spec, sc_distinct_threshold spec) of
       (Some window, Some threshold, Some spread) \<Rightarrow>
         sbind (collect (stuffing_candidate e (window_start e window)) history) (\<lambda>failed.
         let distinct_accounts = length (remdups (map (casefold \<circ> sv_actor) failed)) in
         Inr (if length failed < threshold \<or> distinct_accounts < spread then []
           else [stateful_alert E e spec (''credential-stuffing:'' @ ip)
             [show_nat (length failed) @ '' failed authentications from '' @ ip,
              show_nat distinct_accounts @ '' distinct accounts within '' @ show_int window @ ''m'']]))
     | _ \<Rightarrow> Inl (RuntimeError, ''credential-stuffing correlation contract is incomplete'')))"

definition replay_candidate :: "security_event \<Rightarrow> string \<Rightarrow> datetime \<Rightarrow> security_event \<Rightarrow> exn + security_event option" where
  "replay_candidate e h cutoff item =
     (if sv_id item \<noteq> sv_id e \<and> sv_type item = sv_type e \<and> attribute item ''session_id_hash'' = JStr h then
        sbind (dt_compare (\<le>) cutoff (sv_timestamp item)) (\<lambda>a. if \<not> a then Inr None
        else sbind (dt_compare (<) (sv_timestamp item) (sv_timestamp e)) (\<lambda>b. Inr (if b then Some item else None)))
      else Inr None)"

definition history_replay :: "env \<Rightarrow> stateful_correlation \<Rightarrow> security_event \<Rightarrow> security_event list \<Rightarrow> exn + detection_alert list" where
  "history_replay E spec e history = (case (source_of e, sc_window_minutes spec, session_hash e) of
     (Some ip, Some window, Some h) \<Rightarrow>
       sbind (collect (replay_candidate e h (window_start e window)) history) (\<lambda>candidates.
       case latest candidates of None \<Rightarrow> Inr [] | Some previous \<Rightarrow>
       (case source_of previous of None \<Rightarrow> Inr [] | Some ip' \<Rightarrow>
        Inr (if ip' = ip then [] else [stateful_alert E e spec (''session-replay:'' @ h)
          [''session hash reused from '' @ ip' @ '' and '' @ ip, ''reuse occurred within '' @ show_int window @ ''m'']])))
   | _ \<Rightarrow> Inr [])"

definition evaluate_stateful_event :: "env \<Rightarrow> 'f float_lib \<Rightarrow> security_event \<Rightarrow> security_event list \<Rightarrow> exn + detection_alert list" where
  "evaluate_stateful_event E L e prior = (case stateful_correlation_for_event (sv_type e) of
     None \<Rightarrow> Inr []
   | Some spec \<Rightarrow>
       (let history = history_with e prior in
        if sv_type e = ''sensitive_data_access'' then history_bulk E L spec e history
        else if sv_type e = ''authentication_success'' then history_travel E L spec e history
        else if sv_type e = ''edge_auth_failure'' then history_stuffing E spec e history
        else if sv_type e = ''edge_session_use'' then history_replay E spec e history
        else Inr []))"

section \<open>The pipeline\<close>

fun evaluate_rules :: "env \<Rightarrow> sigma_lib \<Rightarrow> sigma_rule list \<Rightarrow> security_event \<Rightarrow> exn + detection_alert list" where
  "evaluate_rules E lib [] e = Inr []"
| "evaluate_rules E lib (rule # rules) e =
     sbind (evaluate_rule E lib rule e) (\<lambda>alert.
     sbind (evaluate_rules E lib rules e) (\<lambda>alerts. Inr (case alert of None \<Rightarrow> alerts | Some a \<Rightarrow> a # alerts)))"

record 'f detection_pipeline =
  dp_rules :: "sigma_rule list"
  dp_bulk :: bulk_detector
  dp_travel :: "'f travel_detector"
  dp_stuffing :: stuffing_detector
  dp_replay :: replay_detector

definition new_detection_pipeline :: "'f float_lib \<Rightarrow> sigma_rule list \<Rightarrow> exn + 'f detection_pipeline" where
  "new_detection_pipeline L rules =
     (case (sc_event_threshold bulk_access_spec, sc_byte_threshold bulk_access_spec, sc_window_minutes bulk_access_spec,
        sc_maximum_speed_kph travel_spec, sc_event_threshold stuffing_spec, sc_distinct_threshold stuffing_spec,
        sc_window_minutes stuffing_spec, sc_window_minutes replay_spec) of
        (Some be, Some bb, Some bw, Some speed, Some se, Some sa, Some sw, Some rw) \<Rightarrow>
          Inr \<lparr>dp_rules = rules,
            dp_bulk = \<lparr>bd_events = be, bd_bytes = bb, bd_window = minutes bw, bd_history = (\<lambda>_. [])\<rparr>,
            dp_travel = \<lparr>td_maximum = fl_of_int L speed, td_previous = Map.empty\<rparr>,
            dp_stuffing = \<lparr>sd_failures = se, sd_accounts = sa, sd_window = minutes sw, sd_history = (\<lambda>_. [])\<rparr>,
            dp_replay = \<lparr>rd_window = minutes rw, rd_previous = Map.empty\<rparr>\<rparr>
      | _ \<Rightarrow> Inl (RuntimeError, ''stateful correlation contract is incomplete''))"

definition opt_list :: "'a option \<Rightarrow> 'a list" where
  "opt_list x = (case x of None \<Rightarrow> [] | Some a \<Rightarrow> [a])"

definition evaluate_streaming :: "env \<Rightarrow> 'f float_lib \<Rightarrow> 'f detection_pipeline \<Rightarrow> security_event \<Rightarrow>
    (exn + detection_alert list) \<times> 'f detection_pipeline" where
  "evaluate_streaming E L p e =
     (case bulk_evaluate E L (dp_bulk p) e of
        (Inl exc, b) \<Rightarrow> (Inl exc, p\<lparr>dp_bulk := b\<rparr>)
      | (Inr a1, b) \<Rightarrow>
     (case travel_evaluate E L (dp_travel p) e of
        (Inl exc, t) \<Rightarrow> (Inl exc, p\<lparr>dp_bulk := b, dp_travel := t\<rparr>)
      | (Inr a2, t) \<Rightarrow>
     (case stuffing_evaluate E (dp_stuffing p) e of
        (Inl exc, s) \<Rightarrow> (Inl exc, p\<lparr>dp_bulk := b, dp_travel := t, dp_stuffing := s\<rparr>)
      | (Inr a3, s) \<Rightarrow>
     (case replay_evaluate E (dp_replay p) e of
        (Inl exc, r) \<Rightarrow> (Inl exc, p\<lparr>dp_bulk := b, dp_travel := t, dp_stuffing := s, dp_replay := r\<rparr>)
      | (Inr a4, r) \<Rightarrow> (Inr (opt_list a1 @ opt_list a2 @ opt_list a3 @ opt_list a4),
           p\<lparr>dp_bulk := b, dp_travel := t, dp_stuffing := s, dp_replay := r\<rparr>)))))"

definition evaluate_pipeline :: "env \<Rightarrow> sigma_lib \<Rightarrow> 'f float_lib \<Rightarrow> 'f detection_pipeline \<Rightarrow> security_event \<Rightarrow>
    (exn + detection_alert list) \<times> 'f detection_pipeline" where
  "evaluate_pipeline E lib L p e = (case evaluate_rules E lib (dp_rules p) e of
     Inl exc \<Rightarrow> (Inl exc, p)
   | Inr found \<Rightarrow>
       (case evaluate_streaming E L p e of
          (Inl exc, p') \<Rightarrow> (Inl exc, p')
        | (Inr streamed, p') \<Rightarrow> (Inr (evaluate_builtin_stateless_event E e @ found @ streamed), p')))"

definition evaluate_with_history :: "env \<Rightarrow> sigma_lib \<Rightarrow> 'f float_lib \<Rightarrow> sigma_rule list \<Rightarrow> security_event \<Rightarrow>
    security_event list \<Rightarrow> exn + detection_alert list" where
  "evaluate_with_history E lib L rules e prior =
     sbind (evaluate_rules E lib rules e) (\<lambda>alerts.
     sbind (evaluate_stateful_event E L e prior) (\<lambda>more.
     Inr (evaluate_builtin_stateless_event E e @ alerts @ more)))"

section \<open>Provenance\<close>

fun severity_value :: "severity \<Rightarrow> string" where
  "severity_value Informational = ''informational''"
| "severity_value SevLow = ''low''"
| "severity_value SevMedium = ''medium''"
| "severity_value SevHigh = ''high''"
| "severity_value SevCritical = ''critical''"

definition opt_json :: "('a \<Rightarrow> json) \<Rightarrow> 'a option \<Rightarrow> json" where
  "opt_json f x = (case x of None \<Rightarrow> JNull | Some a \<Rightarrow> f a)"

definition correlation_json :: "stateful_correlation \<Rightarrow> json" where
  "correlation_json s = JObj [(''rule_id'', JStr (sc_rule s)), (''rule_version'', JInt (sc_version s)), (''title'', JStr (sc_title s)),
     (''severity'', JStr (severity_value (sc_severity s))), (''tags'', JList (map JStr (sc_tags s))),
     (''event_type'', JStr (sc_event_type s)), (''window_minutes'', opt_json JInt (sc_window_minutes s)),
     (''event_threshold'', opt_json (JInt \<circ> int) (sc_event_threshold s)),
     (''distinct_threshold'', opt_json (JInt \<circ> int) (sc_distinct_threshold s)),
     (''byte_threshold'', opt_json JInt (sc_byte_threshold s)),
     (''maximum_speed_kph'', opt_json (\<lambda>n. JFloat (show_int n @ ''.0'')) (sc_maximum_speed_kph s))]"

definition canonical_stateful_correlations :: "json list" where
  "canonical_stateful_correlations = map correlation_json stateful_correlations"

definition builtin_json :: "builtin_detection \<Rightarrow> json" where
  "builtin_json s = JObj [(''rule_id'', JStr (bs_rule s)), (''rule_version'', JInt (bs_version s)), (''event_type'', JStr (bs_event_type s)),
     (''attribute'', JStr (bs_attribute s)),
     (''outcomes'', JList (map (\<lambda>x. JObj [(''value'', JStr (bo_value x)), (''title'', JStr (bo_title x)),
        (''severity'', JStr (severity_value (bo_severity x)))]) (bs_outcomes s))),
     (''tags'', JList (map JStr (bs_tags s)))]"

definition canonical_builtin_detections :: "json list" where
  "canonical_builtin_detections = map builtin_json builtin_detections"

definition canonical_contract_digest :: "env \<Rightarrow> json \<Rightarrow> string" where
  "canonical_contract_digest E payload = ''sha256:'' @ sha256_hex E (utf8 (dumps False payload))"

definition canonical_non_sigma_provenance :: "env \<Rightarrow> (string \<times> string \<times> string \<times> string) list" where
  "canonical_non_sigma_provenance E =
     map (\<lambda>s. (bs_rule s, show_int (bs_version s), canonical_contract_digest E (builtin_json s), dumps False (builtin_json s))) builtin_detections @
     map (\<lambda>s. (sc_rule s, show_int (sc_version s), canonical_contract_digest E (correlation_json s), dumps False (correlation_json s)))
       stateful_correlations"

definition canonical_sigma_rule :: "sigma_rule \<Rightarrow> json" where
  "canonical_sigma_rule r = JObj [(''id'', JStr (sr_id r)), (''rule_version'', JInt (sr_version r)), (''title'', JStr (sr_title r)),
     (''description'', JStr (sr_description r)), (''status'', JStr (sr_status r)),
     (''logsource'', JObj (map (\<lambda>(k, v). (k, JStr v)) (sr_logsource r))), (''detection'', JObj (sr_detection r)),
     (''level'', JStr (severity_value (sr_level r))), (''tags'', JList (map JStr (sr_tags r)))]"

definition sigma_rule_digest :: "env \<Rightarrow> sigma_rule \<Rightarrow> string" where
  "sigma_rule_digest E r = ''sha256:'' @ sha256_hex E (utf8 (dumps False (canonical_sigma_rule r)))"

definition fingerprint_payload :: "string \<Rightarrow> string \<Rightarrow> string \<Rightarrow> string" where
  "fingerprint_payload tenant rule event =
     utf8 (dumps False (JList [JStr ''controlforge-alert'', JInt 1, JStr tenant, JStr rule, JStr event]))"

definition alert_fingerprint_v1 :: "env \<Rightarrow> string \<Rightarrow> string \<Rightarrow> string \<Rightarrow> string" where
  "alert_fingerprint_v1 E tenant rule event = take 32 (sha256_hex E (fingerprint_payload tenant rule event))"

section \<open>Loading rules\<close>

text \<open>
  The rule files of a directory as paths with their parsed documents; \<open>SigmaRule.model_validate\<close>
  is the parameter \<open>validate\<close>. \<open>seen\<close> is \<open>rule_paths\<close>.
\<close>

fun load_from :: "sigma_lib \<Rightarrow> (json \<Rightarrow> exn + sigma_rule) \<Rightarrow> (string \<times> string) list \<Rightarrow> (string \<times> json) list \<Rightarrow> exn + sigma_rule list" where
  "load_from lib validate seen [] = Inr []"
| "load_from lib validate seen ((path, raw) # files) = (case raw of
     JObj _ \<Rightarrow> sbind (validate raw) (\<lambda>rule.
       case map_of seen (casefold (sr_id rule)) of
         Some earlier \<Rightarrow> Inl (ValueError, path @ '': duplicate rule id '' @ sl_repr lib (JStr (sr_id rule)) @ ''; first defined in '' @ earlier)
       | None \<Rightarrow> sbind (load_from lib validate ((casefold (sr_id rule), path) # seen) files) (\<lambda>rules. Inr (rule # rules)))
   | _ \<Rightarrow> Inl (ValueError, path @ '': rule must be a YAML mapping''))"

definition load_rules :: "sigma_lib \<Rightarrow> (json \<Rightarrow> exn + sigma_rule) \<Rightarrow> string \<Rightarrow> (string \<times> json) list \<Rightarrow> exn + sigma_rule list" where
  "load_rules lib validate directory files =
     sbind (load_from lib validate [] (order_by fst files)) (\<lambda>rules.
     if rules = [] then Inl (ValueError, ''no detection rules found in '' @ directory) else Inr rules)"

section \<open>Loaded rules are told apart\<close>

lemma load_from_distinct:
  "load_from lib validate seen files = Inr rules \<Longrightarrow>
     distinct (map (casefold \<circ> sr_id) rules) \<and> (casefold \<circ> sr_id) ` set rules \<inter> fst ` set seen = {}"
proof (induction lib validate seen files arbitrary: rules rule: load_from.induct)
  case (2 lib validate seen path raw files)
  from "2.prems" obtain kvs rule rest where raw: "raw = JObj kvs" and rule: "validate raw = Inr rule"
    and fresh: "map_of seen (casefold (sr_id rule)) = None"
    and rest: "load_from lib validate ((casefold (sr_id rule), path) # seen) files = Inr rest" and rules: "rules = rule # rest"
    by (auto simp: sbind_def split: json.splits sum.splits option.splits)
  from "2.IH" [OF raw fresh rest] fresh show ?case by (auto simp: rules map_of_eq_None_iff)
qed simp

section \<open>Fingerprints\<close>

lemma fingerprint_payload_inject:
  "fingerprint_payload t r e = fingerprint_payload t' r' e' \<longleftrightarrow> t = t' \<and> r = r' \<and> e = e'"
proof
  let ?j = "\<lambda>t r e. JList [JStr ''controlforge-alert'', JInt 1, JStr t, JStr r, JStr e]"
  assume "fingerprint_payload t r e = fingerprint_payload t' r' e'"
  then have "loads (dumps False (?j t r e)) = loads (dumps False (?j t' r' e'))"
    by (auto simp: fingerprint_payload_def dest: utf8_inject simp del: dumps.simps)
  then show "t = t' \<and> r = r' \<and> e = e'"
    by (simp add: loads_dumps del: dumps.simps)
qed simp

section \<open>The sliding window\<close>

text \<open>On aware times in order, the queue a detector keeps is exactly the window that ends at its last entry.\<close>

definition in_order :: "datetime list \<Rightarrow> bool" where
  "in_order ts \<longleftrightarrow> (\<forall>t \<in> set ts. \<exists>x. t = Aware x) \<and> sorted (map dt_value ts)"

definition recent :: "int \<Rightarrow> (datetime \<times> 'a) list \<Rightarrow> (datetime \<times> 'a) list" where
  "recent window xs = filter (\<lambda>y. dt_value (fst (last xs)) - window \<le> dt_value (fst y)) xs"

lemma pop_expired_aware:
  "\<forall>x \<in> set xs. \<exists>u. fst x = Aware u \<Longrightarrow> sorted (map (dt_value \<circ> fst) xs) \<Longrightarrow>
     pop_expired (Aware c) xs = (None, filter (\<lambda>x. c \<le> dt_value (fst x)) xs)"
proof (induction xs)
  case (Cons x xs)
  then obtain u where u: "fst x = Aware u" by auto
  show ?case
  proof (cases "u < c")
    case True
    with Cons u show ?thesis by (auto simp: dt_compare_def dt_value_def)
  next
    case False
    with Cons.prems(2) u have "\<forall>y \<in> set xs. c \<le> dt_value (fst y)" by (auto simp: dt_value_def)
    with False u show ?thesis by (simp add: dt_compare_def dt_value_def filter_id_conv)
  qed
qed simp

lemma slide_recent:
  assumes "0 \<le> window" "in_order (map fst (xs @ [x]))"
  shows "slide window (recent window xs) x = (None, recent window (xs @ [x]))"
proof -
  obtain u where u: "fst x = Aware u" using assms(2) by (auto simp: in_order_def)
  have sorted: "sorted (map (dt_value \<circ> fst) (xs @ [x]))" using assms(2) by (simp add: in_order_def comp_def)
  let ?keep = "\<lambda>y. u - window \<le> dt_value (fst y)"
  have "slide window (recent window xs) x = pop_expired (Aware (u - window)) (recent window xs @ [x])"
    by (simp add: slide_def u datetime_add_def)
  also have "\<dots> = (None, filter ?keep (recent window xs @ [x]))"
    using assms(2) sorted
    by (intro pop_expired_aware) (auto simp: recent_def in_order_def sorted_append comp_def intro: sorted_filter)
  also have "filter ?keep (recent window xs @ [x]) = recent window (xs @ [x])"
  proof (cases "xs = []")
    case False
    then have "dt_value (fst (last xs)) \<le> u" using sorted u by (auto simp: sorted_append dt_value_def)
    then have "filter ?keep (recent window xs) = filter ?keep xs"
      unfolding recent_def filter_filter by (intro filter_cong) auto
    then show ?thesis by (simp add: recent_def u dt_value_def)
  qed (simp add: recent_def u dt_value_def)
  finally show ?thesis .
qed

lemma in_order_filter: "in_order (map f xs) \<Longrightarrow> in_order (map f (filter P xs))"
  by (auto simp: in_order_def sorted_filter comp_def)

lemma in_order_append: "in_order (xs @ ys) \<Longrightarrow> in_order xs"
  by (auto simp: in_order_def sorted_append)

section \<open>Streaming agrees with history\<close>

text \<open>
  Both counting detectors keep one queue per key: the contract below says what such a queue holds after
  any stream of events in order.
\<close>

definition track :: "(security_event \<Rightarrow> string option) \<Rightarrow> (security_event \<Rightarrow> datetime \<times> 'a) \<Rightarrow> int \<Rightarrow>
    (string \<Rightarrow> (datetime \<times> 'a) list) \<Rightarrow> security_event \<Rightarrow> string \<Rightarrow> (datetime \<times> 'a) list" where
  "track key entry window h e = (case key e of None \<Rightarrow> h | Some k \<Rightarrow> h(k := snd (slide window (h k) (entry e))))"

definition keyed :: "(security_event \<Rightarrow> string option) \<Rightarrow> string \<Rightarrow> security_event list \<Rightarrow> security_event list" where
  "keyed key k es = filter (\<lambda>e. key e = Some k) es"

locale event_window =
  fixes key :: "security_event \<Rightarrow> string option"
    and entry :: "security_event \<Rightarrow> datetime \<times> 'a"
    and window :: int
  assumes entry_time: "fst (entry e) = sv_timestamp e"
    and window_nonneg: "0 \<le> window"
begin

lemma slide_keyed:
  assumes "in_order (map sv_timestamp (es @ [e]))" "key e = Some k"
  shows "slide window (recent window (map entry (keyed key k es))) (entry e) =
    (None, recent window (map entry (keyed key k (es @ [e]))))"
proof -
  have "in_order (map sv_timestamp (keyed key k (es @ [e])))"
    unfolding keyed_def using assms(1) by (rule in_order_filter)
  then have "in_order (map fst (map entry (keyed key k es) @ [entry e]))"
    using assms(2) by (simp add: keyed_def comp_def entry_time)
  from slide_recent [OF window_nonneg this] assms(2) show ?thesis by (simp add: keyed_def)
qed

lemma track_state:
  "in_order (map sv_timestamp es) \<Longrightarrow>
     foldl (track key entry window) (\<lambda>_. []) es = (\<lambda>k. recent window (map entry (keyed key k es)))"
proof (induction es rule: rev_induct)
  case Nil
  show ?case by (simp add: keyed_def recent_def)
next
  case (snoc e es)
  then have "in_order (map sv_timestamp es)" by (auto dest: in_order_append)
  with snoc.IH slide_keyed [OF snoc.prems] show ?case
    by (auto simp: track_def keyed_def fun_eq_iff split: option.splits)
qed

lemma window_at:
  assumes "in_order (map sv_timestamp (es @ [e]))" "key e = Some k"
  shows "slide window (foldl (track key entry window) (\<lambda>_. []) es k) (entry e) =
    (None, map entry (filter (\<lambda>x. dt_value (sv_timestamp e) - window \<le> dt_value (sv_timestamp x)) (keyed key k (es @ [e]))))"
proof -
  have "in_order (map sv_timestamp es)" using assms(1) by (auto dest: in_order_append)
  then show ?thesis
    using slide_keyed [OF assms] assms(2)
    by (simp add: track_state recent_def keyed_def filter_map comp_def entry_time)
qed

end

definition stuffing_key :: "security_event \<Rightarrow> string option" where
  "stuffing_key e = (if sv_type e = ''edge_auth_failure'' then source_of e else None)"

definition stuffing_entry :: "security_event \<Rightarrow> datetime \<times> string \<times> string" where
  "stuffing_entry e = (sv_timestamp e, sv_actor e, sv_id e)"

interpretation stuffing: event_window stuffing_key stuffing_entry "minutes 5"
  by unfold_locales (simp_all add: stuffing_entry_def minutes_def)

definition bulk_number :: "'f float_lib \<Rightarrow> security_event \<Rightarrow> int option" where
  "bulk_number L e = (case finite_number L (attribute e ''bytes'') of Inr n \<Rightarrow> n | Inl _ \<Rightarrow> None)"

definition bulk_key :: "'f float_lib \<Rightarrow> security_event \<Rightarrow> string option" where
  "bulk_key L e = (if sv_type e = ''sensitive_data_access'' \<and> bulk_number L e \<noteq> None then Some (sv_actor e) else None)"

definition bulk_entry :: "'f float_lib \<Rightarrow> security_event \<Rightarrow> datetime \<times> int \<times> string" where
  "bulk_entry L e = (sv_timestamp e, the (bulk_number L e), sv_id e)"

interpretation bulk: event_window "bulk_key L" "bulk_entry L" "minutes 15" for L :: "'f float_lib"
  by unfold_locales (simp_all add: bulk_entry_def minutes_def)

definition stuffing_feed :: "env \<Rightarrow> stuffing_detector \<Rightarrow> security_event list \<Rightarrow> stuffing_detector" where
  "stuffing_feed E d es = foldl (\<lambda>d e. snd (stuffing_evaluate E d e)) d es"

definition bulk_feed :: "env \<Rightarrow> 'f float_lib \<Rightarrow> bulk_detector \<Rightarrow> security_event list \<Rightarrow> bulk_detector" where
  "bulk_feed E L d es = foldl (\<lambda>d e. snd (bulk_evaluate E L d e)) d es"

lemma stuffing_feed_track:
  "stuffing_feed E d es = d\<lparr>sd_history := foldl (track stuffing_key stuffing_entry (sd_window d)) (sd_history d) es\<rparr>"
proof (induction es rule: rev_induct)
  case (snoc e es)
  have "snd (stuffing_evaluate E d' e) = d'\<lparr>sd_history := track stuffing_key stuffing_entry (sd_window d') (sd_history d') e\<rparr>" for d'
    by (simp add: stuffing_evaluate_def track_def stuffing_key_def stuffing_entry_def Let_def case_prod_unfold split: option.split)
  with snoc show ?case by (simp add: stuffing_feed_def)
qed (cases d, simp add: stuffing_feed_def)

text \<open>The bulk detector counts an access without a byte count as zero bytes, which the history does not; so the count is required.\<close>

definition counted :: "'f float_lib \<Rightarrow> security_event \<Rightarrow> bool" where
  "counted L e \<longleftrightarrow> sv_type e \<noteq> ''sensitive_data_access'' \<or>
     map_of (sv_attributes e) ''bytes'' \<noteq> None \<and> \<not> isl (finite_number L (attribute e ''bytes''))"

lemma bulk_step:
  assumes "counted L e"
  shows "snd (bulk_evaluate E L d e) = d\<lparr>bd_history := track (bulk_key L) (bulk_entry L) (bd_window d) (bd_history d) e\<rparr>"
proof (cases "sv_type e = ''sensitive_data_access''")
  case True
  with assms obtain v r where "map_of (sv_attributes e) ''bytes'' = Some v" "finite_number L v = Inr r"
    by (cases "finite_number L (attribute e ''bytes'')") (auto simp: counted_def attribute_def)
  with True show ?thesis
    by (simp add: bulk_evaluate_def track_def bulk_key_def bulk_entry_def bulk_number_def attribute_def Let_def case_prod_unfold
        split: option.split)
qed (simp add: bulk_evaluate_def track_def bulk_key_def)

lemma bulk_feed_track:
  "list_all (counted L) es \<Longrightarrow>
     bulk_feed E L d es = d\<lparr>bd_history := foldl (track (bulk_key L) (bulk_entry L) (bd_window d)) (bd_history d) es\<rparr>"
  by (induction es rule: rev_induct) (simp_all add: bulk_feed_def bulk_step)

lemma foldl_put_event: "distinct (map sv_id (xs @ ys)) \<Longrightarrow> foldl put_event xs ys = xs @ ys"
proof (induction ys arbitrary: xs)
  case (Cons y ys)
  then have "put_event xs y = xs @ [y]" by (auto simp: put_event_def)
  with Cons.IH [of "xs @ [y]"] Cons.prems show ?case by simp
qed simp

lemma history_with_distinct: "distinct (map sv_id (es @ [e])) \<Longrightarrow> history_with e es = es @ [e]"
proof -
  assume d: "distinct (map sv_id (es @ [e]))"
  then have "filter (\<lambda>x. sv_id x \<noteq> sv_id e) es = es" by (simp add: filter_id_conv) (metis image_eqI)
  with d foldl_put_event [of "[]" es] show ?thesis by (simp add: history_with_def)
qed

lemma collect_filter:
  "(\<And>x. x \<in> set xs \<Longrightarrow> f x = Inr (if P x then Some (g x) else None)) \<Longrightarrow> collect f xs = Inr (map g (filter P xs))"
  by (induction xs) auto

lemma in_order_before:
  assumes "in_order (map sv_timestamp (es @ [e]))" "x \<in> set (es @ [e])"
  obtains u v where "sv_timestamp e = Aware u" "sv_timestamp x = Aware v" "v \<le> u"
proof -
  from assms obtain u v where "sv_timestamp e = Aware u" "sv_timestamp x = Aware v" by (fastforce simp: in_order_def)
  moreover from assms have "dt_value (sv_timestamp x) \<le> dt_value (sv_timestamp e)" by (auto simp: in_order_def sorted_append)
  ultimately show ?thesis using that by (simp add: dt_value_def)
qed

lemma source_of_eq: "source_of e = Some ip \<Longrightarrow> source_of x = Some ip \<longleftrightarrow> sv_source_ip x = sv_source_ip e"
  by (auto simp: source_of_def split: option.splits if_splits)

lemma collect_stuffing:
  assumes "in_order (map sv_timestamp (es @ [e]))" "stuffing_key e = Some ip"
  shows "collect (stuffing_candidate e (window_start e 5)) (es @ [e]) =
    Inr (filter (\<lambda>x. dt_value (sv_timestamp e) - minutes 5 \<le> dt_value (sv_timestamp x)) (keyed stuffing_key ip (es @ [e])))"
proof -
  have e: "sv_type e = ''edge_auth_failure''" "source_of e = Some ip"
    using assms(2) by (auto simp: stuffing_key_def split: if_splits)
  let ?P = "\<lambda>x. stuffing_key x = Some ip \<and> dt_value (sv_timestamp e) - minutes 5 \<le> dt_value (sv_timestamp x)"
  have "stuffing_candidate e (window_start e 5) x = Inr (if ?P x then Some (id x) else None)" if "x \<in> set (es @ [e])" for x
    using assms(1) that
  proof (rule in_order_before)
    fix u v assume "sv_timestamp e = Aware u" "sv_timestamp x = Aware v" "v \<le> u"
    then show ?thesis
      using e source_of_eq [OF e(2), of x]
      by (auto simp: stuffing_candidate_def stuffing_key_def within_bounds_def window_start_def datetime_add_def dt_compare_def dt_value_def)
  qed
  from collect_filter [of "es @ [e]", OF this] show ?thesis
    by (simp add: keyed_def conj_commute)
qed

lemma collect_bulk:
  assumes "in_order (map sv_timestamp (es @ [e]))" "list_all (counted L) (es @ [e])" "bulk_key L e = Some actor"
  shows "collect (bulk_sample L e (window_start e 15)) (es @ [e]) =
    Inr (map (the \<circ> bulk_number L)
      (filter (\<lambda>x. dt_value (sv_timestamp e) - minutes 15 \<le> dt_value (sv_timestamp x)) (keyed (bulk_key L) actor (es @ [e]))))"
proof -
  have e: "sv_type e = ''sensitive_data_access''" "sv_actor e = actor"
    using assms(3) by (auto simp: bulk_key_def split: if_splits)
  let ?P = "\<lambda>x. bulk_key L x = Some actor \<and> dt_value (sv_timestamp e) - minutes 15 \<le> dt_value (sv_timestamp x)"
  have "bulk_sample L e (window_start e 15) x = Inr (if ?P x then Some ((the \<circ> bulk_number L) x) else None)"
    if x: "x \<in> set (es @ [e])" for x
    using assms(1) x
  proof (rule in_order_before)
    fix u v assume times: "sv_timestamp e = Aware u" "sv_timestamp x = Aware v" "v \<le> u"
    show ?thesis
    proof (cases "sv_type x = ''sensitive_data_access''")
      case True
      with assms(2) x have "counted L x" by (auto simp: list_all_iff)
      with True obtain r where "finite_number L (attribute x ''bytes'') = Inr r"
        by (cases "finite_number L (attribute x ''bytes'')") (auto simp: counted_def)
      with True e times show ?thesis
        by (cases r) (auto simp: bulk_sample_def bulk_key_def bulk_number_def window_start_def datetime_add_def dt_compare_def dt_value_def)
    next
      case False
      with e show ?thesis by (simp add: bulk_sample_def bulk_key_def)
    qed
  qed
  from collect_filter [of "es @ [e]", OF this] show ?thesis
    by (simp add: keyed_def conj_commute)
qed

definition first_alert :: "detection_alert list \<Rightarrow> detection_alert option" where
  "first_alert as = (case as of [] \<Rightarrow> None | a # _ \<Rightarrow> Some a)"

definition fresh_stuffing :: stuffing_detector where
  "fresh_stuffing = \<lparr>sd_failures = 20, sd_accounts = 10, sd_window = minutes 5, sd_history = (\<lambda>_. [])\<rparr>"

definition fresh_bulk :: bulk_detector where
  "fresh_bulk = \<lparr>bd_events = 10, bd_bytes = 50000000, bd_window = minutes 15, bd_history = (\<lambda>_. [])\<rparr>"

lemma fresh_pipeline:
  "new_detection_pipeline L rules = Inr p \<Longrightarrow> dp_stuffing p = fresh_stuffing \<and> dp_bulk p = fresh_bulk"
  by (auto simp: new_detection_pipeline_def correlation_defs fresh_stuffing_def fresh_bulk_def)

lemma window_text_minutes [simp]: "window_text (minutes n) = show_int n @ ''m''"
  by (simp add: window_text_def minutes_def)

lemma stuffing_agrees:
  assumes "in_order (map sv_timestamp (es @ [e]))" "distinct (map sv_id (es @ [e]))" "sv_type e = ''edge_auth_failure''"
  shows "fst (stuffing_evaluate E (stuffing_feed E fresh_stuffing es) e) =
    sbind (evaluate_stateful_event E L e es) (Inr \<circ> first_alert)"
proof (cases "source_of e")
  case None
  with assms(3) show ?thesis
    by (simp add: stuffing_evaluate_def evaluate_stateful_event_def history_stuffing_def first_alert_def)
next
  case (Some ip)
  with assms(3) have key: "stuffing_key e = Some ip" by (simp add: stuffing_key_def)
  define kept where "kept = filter (\<lambda>x. dt_value (sv_timestamp e) - minutes 5 \<le> dt_value (sv_timestamp x)) (keyed stuffing_key ip (es @ [e]))"
  have "slide (minutes 5) (sd_history (stuffing_feed E fresh_stuffing es) ip) (stuffing_entry e) = (None, map stuffing_entry kept)"
    using stuffing.window_at [OF assms(1) key] by (simp add: stuffing_feed_track fresh_stuffing_def kept_def)
  moreover have "collect (stuffing_candidate e (window_start e 5)) (es @ [e]) = Inr kept"
    unfolding kept_def using assms(1) key by (rule collect_stuffing)
  ultimately show ?thesis
    using assms(3) Some history_with_distinct [OF assms(2)]
    by (simp add: stuffing_evaluate_def evaluate_stateful_event_def history_stuffing_def stuffing_feed_track fresh_stuffing_def
        stuffing_alert_def first_alert_def Let_def stuffing_entry_def comp_def stuffing_spec_def)
qed

lemma bulk_agrees:
  assumes "in_order (map sv_timestamp (es @ [e]))" "distinct (map sv_id (es @ [e]))" "sv_type e = ''sensitive_data_access''"
    "list_all (counted L) (es @ [e])"
  shows "fst (bulk_evaluate E L (bulk_feed E L fresh_bulk es) e) =
    sbind (evaluate_stateful_event E L e es) (Inr \<circ> first_alert)"
proof -
  from assms(3,4) obtain v r where bytes: "map_of (sv_attributes e) ''bytes'' = Some v" "finite_number L v = Inr r"
    by (cases "finite_number L (attribute e ''bytes'')") (auto simp: counted_def attribute_def)
  have fed: "list_all (counted L) es" using assms(4) by simp
  show ?thesis
  proof (cases r)
    case None
    with assms(3) bytes show ?thesis
      by (simp add: bulk_evaluate_def evaluate_stateful_event_def history_bulk_def attribute_def first_alert_def)
  next
    case (Some n)
    with assms(3) bytes have key: "bulk_key L e = Some (sv_actor e)" and number: "bulk_number L e = Some n"
      by (simp_all add: bulk_key_def bulk_number_def attribute_def)
    define kept where "kept = filter (\<lambda>x. dt_value (sv_timestamp e) - minutes 15 \<le> dt_value (sv_timestamp x))
      (keyed (bulk_key L) (sv_actor e) (es @ [e]))"
    have "slide (minutes 15) (bd_history (bulk_feed E L fresh_bulk es) (sv_actor e)) (bulk_entry L e) = (None, map (bulk_entry L) kept)"
      using bulk.window_at [OF assms(1) key] by (simp add: bulk_feed_track [OF fed] fresh_bulk_def kept_def)
    moreover have "collect (bulk_sample L e (window_start e 15)) (es @ [e]) = Inr (map (the \<circ> bulk_number L) kept)"
      unfolding kept_def using assms(1,4) key by (rule collect_bulk)
    ultimately show ?thesis
      using assms(3) Some bytes number history_with_distinct [OF assms(2)]
      by (simp add: bulk_evaluate_def evaluate_stateful_event_def history_bulk_def bulk_feed_track [OF fed] fresh_bulk_def
          bulk_alert_def first_alert_def Let_def bulk_entry_def comp_def bulk_access_spec_def attribute_def)
  qed
qed


definition sample_floats :: "int float_lib" where
  "sample_floats = \<lparr>fl_literal = (\<lambda>_. 0), fl_of_int = id, fl_finite = (\<lambda>_. True), fl_trunc = id, fl_add = (+), fl_sub = (-),
     fl_mul = (*), fl_div = (div), fl_square = (\<lambda>x. x * x), fl_le = (\<le>), fl_radians = id, fl_sin = Inr, fl_cos = Inr, fl_sqrt = Inr,
     fl_atan2 = (+), fl_seconds = (\<lambda>us. us div 1000000), fl_format = (\<lambda>_. show_int)\<rparr>"

definition sample_access :: "string \<Rightarrow> int \<Rightarrow> int \<Rightarrow> security_event" where
  "sample_access i t n = \<lparr>sv_id = i, sv_type = ''sensitive_data_access'', sv_timestamp = Aware t, sv_actor = ''mallory'',
     sv_source_ip = None, sv_target = None, sv_device = None, sv_attributes = [(''bytes'', JInt n)]\<rparr>"

lemma small_number: "\<bar>n\<bar> < 2 ^ 1000 \<Longrightarrow> \<not> float_overflows n"
proof -
  have "(2::int) ^ 970 + 2 ^ 1000 \<le> 2 ^ 1024" by simp
  then show "\<bar>n\<bar> < 2 ^ 1000 \<Longrightarrow> ?thesis" unfolding float_overflows_def by linarith
qed


section \<open>A number that does not convert\<close>

lemma collect_raises:
  "x \<in> set xs \<Longrightarrow> f x = Inl exc \<Longrightarrow> (\<And>y. y \<in> set xs \<Longrightarrow> f y = Inl exc \<or> (\<exists>r. f y = Inr r)) \<Longrightarrow> collect f xs = Inl exc"
proof (induction xs)
  case (Cons y ys)
  then show ?case
  proof (cases "x \<in> set ys")
    case True
    with Cons.IH Cons.prems have "collect f ys = Inl exc" by simp
    with Cons.prems(3) [of y] show ?thesis by auto
  qed auto
qed simp

lemma finite_number_cases:
  "finite_number L v = Inl (OverflowError, ''int too large to convert to float'') \<or> (\<exists>r. finite_number L v = Inr r)"
  by (cases v) (auto simp: finite_number_def plain_number_def to_float_def)

text \<open>
  C32. An integer attribute that does not fit a double stops the bulk-access correlation. When the history
  of an event holds a data-access event of the same actor within the window whose byte count is such an
  integer, evaluating the event raises an overflow error, whatever the other events are: the job that
  evaluates it fails and the correlation raises no alert for that actor while the window lasts.
\<close>

theorem oversized_count_blocks_correlation:
  assumes "in_order (map sv_timestamp (es @ [e]))" "distinct (map sv_id (es @ [e]))"
    "sv_type e = ''sensitive_data_access''" "bulk_number L e \<noteq> None"
    "x \<in> set es" "sv_type x = sv_type e" "sv_actor x = sv_actor e"
    "dt_value (sv_timestamp e) - minutes 15 \<le> dt_value (sv_timestamp x)"
    "map_of (sv_attributes x) ''bytes'' = Some (JInt n)" "float_overflows n"
  shows "evaluate_stateful_event E L e es = Inl (OverflowError, ''int too large to convert to float'')"
proof -
  let ?f = "bulk_sample L e (window_start e 15)" and ?exc = "(OverflowError, ''int too large to convert to float'')"
  have "?f y = Inl ?exc \<or> (\<exists>r. ?f y = Inr r)" if "y \<in> set (es @ [e])" for y
    using assms(1) that
  proof (rule in_order_before)
    fix u v assume "sv_timestamp e = Aware u" "sv_timestamp y = Aware v" "v \<le> u"
    then show ?thesis using finite_number_cases [of L "attribute y ''bytes''"]
      by (auto simp: bulk_sample_def dt_compare_def window_start_def datetime_add_def)
  qed
  moreover have "?f x = Inl ?exc"
  proof (rule in_order_before [OF assms(1), of x])
    fix u v assume "sv_timestamp e = Aware u" "sv_timestamp x = Aware v" "v \<le> u"
    then show ?thesis using assms(6-10)
      by (simp add: bulk_sample_def dt_compare_def window_start_def datetime_add_def dt_value_def attribute_def
          finite_number_def plain_number_def to_float_def)
  qed (use assms(5) in simp)
  ultimately have "collect ?f (es @ [e]) = Inl ?exc"
    using assms(5) by (intro collect_raises [of x]) auto
  moreover obtain m where "finite_number L (attribute e ''bytes'') = Inr (Some m)"
    using assms(4) by (auto simp: bulk_number_def split: sum.splits)
  ultimately show ?thesis
    using assms(3) history_with_distinct [OF assms(2)]
    by (simp add: evaluate_stateful_event_def history_bulk_def bulk_access_spec_def)
qed

theorem oversized_count_blocks_correlation_witness:
  "evaluate_stateful_event sample_env sample_floats (sample_access ''b'' 5 60000000) [sample_access ''a'' 0 (2 ^ 1024)] =
     Inl (OverflowError, ''int too large to convert to float'')"
proof (rule oversized_count_blocks_correlation [where x = "sample_access ''a'' 0 (2 ^ 1024)" and n = "2 ^ 1024"])
  show "float_overflows (2 ^ 1024)" by (simp add: float_overflows_def)
  have "\<not> float_overflows 60000000" by (rule small_number) simp
  then show "bulk_number sample_floats (sample_access ''b'' 5 60000000) \<noteq> None"
    by (simp add: bulk_number_def sample_access_def attribute_def finite_number_def plain_number_def to_float_def sample_floats_def)
qed (simp_all add: sample_access_def in_order_def dt_value_def minutes_def)

end
