(* ===== verification/Rotation.thy ===== *)
theory Rotation
  imports Enrollment
begin

text \<open>
  Credential rotation: the envelope contract of \<open>controlforge/credential_rotation.py\<close> (both the
  appliance's and the endpoint's side) and the acknowledgment-gated service of
  \<open>standalone/credential_rotation.py\<close>. Key derivation, the cipher under a derived key and
  pydantic's reading and writing of the material are parameters. The theorem says that no step of a
  rotation leaves a device without a live credential.
\<close>

section \<open>The envelope\<close>

record rotation_material =
  rm_rotation :: string
  rm_device :: string
  rm_predecessor :: string
  rm_replacement :: string
  rm_secret :: string
  rm_expires :: instant

record rotation_envelope =
  re_schema :: string
  re_algorithm :: string
  re_rotation :: string
  re_device :: string
  re_predecessor :: string
  re_delivery_expires :: instant
  re_ciphertext :: string
  re_iv :: string

record rotation_lib =
  rl_digest :: "string \<Rightarrow> string"
  rl_hkdf :: "string \<Rightarrow> string \<Rightarrow> string \<Rightarrow> string"
  rl_encrypt :: "string \<Rightarrow> string \<Rightarrow> string \<Rightarrow> string \<Rightarrow> string"
  rl_decrypt :: "string \<Rightarrow> string \<Rightarrow> string \<Rightarrow> string \<Rightarrow> string option"
  rl_time :: "instant \<Rightarrow> string"
  rl_parse :: "string \<Rightarrow> rotation_material option"

definition uuid_text :: "string \<Rightarrow> bool" where
  "uuid_text s \<longleftrightarrow> length s = 36 \<and> list_all (\<lambda>c. lower_hex c \<or> c = CHR ''-'') s"

definition material_ok :: "rotation_material \<Rightarrow> bool" where
  "material_ok m \<longleftrightarrow> uuid_text (rm_rotation m) \<and> credential_id_ok (rm_device m) \<and> uuid_text (rm_predecessor m) \<and>
     uuid_text (rm_replacement m) \<and> 32 \<le> length (rm_secret m) \<and> length (rm_secret m) \<le> 256 \<and> rm_predecessor m \<noteq> rm_replacement m"

definition b64_text :: "string \<Rightarrow> bool" where
  "b64_text s \<longleftrightarrow> list_all (\<lambda>c. upper_char c \<or> small_char c \<or> is_digit c \<or> c \<in> set ''_-'') s"

definition envelope_ok :: "rotation_envelope \<Rightarrow> bool" where
  "envelope_ok e \<longleftrightarrow> uuid_text (re_rotation e) \<and> credential_id_ok (re_device e) \<and> uuid_text (re_predecessor e) \<and>
     64 \<le> length (re_ciphertext e) \<and> length (re_ciphertext e) \<le> 2048 \<and> b64_text (re_ciphertext e) \<and>
     16 \<le> length (re_iv e) \<and> length (re_iv e) \<le> 32 \<and> b64_text (re_iv e)"

definition key_and_aad :: "rotation_lib \<Rightarrow> string \<Rightarrow> string \<Rightarrow> string \<Rightarrow> string \<Rightarrow> string \<times> string" where
  "key_and_aad L rotation_id dev predecessor secret =
     (let aad = utf8 (''controlforge-credential-rotation:v1:'' @ rotation_id @ '':'' @ dev @ '':'' @ predecessor) in
      (rl_hkdf L (rl_digest L aad) ''controlforge/endpoint-credential-rotation/delivery/v1'' secret, aad))"

definition material_json :: "rotation_lib \<Rightarrow> rotation_material \<Rightarrow> json" where
  "material_json L m = JObj [(''rotation_id'', JStr (rm_rotation m)), (''device_id'', JStr (rm_device m)),
     (''predecessor_credential_id'', JStr (rm_predecessor m)), (''replacement_credential_id'', JStr (rm_replacement m)),
     (''replacement_secret'', JStr (rm_secret m)), (''replacement_expires_at'', JStr (rl_time L (rm_expires m)))]"

definition rotation_schema :: string where
  "rotation_schema = ''controlforge-credential-rotation-v1''"

definition rotation_algorithm :: string where
  "rotation_algorithm = ''AES-256-GCM-HKDF-SHA256''"

definition checked_material :: "rotation_material \<Rightarrow> rotation_material prog" where
  "checked_material m = andthen (raise_if (\<not> material_ok m) ValueError ''CredentialRotationMaterial is invalid'') (ret m)"

definition checked_envelope :: "rotation_envelope \<Rightarrow> rotation_envelope prog" where
  "checked_envelope e = andthen (raise_if (\<not> envelope_ok e) ValueError ''CredentialRotationEnvelope is invalid'') (ret e)"

definition encrypt_rotation_material :: "rotation_lib \<Rightarrow> rotation_material \<Rightarrow> string \<Rightarrow> instant \<Rightarrow> rotation_envelope prog" where
  "encrypt_rotation_material L m secret delivery_expires =
     andthen (raise_if (length secret < 32) CredentialRotationEnvelopeError ''predecessor secret is invalid'')
     (let (key, aad) = key_and_aad L (rm_rotation m) (rm_device m) (rm_predecessor m) secret in
      bind fresh (\<lambda>iv.
      checked_envelope \<lparr>re_schema = rotation_schema, re_algorithm = rotation_algorithm, re_rotation = rm_rotation m,
        re_device = rm_device m, re_predecessor = rm_predecessor m, re_delivery_expires = delivery_expires,
        re_ciphertext = cipher_encode (rl_encrypt L key iv (utf8 (dumps True (material_json L m))) aad), re_iv = cipher_encode iv\<rparr>))"

definition decrypt_rotation_envelope ::
  "rotation_lib \<Rightarrow> rotation_envelope \<Rightarrow> string \<Rightarrow> string \<Rightarrow> string \<Rightarrow> datetime \<Rightarrow> exn + rotation_material" where
  "decrypt_rotation_envelope L e secret dev cid now = (case now of
     Naive _ \<Rightarrow> Inl (CredentialRotationEnvelopeError, ''rotation clock must be timezone-aware'')
   | Aware t \<Rightarrow>
       if re_delivery_expires e \<le> t then Inl (CredentialRotationEnvelopeError, ''credential rotation delivery expired'')
       else if re_device e \<noteq> dev \<or> re_predecessor e \<noteq> cid then
         Inl (CredentialRotationEnvelopeError, ''credential rotation envelope binding failed'')
       else
         (let (key, aad) = key_and_aad L (re_rotation e) (re_device e) (re_predecessor e) secret in
          case Option.bind (b64decode_strict (b64_padded (re_iv e))) (\<lambda>iv.
               Option.bind (b64decode_strict (b64_padded (re_ciphertext e))) (\<lambda>body.
               Option.bind (rl_decrypt L key iv body aad) (rl_parse L))) of
            None \<Rightarrow> Inl (CredentialRotationEnvelopeError, ''credential rotation envelope authentication failed'')
          | Some m \<Rightarrow>
              if rm_rotation m \<noteq> re_rotation e \<or> rm_device m \<noteq> dev \<or> rm_predecessor m \<noteq> cid \<or> rm_expires m \<le> t then
                Inl (CredentialRotationEnvelopeError, ''credential rotation material binding failed'')
              else Inr m))"

lemma rotation_envelope_round_trip:
  assumes cipher: "\<And>k iv m a. rl_decrypt L k iv (rl_encrypt L k iv m a) a = Some m"
    and model: "rl_parse L (utf8 (dumps True (material_json L m))) = Some m"
    and sent: "encrypt_rotation_material L m secret delivery_expires w = (Inr e, w')"
    and time: "t < delivery_expires" "t < rm_expires m"
  shows "decrypt_rotation_envelope L e secret (rm_device m) (rm_predecessor m) (Aware t) = Inr m"
proof -
  let ?k = "key_and_aad L (rm_rotation m) (rm_device m) (rm_predecessor m) secret"
  have "wp (encrypt_rotation_material L m secret delivery_expires) (\<lambda>e _. \<exists>iv. re_rotation e = rm_rotation m \<and> re_device e = rm_device m \<and>
      re_predecessor e = rm_predecessor m \<and> re_delivery_expires e = delivery_expires \<and> re_iv e = cipher_encode iv \<and>
      re_ciphertext e = cipher_encode (rl_encrypt L (fst ?k) iv (utf8 (dumps True (material_json L m))) (snd ?k))) (\<lambda>_ _. True) w"
    by (auto simp: encrypt_rotation_material_def checked_envelope_def wp_rules case_prod_unfold)
  from wp_Inr [OF this sent] obtain iv where e: "re_rotation e = rm_rotation m" "re_device e = rm_device m"
      "re_predecessor e = rm_predecessor m" "re_delivery_expires e = delivery_expires" "re_iv e = cipher_encode iv"
      "re_ciphertext e = cipher_encode (rl_encrypt L (fst ?k) iv (utf8 (dumps True (material_json L m))) (snd ?k))"
    by blast
  show ?thesis
    unfolding decrypt_rotation_envelope_def e case_prod_unfold Let_def b64decode_cipher_encode
    using time by (simp add: cipher model)
qed

section \<open>The service\<close>

record rotation_state =
  rs_rotation :: string
  rs_device :: string
  rs_predecessor :: string
  rs_replacement :: string
  rs_status :: rotation_status
  rs_created :: instant
  rs_delivery_expires :: instant
  rs_changed :: bool

definition state_of :: "rotation_row \<Rightarrow> bool \<Rightarrow> rotation_state" where
  "state_of r changed = \<lparr>rs_rotation = ro_id r, rs_device = ro_device r, rs_predecessor = ro_predecessor r, rs_replacement = ro_replacement r,
     rs_status = ro_status r, rs_created = ro_created r, rs_delivery_expires = ro_delivery_expires r, rs_changed = changed\<rparr>"

definition live_rotation :: "string \<Rightarrow> string \<Rightarrow> db \<Rightarrow> rotation_row option" where
  "live_rotation tenant dev d =
     List.find (\<lambda>r. ro_tenant r = tenant \<and> ro_device r = dev \<and> rotation_live (ro_status r)) (rotations d)"

definition credential_at :: "string \<Rightarrow> db \<Rightarrow> credential_row option" where
  "credential_at cid d = List.find (\<lambda>c. dc_id c = cid) (device_credentials d)"

text \<open>The constraints of the table with the index \<open>idx_device_rotation_live\<close>.\<close>

definition insert_rotation :: "rotation_row \<Rightarrow> unit prog" where
  "insert_rotation r = insert_checked
     (\<lambda>d. \<not> row_exists (\<lambda>x. ro_id x = ro_id r \<or> ro_replacement x = ro_replacement r) (rotations d) \<and>
        (rotation_live (ro_status r) \<longrightarrow> live_rotation (ro_tenant r) (ro_device r) d = None) \<and>
        device_exists (ro_tenant r) (ro_device r) d \<and> credential_at (ro_predecessor r) d \<noteq> None \<and>
        credential_at (ro_replacement r) d \<noteq> None \<and> rotation_envelope_check r)
     (\<lambda>d. d\<lparr>rotations := rotations d @ [r]\<rparr>)"

definition active_credentials :: "string \<Rightarrow> string \<Rightarrow> instant \<Rightarrow> db \<Rightarrow> credential_row list" where
  "active_credentials tenant dev t d = filter (\<lambda>c. dc_tenant c = tenant \<and> dc_device c = dev \<and> live_at t c) (device_credentials d)"

definition staged_credential :: "string \<Rightarrow> string \<Rightarrow> string \<Rightarrow> string \<times> string \<Rightarrow> instant \<Rightarrow> instant \<Rightarrow> credential_row" where
  "staged_credential cid tenant dev encrypted t expires = \<lparr>dc_id = cid, dc_tenant = tenant, dc_device = dev, dc_name = ''credential rotation'',
     dc_ciphertext = fst encrypted, dc_iv = snd encrypted, dc_created = t, dc_expires = expires, dc_last_used = None,
     dc_revoked = None, dc_activated = None\<rparr>"

definition pending_rotation :: "string \<Rightarrow> string \<Rightarrow> string \<Rightarrow> string \<Rightarrow> string \<Rightarrow> string \<Rightarrow> instant \<Rightarrow> instant \<Rightarrow> rotation_row" where
  "pending_rotation rotation_id tenant dev predecessor replacement created_by t delivery_expires = \<lparr>ro_id = rotation_id, ro_tenant = tenant,
     ro_device = dev, ro_predecessor = predecessor, ro_replacement = replacement, ro_status = RotPending, ro_created_by = created_by,
     ro_created = t, ro_delivery_expires = delivery_expires, ro_delivered = None, ro_acknowledged = None, ro_cancelled = None,
     ro_envelope_ciphertext = None, ro_envelope_iv = None, ro_delivery_count = 0\<rparr>"

definition initiate_transaction :: "string \<Rightarrow> string \<Rightarrow> string \<Rightarrow> instant \<Rightarrow> instant \<Rightarrow> instant \<Rightarrow> string \<Rightarrow> string \<Rightarrow> string \<times> string \<Rightarrow>
    rotation_state prog" where
  "initiate_transaction tenant dev created_by t expires delivery_expires rotation_id replacement encrypted =
     bind (query (device_at tenant dev)) (\<lambda>v.
     andthen (raise_if (v = None \<or> dv_status (the v) \<noteq> DeviceActive) EnrollmentError ''active device not found'')
     (bind (query (active_credentials tenant dev t)) (\<lambda>active.
      andthen (raise_if (length active \<noteq> 1) EnrollmentError ''device must have exactly one active credential before rotation'')
      (bind (query (live_rotation tenant dev)) (\<lambda>live.
       andthen (raise_if (live \<noteq> None) EnrollmentError ''device already has a pending credential rotation'')
       (let predecessor = dc_id (hd active); row = pending_rotation rotation_id tenant dev predecessor replacement created_by t delivery_expires in
        andthen (insert_credential (staged_credential replacement tenant dev encrypted t expires))
        (andthen (insert_rotation row)
        (ret (state_of row True)))))))))"

definition initiate :: "env \<Rightarrow> string \<Rightarrow> string \<Rightarrow> string \<Rightarrow> datetime \<Rightarrow> int \<Rightarrow> int \<Rightarrow> rotation_state prog" where
  "initiate E tenant dev created_by now lifetime window =
     andthen (require_identifier tenant ''tenant identity'')
     (andthen (require_identifier dev ''device identity'')
     (andthen (require_identifier created_by ''rotation creator'')
     (andthen (raise_if (lifetime < days 1 \<or> days 365 < lifetime) ValueError
       ''device credential lifetime must be between 1 and 365 days'')
     (andthen (raise_if (window < minutes 5 \<or> hours 24 < window) ValueError
       ''credential delivery window must be between 5 minutes and 24 hours'')
     (bind (utc_text now) (\<lambda>t.
      bind fresh (\<lambda>rotation_id.
      bind fresh (\<lambda>replacement.
      bind fresh (\<lambda>secret.
      bind (cipher_encrypt E replacement (utf8 secret)) (\<lambda>encrypted.
      atomically (initiate_transaction tenant dev created_by t (t + lifetime) (t + window) rotation_id replacement encrypted)))))))))))"

definition cancel_row :: "rotation_row \<Rightarrow> instant \<Rightarrow> unit prog" where
  "cancel_row r t =
     andthen (update_credentials (\<lambda>c. dc_id c = ro_replacement r \<and> dc_activated c = None \<and> dc_revoked c = None) (\<lambda>c. c\<lparr>dc_revoked := Some t\<rparr>))
     (andthen (update_rotations (\<lambda>x. ro_id x = ro_id r \<and> rotation_live (ro_status x)) (cancelled_rotation t)) (ret ()))"

definition envelope_of :: "rotation_row \<Rightarrow> rotation_envelope prog" where
  "envelope_of r = checked_envelope \<lparr>re_schema = rotation_schema, re_algorithm = rotation_algorithm, re_rotation = ro_id r, re_device = ro_device r,
     re_predecessor = ro_predecessor r, re_delivery_expires = ro_delivery_expires r,
     re_ciphertext = (case ro_envelope_ciphertext r of Some s \<Rightarrow> s | None \<Rightarrow> ''None''),
     re_iv = (case ro_envelope_iv r of Some s \<Rightarrow> s | None \<Rightarrow> ''None'')\<rparr>"

definition max_deliveries :: int where
  "max_deliveries = 10"

definition first_delivery :: "env \<Rightarrow> rotation_lib \<Rightarrow> rotation_row \<Rightarrow> credential_row \<Rightarrow> string \<Rightarrow> string \<Rightarrow> instant \<Rightarrow> rotation_envelope prog" where
  "first_delivery E L r c dev cid t =
     bind (query (\<lambda>d. List.find (\<lambda>p. dc_id p = cid \<and> dc_activated p \<noteq> None \<and> dc_revoked p = None) (device_credentials d))) (\<lambda>predecessor.
     case predecessor of
       None \<Rightarrow> raise EnrollmentError ''rotation predecessor is no longer active''
     | Some p \<Rightarrow>
         bind (cipher_resolve E cid (dc_ciphertext p) (dc_iv p)) (\<lambda>predecessor_secret.
         bind (cipher_resolve E (ro_replacement r) (dc_ciphertext c) (dc_iv c)) (\<lambda>bytes.
         case utf8_decode bytes of
           None \<Rightarrow> raise ValueError ''invalid utf-8''
         | Some replacement_secret \<Rightarrow>
             bind (checked_material \<lparr>rm_rotation = ro_id r, rm_device = dev, rm_predecessor = cid, rm_replacement = ro_replacement r,
                 rm_secret = replacement_secret, rm_expires = dc_expires c\<rparr>) (\<lambda>material.
             bind (encrypt_rotation_material L material predecessor_secret (ro_delivery_expires r)) (\<lambda>envelope.
             andthen (update_rotations (\<lambda>x. ro_id x = ro_id r \<and> ro_status x = RotPending)
               (\<lambda>x. x\<lparr>ro_status := RotDelivered, ro_delivered := Some t, ro_envelope_ciphertext := Some (re_ciphertext envelope),
                  ro_envelope_iv := Some (re_iv envelope), ro_delivery_count := 1\<rparr>))
             (ret envelope))))))"

definition poll_rotation :: "env \<Rightarrow> rotation_lib \<Rightarrow> authenticated_device \<Rightarrow> string \<Rightarrow> instant \<Rightarrow> rotation_envelope option prog" where
  "poll_rotation E L p dev t =
     bind (query (\<lambda>d. Option.bind (live_rotation (ad_tenant p) dev d) (\<lambda>r. map_option (Pair r) (credential_at (ro_replacement r) d)))) (\<lambda>row.
     case row of
       None \<Rightarrow> ret None
     | Some (r, c) \<Rightarrow>
         andthen (raise_if (ro_predecessor r \<noteq> ad_credential p) EnrollmentError ''credential rotation is bound to another credential'')
         (if ro_delivery_expires r \<le> t then andthen (cancel_row r t) (ret None)
          else
            andthen (raise_if (max_deliveries \<le> ro_delivery_count r) EnrollmentError ''credential rotation delivery retry limit reached'')
            (if ro_status r = RotPending then bind (first_delivery E L r c dev (ad_credential p) t) (\<lambda>e. ret (Some e))
             else bind (envelope_of r) (\<lambda>e.
               andthen (update_rotations (\<lambda>x. ro_id x = ro_id r \<and> ro_status x = RotDelivered)
                 (\<lambda>x. x\<lparr>ro_delivery_count := ro_delivery_count x + 1\<rparr>))
               (ret (Some e))))))"

definition poll :: "env \<Rightarrow> rotation_lib \<Rightarrow> collector_request \<Rightarrow> string \<Rightarrow> datetime \<Rightarrow> rotation_envelope option prog" where
  "poll E L R dev now =
     bind (utc_text now) (\<lambda>t.
     bind (authenticate E R now) (\<lambda>p.
     andthen (raise_if (ad_device p \<noteq> dev) EnrollmentError ''credential rotation target does not match device'')
     (atomically (poll_rotation E L p dev t))))"

definition acknowledge_rotation :: "authenticated_device \<Rightarrow> instant \<Rightarrow> rotation_state option prog" where
  "acknowledge_rotation p t =
     bind (query (\<lambda>d. List.find (\<lambda>r. ro_replacement r = ad_credential p) (rotations d))) (\<lambda>row.
     case row of
       None \<Rightarrow> ret None
     | Some r \<Rightarrow>
         andthen (raise_if (ro_tenant r \<noteq> ad_tenant p \<or> ro_device r \<noteq> ad_device p) EnrollmentError
           ''credential rotation acknowledgment is not device-bound'')
         (if ro_status r = RotAcknowledged then ret (Some (state_of r False))
          else
            andthen (raise_if (ro_status r \<noteq> RotDelivered) EnrollmentError ''credential rotation is not awaiting acknowledgment'')
            (bind (update_credentials (\<lambda>c. dc_id c = ro_replacement r \<and> dc_activated c = None \<and> dc_revoked c = None \<and> t < dc_expires c)
               (\<lambda>c. c\<lparr>dc_activated := Some t\<rparr>)) (\<lambda>activated.
             bind (update_credentials (\<lambda>c. dc_id c = ro_predecessor r \<and> dc_activated c \<noteq> None \<and> dc_revoked c = None)
               (\<lambda>c. c\<lparr>dc_revoked := Some t\<rparr>)) (\<lambda>retired.
             bind (update_rotations (\<lambda>x. ro_id x = ro_id r \<and> ro_status x = RotDelivered)
               (\<lambda>x. x\<lparr>ro_status := RotAcknowledged, ro_acknowledged := Some t, ro_envelope_ciphertext := None, ro_envelope_iv := None\<rparr>)) (\<lambda>changed.
             andthen (raise_if (activated \<noteq> 1 \<or> retired \<noteq> 1 \<or> changed \<noteq> 1) EnrollmentError ''credential rotation acknowledgment conflicted'')
             (bind (query (\<lambda>d. List.find (\<lambda>x. ro_id x = ro_id r) (rotations d))) (\<lambda>updated.
              case updated of
                None \<Rightarrow> raise EnrollmentError ''credential rotation acknowledgment was not retained''
              | Some u \<Rightarrow> ret (Some (state_of u True))))))))))"

definition acknowledge :: "env \<Rightarrow> collector_request \<Rightarrow> datetime \<Rightarrow> rotation_state option prog" where
  "acknowledge E R now = bind (utc_text now) (\<lambda>t. bind (authenticate E R now) (\<lambda>p. atomically (acknowledge_rotation p t)))"

definition cancel_rotation :: "string \<Rightarrow> string \<Rightarrow> datetime \<Rightarrow> bool prog" where
  "cancel_rotation tenant rotation_id now = bind (utc_text now) (\<lambda>t. atomically
     (bind (query (\<lambda>d. List.find (\<lambda>r. ro_tenant r = tenant \<and> ro_id r = rotation_id) (rotations d))) (\<lambda>row.
      case row of
        None \<Rightarrow> ret False
      | Some r \<Rightarrow>
          if ro_status r = RotCancelled then ret False
          else
            andthen (raise_if (ro_status r \<noteq> RotPending) EnrollmentError
              ''delivered credential rotation cannot be cancelled before device recovery'')
            (andthen (cancel_row r t) (ret True)))))"

section \<open>No step of a rotation locks a device out\<close>

definition owned :: "string \<Rightarrow> rotation_row \<Rightarrow> db \<Rightarrow> bool" where
  "owned cid r d \<longleftrightarrow> (\<exists>c \<in> set (device_credentials d). dc_id c = cid \<and> dc_tenant c = ro_tenant r \<and> dc_device c = ro_device r)"

definition rotation_inv :: "db \<Rightarrow> bool" where
  "rotation_inv d \<longleftrightarrow> key_unique dc_id (device_credentials d) \<and>
     (\<forall>r \<in> set (rotations d). ro_predecessor r \<noteq> ro_replacement r \<and> owned (ro_predecessor r) r d \<and> owned (ro_replacement r) r d)"

definition has_access :: "string \<Rightarrow> string \<Rightarrow> instant \<Rightarrow> db \<Rightarrow> bool" where
  "has_access tenant dev t d \<longleftrightarrow> (\<exists>c \<in> set (device_credentials d). dc_tenant c = tenant \<and> dc_device c = dev \<and> live_at t c)"

text \<open>The invariant, with the access of one device at one moment when \<open>on\<close> holds.\<close>

definition access_inv :: "bool \<Rightarrow> string \<Rightarrow> string \<Rightarrow> instant \<Rightarrow> db \<Rightarrow> bool" where
  "access_inv on tenant dev t d \<longleftrightarrow> rotation_inv d \<and> (on \<longrightarrow> has_access tenant dev t d)"

definition keeps_identity :: "(credential_row \<Rightarrow> credential_row) \<Rightarrow> bool" where
  "keeps_identity f \<longleftrightarrow> (\<forall>c. dc_id (f c) = dc_id c \<and> dc_tenant (f c) = dc_tenant c \<and> dc_device (f c) = dc_device c)"

definition same_rotation :: "rotation_row \<Rightarrow> rotation_row \<Rightarrow> bool" where
  "same_rotation a b \<longleftrightarrow> ro_predecessor a = ro_predecessor b \<and> ro_replacement a = ro_replacement b \<and> ro_tenant a = ro_tenant b \<and> ro_device a = ro_device b"

lemma owned_update:
  assumes "keeps_identity f" "device_credentials d' = update_where P f (device_credentials d)" "same_rotation r r'"
  shows "owned cid r' d' = owned cid r d"
  using assms by (auto simp: owned_def keeps_identity_def same_rotation_def set_update_where simp del: if_image_distrib)

lemma rotation_inv_change:
  assumes "rotation_inv d" "keeps_identity f" "device_credentials d' = update_where P f (device_credentials d)"
    "\<And>r'. r' \<in> set (rotations d') \<Longrightarrow> \<exists>r \<in> set (rotations d). same_rotation r r'"
  shows "rotation_inv d'"
proof -
  have "map dc_id (update_where P f cs) = map dc_id cs" for cs
    using assms(2) by (induction cs) (auto simp: keeps_identity_def)
  then have "key_unique dc_id (device_credentials d')" using assms(1,3) by (simp add: rotation_inv_def key_unique_def)
  moreover have "ro_predecessor r' \<noteq> ro_replacement r' \<and> owned (ro_predecessor r') r' d' \<and> owned (ro_replacement r') r' d'"
    if "r' \<in> set (rotations d')" for r'
  proof -
    from assms(4) [OF that] obtain r where r: "r \<in> set (rotations d)" "same_rotation r r'" by blast
    with assms(1) have "ro_predecessor r \<noteq> ro_replacement r \<and> owned (ro_predecessor r) r d \<and> owned (ro_replacement r) r d"
      by (simp add: rotation_inv_def)
    with owned_update [OF assms(2,3) r(2)] r(2) show ?thesis by (simp add: same_rotation_def)
  qed
  ultimately show ?thesis by (simp add: rotation_inv_def)
qed

lemma access_change:
  assumes "has_access tenant dev t d" "keeps_identity f" "device_credentials d' = update_where P f (device_credentials d)"
    "\<And>c. P c \<Longrightarrow> live_at t c \<Longrightarrow> live_at t (f c)"
  shows "has_access tenant dev t d'"
proof -
  from assms(1) obtain c where "c \<in> set (device_credentials d)" "dc_tenant c = tenant" "dc_device c = dev" "live_at t c"
    by (auto simp: has_access_def)
  then show ?thesis using assms(2-4)
    by (auto simp: has_access_def keeps_identity_def set_update_where simp del: if_image_distrib intro!: bexI [of _ c])
qed

lemma access_inv_credentials:
  "access_inv on tenant dev t d \<Longrightarrow> keeps_identity f \<Longrightarrow> (\<And>c. P c \<Longrightarrow> live_at t c \<Longrightarrow> live_at t (f c)) \<Longrightarrow>
     access_inv on tenant dev t (d\<lparr>device_credentials := update_where P f (device_credentials d)\<rparr>)"
  unfolding access_inv_def
  using rotation_inv_change [of d f "d\<lparr>device_credentials := update_where P f (device_credentials d)\<rparr>" P]
    access_change [of tenant dev t d f "d\<lparr>device_credentials := update_where P f (device_credentials d)\<rparr>" P]
  by (auto simp: same_rotation_def)

lemma access_inv_rotations:
  assumes "access_inv on tenant dev t d" "\<And>r. same_rotation r (f r)"
  shows "access_inv on tenant dev t (d\<lparr>rotations := update_where P f (rotations d)\<rparr>)"
proof -
  have "rotation_inv (d\<lparr>rotations := update_where P f (rotations d)\<rparr>)"
    by (rule rotation_inv_change [of d "\<lambda>c. c" _ "\<lambda>_. False"])
      (use assms in \<open>auto simp: access_inv_def keeps_identity_def update_where_id set_update_where same_rotation_def\<close>)
  with assms(1) show ?thesis by (simp add: access_inv_def has_access_def)
qed

lemma access_authenticate [keeps_rules]: "keeps (access_inv on tenant dev t) (authenticate E R now)"
proof (rule wp_keepsI, rule wp_mono [OF authenticate_frame], goal_cases)
  case (1 w x w')
  then obtain ta c where w': "tables w' = consume_request E R ta c (tables w)" by blast
  let ?f = "\<lambda>x. x\<lparr>dc_last_used := Some ta\<rparr>" and ?P = "\<lambda>x. dc_id x = rq_credential R"
  have f: "keeps_identity ?f" by (simp add: keeps_identity_def)
  have creds: "device_credentials (tables w') = update_where ?P ?f (device_credentials (tables w))" by (simp add: w' consume_request_def)
  have rots: "rotations (tables w') = rotations (tables w)" by (simp add: w' consume_request_def)
  have "rotation_inv (tables w')"
    by (rule rotation_inv_change [OF _ f creds]) (use 1(1) rots in \<open>auto simp: access_inv_def same_rotation_def\<close>)
  moreover have "has_access tenant dev t (tables w')" if "has_access tenant dev t (tables w)"
    using that f creds by (rule access_change) (simp add: live_at_def)
  ultimately show ?case using 1(1) by (simp add: access_inv_def)
qed simp

lemma access_cancel_row [commits_rules]: "commits (access_inv on tenant dev t) (cancel_row r ta)"
  unfolding cancel_row_def enrollment_updates
  by (intro commits_rules)
    (auto intro!: access_inv_credentials access_inv_rotations simp: keeps_identity_def same_rotation_def live_at_def cancelled_rotation_def)

lemma access_inv_stage:
  assumes inv: "access_inv on tenant dev t d" and p: "p \<in> set (device_credentials d)" "dc_tenant p = dc_tenant c" "dc_device p = dc_device c"
    and new: "\<forall>x \<in> set (device_credentials d). dc_id x \<noteq> dc_id c"
    and r: "ro_predecessor r = dc_id p" "ro_replacement r = dc_id c" "ro_tenant r = dc_tenant c" "ro_device r = dc_device c"
  shows "access_inv on tenant dev t (d\<lparr>device_credentials := device_credentials d @ [c], rotations := rotations d @ [r]\<rparr>)"
    (is "access_inv on tenant dev t ?d")
proof -
  have mono: "owned cid x ?d" if "owned cid x d" for cid x using that by (auto simp: owned_def)
  have "owned (dc_id p) r ?d" "owned (dc_id c) r ?d" "dc_id p \<noteq> dc_id c" using p new r by (auto simp: owned_def)
  moreover have "key_unique dc_id (device_credentials ?d)" using inv new by (auto simp: access_inv_def rotation_inv_def)
  ultimately have "rotation_inv ?d" using inv mono r by (auto simp: access_inv_def rotation_inv_def)
  then show ?thesis using inv by (auto simp: access_inv_def has_access_def)
qed

lemma access_initiate [commits_rules]:
  "commits (access_inv on tenant dev t) (initiate_transaction tn dv u ta expires delivery_expires rotation_id replacement encrypted)"
proof (rule commitsI)
  fix w :: world assume inv: "access_inv on tenant dev t (tables w)"
  let ?c = "staged_credential replacement tn dv encrypted ta expires"
  have "access_inv on tenant dev t (tables w\<lparr>device_credentials := device_credentials (tables w) @ [?c],
      rotations := rotations (tables w) @ [pending_rotation rotation_id tn dv (dc_id (hd (active_credentials tn dv ta (tables w)))) replacement u ta delivery_expires]\<rparr>)"
    if one: "length (active_credentials tn dv ta (tables w)) = 1" and new: "\<not> row_exists (\<lambda>x. dc_id x = replacement) (device_credentials (tables w))"
  proof -
    from one have "hd (active_credentials tn dv ta (tables w)) \<in> set (active_credentials tn dv ta (tables w))"
      by (intro hd_in_set) auto
    then have p: "hd (active_credentials tn dv ta (tables w)) \<in> set (device_credentials (tables w))"
        "dc_tenant (hd (active_credentials tn dv ta (tables w))) = tn" "dc_device (hd (active_credentials tn dv ta (tables w))) = dv"
      by (auto simp: active_credentials_def)
    show ?thesis
      by (rule access_inv_stage [OF inv p(1)]) (use p new in \<open>auto simp: staged_credential_def pending_rotation_def row_exists_iff\<close>)
  qed
  then show "wp (initiate_transaction tn dv u ta expires delivery_expires rotation_id replacement encrypted)
      (\<lambda>_ w'. access_inv on tenant dev t (tables w')) (\<lambda>_ _. True) w"
    by (auto simp: initiate_transaction_def wp_rules Let_def insert_credential_def insert_rotation_def staged_credential_def)
qed

lemma access_envelopes [keeps_rules]:
  "keeps I (checked_envelope e)" "keeps I (checked_material m)" "keeps I (envelope_of r)" "keeps I (encrypt_rotation_material L m s x)"
  unfolding envelope_of_def encrypt_rotation_material_def checked_envelope_def checked_material_def case_prod_unfold
  by (intro keeps_rules)+

lemma access_poll_rotation [commits_rules]: "commits (access_inv on tenant dev t) (poll_rotation E L p dv ta)"
  unfolding poll_rotation_def first_delivery_def enrollment_updates
  by (intro commits_rules keeps_cipher [THEN keeps_commits] access_envelopes [THEN keeps_commits])
    (auto intro!: access_inv_rotations simp: same_rotation_def)

lemma access_acknowledged:
  fixes d :: db and r :: rotation_row and t :: instant
  defines "creds \<equiv> update_where (\<lambda>c. dc_id c = ro_predecessor r \<and> dc_activated c \<noteq> None \<and> dc_revoked c = None) (\<lambda>c. c\<lparr>dc_revoked := Some t\<rparr>)
    (update_where (\<lambda>c. dc_id c = ro_replacement r \<and> dc_activated c = None \<and> dc_revoked c = None \<and> t < dc_expires c)
      (\<lambda>c. c\<lparr>dc_activated := Some t\<rparr>) (device_credentials d))"
  assumes inv: "access_inv on tenant dev t d" and r: "r \<in> set (rotations d)"
    and one: "row_count (\<lambda>c. dc_id c = ro_replacement r \<and> dc_activated c = None \<and> dc_revoked c = None \<and> t < dc_expires c) (device_credentials d) = 1"
    and rots: "\<And>x. same_rotation x (f x)"
  shows "access_inv on tenant dev t (d\<lparr>device_credentials := creds, rotations := update_where P f (rotations d)\<rparr>)"
proof -
  let ?P1 = "\<lambda>c. dc_id c = ro_replacement r \<and> dc_activated c = None \<and> dc_revoked c = None \<and> t < dc_expires c"
  let ?P2 = "\<lambda>c. dc_id c = ro_predecessor r \<and> dc_activated c \<noteq> None \<and> dc_revoked c = None"
  let ?f1 = "\<lambda>c. c\<lparr>dc_activated := Some t\<rparr>" and ?f2 = "\<lambda>c. c\<lparr>dc_revoked := Some t\<rparr>"
  let ?d1 = "d\<lparr>device_credentials := update_where ?P1 ?f1 (device_credentials d)\<rparr>"
  let ?d2 = "d\<lparr>device_credentials := creds, rotations := update_where P f (rotations d)\<rparr>"
  have "rotation_inv ?d1"
    by (rule rotation_inv_change [of d ?f1 _ ?P1]) (use inv in \<open>auto simp: access_inv_def keeps_identity_def same_rotation_def\<close>)
  then have inv2: "rotation_inv ?d2"
    by (rule rotation_inv_change [of ?d1 ?f2 _ ?P2]) (use rots in \<open>auto simp: creds_def keeps_identity_def set_update_where same_rotation_def\<close>)
  have ids: "ro_predecessor r \<noteq> ro_replacement r" "owned (ro_predecessor r) r d" "owned (ro_replacement r) r d" "key_unique dc_id (device_credentials d)"
    using inv r by (auto simp: access_inv_def rotation_inv_def)
  have in_creds: "(if ?P2 c1 then ?f2 c1 else c1) \<in> set creds" if "c \<in> set (device_credentials d)" "c1 = (if ?P1 c then ?f1 c else c)" for c c1
    using that unfolding creds_def set_update_where by blast
  have "has_access tenant dev t ?d2" if "has_access tenant dev t d"
  proof (cases "tenant = ro_tenant r \<and> dev = ro_device r")
    case True
    from one obtain c where c: "c \<in> set (device_credentials d)" "?P1 c"
      using row_count_0_iff [of ?P1 "device_credentials d"] by auto
    from ids(3,4) c have "dc_tenant c = ro_tenant r" "dc_device c = ro_device r"
      by (auto simp: owned_def dest: key_unique_eq)
    moreover have "?f1 c \<in> set creds" using in_creds [OF c(1) refl] c(2) ids(1) by simp
    ultimately show ?thesis using True c(2) by (auto simp: has_access_def live_at_def intro!: bexI [of _ "?f1 c"])
  next
    case False
    from that obtain c where c: "c \<in> set (device_credentials d)" "dc_tenant c = tenant" "dc_device c = dev" "live_at t c"
      by (auto simp: has_access_def)
    from ids(2,4) c False have "dc_id c \<noteq> ro_predecessor r" by (auto simp: owned_def dest: key_unique_eq)
    moreover have "c = (if ?P1 c then ?f1 c else c)" using c(4) by (auto simp: live_at_def)
    ultimately have "c \<in> set creds" using in_creds [OF c(1), of c] by (simp only: simp_thms if_False)
    with c show ?thesis by (auto simp: has_access_def)
  qed
  with inv inv2 show ?thesis by (simp add: access_inv_def)
qed

lemma access_acknowledge [commits_rules]: "commits (access_inv on tenant dev t) (acknowledge_rotation p t)"
proof (rule commitsI)
  fix w :: world assume inv: "access_inv on tenant dev t (tables w)"
  have found: "r \<in> set (rotations (tables w))" if "List.find (\<lambda>r. ro_replacement r = ad_credential p) (rotations (tables w)) = Some r" for r
    using find_SomeD [OF that] by simp
  show "wp (acknowledge_rotation p t) (\<lambda>_ w'. access_inv on tenant dev t (tables w')) (\<lambda>_ _. True) w"
    unfolding acknowledge_rotation_def enrollment_updates
    by (auto simp: wp_rules same_rotation_def inv simp del: not_None_eq split: option.split intro!: access_acknowledged [OF inv found])
qed

datatype rotation_call =
    Initiate string string string int int
  | Poll collector_request string
  | Acknowledge collector_request
  | Cancel string string
  | Retire string string string

definition run_rotation :: "env \<Rightarrow> rotation_lib \<Rightarrow> rotation_call \<Rightarrow> datetime \<Rightarrow> unit prog" where
  "run_rotation E L call now = (case call of
     Initiate tenant dev by_user lifetime window \<Rightarrow> andthen (initiate E tenant dev by_user now lifetime window) (ret ())
   | Poll R dev \<Rightarrow> andthen (poll E L R dev now) (ret ())
   | Acknowledge R \<Rightarrow> andthen (acknowledge E R now) (ret ())
   | Cancel tenant rotation_id \<Rightarrow> andthen (cancel_rotation tenant rotation_id now) (ret ())
   | Retire tenant dev cid \<Rightarrow> andthen (revoke_credential tenant dev cid now) (ret ()))"

lemma access_retired:
  assumes inv: "access_inv on tenant dev t d"
    and other: "0 < row_count (\<lambda>c. dc_tenant c = tn \<and> dc_device c = dv \<and> dc_id c \<noteq> cid \<and> live_at t c) (device_credentials d)"
  shows "access_inv on tenant dev t (d\<lparr>device_credentials :=
    update_where (\<lambda>c. dc_tenant c = tn \<and> dc_device c = dv \<and> dc_id c = cid \<and> dc_revoked c = None) (\<lambda>c. c\<lparr>dc_revoked := Some t\<rparr>) (device_credentials d)\<rparr>)"
    (is "access_inv on tenant dev t (d\<lparr>device_credentials := update_where ?P ?f _\<rparr>)")
proof -
  let ?d = "d\<lparr>device_credentials := update_where ?P ?f (device_credentials d)\<rparr>"
  have "rotation_inv ?d"
    by (rule rotation_inv_change [of d ?f _ ?P]) (use inv in \<open>auto simp: access_inv_def keeps_identity_def same_rotation_def\<close>)
  moreover have "has_access tenant dev t ?d" if "has_access tenant dev t d"
  proof -
    have "\<exists>c \<in> set (device_credentials d). dc_tenant c = tenant \<and> dc_device c = dev \<and> live_at t c \<and> \<not> ?P c"
    proof (cases "tenant = tn \<and> dev = dv")
      case True
      with other show ?thesis
        using row_count_0_iff [of "\<lambda>c. dc_tenant c = tn \<and> dc_device c = dv \<and> dc_id c \<noteq> cid \<and> live_at t c" "device_credentials d"] by auto
    qed (use that in \<open>auto simp: has_access_def\<close>)
    then obtain c where c: "c \<in> set (device_credentials d)" "dc_tenant c = tenant" "dc_device c = dev" "live_at t c" "\<not> ?P c" by blast
    then have "c \<in> set (device_credentials ?d)" by (auto simp: set_update_where)
    with c show ?thesis by (auto simp: has_access_def)
  qed
  ultimately show ?thesis using inv by (simp add: access_inv_def)
qed

lemma access_retire: "keeps (access_inv on tenant dev t) (revoke_credential tn dv cid (Aware t))"
proof -
  have "commits (access_inv on tenant dev t)
    (bind (query (\<lambda>d. row_count (\<lambda>c. dc_tenant c = tn \<and> dc_device c = dv \<and> dc_id c \<noteq> cid \<and> live_at t c) (device_credentials d))) (\<lambda>replacement.
      andthen (raise_if (replacement < 1) EnrollmentError ''credential cannot be retired without an active replacement'')
      (bind (update_credentials (\<lambda>c. dc_tenant c = tn \<and> dc_device c = dv \<and> dc_id c = cid \<and> dc_revoked c = None)
         (\<lambda>c. c\<lparr>dc_revoked := Some t\<rparr>)) (\<lambda>n. ret (n = 1)))))"
    by (rule commitsI) (auto simp: wp_rules enrollment_updates intro!: access_retired)
  then show ?thesis
    unfolding revoke_credential_def utc_text_def datetime.case bind_ret by (rule keeps_atomically)
qed

lemma run_rotation_keeps: "keeps (access_inv on tenant dev t) (run_rotation E L call (Aware t))"
proof -
  have "keeps (access_inv on tenant dev t) (initiate E tn dv u (Aware t) lifetime window)" for tn dv u lifetime window
    unfolding initiate_def by (intro keeps_rules commits_rules)
  moreover have "keeps (access_inv on tenant dev t) (poll E L R dv (Aware t))" for R dv
    unfolding poll_def by (intro keeps_rules commits_rules)
  moreover have "keeps (access_inv on tenant dev t) (acknowledge E R (Aware t))" for R
    unfolding acknowledge_def utc_text_def datetime.case bind_ret by (intro keeps_rules commits_rules)
  moreover have "keeps (access_inv on tenant dev t) (cancel_rotation tn rotation_id (Aware t))" for tn rotation_id
    unfolding cancel_rotation_def by (intro keeps_rules commits_rules)
  ultimately show ?thesis by (cases call) (simp_all add: run_rotation_def keeps_andthen keeps_ret access_retire)
qed

text \<open>
  C34. Rotating or retiring credentials never locks a device out. Whatever step is taken (starting a
  rotation, a device's poll that delivers, redelivers or expires it, the acknowledgement that swaps the
  credentials, a cancellation, or retiring a credential), and whether it succeeds or is refused: every
  rotation still names two different credentials of its own device, and every device that had a live
  credential at that moment still has one afterwards.
\<close>

theorem rotation_keeps_access:
  assumes "rotation_inv (tables w)"
  shows "rotation_inv (tables (after (run_rotation E L call (Aware t)) w)) \<and>
    (has_access tenant dev t (tables w) \<longrightarrow> has_access tenant dev t (tables (after (run_rotation E L call (Aware t)) w)))"
  using run_rotation_keeps [of False tenant dev t E L call] run_rotation_keeps [of True tenant dev t E L call] assms
  by (auto simp: keeps_def access_inv_def after_def)

definition sample_rotation_lib :: rotation_lib where
  "sample_rotation_lib = \<lparr>rl_digest = id, rl_hkdf = (\<lambda>salt info secret. secret), rl_encrypt = (\<lambda>k iv m a. m),
     rl_decrypt = (\<lambda>k iv m a. Some m), rl_time = (\<lambda>_. []), rl_parse = (\<lambda>_. None)\<rparr>"

theorem rotation_keeps_access_witness:
  "has_access ''t1'' ''dev1'' 10 (tables (after (run_rotation device_env sample_rotation_lib
     (Initiate ''t1'' ''dev1'' ''adm'' (days 90) (hours 1)) (Aware 10)) (world_at device_db)))"
proof -
  have "rotation_inv (tables (world_at device_db))"
    by (simp add: rotation_inv_def device_db_def sample_db_def empty_db_def key_unique_def)
  moreover have "has_access ''t1'' ''dev1'' 10 (tables (world_at device_db))"
    by (simp add: has_access_def device_db_def sample_credential_def live_at_def)
  ultimately show ?thesis using rotation_keeps_access by blast
qed

end
