(* ===== verification/Agent_Spool.thy ===== *)
theory Agent_Spool
  imports Events
begin

text \<open>
  The endpoint collector's durable state: \<open>AgentSpool\<close> of \<open>controlforge/collector_agent.py\<close>,
  a SQLite file of its own with outbound batches, the pending credential rotation, source cursors,
  retry circuits and the last control snapshot. The agent's programs are state transformers with an
  outcome, like those of the appliance, but over any state, because the spool is used alone and as a
  part of the agent; \<open>ensures\<close> is their weakest precondition, with its equations in
  \<open>act_rules\<close>.

  A batch keeps the JSON documents of its events (the text between \<open>json.dumps\<close> and
  \<open>json.loads\<close> is a round trip of the standard library). Stored times are instants: the texts
  \<open>isoformat()\<close> writes for UTC compare as the instants do, because \<^verbatim>\<open>'+' < '.'\<close>. Pydantic's
  dump and validation, and the floating-point jitter of a retry delay, are the parameters
  \<open>agent_lib\<close>. The two retry operations are a datatype, so the check of their names is vacuous.
\<close>

named_theorems act_rules \<open>weakest-precondition equations of the agent's combinators\<close>

section \<open>Programs over any state\<close>

datatype agent_error =
    Collector_Error string
  | Value_Error string
  | Constraint_Error
  | Response_Error string
  | Pfctl_Error
  | Santa_Error string
  | Other_Error

type_synonym ('s, 'a) act = "'s \<Rightarrow> (agent_error + 'a) \<times> 's"

definition give :: "'a \<Rightarrow> ('s, 'a) act" where
  "give x = (\<lambda>s. (Inr x, s))"

definition refuse :: "agent_error \<Rightarrow> ('s, 'a) act" where
  "refuse e = (\<lambda>s. (Inl e, s))"

definition chain :: "('s, 'a) act \<Rightarrow> ('a \<Rightarrow> ('s, 'b) act) \<Rightarrow> ('s, 'b) act" where
  "chain m f = (\<lambda>s. case m s of (Inl e, s') \<Rightarrow> (Inl e, s') | (Inr x, s') \<Rightarrow> f x s')"

definition thereafter :: "('s, 'a) act \<Rightarrow> ('s, 'b) act \<Rightarrow> ('s, 'b) act" where
  "thereafter m k = chain m (\<lambda>_. k)"

definition refuse_if :: "bool \<Rightarrow> agent_error \<Rightarrow> ('s, unit) act" where
  "refuse_if b e = (if b then refuse e else give ())"

definition look :: "('s \<Rightarrow> 'a) \<Rightarrow> ('s, 'a) act" where
  "look f = (\<lambda>s. (Inr (f s), s))"

definition change :: "('s \<Rightarrow> 's) \<Rightarrow> ('s, unit) act" where
  "change f = (\<lambda>s. (Inr (), f s))"

definition attempt :: "('s, 'a) act \<Rightarrow> (agent_error \<Rightarrow> ('s, 'a) act) \<Rightarrow> ('s, 'a) act" where
  "attempt m h = (\<lambda>s. case m s of (Inl e, s') \<Rightarrow> h e s' | (Inr x, s') \<Rightarrow> (Inr x, s'))"

definition ensures :: "('s, 'a) act \<Rightarrow> ('a \<Rightarrow> 's \<Rightarrow> bool) \<Rightarrow> (agent_error \<Rightarrow> 's \<Rightarrow> bool) \<Rightarrow> 's \<Rightarrow> bool" where
  "ensures m Q X s = (case m s of (Inr x, s') \<Rightarrow> Q x s' | (Inl e, s') \<Rightarrow> X e s')"

lemma ensures_give [act_rules]: "ensures (give x) Q X s = Q x s"
  by (simp add: ensures_def give_def)

lemma ensures_refuse [act_rules]: "ensures (refuse e) Q X s = X e s"
  by (simp add: ensures_def refuse_def)

lemma ensures_chain [act_rules]: "ensures (chain m f) Q X s = ensures m (\<lambda>x. ensures (f x) Q X) X s"
  by (auto simp: ensures_def chain_def split: prod.splits sum.splits)

lemma ensures_thereafter [act_rules]: "ensures (thereafter m k) Q X s = ensures m (\<lambda>_. ensures k Q X) X s"
  by (simp add: thereafter_def ensures_chain)

lemma ensures_refuse_if [act_rules]: "ensures (refuse_if b e) Q X s = ((b \<longrightarrow> X e s) \<and> (\<not> b \<longrightarrow> Q () s))"
  by (simp add: refuse_if_def ensures_refuse ensures_give)

lemma ensures_look [act_rules]: "ensures (look f) Q X s = Q (f s) s"
  by (simp add: ensures_def look_def)

lemma ensures_change [act_rules]: "ensures (change f) Q X s = Q () (f s)"
  by (simp add: ensures_def change_def)

lemma ensures_attempt [act_rules]: "ensures (attempt m h) Q X s = ensures m Q (\<lambda>e. ensures (h e) Q X) s"
  by (auto simp: ensures_def attempt_def split: prod.splits sum.splits)

lemma ensures_if [act_rules]: "ensures (if b then m else k) Q X s = ((b \<longrightarrow> ensures m Q X s) \<and> (\<not> b \<longrightarrow> ensures k Q X s))"
  by simp

lemma ensuresI:
  "(\<And>x s'. m s = (Inr x, s') \<Longrightarrow> Q x s') \<Longrightarrow> (\<And>e s'. m s = (Inl e, s') \<Longrightarrow> X e s') \<Longrightarrow> ensures m Q X s"
  by (auto simp: ensures_def split: prod.splits sum.splits)

lemma ensures_mono:
  "ensures m Q X s \<Longrightarrow> (\<And>x s'. Q x s' \<Longrightarrow> Q' x s') \<Longrightarrow> (\<And>e s'. X e s' \<Longrightarrow> X' e s') \<Longrightarrow> ensures m Q' X' s"
  by (auto simp: ensures_def split: prod.splits sum.splits)

lemma ensures_Inr: "ensures m Q X s \<Longrightarrow> m s = (Inr x, s') \<Longrightarrow> Q x s'"
  by (simp add: ensures_def)

lemma ensures_Inl: "ensures m Q X s \<Longrightarrow> m s = (Inl e, s') \<Longrightarrow> X e s'"
  by (simp add: ensures_def)

text \<open>What both outcomes of a program satisfy in the state it leaves.\<close>

definition leaves :: "('s \<Rightarrow> 's \<Rightarrow> bool) \<Rightarrow> ('s, 'a) act \<Rightarrow> bool" where
  "leaves R m \<longleftrightarrow> (\<forall>s. R s (snd (m s)))"

lemma leavesI:
  assumes "\<And>s. ensures m (\<lambda>_. R s) (\<lambda>_. R s) s"
  shows "leaves R m"
  unfolding leaves_def
proof
  fix s show "R s (snd (m s))"
    using assms [of s] by (cases "m s"; cases "fst (m s)") (auto simp: ensures_def)
qed

lemma leavesD:
  assumes "leaves R m"
  shows "ensures m (\<lambda>_. R s) (\<lambda>_. R s) s"
proof -
  have "R s (snd (m s))" using assms by (simp add: leaves_def)
  then show ?thesis by (cases "m s"; cases "fst (m s)") (auto simp: ensures_def)
qed

section \<open>The tables of the spool\<close>

record batch_row =
  bt_id :: string
  bt_payload :: "json list"
  bt_created :: instant
  bt_attempts :: nat
  bt_error :: "string option"

record rotation_mark =
  pm_rotation :: string
  pm_predecessor :: string
  pm_replacement :: string
  pm_recorded :: instant

record source_cursor =
  csr_device :: int
  csr_inode :: int
  csr_offset :: int

record cursor_row =
  cr_source :: string
  cr_cursor :: source_cursor
  cr_updated :: instant

datatype operation = Delivery | Action_Polling

record retry_row =
  rt_operation :: operation
  rt_failures :: nat
  rt_after :: instant
  rt_changed :: instant

record snapshot_row =
  ss_fingerprint :: string
  ss_pending :: "string option"
  ss_enqueued :: instant

record spool =
  outbound :: "batch_row list"
  rotation_pending :: "rotation_mark option"
  source_cursors :: "cursor_row list"
  retry_rows :: "retry_row list"
  snapshot_state :: "snapshot_row option"

definition new_spool :: spool where
  "new_spool = \<lparr>outbound = [], rotation_pending = None, source_cursors = [], retry_rows = [], snapshot_state = None\<rparr>"

record agent_lib =
  al_dump :: "security_event \<Rightarrow> json"
  al_validate :: "json \<Rightarrow> string + security_event"
  al_sent :: "security_event \<Rightarrow> json"
  al_jitter :: "int \<Rightarrow> string \<Rightarrow> int"
  al_ratio_ok :: bool

section \<open>Batches\<close>

definition insert_batch :: "batch_row \<Rightarrow> (spool, unit) act" where
  "insert_batch b = chain (look (\<lambda>s. row_exists (\<lambda>x. bt_id x = bt_id b) (outbound s))) (\<lambda>known.
     thereafter (refuse_if known Constraint_Error) (change (\<lambda>s. s\<lparr>outbound := outbound s @ [b]\<rparr>)))"

definition new_batch :: "agent_lib \<Rightarrow> string \<Rightarrow> security_event list \<Rightarrow> instant \<Rightarrow> batch_row" where
  "new_batch L batch_id es t = \<lparr>bt_id = batch_id, bt_payload = map (al_dump L) es, bt_created = t, bt_attempts = 0, bt_error = None\<rparr>"

definition enqueue :: "agent_lib \<Rightarrow> string \<Rightarrow> security_event list \<Rightarrow> instant \<Rightarrow> (spool, string) act" where
  "enqueue L batch_id es t = thereafter (insert_batch (new_batch L batch_id es t)) (give batch_id)"

definition batch_exists :: "string option \<Rightarrow> spool \<Rightarrow> bool" where
  "batch_exists b s \<longleftrightarrow> (case b of None \<Rightarrow> False | Some i \<Rightarrow> row_exists (\<lambda>x. bt_id x = i) (outbound s))"

definition control_due :: "string \<Rightarrow> int \<Rightarrow> instant \<Rightarrow> spool \<Rightarrow> bool" where
  "control_due fingerprint interval t s = (case snapshot_state s of
     None \<Rightarrow> True
   | Some r \<Rightarrow> ss_fingerprint r \<noteq> fingerprint \<or>
       \<not> batch_exists (ss_pending r) s \<and> ss_enqueued r + seconds interval \<le> t)"

definition enqueue_collected ::
  "agent_lib \<Rightarrow> string \<Rightarrow> security_event list \<Rightarrow> security_event list \<Rightarrow> string \<Rightarrow> int \<Rightarrow> datetime \<Rightarrow> (spool, string option \<times> bool) act" where
  "enqueue_collected L batch_id control telemetry fingerprint interval now = (case now of
     Naive _ \<Rightarrow> refuse (Value_Error ''collector spool time must be timezone-aware'')
   | Aware t \<Rightarrow>
       thereafter (refuse_if (interval < 60 \<or> 86400 < interval)
         (Value_Error ''control snapshot interval must be between 60 and 86400 seconds''))
       (chain (look (control_due fingerprint interval t)) (\<lambda>due.
        let selected = (if due then control @ telemetry else telemetry) in
        if selected = [] then give (None, False)
        else thereafter (insert_batch (new_batch L batch_id selected t))
          (thereafter (if due
             then change (\<lambda>s. s\<lparr>snapshot_state := Some \<lparr>ss_fingerprint = fingerprint, ss_pending = Some batch_id, ss_enqueued = t\<rparr>\<rparr>)
             else give ())
          (give (Some batch_id, due))))))"

fun validate_all :: "agent_lib \<Rightarrow> json list \<Rightarrow> string + security_event list" where
  "validate_all L [] = Inr []"
| "validate_all L (j # js) = (case al_validate L j of
     Inl m \<Rightarrow> Inl m
   | Inr e \<Rightarrow> (case validate_all L js of Inl m \<Rightarrow> Inl m | Inr es \<Rightarrow> Inr (e # es)))"

fun read_batches :: "agent_lib \<Rightarrow> batch_row list \<Rightarrow> string + (string \<times> security_event list) list" where
  "read_batches L [] = Inr []"
| "read_batches L (b # bs) = (case validate_all L (bt_payload b) of
     Inl m \<Rightarrow> Inl m
   | Inr es \<Rightarrow> (case read_batches L bs of Inl m \<Rightarrow> Inl m | Inr rs \<Rightarrow> Inr ((bt_id b, es) # rs)))"

definition pending :: "agent_lib \<Rightarrow> int \<Rightarrow> (spool, (string \<times> security_event list) list) act" where
  "pending L limit = thereafter (refuse_if (limit < 1 \<or> 100 < limit) (Value_Error ''spool limit must be between 1 and 100''))
     (chain (look (\<lambda>s. take (nat limit) (order_by bt_created (outbound s)))) (\<lambda>rows.
      case read_batches L rows of Inl m \<Rightarrow> refuse (Value_Error m) | Inr bs \<Rightarrow> give bs))"

definition pending_summary :: "int \<Rightarrow> (spool, int \<times> bool) act" where
  "pending_summary cap = thereafter (refuse_if (cap < 1 \<or> 100 < cap) (Value_Error ''spool count cap must be between 1 and 100''))
     (look (\<lambda>s. let observed = int (length (take (nat (cap + 1)) (order_by bt_created (outbound s)))) in (min observed cap, cap < observed)))"

definition acknowledge_batch :: "string \<Rightarrow> (spool, unit) act" where
  "acknowledge_batch batch_id = change (\<lambda>s. s\<lparr>
     snapshot_state := map_option (\<lambda>r. if ss_pending r = Some batch_id then r\<lparr>ss_pending := None\<rparr> else r) (snapshot_state s),
     outbound := delete_where (\<lambda>b. bt_id b = batch_id) (outbound s)\<rparr>)"

definition fail_batch :: "string \<Rightarrow> string \<Rightarrow> (spool, unit) act" where
  "fail_batch batch_id err = change (\<lambda>s. s\<lparr>outbound := update_where (\<lambda>b. bt_id b = batch_id)
     (\<lambda>b. b\<lparr>bt_attempts := bt_attempts b + 1, bt_error := Some (take 500 err)\<rparr>) (outbound s)\<rparr>)"

section \<open>Retry circuits\<close>

fun operation_name :: "operation \<Rightarrow> string" where
  "operation_name Delivery = ''delivery''"
| "operation_name Action_Polling = ''action_polling''"

definition retry_state :: "operation \<Rightarrow> spool \<Rightarrow> retry_row option" where
  "retry_state oper s = List.find (\<lambda>r. rt_operation r = oper) (retry_rows s)"

definition retry_ready :: "operation \<Rightarrow> datetime \<Rightarrow> (spool, bool) act" where
  "retry_ready oper now = (case now of
     Naive _ \<Rightarrow> refuse (Value_Error ''collector retry time must be timezone-aware'')
   | Aware t \<Rightarrow> look (\<lambda>s. case retry_state oper s of None \<Rightarrow> True | Some r \<Rightarrow> rt_after r \<le> t))"

definition retry_failures :: "operation \<Rightarrow> spool \<Rightarrow> nat" where
  "retry_failures oper s = min 31 ((case retry_state oper s of None \<Rightarrow> 0 | Some r \<Rightarrow> rt_failures r) + 1)"

definition retry_delay :: "agent_lib \<Rightarrow> operation \<Rightarrow> string \<Rightarrow> int \<Rightarrow> int \<Rightarrow> nat \<Rightarrow> int" where
  "retry_delay L oper key initial maximum failures =
     (let base = min maximum (initial * 2 ^ min (failures - 1) 30);
          jittered = al_jitter L base (key @ '':'' @ operation_name oper @ '':'' @ show_nat failures)
      in min maximum (max 1 jittered))"

definition record_retry_failure ::
  "agent_lib \<Rightarrow> operation \<Rightarrow> datetime \<Rightarrow> int \<Rightarrow> int \<Rightarrow> string \<Rightarrow> (spool, nat \<times> instant) act" where
  "record_retry_failure L oper now initial maximum key = (case now of
     Naive _ \<Rightarrow> refuse (Value_Error ''collector retry time must be timezone-aware'')
   | Aware t \<Rightarrow>
       thereafter (refuse_if (initial < 1 \<or> maximum < initial) (Value_Error ''invalid collector retry delay bounds''))
       (thereafter (refuse_if (\<not> al_ratio_ok L) (Value_Error ''collector retry jitter must be between 0 and 0.5''))
       (chain (look (retry_failures oper)) (\<lambda>failures.
        let after_t = t + seconds (retry_delay L oper key initial maximum failures);
            row = \<lparr>rt_operation = oper, rt_failures = failures, rt_after = after_t, rt_changed = t\<rparr> in
        thereafter (change (\<lambda>s. s\<lparr>retry_rows := (if row_exists (\<lambda>r. rt_operation r = oper) (retry_rows s)
            then update_where (\<lambda>r. rt_operation r = oper) (\<lambda>_. row) (retry_rows s) else retry_rows s @ [row])\<rparr>))
        (give (failures, after_t))))))"

definition clear_retry_state :: "operation \<Rightarrow> (spool, unit) act" where
  "clear_retry_state oper = change (\<lambda>s. s\<lparr>retry_rows := delete_where (\<lambda>r. rt_operation r = oper) (retry_rows s)\<rparr>)"

section \<open>Source cursors and the pending rotation\<close>

definition source_cursor_of :: "string \<Rightarrow> spool \<Rightarrow> source_cursor option" where
  "source_cursor_of source s = map_option cr_cursor (List.find (\<lambda>r. cr_source r = source) (source_cursors s))"

definition save_source_cursor :: "string \<Rightarrow> source_cursor \<Rightarrow> instant \<Rightarrow> (spool, unit) act" where
  "save_source_cursor source c t = (let row = \<lparr>cr_source = source, cr_cursor = c, cr_updated = t\<rparr> in
     change (\<lambda>s. s\<lparr>source_cursors := (if row_exists (\<lambda>r. cr_source r = source) (source_cursors s)
       then update_where (\<lambda>r. cr_source r = source) (\<lambda>_. row) (source_cursors s) else source_cursors s @ [row])\<rparr>))"

definition record_credential_rotation :: "string \<Rightarrow> string \<Rightarrow> string \<Rightarrow> instant \<Rightarrow> (spool, unit) act" where
  "record_credential_rotation rotation predecessor replacement t = change (\<lambda>s. s\<lparr>rotation_pending :=
     Some \<lparr>pm_rotation = rotation, pm_predecessor = predecessor, pm_replacement = replacement, pm_recorded = t\<rparr>\<rparr>)"

definition clear_credential_rotation :: "string \<Rightarrow> (spool, unit) act" where
  "clear_credential_rotation rotation = change (\<lambda>s. s\<lparr>rotation_pending :=
     (case rotation_pending s of None \<Rightarrow> None | Some r \<Rightarrow> if pm_rotation r = rotation then None else Some r)\<rparr>)"

end
