(* ===== verification/Agent_Client.thy ===== *)
theory Agent_Client
  imports Worker Agent_Spool
begin

text \<open>
  The two ends of a collector request. The endpoint's end is \<open>SignedControlForgeClient\<close> of
  \<open>controlforge/collector_agent.py\<close>, which signs a request and reads the reply; the appliance's end
  is the ingestion route of \<open>standalone/api.py\<close>, which turns the HTTP request back into a
  \<open>SignedCollectorRequest\<close> and exceptions into status codes. Between them is a transport the program
  only calls (\<open>CollectorTransport\<close>): it may lose the request or the reply.

  A JSON reply is its value, or None where the body is not JSON. The theorems say that the two ends
  agree: what the client signs is what the appliance verifies, and nothing else verifies.
\<close>

section \<open>The signing client\<close>

record collector_client =
  cl_device :: string
  cl_credential :: string
  cl_secret :: string
  cl_access :: "(string \<times> string) option"

definition hex_any :: "char \<Rightarrow> bool" where
  "hex_any c \<longleftrightarrow> lower_hex c \<or> 65 \<le> code c \<and> code c \<le> 70"

definition client_credential_ok :: "string \<Rightarrow> bool" where
  "client_credential_ok s \<longleftrightarrow> length s = 36 \<and> list_all (\<lambda>c. hex_any c \<or> c = CHR ''-'') s"

definition access_id_ok :: "string \<Rightarrow> bool" where
  "access_id_ok s \<longleftrightarrow> length s = 39 \<and> list_all lower_hex (take 32 s) \<and> drop 32 s = ''.access''"

definition access_secret_ok :: "string \<Rightarrow> bool" where
  "access_secret_ok s \<longleftrightarrow> length s = 64 \<and> list_all lower_hex s"

definition new_client :: "string \<Rightarrow> string \<Rightarrow> string \<Rightarrow> string option \<Rightarrow> string option \<Rightarrow> agent_error + collector_client" where
  "new_client device_id credential_id secret access_id access_secret =
     (if \<not> client_credential_ok credential_id then Inl (Value_Error ''collector credential ID must be a UUID'')
      else if length secret < 32 then Inl (Value_Error ''collector credential secret is too short'')
      else case (access_id, access_secret) of
          (None, None) \<Rightarrow> Inr \<lparr>cl_device = device_id, cl_credential = credential_id, cl_secret = secret, cl_access = None\<rparr>
        | (Some i, Some s) \<Rightarrow>
            if \<not> access_id_ok i then Inl (Value_Error ''Cloudflare Access client ID is invalid'')
            else if \<not> access_secret_ok s then Inl (Value_Error ''Cloudflare Access client secret is invalid'')
            else Inr \<lparr>cl_device = device_id, cl_credential = credential_id, cl_secret = secret, cl_access = Some (i, s)\<rparr>
        | _ \<Rightarrow> Inl (Value_Error ''Cloudflare Access client ID and secret must be provided together''))"

definition with_credentials :: "collector_client \<Rightarrow> string \<Rightarrow> string \<Rightarrow> agent_error + collector_client" where
  "with_credentials cl credential_id secret =
     new_client (cl_device cl) credential_id secret (map_option fst (cl_access cl)) (map_option snd (cl_access cl))"

record http_request =
  hr_method :: string
  hr_target :: string
  hr_headers :: "(string \<times> string) list"
  hr_body :: string

definition path_of :: "string \<Rightarrow> string" where
  "path_of target = takeWhile (\<lambda>c. c \<noteq> CHR ''?'') target"

fun has_dots :: "string \<Rightarrow> bool" where
  "has_dots (a # b # s) \<longleftrightarrow> a = CHR ''.'' \<and> b = CHR ''.'' \<or> has_dots (b # s)"
| "has_dots _ \<longleftrightarrow> False"

definition client_stamp :: "instant \<Rightarrow> string" where
  "client_stamp t = (if t mod 1000000 = 0 then take 19 (iso_text t) @ ''Z'' else iso_text t)"

definition client_canonical :: "env \<Rightarrow> string \<Rightarrow> string \<Rightarrow> string \<Rightarrow> string \<Rightarrow> string \<Rightarrow> string" where
  "client_canonical E http_method path stamp nonce body =
     utf8 (http_method @ newline @ path @ newline @ stamp @ newline @ nonce @ newline @ sha256_hex E body)"

definition signed_request ::
  "env \<Rightarrow> collector_client \<Rightarrow> string \<Rightarrow> string \<Rightarrow> json \<Rightarrow> instant \<Rightarrow> string \<Rightarrow> agent_error + http_request" where
  "signed_request E cl http_method target payload sent nonce =
     (if take 4 target \<noteq> ''/v1/'' \<or> has_dots target then Inl (Value_Error ''collector request path is not allowlisted'')
      else let body = (if http_method = ''GET'' then [] else utf8 (dumps True payload));
               signature = hmac_hex E (utf8 (cl_secret cl))
                 (client_canonical E http_method (path_of target) (client_stamp sent) nonce body) in
        Inr \<lparr>hr_method = http_method, hr_target = target,
          hr_headers = [(''accept'', ''application/json''), (''content-type'', ''application/json''),
            (''user-agent'', ''ControlForge-Endpoint-Agent/0.3''),
            (''x-controlforge-credential-id'', cl_credential cl), (''x-controlforge-timestamp'', client_stamp sent),
            (''x-controlforge-nonce'', nonce), (''x-controlforge-signature'', signature)] @
            (case cl_access cl of None \<Rightarrow> [] | Some (i, s) \<Rightarrow> [(''cf-access-client-id'', i), (''cf-access-client-secret'', s)]),
          hr_body = body\<rparr>)"

datatype wire = No_Answer | Answer int "json option"

definition read_answer :: "wire \<Rightarrow> agent_error + json" where
  "read_answer r = (case r of
     No_Answer \<Rightarrow> Inl (Collector_Error ''control-plane request could not be completed'')
   | Answer status body \<Rightarrow>
       if status < 200 \<or> 300 \<le> status then Inl (Collector_Error (''control-plane request failed with HTTP '' @ show_int status))
       else case body of None \<Rightarrow> Inl (Collector_Error ''control-plane returned malformed JSON'') | Some j \<Rightarrow> Inr j)"

definition ingest_payload :: "agent_lib \<Rightarrow> security_event list \<Rightarrow> json" where
  "ingest_payload L es = JObj [(''events'', JList (map (al_sent L) es))]"

definition result_payload :: "bool \<Rightarrow> string \<Rightarrow> string list \<Rightarrow> json" where
  "result_payload succeeded summary evidence =
     JObj [(''evidence'', JList (map JStr evidence)), (''status'', JStr (if succeeded then ''succeeded'' else ''failed'')), (''summary'', JStr summary)]"

section \<open>The appliance's route\<close>

definition header :: "string \<Rightarrow> http_request \<Rightarrow> string" where
  "header name H = (case map_of (hr_headers H) name of None \<Rightarrow> [] | Some v \<Rightarrow> v)"

definition signed_collector_request :: "http_request \<Rightarrow> collector_request" where
  "signed_collector_request H = \<lparr>rq_method = hr_method H, rq_path = path_of (hr_target H), rq_body = hr_body H,
     rq_credential = header ''x-controlforge-credential-id'' H, rq_timestamp = header ''x-controlforge-timestamp'' H,
     rq_nonce = header ''x-controlforge-nonce'' H, rq_signature = header ''x-controlforge-signature'' H\<rparr>"

definition collector_error :: "exn \<Rightarrow> wire" where
  "collector_error e = (let answer = \<lambda>status text'. Answer status (Some (JObj [(''error'', JStr text')])) in
     case fst e of
       CollectorReplayError \<Rightarrow> answer 409 ''collector request replayed''
     | CollectorAuthenticationError \<Rightarrow> answer 401 ''collector authentication failed''
     | DeviceBindingError \<Rightarrow> answer 403 ''collector device binding failed''
     | CollectorIngestionError \<Rightarrow> answer 400 ''collector ingestion failed''
     | EventIdentityConflict \<Rightarrow> answer 409 ''event identity conflict''
     | _ \<Rightarrow> Answer 500 None)"

definition serve_ingest :: "env \<Rightarrow> pipeline \<Rightarrow> nat \<Rightarrow> http_request \<Rightarrow> datetime \<Rightarrow> world \<Rightarrow> wire \<times> world" where
  "serve_ingest E L max_body H now w = (case collector_ingest E L max_body (signed_collector_request H) now w of
     (Inl e, w') \<Rightarrow> (collector_error e, w')
   | (Inr r, w') \<Rightarrow> (Answer 202 (Some (JObj [(''accepted'', JInt (int (ig_accepted r))), (''duplicates'', JInt (int (ig_duplicates r))),
       (''event_ids'', JList (map JStr (ig_event_ids r)))])), w'))"

section \<open>The client's timestamp\<close>

lemma parse_stamp_whole:
  assumes "civil_ok (y, m, d, h, mi, s, 0)"
  shows "parse_stamp (take 19 (iso_of_civil (y, m, d, h, mi, s, 0)) @ ''Z'') =
     Some (Aware (days_of_date (y, m, d) * int day_us + us_of_clock (h, mi, s, 0)))"
proof -
  have b: "y < 10000" "m < 100" "d < 100" "h < 100" "mi < 100" "s < 100"
    using civil_fields_bounded [OF assms] by simp_all
  let ?clock = "[digit (h div 10), digit h, CHR '':'', digit (mi div 10), digit mi, CHR '':'', digit (s div 10), digit s]"
  let ?date = "[digit (y div 1000), digit (y div 100), digit (y div 10), digit y, CHR ''-'',
       digit (m div 10), digit m, CHR ''-'', digit (d div 10), digit d]"
  have r: "replace_z (take 19 (iso_of_civil (y, m, d, h, mi, s, 0)) @ ''Z'') = ?date @ ''T'' @ ?clock @ ''+00:00''"
    unfolding iso_of_civil_chars replace_z_def by (simp add: digit_not_mark)
  have sp: "split_sign (?clock @ ''+00:00'') = (?clock, ''+00:00'')"
    by (simp add: split_sign_def digit_not_mark digit_not_mark [symmetric])
  have cl: "parse_clock ?clock = Some (h, mi, s, 0)"
    by (simp add: parse_clock_def parse_fraction_def digits_val_fields b)
  have off: "parse_offset ''+00:00'' = Some (Some 0)"
    by (simp add: parse_offset_def parse_clock_def digits_val_def is_digit_def code_def us_of_clock_def)
  have date: "parse_date ?date = Some (y, m, d)"
    using assms by (simp add: parse_date_def digits_val_fields b)
  have "clock_ok (h, mi, s, 0)" using assms by (simp add: clock_ok_def)
  moreover have "drop 11 (?date @ ''T'' @ ?clock @ ''+00:00'') = ?clock @ ''+00:00''"
    and "take 10 (?date @ ''T'' @ ?clock @ ''+00:00'') = ?date" and "?clock @ ''+00:00'' \<noteq> []" by simp_all
  ultimately show ?thesis
    unfolding parse_stamp_def fromisoformat_def r
    by (simp only: date sp cl off option.case prod.case if_False Let_def not_True_eq_False)
      (simp add: day_us_def)
qed

lemma parse_client_stamp:
  assumes "0 \<le> t" "t < max_instant"
  shows "parse_stamp (client_stamp t) = Some (Aware t)"
proof (cases "t mod 1000000 = 0")
  case True
  let ?n = "nat t"
  obtain y m d where dt: "date_of_days (?n div day_us) = (y, m, d)"
    by (cases "date_of_days (?n div day_us)") auto
  obtain h mi s us where cl: "time_of_us (?n mod day_us) = (h, mi, s, us)"
    by (cases "time_of_us (?n mod day_us)") auto
  have "?n mod 1000000 = 0" using True assms(1) by (metis nat_0_iff nat_mod_distrib nat_numeral order_refl zero_le_numeral)
  then have "?n mod day_us mod 1000000 = 0" by (simp add: day_us_def mod_mod_cancel)
  with cl have us: "us = 0" by (simp add: time_of_us_def)
  have c: "civil_of ?n = (y, m, d, h, mi, s, 0)" by (simp add: civil_of_def dt cl us)
  have "days_of_date (y, m, d) = int (?n div day_us)"
    using days_of_date_of_days [of "?n div day_us"] dt by simp
  moreover have "us_of_clock (h, mi, s, 0) = int (?n mod day_us)"
    using us_of_clock_time_of_us [of "?n mod day_us"] cl us by (simp add: day_us_def)
  ultimately have "days_of_date (y, m, d) * int day_us + us_of_clock (h, mi, s, 0) = t"
    using assms(1) by (metis div_mult_mod_eq int_nat_eq of_nat_add of_nat_mult)
  with parse_stamp_whole [of y m d h mi s] civil_of_ok [OF assms] True show ?thesis
    by (simp add: client_stamp_def iso_text_def c del: iso_of_civil.simps)
next
  case False
  with parse_stamp_iso_text [OF assms] show ?thesis by (simp add: client_stamp_def)
qed

section \<open>The appliance accepts what the client signs\<close>

lemma signed_request_received:
  assumes "signed_request E cl http_method target payload sent nonce = Inr H"
  defines "R \<equiv> signed_collector_request H"
  shows "rq_method R = http_method \<and> rq_path R = path_of target \<and> rq_credential R = cl_credential cl \<and>
    rq_timestamp R = client_stamp sent \<and> rq_nonce R = nonce \<and>
    rq_body R = (if http_method = ''GET'' then [] else utf8 (dumps True payload)) \<and>
    rq_signature R = hmac_hex E (utf8 (cl_secret cl)) (canonical_request E R)"
proof -
  let ?body = "if http_method = ''GET'' then [] else utf8 (dumps True payload)"
  let ?signature = "hmac_hex E (utf8 (cl_secret cl)) (client_canonical E http_method (path_of target) (client_stamp sent) nonce ?body)"
  have H: "H = \<lparr>hr_method = http_method, hr_target = target,
      hr_headers = [(''accept'', ''application/json''), (''content-type'', ''application/json''),
        (''user-agent'', ''ControlForge-Endpoint-Agent/0.3''),
        (''x-controlforge-credential-id'', cl_credential cl), (''x-controlforge-timestamp'', client_stamp sent),
        (''x-controlforge-nonce'', nonce), (''x-controlforge-signature'', ?signature)] @
        (case cl_access cl of None \<Rightarrow> [] | Some (i, s) \<Rightarrow> [(''cf-access-client-id'', i), (''cf-access-client-secret'', s)]),
      hr_body = ?body\<rparr>"
    using assms(1) unfolding signed_request_def Let_def
    by (cases "take 4 target \<noteq> ''/v1/'' \<or> has_dots target") (simp_all only: if_True if_False sum.inject sum.distinct simp_thms)
  show ?thesis
    unfolding R_def signed_collector_request_def header_def canonical_request_def client_canonical_def H by simp
qed

lemma new_client_ok:
  assumes "new_client device_id credential_id secret i s = Inr cl"
  shows "cl_credential cl = credential_id \<and> cl_secret cl = secret \<and> credential_id_ok credential_id \<and> 32 \<le> length secret"
proof -
  have "identifier_char c" if "hex_any c \<or> c = CHR ''-''" for c
    using that by (auto simp: hex_any_def lower_hex_def identifier_char_def upper_char_def small_char_def)
  then have "client_credential_ok x \<Longrightarrow> credential_id_ok x" for x
    by (simp add: client_credential_ok_def credential_id_ok_def list_all_iff)
  then show ?thesis
    using assms unfolding new_client_def by (cases i; cases s) (simp_all split: if_split_asm, safe, simp_all)
qed

text \<open>
  C1. The appliance accepts what the endpoint signs. A request that a constructed client signs for an
  allowed route is accepted, as the client's device, whenever the appliance's clock is within the skew
  of the client's, the stored credential is live and its stored secret is the client's, and the nonce
  is not held; accepting it consumes the nonce and records the use.
\<close>

theorem signed_request_accepted:
  assumes client: "new_client device_id credential_id secret i s = Inr cl"
    and signed: "signed_request E cl http_method target payload sent nonce = Inr H"
    and route: "request_semantics_allowed http_method (path_of target)"
    and digest: "\<And>k m. signature_ok (hmac_hex E k m)"
    and nonce: "nonce_ok nonce" "nonce_free (signed_collector_request H) t (tables w)"
    and clock: "0 \<le> sent" "sent < max_instant" "abs (t - sent) \<le> seconds (max_clock_skew_seconds E)"
    and row: "credential_join credential_id (tables w) = Some (c, v, tn)" "resolved E c = Some (utf8 secret)"
    and live: "dc_revoked c = None" "dc_activated c \<noteq> None" "t < dc_expires c" "dv_status v = DeviceActive" "t_status tn = TenantActive"
  shows "\<exists>w'. authenticate E (signed_collector_request H) (Aware t) w =
      (Inr \<lparr>ad_tenant = dc_tenant c, ad_device = dc_device c, ad_credential = credential_id\<rparr>, w') \<and>
    tables w' = consume_request E (signed_collector_request H) t c (tables w)"
proof -
  let ?R = "signed_collector_request H"
  note R = signed_request_received [OF signed]
  note ok = new_client_ok [OF client]
  have "32 \<le> length (utf8 secret)" using ok length_utf8_ge [of secret] by simp
  then have "live_credential E ?R t (tables w) c"
    using R ok row live by (auto simp: live_credential_def)
  moreover have "well_formed_request ?R"
    using R ok route nonce(1) digest by (simp add: well_formed_request_def)
  moreover have "timely E ?R t"
    using R clock by (auto simp: timely_def parse_client_stamp)
  ultimately have acc: "accepts E ?R t (tables w) c" using nonce(2) by (simp add: accepts_def)
  obtain dev w' where run: "authenticate E ?R (Aware t) w = (Inr dev, w')"
    using accepted [OF acc] by (blast dest: succeedsD)
  from wp_Inr [OF authenticate_wp run] obtain c' where c': "accepts E ?R t (tables w) c'"
      "dev = \<lparr>ad_tenant = dc_tenant c', ad_device = dc_device c', ad_credential = rq_credential ?R\<rparr>"
      "tables w' = consume_request E ?R t c' (tables w)"
    by (elim exE conjE)
  have "rq_credential ?R = credential_id" using R ok by simp
  moreover from c'(1) row this have "c' = c" by (simp add: accepts_def live_credential_def)
  ultimately show ?thesis using run c'(2,3) by simp
qed

section \<open>The signature binds the request\<close>

lemma append_mark_left:
  assumes "c \<notin> set a" "c \<notin> set a'"
  shows "a @ c # r = a' @ c # r' \<longleftrightarrow> a = a' \<and> r = r'"
  using assms by (induction a arbitrary: a') (case_tac a'; auto)+

lemma append_mark_right:
  assumes "c \<notin> set b" "c \<notin> set b'"
  shows "a @ c # b = a' @ c # b' \<longleftrightarrow> a = a' \<and> b = b'"
proof
  assume "a @ c # b = a' @ c # b'"
  then have "rev b @ c # rev a = rev b' @ c # rev a'"
    by (metis append_Cons append_Nil append_assoc rev.simps(2) rev_append)
  then show "a = a' \<and> b = b'" using assms by (simp add: append_mark_left)
qed simp

lemma hex_groups_chars:
  "hex_groups ns s = Some r \<Longrightarrow> x \<in> set s \<Longrightarrow> lower_hex x \<or> x = CHR ''-'' \<or> x \<in> set r"
proof (induction ns s rule: hex_groups.induct)
  case (2 n s)
  have "x \<in> set (take n s) \<or> x \<in> set (drop n s)" using 2(2) by (metis UnE append_take_drop_id set_append)
  with 2(1) show ?case by (auto simp: list_all_iff split: if_splits)
next
  case (3 n m ns s)
  have parts: "s = take n s @ take 1 (drop n s) @ drop (Suc n) s"
    by (metis append_take_drop_id drop_drop plus_1_eq_Suc)
  from 3(2) have ok: "list_all lower_hex (take n s)" "take 1 (drop n s) = ''-''" "hex_groups (m # ns) (drop (Suc n) s) = Some r"
      "length (take n s) = n"
    by (simp_all split: if_splits)
  from 3(3) parts have "x \<in> set (take n s) \<or> x \<in> set (take 1 (drop n s)) \<or> x \<in> set (drop (Suc n) s)"
    by (metis UnE set_append)
  with ok 3(1) show ?case by (auto simp: list_all_iff)
qed simp

lemma newline_char: "\<not> lower_hex (char_of (10 :: nat))" "\<not> upper_char (char_of (10 :: nat))" "\<not> small_char (char_of (10 :: nat))"
    "\<not> is_digit (char_of (10 :: nat))"
  by (simp_all add: lower_hex_def upper_char_def small_char_def is_digit_def code_def)

lemma nl_char: "char_of (10 :: nat) = CHR 0x0A"
  by code_simp

lemma action_path_no_newline:
  assumes "action_result_path path"
  shows "CHR 0x0A \<notin> set path"
proof
  assume nl: "CHR 0x0A \<in> set path"
  from assms obtain rest where r: "strip_prefix ''/v1/agent/actions/'' path = Some rest" "hex_groups [8, 4, 4, 4, 12] rest = Some ''/result''"
    unfolding action_result_path_def by (cases "strip_prefix ''/v1/agent/actions/'' path") auto
  let ?p = "''/v1/agent/actions/''"
  have "path = ?p @ rest" using r(1) append_take_drop_id [of "length ?p" path] unfolding strip_prefix_def
    by (metis option.distinct(1) option.inject)
  moreover have "CHR 0x0A \<notin> set ?p" by code_simp
  ultimately have "CHR 0x0A \<in> set rest" using nl by (metis UnE set_append)
  from hex_groups_chars [OF r(2) this] newline_char(1) show False by (simp add: nl_char)
qed

lemma semantics_no_newline:
  assumes "request_semantics_allowed http_method path"
  shows "char_of (10 :: nat) \<notin> set http_method \<and> char_of (10 :: nat) \<notin> set path"
  using assms unfolding request_semantics_allowed_def rotation_ack_path_def nl_char
  by (elim disjE conjE) (simp_all add: action_path_no_newline)

lemma nonce_no_newline: "nonce_ok s \<Longrightarrow> char_of (10 :: nat) \<notin> set s"
  using newline_char unfolding nonce_ok_def list_all_iff nl_char by auto

lemma canonical_request_inject:
  assumes ok: "well_formed_request R" "well_formed_request R'"
    and hex: "\<And>m. list_all lower_hex (sha256_hex E m)"
    and eq: "canonical_request E R = canonical_request E R'"
  shows "rq_method R = rq_method R' \<and> rq_path R = rq_path R' \<and> rq_timestamp R = rq_timestamp R' \<and> rq_nonce R = rq_nonce R' \<and>
    sha256_hex E (rq_body R) = sha256_hex E (rq_body R')"
proof -
  let ?nl = "char_of (10 :: nat)"
  have left: "?nl \<notin> set (rq_method X)" "?nl \<notin> set (rq_path X)" "?nl \<notin> set (rq_nonce X)" if "well_formed_request X" for X
    using that semantics_no_newline nonce_no_newline by (auto simp: well_formed_request_def)
  have hash: "?nl \<notin> set (sha256_hex E m)" for m using hex [of m] by (auto simp: list_all_iff newline_char)
  from utf8_inject [OF eq [unfolded canonical_request_def]]
  have "rq_method R @ ?nl # rq_path R @ ?nl # (rq_timestamp R @ ?nl # rq_nonce R) @ ?nl # sha256_hex E (rq_body R) =
      rq_method R' @ ?nl # rq_path R' @ ?nl # (rq_timestamp R' @ ?nl # rq_nonce R') @ ?nl # sha256_hex E (rq_body R')"
    by (simp add: newline_def)
  then show ?thesis
    unfolding append_mark_left [OF left(1) [OF ok(1)] left(1) [OF ok(2)]] append_mark_left [OF left(2) [OF ok(1)] left(2) [OF ok(2)]]
      append_mark_right [OF hash hash] append_mark_right [OF left(3) [OF ok(1)] left(3) [OF ok(2)]] by simp
qed

text \<open>
  C1. A signature is good for one request only. If two requests with the same signature are accepted
  under stored secrets that are equal, then they agree in method, path, timestamp and nonce and in
  every byte of the body, or a collision has been found: two messages with the same keyed code under
  that secret, or two bodies with the same SHA-256.
\<close>

theorem signature_binds_request:
  assumes "accepts E R t d c" "accepts E R' t' d' c'"
    and secret: "resolved E c = Some k" "resolved E c' = Some k"
    and same: "rq_signature R' = rq_signature R"
    and hex: "\<And>m. list_all lower_hex (sha256_hex E m)"
  shows "rq_method R' = rq_method R \<and> rq_path R' = rq_path R \<and> rq_timestamp R' = rq_timestamp R \<and> rq_nonce R' = rq_nonce R \<and> rq_body R' = rq_body R \<or>
    (\<exists>m m'. m \<noteq> m' \<and> hmac_hex E k m = hmac_hex E k m') \<or> (\<exists>b b'. b \<noteq> b' \<and> sha256_hex E b = sha256_hex E b')"
proof (cases "canonical_request E R = canonical_request E R'")
  case True
  have "well_formed_request R" "well_formed_request R'" using assms(1,2) by (simp_all add: accepts_def)
  from canonical_request_inject [OF this hex True]
  show ?thesis by (cases "rq_body R' = rq_body R") (simp, metis)
next
  case False
  moreover have "hmac_hex E k (canonical_request E R) = hmac_hex E k (canonical_request E R')"
    using assms(1,2) secret same by (auto simp: accepts_def live_credential_def)
  ultimately show ?thesis by blast
qed

lemma accepts_any_digest: "accepts (device_env\<lparr>sha256_hex := f\<rparr>) R t d c \<longleftrightarrow> accepts device_env R t d c"
  by (simp add: accepts_def timely_def live_credential_def resolved_def device_env_def)

theorem signature_binds_request_witness:
  "rq_body sample_request = rq_body sample_request \<or>
   (\<exists>m m'. m \<noteq> m' \<and> hmac_hex device_env sample_secret m = hmac_hex device_env sample_secret m') \<or>
   (\<exists>b b'. b \<noteq> b' \<and> sha256_hex (device_env\<lparr>sha256_hex := (\<lambda>_. ''00'')\<rparr>) b = sha256_hex (device_env\<lparr>sha256_hex := (\<lambda>_. ''00'')\<rparr>) b')"
proof -
  let ?E = "device_env\<lparr>sha256_hex := (\<lambda>_. ''00'')\<rparr>"
  have acc: "accepts ?E sample_request 300000000 device_db sample_credential"
    unfolding accepts_any_digest by (rule device_db_accepts) simp_all
  have res: "resolved ?E sample_credential = Some sample_secret"
    using sample_resolved by (simp add: resolved_def)
  have "list_all lower_hex (sha256_hex ?E m)" for m by (simp add: lower_hex_def is_digit_def code_def)
  from signature_binds_request [OF acc acc res res refl this] show ?thesis by auto
qed

definition agent_uuid :: string where
  "agent_uuid = ''01234567-89ab-4cde-8f01-23456789abcd''"

definition agent_credential :: credential_row where
  "agent_credential = sample_credential\<lparr>dc_id := agent_uuid,
     dc_ciphertext := cipher_encode (aead_encrypt sample_env ''iv'' sample_secret (cipher_aad agent_uuid))\<rparr>"

definition agent_db :: db where
  "agent_db = device_db\<lparr>device_credentials := [agent_credential]\<rparr>"

definition agent_client :: collector_client where
  "agent_client = \<lparr>cl_device = ''dev1'', cl_credential = agent_uuid, cl_secret = sample_secret, cl_access = None\<rparr>"

definition agent_poll :: http_request where
  "agent_poll = (case signed_request device_env agent_client ''GET'' ''/v1/agent/actions?device_id=dev1'' (JObj []) 300000000
     (replicate 32 (CHR ''a'')) of Inr H \<Rightarrow> H | Inl e \<Rightarrow> \<lparr>hr_method = [], hr_target = [], hr_headers = [], hr_body = []\<rparr>)"

lemma agent_resolved: "resolved device_env agent_credential = Some sample_secret"
  by (simp add: resolved_def agent_credential_def sample_credential_def b64decode_cipher_encode device_env_def sample_env_def
      numeral_3_eq_3 numeral_2_eq_2)

theorem signed_request_accepted_witness:
  "\<exists>w'. authenticate device_env (signed_collector_request agent_poll) (Aware 300000001) (world_at agent_db) =
      (Inr \<lparr>ad_tenant = ''t1'', ad_device = ''dev1'', ad_credential = agent_uuid\<rparr>, w')"
proof -
  have client: "new_client ''dev1'' agent_uuid sample_secret None None = Inr agent_client"
    by (simp add: new_client_def agent_client_def client_credential_ok_def agent_uuid_def sample_secret_def hex_any_def lower_hex_def
        is_digit_def code_def)
  have signed: "signed_request device_env agent_client ''GET'' ''/v1/agent/actions?device_id=dev1'' (JObj []) 300000000
      (replicate 32 (CHR ''a'')) = Inr agent_poll"
    by (simp add: agent_poll_def signed_request_def Let_def)
  have path: "path_of ''/v1/agent/actions?device_id=dev1'' = ''/v1/agent/actions''" by (simp add: path_of_def)
  have utf8: "utf8 sample_secret = sample_secret" by (simp add: sample_secret_def utf8_def utf8_char_def code_def numeral_eq_Suc)
  have res: "resolved device_env agent_credential = Some (utf8 sample_secret)" by (simp add: utf8 agent_resolved)
  have join: "credential_join agent_uuid (tables (world_at agent_db)) = Some (agent_credential, sample_device, sample_tenant)"
    by (simp add: credential_join_def agent_db_def device_db_def sample_db_def agent_credential_def sample_credential_def sample_device_def
        sample_tenant_def)
  have digest: "signature_ok (hmac_hex device_env k m)" for k m
    by (simp add: device_env_def signature_ok_def lower_hex_def code_def is_digit_def list_all_iff)
  have nonce: "nonce_ok (replicate 32 (CHR ''a''))" by (simp add: nonce_ok_def small_char_def code_def list_all_iff)
  have free: "nonce_free (signed_collector_request agent_poll) 300000001 (tables (world_at agent_db))"
    by (simp add: nonce_free_def agent_db_def device_db_def sample_db_def empty_db_def)
  have route: "request_semantics_allowed ''GET'' (path_of ''/v1/agent/actions?device_id=dev1'')"
    unfolding path by (simp add: request_semantics_allowed_def)
  have skew: "abs (300000001 - 300000000 :: int) \<le> seconds (max_clock_skew_seconds device_env)"
    by (simp add: device_env_def sample_env_def seconds_def)
  have fields: "dc_revoked agent_credential = None" "dc_activated agent_credential \<noteq> None" "300000001 < dc_expires agent_credential"
      "dc_tenant agent_credential = ''t1''" "dc_device agent_credential = ''dev1''"
    by (simp_all add: agent_credential_def sample_credential_def)
  have "dv_status sample_device = DeviceActive" "t_status sample_tenant = TenantActive"
    by (simp_all add: sample_device_def sample_tenant_def)
  moreover have "(300000000 :: int) < max_instant" using max_instant_code by simp
  ultimately show ?thesis
    using signed_request_accepted [OF client signed route digest nonce free _ _ skew join res fields(1,2,3)]
    by (auto simp: fields(4,5))
qed

end
