(* ===== verification/Controls.thy ===== *)
theory Controls
  imports Events
begin

text \<open>
  Endpoint assurance: \<open>EndpointAssuranceEngine\<close> of \<open>controlforge/controls.py\<close> with its models
  (\<open>controlforge/models.py\<close>), and what the collector makes of a report
  (\<open>EndpointCollectorAgent._control_events\<close> and \<open>_control_snapshot_fingerprint\<close> of
  \<open>controlforge/collector_agent.py\<close>). The probe and the expansion of a path are parameters; a
  modification time is in microseconds, where the program has a float.
\<close>

datatype control_status = ControlHealthy | ControlDegraded | ControlFailed

fun control_status_value :: "control_status \<Rightarrow> string" where
  "control_status_value ControlHealthy = ''healthy''"
| "control_status_value ControlDegraded = ''degraded''"
| "control_status_value ControlFailed = ''failed''"

record agent_definition =
  ad_agent :: string
  ad_display :: string
  ad_processes :: "string list"
  ad_paths :: "string list"
  ad_heartbeat :: "string option"
  ad_max_age :: int

record endpoint_snapshot =
  sn_hostname :: string
  sn_platform :: string
  sn_observed :: instant
  sn_processes :: "string list"
  sn_existing :: "string list"
  sn_modified :: "(string \<times> instant) list"

record control_finding =
  cf_agent :: string
  cf_display :: string
  cf_status :: control_status
  cf_installed :: bool
  cf_running :: bool
  cf_heartbeat :: "int option"
  cf_evidence :: "string list"
  cf_action :: string
  cf_checked :: instant

record control_report =
  rp_hostname :: string
  rp_platform :: string
  rp_findings :: "control_finding list"

definition sorted_set :: "string list \<Rightarrow> string list" where
  "sorted_set xs = sort (remdups xs)"

fun join_with :: "string \<Rightarrow> string list \<Rightarrow> string" where
  "join_with sep [] = []"
| "join_with sep [x] = x"
| "join_with sep (x # y # xs) = x @ sep @ join_with sep (y # xs)"

definition heartbeat_file :: "(string \<Rightarrow> string) \<Rightarrow> agent_definition \<Rightarrow> string option" where
  "heartbeat_file norm a = (case ad_heartbeat a of None \<Rightarrow> None | Some p \<Rightarrow> if p = [] then None else Some (norm p))"

definition heartbeat_age :: "(string \<Rightarrow> string) \<Rightarrow> agent_definition \<Rightarrow> endpoint_snapshot \<Rightarrow> int option" where
  "heartbeat_age norm a s = (case heartbeat_file norm a of None \<Rightarrow> None
     | Some p \<Rightarrow> map_option (\<lambda>m. max 0 ((sn_observed s - m) div 1000000)) (map_of (sn_modified s) p))"

definition matched_processes :: "agent_definition \<Rightarrow> endpoint_snapshot \<Rightarrow> string list" where
  "matched_processes a s = filter (\<lambda>p. p \<in> set (map casefold (sn_processes s))) (map casefold (ad_processes a))"

definition matched_paths :: "(string \<Rightarrow> string) \<Rightarrow> agent_definition \<Rightarrow> endpoint_snapshot \<Rightarrow> string list" where
  "matched_paths norm a s = filter (\<lambda>p. p \<in> set (sn_existing s)) (map norm (ad_paths a))"

definition evaluate_control :: "(string \<Rightarrow> string) \<Rightarrow> agent_definition \<Rightarrow> endpoint_snapshot \<Rightarrow> control_finding" where
  "evaluate_control norm a s =
     (let processes = matched_processes a s; paths = matched_paths norm a s; age = heartbeat_age norm a s;
          heartbeat_exists = (case heartbeat_file norm a of None \<Rightarrow> False | Some p \<Rightarrow> p \<in> set (sn_existing s));
          installed = (processes \<noteq> [] \<or> paths \<noteq> [] \<or> heartbeat_exists); running = (processes \<noteq> []);
          stale = (case age of None \<Rightarrow> False | Some n \<Rightarrow> ad_max_age a < n);
          verdict = (if \<not> installed then (ControlFailed, ''Install and enroll '' @ ad_display a @ ''; verify policy assignment.'')
            else if \<not> running then (ControlFailed, ''Restart '' @ ad_display a @ '' and investigate service termination.'')
            else if stale then (ControlDegraded, ''Restore '' @ ad_display a @ '' telemetry connectivity.'')
            else (ControlHealthy, ''No action required.'')) in
      \<lparr>cf_agent = ad_agent a, cf_display = ad_display a, cf_status = fst verdict, cf_installed = installed, cf_running = running,
        cf_heartbeat = age,
        cf_evidence = (if processes = [] then [] else [''running process: '' @ join_with '', '' (sorted_set processes)]) @
          (if paths = [] then [] else [''installed path: '' @ join_with '', '' (sorted_set paths)]) @
          (case age of None \<Rightarrow> [] | Some n \<Rightarrow> [''heartbeat age: '' @ show_int n @ ''s'']),
        cf_action = snd verdict, cf_checked = sn_observed s\<rparr>)"

definition observed_paths :: "(string \<Rightarrow> string) \<Rightarrow> agent_definition list \<Rightarrow> string list" where
  "observed_paths norm agents = sorted_set (concat (map (\<lambda>a.
     map norm (filter (\<lambda>p. p \<noteq> []) (ad_paths a @ (case ad_heartbeat a of None \<Rightarrow> [] | Some p \<Rightarrow> [p])))) agents))"

definition run_controls :: "(string \<Rightarrow> string) \<Rightarrow> agent_definition list \<Rightarrow> (string list \<Rightarrow> endpoint_snapshot) \<Rightarrow> control_report" where
  "run_controls norm agents probe = (let s = probe (observed_paths norm agents) in
     \<lparr>rp_hostname = sn_hostname s, rp_platform = sn_platform s, rp_findings = map (\<lambda>a. evaluate_control norm a s) agents\<rparr>)"

definition failed_count :: "control_report \<Rightarrow> nat" where
  "failed_count r = length (filter (\<lambda>f. cf_status f = ControlFailed) (rp_findings r))"

definition degraded_count :: "control_report \<Rightarrow> nat" where
  "degraded_count r = length (filter (\<lambda>f. cf_status f = ControlDegraded) (rp_findings r))"

section \<open>What the collector reports\<close>

definition opt_int_json :: "int option \<Rightarrow> json" where
  "opt_int_json x = (case x of None \<Rightarrow> JNull | Some n \<Rightarrow> JInt n)"

definition control_event :: "string \<Rightarrow> control_report \<Rightarrow> control_finding \<Rightarrow> string \<Rightarrow> security_event" where
  "control_event device r f event_id = \<lparr>sv_id = event_id, sv_type = ''endpoint_control_status'', sv_timestamp = Aware (cf_checked f),
     sv_actor = ''device:'' @ device, sv_source_ip = None, sv_target = Some (cf_agent f), sv_device = Some device,
     sv_attributes = [(''status'', JStr (control_status_value (cf_status f))), (''installed'', JBool (cf_installed f)),
       (''running'', JBool (cf_running f)), (''heartbeat_age_seconds'', opt_int_json (cf_heartbeat f)),
       (''evidence'', JList (map JStr (cf_evidence f))), (''recommended_action'', JStr (cf_action f)),
       (''hostname'', JStr (rp_hostname r)), (''platform'', JStr (rp_platform r))]\<rparr>"

definition stable_evidence :: "string list \<Rightarrow> string list" where
  "stable_evidence xs = sort (filter (\<lambda>x. take 14 x \<noteq> ''heartbeat age:'') xs)"

definition finding_json :: "control_finding \<Rightarrow> json" where
  "finding_json f = JObj [(''agent_id'', JStr (cf_agent f)), (''status'', JStr (control_status_value (cf_status f))),
     (''installed'', JBool (cf_installed f)), (''running'', JBool (cf_running f)),
     (''heartbeat_observed'', JBool (cf_heartbeat f \<noteq> None)),
     (''stable_evidence'', JList (map JStr (stable_evidence (cf_evidence f)))), (''recommended_action'', JStr (cf_action f))]"

definition snapshot_json :: "control_report \<Rightarrow> json" where
  "snapshot_json r = JObj [(''hostname'', JStr (rp_hostname r)), (''platform'', JStr (rp_platform r)),
     (''findings'', JList (map finding_json (sort_key cf_agent (rp_findings r))))]"

definition snapshot_fingerprint :: "(string \<Rightarrow> string) \<Rightarrow> control_report \<Rightarrow> string" where
  "snapshot_fingerprint sha256 r = sha256 (utf8 (dumps True (snapshot_json r)))"

section \<open>The fingerprint identifies the stable part of a report\<close>

definition finding_view :: "control_finding \<Rightarrow> string \<times> control_status \<times> bool \<times> bool \<times> bool \<times> string list \<times> string" where
  "finding_view f = (cf_agent f, cf_status f, cf_installed f, cf_running f, cf_heartbeat f \<noteq> None, stable_evidence (cf_evidence f), cf_action f)"

definition stable_view :: "control_report \<Rightarrow> string \<times> string \<times> (string \<times> control_status \<times> bool \<times> bool \<times> bool \<times> string list \<times> string) list" where
  "stable_view r = (rp_hostname r, rp_platform r, map finding_view (sort_key cf_agent (rp_findings r)))"

lemma json_ok_snapshot: "json_ok (snapshot_json r)"
  by (auto simp: snapshot_json_def finding_json_def)

lemma status_value_inject: "control_status_value s = control_status_value s' \<longleftrightarrow> s = s'"
  by (cases s; cases s') simp_all

lemma map_JStr_inject: "map JStr xs = map JStr ys \<longleftrightarrow> xs = ys"
  by (simp add: inj_map_eq_map inj_def)

lemma canon_strings: "map canon (map JStr xs) = map JStr xs"
  by simp

lemma canon_finding:
  "canon (finding_json f) = JObj [(''agent_id'', JStr (cf_agent f)), (''heartbeat_observed'', JBool (cf_heartbeat f \<noteq> None)),
     (''installed'', JBool (cf_installed f)), (''recommended_action'', JStr (cf_action f)), (''running'', JBool (cf_running f)),
     (''stable_evidence'', JList (map JStr (stable_evidence (cf_evidence f)))), (''status'', JStr (control_status_value (cf_status f)))]"
  by (simp add: finding_json_def comp_def)

lemma canon_snapshot:
  "canon (snapshot_json r) = JObj [(''findings'', JList (map (\<lambda>f. canon (finding_json f)) (sort_key cf_agent (rp_findings r)))),
     (''hostname'', JStr (rp_hostname r)), (''platform'', JStr (rp_platform r))]"
  by (simp add: snapshot_json_def comp_def)

lemma canon_finding_view: "canon (finding_json f) = canon (finding_json g) \<longleftrightarrow> finding_view f = finding_view g"
  unfolding canon_finding finding_view_def by (auto simp: status_value_inject map_JStr_inject)

lemma canon_findings_view:
  "map (\<lambda>f. canon (finding_json f)) fs = map (\<lambda>f. canon (finding_json f)) gs \<longleftrightarrow> map finding_view fs = map finding_view gs"
  by (induction fs arbitrary: gs) (auto simp: canon_finding_view Cons_eq_map_conv map_eq_Cons_conv)

lemma json_of_view: "finding_view f = finding_view g \<Longrightarrow> finding_json f = finding_json g"
  unfolding finding_view_def finding_json_def prod.inject by (elim conjE) (simp only:)

lemma map_same_view: "map finding_view fs = map finding_view gs \<Longrightarrow> map finding_json fs = map finding_json gs"
proof (induction fs arbitrary: gs)
  case (Cons f fs)
  from Cons.prems obtain g gs' where gs: "gs = g # gs'" by (cases gs) simp_all
  with Cons.prems have view: "finding_view f = finding_view g" "map finding_view fs = map finding_view gs'"
    by (simp_all only: list.map list.inject)
  show ?case by (simp only: gs list.map json_of_view [OF view(1)] Cons.IH [OF view(2)])
qed simp

text \<open>
  C1. The control fingerprint identifies what matters in a report. Two reports have the same fingerprint
  exactly when they name the same host and platform and, agent by agent, the same status, installation,
  process, evidence and advice, whatever the order of the findings and of their evidence and however
  old the heartbeats are; or their texts are a collision of the digest.
\<close>

theorem control_fingerprint_exact:
  "snapshot_fingerprint h r = snapshot_fingerprint h r' \<longleftrightarrow>
     stable_view r = stable_view r' \<or>
     dumps True (snapshot_json r) \<noteq> dumps True (snapshot_json r') \<and>
       h (utf8 (dumps True (snapshot_json r))) = h (utf8 (dumps True (snapshot_json r')))"
proof -
  have "stable_view r = stable_view r'" if "dumps True (snapshot_json r) = dumps True (snapshot_json r')"
  proof -
    have "canon (snapshot_json r) = canon (snapshot_json r')"
      using loads_dumps [OF json_ok_snapshot, of True r] loads_dumps [OF json_ok_snapshot, of True r'] that
      by (metis option.inject)
    then show ?thesis
      unfolding canon_snapshot stable_view_def json.inject list.inject prod.inject canon_findings_view by simp
  qed
  moreover have "snapshot_json r = snapshot_json r'" if view: "stable_view r = stable_view r'"
  proof -
    let ?fs = "sort_key cf_agent (rp_findings r)" and ?gs = "sort_key cf_agent (rp_findings r')"
    have "map finding_view ?fs = map finding_view ?gs" using view by (simp only: stable_view_def prod.inject)
    then have "map finding_json ?fs = map finding_json ?gs" by (rule map_same_view)
    moreover have "rp_hostname r = rp_hostname r'" "rp_platform r = rp_platform r'" using view by (simp_all only: stable_view_def prod.inject)
    ultimately show ?thesis by (simp only: snapshot_json_def)
  qed
  ultimately show ?thesis by (auto simp: snapshot_fingerprint_def)
qed

end
