(* ===== verification/Santa.thy ===== *)
theory Santa
  imports Agent_Spool "HOL-Library.Sublist"
begin

text \<open>
  The Santa telemetry reader of \<open>controlforge/santa.py\<close>: a bounded, resumable scan of a JSON-lines
  file and the normalisation of its records into security events. The file is its bytes with what
  \<open>lstat\<close> reports (the reads of one call see one version of it); JSON decoding, the last
  component of a path and the truth value of a float are the parameters \<open>santa_lib\<close>. The branch of \<open>_normalize\<close> for
  record kinds outside \<open>_EVENT_TYPES\<close> is unreachable, because the kind was just found there.
\<close>

record santa_definition =
  sd_source :: string
  sd_max_events :: nat
  sd_max_line :: nat
  sd_max_read :: nat

record santa_lib =
  sx_decode :: "string \<Rightarrow> json option"
  sx_name :: "string \<Rightarrow> string"
  sx_nonzero :: "string \<Rightarrow> bool"

record santa_batch =
  sb_events :: "security_event list"
  sb_rejected :: nat
  sb_cursor :: source_cursor

section \<open>Fields of a record\<close>

definition member :: "string \<Rightarrow> json \<Rightarrow> json option" where
  "member k j = (case j of JObj kvs \<Rightarrow> map_of kvs k | _ \<Rightarrow> None)"

definition mapping :: "json option \<Rightarrow> json" where
  "mapping v = (case v of Some (JObj kvs) \<Rightarrow> JObj kvs | _ \<Rightarrow> JObj [])"

definition field_text :: "nat \<Rightarrow> json option \<Rightarrow> string" where
  "field_text n v = (case v of Some (JStr s) \<Rightarrow> take n s | _ \<Rightarrow> [])"

definition text_of :: "nat \<Rightarrow> string \<Rightarrow> json \<Rightarrow> string" where
  "text_of n k j = field_text n (member k j)"

fun nested :: "string list \<Rightarrow> json option \<Rightarrow> json option" where
  "nested [] v = v"
| "nested (k # ks) v = nested ks (member k (mapping v))"

definition is_object :: "json option \<Rightarrow> bool" where
  "is_object v \<longleftrightarrow> (case v of Some (JObj _) \<Rightarrow> True | _ \<Rightarrow> False)"

fun truthy :: "santa_lib \<Rightarrow> json option \<Rightarrow> bool" where
  "truthy X None = False"
| "truthy X (Some JNull) = False"
| "truthy X (Some (JBool b)) = b"
| "truthy X (Some (JInt i)) = (i \<noteq> 0)"
| "truthy X (Some (JFloat s)) = sx_nonzero X s"
| "truthy X (Some (JStr s)) = (s \<noteq> [])"
| "truthy X (Some (JList xs)) = (xs \<noteq> [])"
| "truthy X (Some (JObj kvs)) = (kvs \<noteq> [])"

definition flag_of :: "santa_lib \<Rightarrow> string \<Rightarrow> json \<Rightarrow> json" where
  "flag_of X k j = JBool (truthy X (member k j))"

section \<open>Timestamps\<close>

definition digits_at :: "nat list \<Rightarrow> string \<Rightarrow> bool" where
  "digits_at ns s \<longleftrightarrow> list_all (\<lambda>n. n < length s \<and> is_digit (s ! n)) ns"

definition seconds_shape :: "string \<Rightarrow> bool" where
  "seconds_shape s \<longleftrightarrow> length s = 19 \<and> digits_at [0, 1, 2, 3, 5, 6, 8, 9, 11, 12, 14, 15, 17, 18] s \<and>
     s ! 4 = CHR ''-'' \<and> s ! 7 = CHR ''-'' \<and> s ! 10 = CHR ''T'' \<and> s ! 13 = CHR '':'' \<and> s ! 16 = CHR '':''"

definition zone_shape :: "string \<Rightarrow> bool" where
  "zone_shape s \<longleftrightarrow> s = ''Z'' \<or> length s = 6 \<and> is_sign (s ! 0) \<and> digits_at [1, 2, 4, 5] s \<and> s ! 3 = CHR '':''"

definition fraction_of :: "string \<Rightarrow> (string \<times> string) option" where
  "fraction_of s = (case s of
     CHR ''.'' # r \<Rightarrow> (let f = takeWhile is_digit r in if 1 \<le> length f \<and> length f \<le> 9 then Some (''.'' @ take 6 (f @ ''000000''), drop (length f) r) else None)
   | _ \<Rightarrow> Some ([], s))"

definition santa_timestamp :: "json option \<Rightarrow> datetime option" where
  "santa_timestamp v =
     (let s = field_text 40 v in
      if \<not> seconds_shape (take 19 s) then None
      else case fraction_of (drop 19 s) of
          None \<Rightarrow> None
        | Some (fraction, zone) \<Rightarrow>
            if \<not> zone_shape zone then None
            else case fromisoformat (take 19 s @ fraction @ (if zone = ''Z'' then ''+00:00'' else zone)) of
                Some (Aware t) \<Rightarrow> Some (Aware t)
              | _ \<Rightarrow> None)"

section \<open>Normalisation\<close>

definition event_types :: "(string \<times> string) list" where
  "event_types = [(''execution'', ''santa_execution''), (''file_access'', ''santa_file_access''),
     (''gatekeeper_override'', ''santa_gatekeeper_override''), (''launch_item'', ''santa_launch_item''),
     (''tcc_modification'', ''santa_tcc_modification''), (''xprotect'', ''santa_xprotect'')]"

definition first_nonempty :: "string \<Rightarrow> string \<Rightarrow> string" where
  "first_nonempty a b = (if a = [] then b else a)"

definition process_of :: "string \<Rightarrow> json \<Rightarrow> json" where
  "process_of kind payload =
     (if kind = ''xprotect'' then
        (let detected = mapping (member ''detected'' payload);
             record' = (if detected = JObj [] then mapping (member ''remediated'' payload) else detected)
         in mapping (member ''instigator'' record'))
      else mapping (member (if kind = ''execution'' then ''target'' else ''instigator'') payload))"

definition common_attributes :: "santa_lib \<Rightarrow> json \<Rightarrow> json \<Rightarrow> string \<Rightarrow> (string \<times> json) list" where
  "common_attributes X payload process process_path =
     [(''source'', JStr ''north-pole-security-santa''), (''process_path'', JStr process_path),
      (''process_name'', JStr (sx_name X process_path)),
      (''parent_process_path'', JStr (field_text 2048 (nested [''instigator'', ''executable'', ''path''] (Some payload)))),
      (''file_sha256'', JStr (field_text 64 (nested [''hash'', ''hash''] (Some (mapping (member ''executable'' process)))))),
      (''signing_id'', JStr (text_of 256 ''signing_id'' (mapping (member ''code_signature'' process)))),
      (''team_id'', JStr (text_of 32 ''team_id'' (mapping (member ''code_signature'' process)))),
      (''is_platform_binary'', flag_of X ''is_platform_binary'' process)]"

definition kind_attributes :: "santa_lib \<Rightarrow> string \<Rightarrow> json \<Rightarrow> string \<Rightarrow> (string \<times> json) list \<times> string" where
  "kind_attributes X kind payload process_path =
     (let str = (\<lambda>n k. (k, JStr (text_of n k payload))); target_path = field_text 2048 (nested [''target'', ''path''] (Some payload)) in
      if kind = ''execution'' then
        ([str 64 ''decision'', str 64 ''reason'', str 64 ''mode'', (''static_rule'', flag_of X ''static_rule'' payload)], process_path)
      else if kind = ''file_access'' then
        ([(''target_path'', JStr target_path), str 256 ''policy_name'', str 128 ''policy_version'', str 64 ''access_type'',
          str 64 ''policy_decision''], target_path)
      else if kind = ''gatekeeper_override'' then
        (let signature = mapping (member ''code_signature'' payload) in
         ([(''target_path'', JStr target_path), (''target_signing_id'', JStr (text_of 256 ''signing_id'' signature)),
           (''target_team_id'', JStr (text_of 32 ''team_id'' signature))], target_path))
      else if kind = ''launch_item'' then
        ([str 64 ''action'', str 64 ''item_type'', str 2048 ''item_path'', str 2048 ''app_path'', str 2048 ''executable_path'',
          (''managed'', flag_of X ''managed'' payload)],
         first_nonempty (text_of 2048 ''item_path'' payload) (text_of 2048 ''executable_path'' payload))
      else if kind = ''tcc_modification'' then
        (let identity = text_of 512 ''identity'' payload in
         ([str 256 ''service'', (''identity'', JStr identity), str 64 ''identity_type'', str 64 ''event_type'', str 64 ''authorization_right'',
           str 64 ''authorization_reason''], identity))
      else
        (let variant = (if is_object (member ''detected'' payload) then ''detected'' else ''remediated'');
             record' = mapping (member variant payload);
             path = text_of 2048 (if variant = ''detected'' then ''detected_path'' else ''remediated_path'') record' in
         ([(''xprotect_event'', JStr variant), (''signature_version'', JStr (text_of 128 ''signature_version'' record')),
           (''malware_identifier'', JStr (text_of 256 ''malware_identifier'' record')),
           (''incident_identifier'', JStr (text_of 256 ''incident_identifier'' record')),
           (''action_type'', JStr (text_of 128 ''action_type'' record')), (''remediation_success'', flag_of X ''success'' record'),
           (''target_path'', JStr path)], path)))"

definition normalize_record :: "santa_lib \<Rightarrow> string \<Rightarrow> string \<Rightarrow> json \<Rightarrow> (string \<times> json) list \<times> string \<times> string" where
  "normalize_record X device kind payload =
     (let process = process_of kind payload; process_path = text_of 2048 ''path'' (mapping (member ''executable'' process));
          name = text_of 320 ''name'' (mapping (member ''effective_user'' process));
          (extra, target) = kind_attributes X kind payload process_path in
      (common_attributes X payload process process_path @ extra, if name = [] then ''device:'' @ device else ''user:'' @ name, target))"

definition santa_id_ok :: "string \<Rightarrow> bool" where
  "santa_id_ok s \<longleftrightarrow> length s = 32 \<and> list_all (\<lambda>c. c \<in> set ''0123456789abcdef'') s"

definition parse_record :: "santa_lib \<Rightarrow> string \<Rightarrow> json \<Rightarrow> string + security_event option" where
  "parse_record X device raw =
     (let event_id = casefold (text_of 32 ''event_id'' raw) in
      if \<not> santa_id_ok event_id then Inl ''Santa event_id must be a 32-character hexadecimal identifier''
      else case santa_timestamp (member ''event_time'' raw) of
          None \<Rightarrow> Inl ''Santa event_time must be an RFC 3339 timestamp''
        | Some occurred \<Rightarrow>
            (case List.find (\<lambda>kt. is_object (member (fst kt) raw)) event_types of
               None \<Rightarrow> Inr None
             | Some (kind, event_type) \<Rightarrow>
                 (case normalize_record X device kind (mapping (member kind raw)) of (attributes, actor, target) \<Rightarrow>
                  Inr (Some \<lparr>sv_id = ''santa:'' @ event_id, sv_type = event_type, sv_timestamp = occurred, sv_actor = actor,
                    sv_source_ip = None, sv_target = (if target = [] then None else Some target), sv_device = Some device,
                    sv_attributes = attributes @ [(''santa_event_id'', JStr event_id),
                      (''santa_boot_session_uuid'', JStr (text_of 64 ''boot_session_uuid'' raw))]\<rparr>))))"

definition parse_line :: "santa_lib \<Rightarrow> string \<Rightarrow> string \<Rightarrow> string + security_event option" where
  "parse_line X device line = (case sx_decode X line of
     Some (JObj kvs) \<Rightarrow> parse_record X device (JObj kvs)
   | Some _ \<Rightarrow> Inl ''Santa JSON record must be an object''
   | None \<Rightarrow> Inl ''malformed'')"

section \<open>Reading\<close>

datatype santa_node = Absent | Not_Regular | Writable | Regular int int string

definition linefeed :: char where
  "linefeed = CHR 0x0A"

fun readline :: "nat \<Rightarrow> string \<Rightarrow> string" where
  "readline 0 s = []"
| "readline (Suc n) [] = []"
| "readline (Suc n) (c # s) = (if c = linefeed then [c] else c # readline n s)"

lemma readline_prefix: "s = readline n s @ drop (length (readline n s)) s"
  by (induction n s rule: readline.induct) auto

lemma readline_Nil: "readline (Suc n) s = [] \<longleftrightarrow> s = []"
  by (cases s) auto

function scan :: "santa_definition \<Rightarrow> (string \<Rightarrow> string + security_event option) \<Rightarrow> security_event list \<Rightarrow> nat \<Rightarrow> nat \<Rightarrow> nat \<Rightarrow> string \<Rightarrow>
    string + security_event list \<times> nat \<times> nat" where
  "scan D f es rejected used pos rest =
     (if sd_max_events D \<le> length es then Inr (es, rejected, pos)
      else let line = readline (Suc (sd_max_line D)) rest; n = length line; more = drop (length line) rest in
        if line = [] then Inr (es, rejected, pos)
        else if sd_max_line D < n then Inl ''Santa JSON telemetry line exceeds the configured limit''
        else if last line \<noteq> linefeed then Inr (es, rejected, pos)
        else if sd_max_read D < used + n then Inr (es, rejected, pos)
        else (case f line of
            Inl _ \<Rightarrow> scan D f es (rejected + 1) (used + n) (pos + n) more
          | Inr None \<Rightarrow> scan D f es rejected (used + n) (pos + n) more
          | Inr (Some e) \<Rightarrow> scan D f (es @ [e]) rejected (used + n) (pos + n) more))"
  by pat_completeness auto
termination
  by (relation "measure (\<lambda>(D, f, es, rejected, used, pos, rest). length rest)") (auto simp: readline_Nil)

declare scan.simps [simp del]

definition start_offset :: "source_cursor option \<Rightarrow> int \<Rightarrow> int \<Rightarrow> string \<Rightarrow> nat" where
  "start_offset cursor device inode content = (case cursor of None \<Rightarrow> 0
     | Some c \<Rightarrow> if csr_device c = device \<and> csr_inode c = inode \<and> 0 \<le> csr_offset c \<and> csr_offset c \<le> int (length content)
         then nat (csr_offset c) else 0)"

definition read_santa :: "santa_definition \<Rightarrow> santa_lib \<Rightarrow> string \<Rightarrow> source_cursor option \<Rightarrow> santa_node \<Rightarrow> agent_error + santa_batch" where
  "read_santa D X device cursor node = (case node of
     Absent \<Rightarrow> Inl (Santa_Error ''Santa JSON telemetry file is unavailable'')
   | Not_Regular \<Rightarrow> Inl (Santa_Error ''Santa JSON telemetry path must be a regular file'')
   | Writable \<Rightarrow> Inl (Santa_Error ''Santa JSON telemetry file must not be group or world writable'')
   | Regular dev inode content \<Rightarrow>
       (let offset = start_offset cursor dev inode content in
        case scan D (parse_line X device) [] 0 0 offset (drop offset content) of
          Inl m \<Rightarrow> Inl (Santa_Error m)
        | Inr (es, rejected, pos) \<Rightarrow> Inr \<lparr>sb_events = es, sb_rejected = rejected,
            sb_cursor = \<lparr>csr_device = dev, csr_inode = inode, csr_offset = int pos\<rparr>\<rparr>))"

section \<open>Every complete line is read once\<close>

definition complete_line :: "string \<Rightarrow> bool" where
  "complete_line l \<longleftrightarrow> (\<exists>x. l = x @ [linefeed] \<and> linefeed \<notin> set x)"

definition events_of :: "(string \<Rightarrow> string + security_event option) \<Rightarrow> string list \<Rightarrow> security_event list" where
  "events_of f ls = concat (map (\<lambda>l. case f l of Inr (Some e) \<Rightarrow> [e] | _ \<Rightarrow> []) ls)"

definition rejects_of :: "(string \<Rightarrow> string + security_event option) \<Rightarrow> string list \<Rightarrow> nat" where
  "rejects_of f ls = length (filter (\<lambda>l. case f l of Inl _ \<Rightarrow> True | Inr _ \<Rightarrow> False) ls)"

lemma readline_complete:
  "readline n s \<noteq> [] \<Longrightarrow> last (readline n s) = linefeed \<Longrightarrow> complete_line (readline n s)"
proof (induction n s rule: readline.induct)
  case (3 n c s)
  show ?case
  proof (cases "c = linefeed")
    case False
    with 3 have "readline n s \<noteq> []" "last (readline n s) = linefeed" by (auto split: if_splits)
    with 3(1) False obtain x where "readline n s = x @ [linefeed]" "linefeed \<notin> set x" by (auto simp: complete_line_def)
    with False show ?thesis by (auto simp: complete_line_def intro: exI [of _ "c # x"])
  qed (simp add: complete_line_def)
qed auto

lemma scan_lines:
  "scan D f es rejected used pos rest = Inr (es', rejected', pos') \<Longrightarrow>
     \<exists>ls rest'. rest = concat ls @ rest' \<and> list_all complete_line ls \<and> es' = es @ events_of f ls \<and>
       rejected' = rejected + rejects_of f ls \<and> pos' = pos + length (concat ls)"
proof (induction D f es rejected used pos rest rule: scan.induct)
  case (1 D f es rejected used pos rest)
  let ?line = "readline (Suc (sd_max_line D)) rest"
  have stop: ?case if "es' = es" "rejected' = rejected" "pos' = pos"
    using that by (intro exI [of _ "[]"] exI [of _ rest]) (simp add: events_of_def rejects_of_def)
  show ?case
  proof (cases "sd_max_events D \<le> length es \<or> ?line = [] \<or> sd_max_line D < length ?line \<or> last ?line \<noteq> linefeed \<or> sd_max_read D < used + length ?line")
    case True
    with "1.prems" show ?thesis by (intro stop) (auto simp: scan.simps [of D f es] Let_def split: if_splits)
  next
    case False
    then have line: "complete_line ?line" using readline_complete by blast
    have rest: "rest = ?line @ drop (length ?line) rest" by (rule readline_prefix)
    have extend: ?thesis if "\<exists>ls rest'. drop (length ?line) rest = concat ls @ rest' \<and> list_all complete_line ls \<and> es' = es @ events_of f (?line # ls) \<and>
        rejected' = rejected + rejects_of f (?line # ls) \<and> pos' = pos + length ?line + length (concat ls)"
    proof -
      from that obtain ls rest' where ls: "drop (length ?line) rest = concat ls @ rest'" "list_all complete_line ls" "es' = es @ events_of f (?line # ls)"
          "rejected' = rejected + rejects_of f (?line # ls)" "pos' = pos + length ?line + length (concat ls)" by blast
      then have "rest = concat (?line # ls) @ rest'" using rest by simp
      with ls line show ?thesis by (intro exI [of _ "?line # ls"] exI [of _ rest']) simp
    qed
    show ?thesis
    proof (cases "f ?line")
      case (Inl m)
      with False "1.prems" have "scan D f es (rejected + 1) (used + length ?line) (pos + length ?line) (drop (length ?line) rest) = Inr (es', rejected', pos')"
        by (simp add: scan.simps [of D f es] Let_def)
      from "1.IH"(1) [OF _ refl refl refl _ _ _ _ Inl this] False show ?thesis
        by (intro extend) (auto simp: events_of_def rejects_of_def Inl)
    next
      case (Inr r)
      show ?thesis
      proof (cases r)
        case None
        with Inr False "1.prems" have "scan D f es rejected (used + length ?line) (pos + length ?line) (drop (length ?line) rest) = Inr (es', rejected', pos')"
          by (simp add: scan.simps [of D f es] Let_def)
        from "1.IH"(2) [OF _ refl refl refl _ _ _ _ Inr None this] False show ?thesis
          by (intro extend) (auto simp: events_of_def rejects_of_def Inr None)
      next
        case (Some e)
        with Inr False "1.prems" have "scan D f (es @ [e]) rejected (used + length ?line) (pos + length ?line) (drop (length ?line) rest) = Inr (es', rejected', pos')"
          by (simp add: scan.simps [of D f es] Let_def)
        from "1.IH"(3) [OF _ refl refl refl _ _ _ _ Inr Some this] False show ?thesis
          by (intro extend) (auto simp: events_of_def rejects_of_def Inr Some)
      qed
    qed
  qed
qed

fun run_reads :: "santa_definition \<Rightarrow> santa_lib \<Rightarrow> string \<Rightarrow> int \<Rightarrow> int \<Rightarrow> source_cursor option \<Rightarrow> string list \<Rightarrow> security_event list \<times> source_cursor option" where
  "run_reads D X device dev inode cursor [] = ([], cursor)"
| "run_reads D X device dev inode cursor (b # bs) = (case read_santa D X device cursor (Regular dev inode b) of
     Inl _ \<Rightarrow> run_reads D X device dev inode cursor bs
   | Inr batch \<Rightarrow> (case run_reads D X device dev inode (Some (sb_cursor batch)) bs of (es, c) \<Rightarrow> (sb_events batch @ es, c)))"

definition cursor_at :: "int \<Rightarrow> int \<Rightarrow> nat \<Rightarrow> source_cursor option \<Rightarrow> bool" where
  "cursor_at dev inode n c \<longleftrightarrow> c = Some \<lparr>csr_device = dev, csr_inode = inode, csr_offset = int n\<rparr> \<or> c = None \<and> n = 0"

lemma read_santa_lines:
  assumes "read_santa D X device cursor (Regular dev inode content) = Inr batch" "cursor_at dev inode n cursor" "n \<le> length content"
  shows "\<exists>ls rest. content = take n content @ concat ls @ rest \<and> list_all complete_line ls \<and> sb_events batch = events_of (parse_line X device) ls \<and>
    sb_rejected batch = rejects_of (parse_line X device) ls \<and> cursor_at dev inode (n + length (concat ls)) (Some (sb_cursor batch))"
proof -
  have start: "start_offset cursor dev inode content = n"
    using assms(2,3) by (auto simp: cursor_at_def start_offset_def)
  with assms(1) obtain es rejected pos where run: "scan D (parse_line X device) [] 0 0 n (drop n content) = Inr (es, rejected, pos)"
      "batch = \<lparr>sb_events = es, sb_rejected = rejected, sb_cursor = \<lparr>csr_device = dev, csr_inode = inode, csr_offset = int pos\<rparr>\<rparr>"
    by (auto simp: read_santa_def Let_def split: sum.splits prod.splits)
  from scan_lines [OF run(1)] obtain ls rest where ls: "drop n content = concat ls @ rest" "list_all complete_line ls"
      "es = events_of (parse_line X device) ls" "rejected = rejects_of (parse_line X device) ls" "pos = n + length (concat ls)"
    by auto
  moreover have "content = take n content @ concat ls @ rest" using ls(1) append_take_drop_id [of n content] by simp
  ultimately show ?thesis
    by (intro exI [of _ ls] exI [of _ rest]) (simp add: run(2) cursor_at_def)
qed

lemma run_reads_lines:
  assumes "cursor_at dev inode (length (concat ls0)) cursor" "\<forall>b \<in> set bs. prefix (concat ls0) b" "sorted_wrt prefix bs"
    and "run_reads D X device dev inode cursor bs = (es, c)"
  shows "\<exists>ls. list_all complete_line ls \<and> es = events_of (parse_line X device) ls \<and> cursor_at dev inode (length (concat (ls0 @ ls))) c \<and>
    (bs = [] \<and> ls = [] \<or> bs \<noteq> [] \<and> prefix (concat (ls0 @ ls)) (last bs))"
  using assms
proof (induction bs arbitrary: ls0 cursor es)
  case Nil
  then show ?case by (intro exI [of _ "[]"]) (simp add: events_of_def)
next
  case (Cons b bs)
  show ?case
  proof (cases "read_santa D X device cursor (Regular dev inode b)")
    case (Inl e)
    with Cons.prems have "run_reads D X device dev inode cursor bs = (es, c)" by simp
    with Cons.IH [of ls0 cursor es] Cons.prems obtain ls where ls: "list_all complete_line ls" "es = events_of (parse_line X device) ls"
        "cursor_at dev inode (length (concat (ls0 @ ls))) c" "bs = [] \<and> ls = [] \<or> bs \<noteq> [] \<and> prefix (concat (ls0 @ ls)) (last bs)" by auto
    with Cons.prems(2) show ?thesis by (intro exI [of _ ls]) auto
  next
    case (Inr batch)
    from Cons.prems(2) have pre: "prefix (concat ls0) b" by simp
    then have "length (concat ls0) \<le> length b" by (rule prefix_length_le)
    from read_santa_lines [OF Inr Cons.prems(1) this] obtain ls1 rest where ls1:
        "b = take (length (concat ls0)) b @ concat ls1 @ rest" "list_all complete_line ls1" "sb_events batch = events_of (parse_line X device) ls1"
        "cursor_at dev inode (length (concat ls0) + length (concat ls1)) (Some (sb_cursor batch))" by auto
    have "take (length (concat ls0)) b = concat ls0" using pre by (auto simp: prefix_def)
    then have here: "prefix (concat (ls0 @ ls1)) b" using ls1(1) by (metis append_assoc concat_append prefixI)
    then have later: "\<forall>x \<in> set bs. prefix (concat (ls0 @ ls1)) x" using Cons.prems(3) by (auto intro: prefix_order.trans)
    obtain es' where run: "run_reads D X device dev inode (Some (sb_cursor batch)) bs = (es', c)" "es = sb_events batch @ es'"
      using Cons.prems(4) Inr by (auto split: prod.splits)
    from Cons.IH [OF _ later _ run(1)] ls1(4) Cons.prems(3) obtain ls2 where ls2: "list_all complete_line ls2" "es' = events_of (parse_line X device) ls2"
        "cursor_at dev inode (length (concat ((ls0 @ ls1) @ ls2))) c" "bs = [] \<and> ls2 = [] \<or> bs \<noteq> [] \<and> prefix (concat ((ls0 @ ls1) @ ls2)) (last bs)"
      by auto
    with ls1 here run(2) show ?thesis
      by (intro exI [of _ "ls1 @ ls2"]) (auto simp: events_of_def)
  qed
qed

text \<open>
  C1. No record of the Santa log is lost or read twice. However often the log is read while it only
  grows, with whatever limits, and although some reads fail: the events returned by all reads together
  are exactly the events of the complete lines before the saved cursor, each line once and in the order
  of the file, and the cursor is at the end of a line.
\<close>

theorem santa_reads_once:
  assumes "sorted_wrt prefix logs" "logs \<noteq> []"
    and "run_reads D X device dev inode None logs = (es, c)"
  shows "\<exists>ls. list_all complete_line ls \<and> prefix (concat ls) (last logs) \<and> es = events_of (parse_line X device) ls \<and>
    cursor_at dev inode (length (concat ls)) c"
proof -
  have "cursor_at dev inode (length (concat [])) None" by (simp add: cursor_at_def)
  from run_reads_lines [OF this _ assms(1,3)] assms(2) show ?thesis by auto
qed

text \<open>
  C1. A line over the limit stops the telemetry for good. If the line at the cursor is longer than the
  configured limit, every read from that cursor fails, whatever is appended to the log later: no event
  behind that line is ever returned.
\<close>

theorem santa_oversized_line_blocks:
  assumes "n + sd_max_line D < length content" "linefeed \<notin> set (take (sd_max_line D) (drop n content))" "cursor_at dev inode n cursor"
    and "0 < sd_max_events D"
  shows "read_santa D X device cursor (Regular dev inode (content @ appended)) = Inl (Santa_Error ''Santa JSON telemetry line exceeds the configured limit'')"
proof -
  have long: "length (readline (Suc m) s) = Suc m" if "m < length s" "linefeed \<notin> set (take m s)" for m s
    using that by (induction m arbitrary: s) (auto simp: take_Suc neq_Nil_conv Suc_less_eq2 split: if_splits, (case_tac s, auto)+)
  have "start_offset cursor dev inode (content @ appended) = n"
    using assms(1,3) by (auto simp: cursor_at_def start_offset_def)
  moreover have "length (readline (Suc (sd_max_line D)) (drop n (content @ appended))) = Suc (sd_max_line D)"
    using assms(1,2) by (intro long) auto
  ultimately show ?thesis
    using assms(4) by (auto simp: read_santa_def scan.simps [of D _ "[]"] Let_def)
qed

section \<open>Concrete logs\<close>

definition sample_reader :: santa_definition where
  "sample_reader = \<lparr>sd_source = ''santa-json:/var/db/santa/santa.log'', sd_max_events = 2, sd_max_line = 4, sd_max_read = 100\<rparr>"

definition sample_execution :: json where
  "sample_execution = JObj [(''event_id'', JStr ''0123456789abcdef0123456789ABCDEF''), (''event_time'', JStr ''0001-01-02T03:04:05Z''),
     (''execution'', JObj [(''decision'', JStr ''ALLOW''),
        (''target'', JObj [(''executable'', JObj [(''path'', JStr (CHR ''/'' # replicate 600 (CHR ''a'')))])])])]"

definition sample_santa :: santa_lib where
  "sample_santa = \<lparr>sx_decode = (\<lambda>l. if l = [CHR ''x'', linefeed] then Some sample_execution else None), sx_name = (\<lambda>p. p), sx_nonzero = (\<lambda>_. True)\<rparr>"

theorem santa_reads_once_witness:
  "\<exists>ls. list_all complete_line ls \<and> prefix (concat ls) [CHR ''x'', linefeed, CHR ''y'', linefeed] \<and>
     fst (run_reads sample_reader sample_santa ''dev1'' 1 2 None [[CHR ''x''], [CHR ''x'', linefeed, CHR ''y'', linefeed]]) =
       events_of (parse_line sample_santa ''dev1'') ls"
proof -
  let ?logs = "[[CHR ''x''], [CHR ''x'', linefeed, CHR ''y'', linefeed]]"
  obtain es c where run: "run_reads sample_reader sample_santa ''dev1'' 1 2 None ?logs = (es, c)" by fastforce
  have "sorted_wrt prefix ?logs" "?logs \<noteq> []" by simp_all
  from santa_reads_once [OF this run] show ?thesis unfolding run fst_conv last.simps by auto
qed

theorem santa_oversized_line_blocks_witness:
  "read_santa sample_reader sample_santa ''dev1'' None (Regular 1 2 (''abcdef'' @ [linefeed, CHR ''x'', linefeed])) =
     Inl (Santa_Error ''Santa JSON telemetry line exceeds the configured limit'')"
  by (rule santa_oversized_line_blocks [where n = 0]) (simp_all add: sample_reader_def linefeed_def cursor_at_def)

text \<open>A record of an execution from a long path becomes an event whose target is the path.\<close>

lemma sample_execution_event:
  "\<exists>e. parse_record sample_santa ''dev1'' sample_execution = Inr (Some e) \<and> sv_target e = Some (CHR ''/'' # replicate 600 (CHR ''a''))"
proof -
  have "text_of 32 ''event_id'' sample_execution = ''0123456789abcdef0123456789ABCDEF''"
    by (simp add: text_of_def field_text_def member_def sample_execution_def)
  moreover have "casefold ''0123456789abcdef0123456789ABCDEF'' = ''0123456789abcdef0123456789abcdef''" by code_simp
  ultimately have id: "casefold (text_of 32 ''event_id'' sample_execution) = ''0123456789abcdef0123456789abcdef''" by simp
  have "member ''event_time'' sample_execution = Some (JStr ''0001-01-02T03:04:05Z'')" by (simp add: member_def sample_execution_def)
  moreover have "santa_timestamp (Some (JStr ''0001-01-02T03:04:05Z'')) \<noteq> None"
    by (simp add: santa_timestamp_def field_text_def seconds_shape_def digits_at_def fraction_of_def zone_shape_def fromisoformat_def
        parse_date_def split_sign_def parse_clock_def parse_fraction_def parse_offset_def digits_val_def is_digit_def code_def clock_ok_def
        us_of_clock_def day_us_def month_len_def)
  ultimately have t: "\<exists>t. santa_timestamp (member ''event_time'' sample_execution) = Some t" by auto
  have path: "text_of 2048 ''path'' (mapping (member ''executable'' (process_of ''execution'' (mapping (member ''execution'' sample_execution))))) =
      CHR ''/'' # replicate 600 (CHR ''a'')"
    by (simp add: text_of_def field_text_def member_def mapping_def process_of_def sample_execution_def)
  have kind: "List.find (\<lambda>kt. is_object (member (fst kt) sample_execution)) event_types = Some (''execution'', ''santa_execution'')"
    by (simp add: event_types_def is_object_def member_def sample_execution_def)
  have ok: "santa_id_ok ''0123456789abcdef0123456789abcdef''" by (simp add: santa_id_ok_def)
  show ?thesis
    using t path unfolding parse_record_def id kind
    by (auto simp: ok normalize_record_def kind_attributes_def Let_def)
qed

end
