(* ===== verification/Pf_Adapter.thy ===== *)
theory Pf_Adapter
  imports Controls Agent_Spool Passwords Device_Auth
begin

text \<open>
  Endpoint containment of \<open>controlforge/macos_response.py\<close>: \<open>MacOSPfResponseAdapter\<close> with its
  state file (\<open>RootOwnedPfStateStore\<close>). The packet filter itself, name resolution and the
  arithmetic of addresses are the parameters \<open>pf_platform\<close>, over a state of their own; of the file
  system the model keeps what the code distinguishes: the state directory, the node at the state path,
  whether a temporary file can be created, and the outcome of every later system call in order.

  A state file that is accepted is its decoded content. \<open>pfctl_laws\<close> says what the manual says of the
  four commands: a command that fails has no effect.
\<close>

section \<open>The platform\<close>

datatype pf_command = Pf_Enable | Pf_Load string | Pf_Flush | Pf_Disable string

record 'x pf_platform =
  px_run :: "pf_command \<Rightarrow> 'x \<Rightarrow> string option \<times> 'x"
  px_resolve :: "string \<Rightarrow> nat \<Rightarrow> 'x \<Rightarrow> string list option \<times> 'x"
  px_address :: "string \<Rightarrow> string option"
  px_version4 :: "string \<Rightarrow> bool"

record pf_state =
  ps_token :: string
  ps_expires :: instant
  ps_addresses :: "string list"

datatype parent_node = Parent_Trusted | Parent_Unsafe | Parent_Unavailable

datatype state_node = Node_Absent | Node_Unreadable | Node_Unsafe | Node_Malformed | Node_State pf_state

record 'x pf_host =
  ph_parent :: parent_node
  ph_node :: state_node
  ph_temporary :: bool
  ph_outcomes :: "nat \<Rightarrow> bool"
  ph_calls :: nat
  ph_external :: 'x

record pf_adapter =
  pa_enabled :: bool
  pa_device :: string
  pa_host :: string
  pa_port :: nat
  pa_darwin :: bool
  pa_root :: bool

definition response_refused :: "string \<Rightarrow> ('s, 'a) act" where
  "response_refused reason = refuse (Response_Error reason)"

definition system_call :: "('x pf_host, bool) act" where
  "system_call = (\<lambda>h. (Inr (ph_outcomes h (ph_calls h)), h\<lparr>ph_calls := Suc (ph_calls h)\<rparr>))"

definition pf_token_ok :: "string \<Rightarrow> bool" where
  "pf_token_ok s \<longleftrightarrow> 1 \<le> length s \<and> length s \<le> 20 \<and> list_all is_digit s"

definition pf_allowed :: "pf_command \<Rightarrow> bool" where
  "pf_allowed c \<longleftrightarrow> (case c of Pf_Load rules \<Rightarrow> rules \<noteq> [] | Pf_Disable token \<Rightarrow> pf_token_ok token | _ \<Rightarrow> True)"

definition run_pf :: "'x pf_platform \<Rightarrow> pf_command \<Rightarrow> ('x pf_host, string) act" where
  "run_pf P c = thereafter (refuse_if (\<not> pf_allowed c) (Value_Error ''PF command is not allowlisted''))
     (\<lambda>h. case px_run P c (ph_external h) of
        (None, x) \<Rightarrow> (Inl Pfctl_Error, h\<lparr>ph_external := x\<rparr>)
      | (Some out, x) \<Rightarrow> (Inr (take 1024 out), h\<lparr>ph_external := x\<rparr>))"

text \<open>
  \<open>_TOKEN_OUTPUT\<close>: the first line of the output that begins with \<^verbatim>\<open>Token : digits\<close>, in any case.
\<close>

definition token_here :: "string \<Rightarrow> string option" where
  "token_here s =
     (let after_name = dropWhile py_space (drop 5 s); after_colon = dropWhile py_space (drop 1 after_name);
          digits = takeWhile is_digit after_colon; rest = dropWhile is_digit after_colon; space = takeWhile py_space rest in
      if lower (take 5 s) = ''token'' \<and> take 1 after_name = '':'' \<and> pf_token_ok digits \<and>
         (space = rest \<or> CHR 0x0A \<in> set space) then Some digits else None)"

fun token_after :: "bool \<Rightarrow> string \<Rightarrow> string option" where
  "token_after line_start [] = None"
| "token_after line_start (c # s) =
     (case (if line_start then token_here (c # s) else None) of
        Some t \<Rightarrow> Some t
      | None \<Rightarrow> token_after (c = CHR 0x0A) s)"

definition find_token :: "string \<Rightarrow> string option" where
  "find_token out = token_after True out"

section \<open>The state file\<close>

definition node_metadata :: "('x pf_host, state_node) act" where
  "node_metadata = chain (look ph_node) (\<lambda>n. case n of
     Node_Unreadable \<Rightarrow> response_refused ''state_unavailable''
   | _ \<Rightarrow> give n)"

definition trusted_node :: "state_node \<Rightarrow> ('x pf_host, unit) act" where
  "trusted_node n = (case n of Node_Unsafe \<Rightarrow> response_refused ''state_unsafe'' | _ \<Rightarrow> give ())"

definition read_state :: "('x pf_host, pf_state option) act" where
  "read_state = chain node_metadata (\<lambda>n.
     if n = Node_Absent then give None
     else thereafter (trusted_node n) (chain system_call (\<lambda>ok. case n of
         Node_State s \<Rightarrow> if ok then give (Some s) else response_refused ''state_malformed''
       | _ \<Rightarrow> response_refused ''state_malformed'')))"

definition prepare_parent :: "('x pf_host, unit) act" where
  "prepare_parent = chain (look ph_parent) (\<lambda>p. case p of
     Parent_Trusted \<Rightarrow> give ()
   | Parent_Unsafe \<Rightarrow> response_refused ''state_storage_unsafe''
   | Parent_Unavailable \<Rightarrow> response_refused ''state_storage_unavailable'')"

definition set_node :: "state_node \<Rightarrow> ('x pf_host, unit) act" where
  "set_node n = change (\<lambda>h. h\<lparr>ph_node := n\<rparr>)"

definition write_state :: "pf_state \<Rightarrow> ('x pf_host, unit) act" where
  "write_state s =
     thereafter prepare_parent
     (chain node_metadata (\<lambda>n.
      thereafter (trusted_node n)
      (chain (look ph_temporary) (\<lambda>temporary.
       thereafter (refuse_if (\<not> temporary) Other_Error)
       (chain system_call (\<lambda>replaced.
        if \<not> replaced then chain system_call (\<lambda>cleaned.
          refuse (if cleaned then Response_Error ''state_persistence_failed'' else Other_Error))
        else thereafter (set_node (Node_State s))
          (chain system_call (\<lambda>synced.
           if synced then give ()
           else chain system_call (\<lambda>unlinked.
             thereafter (if unlinked then set_node Node_Absent else give ())
             (response_refused ''state_persistence_failed''))))))))))"

definition delete_state :: "('x pf_host, unit) act" where
  "delete_state = chain node_metadata (\<lambda>n.
     if n = Node_Absent then give ()
     else thereafter (trusted_node n) (chain system_call (\<lambda>unlinked.
       if unlinked then set_node Node_Absent else response_refused ''state_release_failed'')))"

section \<open>The adapter\<close>

definition host_label :: "string \<Rightarrow> bool" where
  "host_label l \<longleftrightarrow> 1 \<le> length l \<and> length l \<le> 63 \<and> list_all (\<lambda>c. small_char c \<or> is_digit c \<or> c = CHR ''-'') l \<and>
     hd l \<noteq> CHR ''-'' \<and> last l \<noteq> CHR ''-''"

definition fixed_host_ok :: "string \<Rightarrow> bool" where
  "fixed_host_ok s \<longleftrightarrow> s = ''localhost'' \<or>
     (let parts = split_on (CHR ''.'') s; tld = last parts in
      2 \<le> length parts \<and> list_all host_label (butlast parts) \<and> 2 \<le> length tld \<and> length tld \<le> 63 \<and> list_all small_char tld)"

definition new_adapter :: "bool \<Rightarrow> string \<Rightarrow> string \<Rightarrow> nat \<Rightarrow> bool \<Rightarrow> bool \<Rightarrow> agent_error + pf_adapter" where
  "new_adapter enabled device host port darwin root =
     (if \<not> fixed_host_ok host then Inl (Value_Error ''response adapter API host is invalid'')
      else if port < 1 \<or> 65535 < port then Inl (Value_Error ''response adapter API port is invalid'')
      else Inr \<lparr>pa_enabled = enabled, pa_device = device, pa_host = host, pa_port = port, pa_darwin = darwin, pa_root = root\<rparr>)"

definition max_containment :: int where
  "max_containment = minutes 15"

definition require_environment :: "pf_adapter \<Rightarrow> bool \<Rightarrow> ('s, unit) act" where
  "require_environment A allow_disabled =
     thereafter (refuse_if (\<not> pa_enabled A \<and> \<not> allow_disabled) (Response_Error ''adapter_disabled''))
     (thereafter (refuse_if (\<not> pa_darwin A) (Response_Error ''unsupported_platform''))
     (refuse_if (\<not> pa_root A) (Response_Error ''root_required'')))"

definition release_state :: "'x pf_platform \<Rightarrow> pf_state \<Rightarrow> ('x pf_host, unit) act" where
  "release_state P s = attempt
     (thereafter (run_pf P Pf_Flush) (thereafter (run_pf P (Pf_Disable (ps_token s))) delete_state))
     (\<lambda>e. case e of Response_Error _ \<Rightarrow> response_refused ''release_failed'' | Pfctl_Error \<Rightarrow> response_refused ''release_failed''
        | _ \<Rightarrow> refuse e)"

definition enable_pf :: "'x pf_platform \<Rightarrow> ('x pf_host, string) act" where
  "enable_pf P = chain (attempt (run_pf P Pf_Enable) (\<lambda>e. if e = Pfctl_Error then response_refused ''pf_enable_failed'' else refuse e))
     (\<lambda>out. case find_token out of None \<Rightarrow> response_refused ''pf_token_missing'' | Some t \<Rightarrow> give t)"

definition try_pf :: "'x pf_platform \<Rightarrow> pf_command \<Rightarrow> ('x pf_host, bool) act" where
  "try_pf P c = attempt (thereafter (run_pf P c) (give True)) (\<lambda>e. if e = Pfctl_Error then give False else refuse e)"

definition rollback_pf :: "'x pf_platform \<Rightarrow> string \<Rightarrow> ('x pf_host, bool) act" where
  "rollback_pf P token = chain (try_pf P Pf_Flush) (\<lambda>a. chain (try_pf P (Pf_Disable token)) (\<lambda>b. give (a \<and> b)))"

definition quietly :: "('s, unit) act \<Rightarrow> ('s, unit) act" where
  "quietly m = attempt m (\<lambda>e. case e of Response_Error _ \<Rightarrow> give () | _ \<Rightarrow> refuse e)"

definition discard_failed_state :: "string \<Rightarrow> ('x pf_host, unit) act" where
  "discard_failed_state token = quietly (chain read_state (\<lambda>s. case s of
     Some st \<Rightarrow> if ps_token st = token then delete_state else give ()
   | None \<Rightarrow> give ()))"

definition preserve_failed_rollback :: "pf_state \<Rightarrow> ('x pf_host, unit) act" where
  "preserve_failed_rollback s = quietly (chain read_state (\<lambda>current. if current = None then write_state s else give ()))"

definition address_set :: "'x pf_platform \<Rightarrow> string list \<Rightarrow> string list" where
  "address_set P xs = sorted_set (map (\<lambda>a. case px_address P a of Some n \<Rightarrow> n | None \<Rightarrow> []) xs)"

definition normalized_addresses :: "'x pf_platform \<Rightarrow> agent_error \<Rightarrow> string list \<Rightarrow> ('s, string list) act" where
  "normalized_addresses P e xs =
     thereafter (refuse_if (\<exists>a \<in> set xs. px_address P a = None) e)
     (thereafter (refuse_if (address_set P xs = [] \<or> 16 < length (address_set P xs)) (Response_Error ''management_resolution_failed''))
     (give (address_set P xs)))"

definition fixed_host_resolve :: "'x pf_platform \<Rightarrow> pf_adapter \<Rightarrow> ('x pf_host, string list) act" where
  "fixed_host_resolve P A = chain
     (\<lambda>h. case px_resolve P (pa_host A) (pa_port A) (ph_external h) of
        (None, x) \<Rightarrow> (Inl (Response_Error ''management_resolution_failed''), h\<lparr>ph_external := x\<rparr>)
      | (Some xs, x) \<Rightarrow> (Inr xs, h\<lparr>ph_external := x\<rparr>))
     (normalized_addresses P (Value_Error ''address''))"

definition validated_management_ips :: "'x pf_platform \<Rightarrow> string list \<Rightarrow> ('s, string list) act" where
  "validated_management_ips P = normalized_addresses P (Response_Error ''management_resolution_failed'')"

definition pf_rules :: "'x pf_platform \<Rightarrow> nat \<Rightarrow> string list \<Rightarrow> string" where
  "pf_rules P port addresses = concat (map (\<lambda>r. r @ [CHR 0x0A])
     ([''block drop all'', ''pass quick on lo0 all'',
       ''pass out quick inet proto udp to any port 53 keep state'', ''pass out quick inet proto tcp to any port 53 keep state'',
       ''pass out quick inet6 proto udp to any port 53 keep state'', ''pass out quick inet6 proto tcp to any port 53 keep state''] @
      map (\<lambda>a. ''pass out quick '' @ (if px_version4 P a then ''inet'' else ''inet6'') @ '' proto tcp to '' @ a @ '' port '' @
        show_nat port @ '' keep state'') addresses))"

datatype containment_result = Now_Isolated nat instant | Already_Isolated | Now_Released | Already_Released

definition response_code :: "agent_error \<Rightarrow> string option" where
  "response_code e = (case e of Response_Error c \<Rightarrow> Some c | Pfctl_Error \<Rightarrow> Some ''pf_command_failed'' | _ \<Rightarrow> None)"

definition undo_isolation :: "'x pf_platform \<Rightarrow> pf_state \<Rightarrow> agent_error \<Rightarrow> ('x pf_host, unit) act" where
  "undo_isolation P s e = (case response_code e of
     None \<Rightarrow> refuse e
   | Some c \<Rightarrow> chain (rollback_pf P (ps_token s)) (\<lambda>ok.
       thereafter (if ok then discard_failed_state (ps_token s) else preserve_failed_rollback s) (response_refused c)))"

definition apply_containment :: "'x pf_platform \<Rightarrow> pf_adapter \<Rightarrow> instant \<Rightarrow> string list \<Rightarrow> ('x pf_host, containment_result) act" where
  "apply_containment P A expiry addresses = chain (enable_pf P) (\<lambda>token.
     let s = \<lparr>ps_token = token, ps_expires = expiry, ps_addresses = addresses\<rparr> in
     thereafter
       (attempt (thereafter (run_pf P (Pf_Load (pf_rules P (pa_port A) addresses))) (write_state s)) (undo_isolation P s))
       (give (Now_Isolated (length addresses) expiry)))"

definition isolate :: "'x pf_platform \<Rightarrow> pf_adapter \<Rightarrow> instant \<Rightarrow> instant \<Rightarrow> ('x pf_host, containment_result) act" where
  "isolate P A expires t = chain read_state (\<lambda>current.
     let fresh_containment = chain (chain (fixed_host_resolve P A) (validated_management_ips P)) (apply_containment P A (min expires (t + max_containment))) in
     case current of
       None \<Rightarrow> fresh_containment
     | Some s \<Rightarrow> if ps_expires s \<le> t then thereafter (release_state P s) fresh_containment else give Already_Isolated)"

definition release :: "'x pf_platform \<Rightarrow> ('x pf_host, containment_result) act" where
  "release P = chain read_state (\<lambda>current. case current of
     None \<Rightarrow> give Already_Released
   | Some s \<Rightarrow> thereafter (release_state P s) (give Now_Released))"

datatype active_action = Isolate_Endpoint | Release_Endpoint

definition adapter_clock :: "datetime \<Rightarrow> ('s, instant) act" where
  "adapter_clock now = (case now of Naive _ \<Rightarrow> response_refused ''clock_invalid'' | Aware t \<Rightarrow> give t)"

definition execute_action ::
  "'x pf_platform \<Rightarrow> pf_adapter \<Rightarrow> active_action \<Rightarrow> string \<Rightarrow> instant \<Rightarrow> datetime \<Rightarrow> ('x pf_host, containment_result) act" where
  "execute_action P A kind target expires now = chain (adapter_clock now) (\<lambda>t.
     thereafter (refuse_if (target \<noteq> pa_device A) (Response_Error ''target_mismatch''))
     (thereafter (refuse_if (expires \<le> t) (Response_Error ''action_expired''))
     (case kind of
        Isolate_Endpoint \<Rightarrow> thereafter (require_environment A False) (isolate P A expires t)
      | Release_Endpoint \<Rightarrow> thereafter (require_environment A True) (release P))))"

definition release_owned_state :: "'x pf_platform \<Rightarrow> pf_adapter \<Rightarrow> ('x pf_host, containment_result) act" where
  "release_owned_state P A = thereafter (require_environment A True) (release P)"

datatype reconciliation = Containment_Expired | Automatic_Release_Failed | State_Invalid

definition on_response_error :: "('s, 'a) act \<Rightarrow> 'a \<Rightarrow> ('s, 'a) act" where
  "on_response_error m x = attempt m (\<lambda>e. case e of Response_Error _ \<Rightarrow> give x | _ \<Rightarrow> refuse e)"

definition reconcile :: "'x pf_platform \<Rightarrow> pf_adapter \<Rightarrow> datetime \<Rightarrow> ('x pf_host, (instant \<times> reconciliation) option) act" where
  "reconcile P A now = chain (adapter_clock now) (\<lambda>t.
     chain (on_response_error (chain read_state (\<lambda>s. give (Inr s))) (Inl ())) (\<lambda>r. case r of
       Inl _ \<Rightarrow> give (Some (t, State_Invalid))
     | Inr None \<Rightarrow> give None
     | Inr (Some s) \<Rightarrow>
         if t < ps_expires s then give None
         else chain (on_response_error (thereafter (require_environment A True) (thereafter (release_state P s) (give True))) False)
           (\<lambda>ok. give (Some (t, if ok then Containment_Expired else Automatic_Release_Failed)))))"

datatype containment_status = Not_Configured | Status_Released | Status_Isolated instant | Needs_Attention

definition containment_status :: "pf_adapter \<Rightarrow> datetime \<Rightarrow> ('x pf_host, containment_status) act" where
  "containment_status A now = chain (adapter_clock now) (\<lambda>t.
     chain (on_response_error (chain read_state (\<lambda>s. give (Inr s))) (Inl ())) (\<lambda>r. give (case r of
       Inl _ \<Rightarrow> Needs_Attention
     | Inr None \<Rightarrow> if pa_enabled A then Status_Released else Not_Configured
     | Inr (Some s) \<Rightarrow> if ps_expires s \<le> t then Needs_Attention else Status_Isolated (ps_expires s))))"

section \<open>The laws of the packet filter\<close>

text \<open>
  \<open>tokens\<close> are the enable references the packet filter holds and \<open>anchor\<close> the rules loaded in the
  product's anchor, empty when there are none. A successful command has the effect \<^verbatim>\<open>pfctl(8)\<close>
  documents; name resolution has none.
\<close>

definition pf_laws :: "'x pf_platform \<Rightarrow> ('x \<Rightarrow> string set) \<Rightarrow> ('x \<Rightarrow> string) \<Rightarrow> bool" where
  "pf_laws P tokens anchor \<longleftrightarrow>
     (\<forall>x out x'. px_run P Pf_Enable x = (Some out, x') \<longrightarrow> anchor x' = anchor x \<and>
        (\<forall>t. find_token (take 1024 out) = Some t \<longrightarrow> tokens x' = insert t (tokens x))) \<and>
     (\<forall>rules x out x'. px_run P (Pf_Load rules) x = (Some out, x') \<longrightarrow> anchor x' = rules \<and> tokens x' = tokens x) \<and>
     (\<forall>x out x'. px_run P Pf_Flush x = (Some out, x') \<longrightarrow> anchor x' = [] \<and> tokens x' = tokens x) \<and>
     (\<forall>t x out x'. px_run P (Pf_Disable t) x = (Some out, x') \<longrightarrow> anchor x' = anchor x \<and> tokens x' = tokens x - {t}) \<and>
     (\<forall>host port x. anchor (snd (px_resolve P host port x)) = anchor x \<and> tokens (snd (px_resolve P host port x)) = tokens x)"

lemma pf_law_Enable: "pf_laws P tokens anchor \<Longrightarrow> px_run P Pf_Enable x = (Some out, x') \<Longrightarrow>
    anchor x' = anchor x \<and> (\<forall>t. find_token (take 1024 out) = Some t \<longrightarrow> tokens x' = insert t (tokens x))"
  by (simp add: pf_laws_def)

lemma pf_law_Load: "pf_laws P tokens anchor \<Longrightarrow> px_run P (Pf_Load r) x = (Some out, x') \<Longrightarrow> anchor x' = r \<and> tokens x' = tokens x"
  by (simp add: pf_laws_def)

lemma pf_law_Flush: "pf_laws P tokens anchor \<Longrightarrow> px_run P Pf_Flush x = (Some out, x') \<Longrightarrow> anchor x' = [] \<and> tokens x' = tokens x"
  by (simp add: pf_laws_def)

lemma pf_law_Disable: "pf_laws P tokens anchor \<Longrightarrow> px_run P (Pf_Disable t) x = (Some out, x') \<Longrightarrow>
    anchor x' = anchor x \<and> tokens x' = tokens x - {t}"
  by (simp add: pf_laws_def)

lemma pf_law_resolve: "pf_laws P tokens anchor \<Longrightarrow> px_resolve P host port x = (r, x') \<Longrightarrow> anchor x' = anchor x \<and> tokens x' = tokens x"
  unfolding pf_laws_def by (metis snd_conv)

definition pf_works :: "'x pf_platform \<Rightarrow> bool" where
  "pf_works P \<longleftrightarrow> (\<forall>c x. fst (px_run P c x) \<noteq> None)"

section \<open>Rules for the adapter's steps\<close>

lemma ensures_system_call [act_rules]:
  "ensures system_call Q X h = Q (ph_outcomes h (ph_calls h)) (h\<lparr>ph_calls := Suc (ph_calls h)\<rparr>)"
  by (simp add: ensures_def system_call_def)

lemma ensures_response_refused [act_rules]: "ensures (response_refused r) Q X s = X (Response_Error r) s"
  by (simp add: response_refused_def act_rules)

lemma ensures_set_node [act_rules]: "ensures (set_node n) Q X h = Q () (h\<lparr>ph_node := n\<rparr>)"
  by (simp add: set_node_def act_rules)

lemma ensures_run_pf:
  assumes "\<not> pf_allowed c \<Longrightarrow> X (Value_Error ''PF command is not allowlisted'') h"
    and "\<And>x. px_run P c (ph_external h) = (None, x) \<Longrightarrow> X Pfctl_Error (h\<lparr>ph_external := x\<rparr>)"
    and "\<And>out x. pf_allowed c \<Longrightarrow> px_run P c (ph_external h) = (Some out, x) \<Longrightarrow> Q (take 1024 out) (h\<lparr>ph_external := x\<rparr>)"
  shows "ensures (run_pf P c) Q X h"
proof (cases "pf_allowed c")
  case True
  obtain r x where r: "px_run P c (ph_external h) = (r, x)" by (cases "px_run P c (ph_external h)")
  show ?thesis unfolding run_pf_def ensures_thereafter ensures_refuse_if
    using True assms(2) assms(3) [OF True] r by (cases r) (simp_all add: ensures_def)
qed (use assms(1) in \<open>simp add: run_pf_def act_rules\<close>)

lemma ensures_read_state:
  assumes "ph_node h = Node_Absent \<Longrightarrow> Q None h"
    and "\<And>s. ph_node h = Node_State s \<Longrightarrow> Q (Some s) (h\<lparr>ph_calls := Suc (ph_calls h)\<rparr>)"
    and "\<And>r n. ph_node h \<noteq> Node_Absent \<Longrightarrow> X (Response_Error r) (h\<lparr>ph_calls := n\<rparr>)"
  shows "ensures read_state Q X h"
proof -
  have "X (Response_Error r) h" if "ph_node h \<noteq> Node_Absent" for r
    using assms(3) [OF that, of r "ph_calls h"] by simp
  then show ?thesis using assms
    by (cases "ph_node h") (auto simp: read_state_def node_metadata_def trusted_node_def act_rules)
qed

lemma ensures_delete_state:
  assumes "ph_node h = Node_State s"
  shows "ensures delete_state Q X h =
    (let h' = h\<lparr>ph_calls := Suc (ph_calls h)\<rparr> in
     if ph_outcomes h (ph_calls h) then Q () (h'\<lparr>ph_node := Node_Absent\<rparr>) else X (Response_Error ''state_release_failed'') h')"
  using assms by (simp add: delete_state_def node_metadata_def trusted_node_def act_rules Let_def)

lemma release_state_safe:
  assumes laws: "pf_laws P tokens anchor" and s: "ph_node h = Node_State s"
    and gone: "\<And>h'. ph_node h' = Node_Absent \<Longrightarrow> anchor (ph_external h') = [] \<Longrightarrow> ps_token s \<notin> tokens (ph_external h') \<Longrightarrow> Q () h'"
    and kept: "\<And>e h'. ph_node h' = Node_State s \<Longrightarrow> X e h'"
  shows "ensures (release_state P s) Q X h"
  unfolding release_state_def act_rules
  by (rule ensures_run_pf; (rule ensures_run_pf)?)
    (auto simp: ensures_delete_state act_rules s Let_def intro!: kept gone dest!: pf_law_Flush [OF laws] pf_law_Disable [OF laws])

text \<open>
  C1. The state file is given up only for the containment itself. Whatever fails, reconciling a host
  that holds a state leaves either the state where it is, so that the release is tried again, or no
  state, no rules in the anchor and no enable reference of its own; it reports an expiry exactly in the
  second case, and before the deadline it does not touch the packet filter.
\<close>

theorem containment_kept_or_released:
  assumes laws: "pf_laws P tokens anchor" and state: "ph_node h = Node_State s"
    and run: "reconcile P A (Aware t) h = (r, h')"
  shows "ph_node h' = Node_State s \<and> r \<noteq> Inr (Some (t, Containment_Expired)) \<and>
      (t < ps_expires s \<longrightarrow> ph_external h' = ph_external h) \<or>
    ph_node h' = Node_Absent \<and> anchor (ph_external h') = [] \<and> ps_token s \<notin> tokens (ph_external h') \<and>
      ps_expires s \<le> t \<and> r = Inr (Some (t, Containment_Expired))"
proof -
  let ?G = "\<lambda>r h'. ph_node h' = Node_State s \<and> r \<noteq> Inr (Some (t, Containment_Expired)) \<and>
      (t < ps_expires s \<longrightarrow> ph_external h' = ph_external h) \<or>
    ph_node h' = Node_Absent \<and> anchor (ph_external h') = [] \<and> ps_token s \<notin> tokens (ph_external h') \<and>
      ps_expires s \<le> t \<and> r = Inr (Some (t, Containment_Expired))"
  have "ensures (reconcile P A (Aware t)) (\<lambda>x. ?G (Inr x)) (\<lambda>e. ?G (Inl e)) h"
    unfolding reconcile_def adapter_clock_def on_response_error_def datetime.case act_rules
    by (rule ensures_read_state)
      (auto simp: state act_rules require_environment_def intro!: release_state_safe [OF laws] split: agent_error.splits)
  then show ?thesis unfolding ensures_def run by (cases r) simp_all
qed

section \<open>Isolating the endpoint\<close>

lemma ensures_True: "ensures m (\<lambda>_ _. True) (\<lambda>_ _. True) s"
  by (auto simp: ensures_def split: prod.splits sum.splits)

lemma ensures_write_state:
  assumes "\<And>n. Q () (h\<lparr>ph_node := Node_State s, ph_calls := n\<rparr>)"
    and "\<And>r n d. X (Response_Error r) (h\<lparr>ph_node := d, ph_calls := n\<rparr>)"
    and "\<And>n. X Other_Error (h\<lparr>ph_calls := n\<rparr>)"
  shows "ensures (write_state s) Q X h"
proof -
  have X: "X (Response_Error r) (h\<lparr>ph_calls := n\<rparr>)" "X (Response_Error r) h" "X Other_Error h" for r n
    using assms(2) [of r n "ph_node h"] assms(2) [of r "ph_calls h" "ph_node h"] assms(3) [of "ph_calls h"] by simp_all
  have C: "h\<lparr>ph_calls := n, ph_node := d\<rparr> = h\<lparr>ph_node := d, ph_calls := n\<rparr>" for n d by simp
  show ?thesis
    unfolding write_state_def prepare_parent_def node_metadata_def act_rules
    by (auto simp: act_rules trusted_node_def X C intro!: assms split: parent_node.split state_node.split)
qed

definition in_containment :: "'x pf_platform \<Rightarrow> pf_adapter \<Rightarrow> ('x \<Rightarrow> string set) \<Rightarrow> ('x \<Rightarrow> string) \<Rightarrow> pf_state \<Rightarrow> 'x pf_host \<Rightarrow> bool" where
  "in_containment P A tokens anchor s h \<longleftrightarrow> ph_node h = Node_State s \<and> pf_token_ok (ps_token s) \<and>
     ps_token s \<in> tokens (ph_external h) \<and> anchor (ph_external h) = pf_rules P (pa_port A) (ps_addresses s)"

lemma undo_isolation_fails: "ensures (undo_isolation P s e) Q (\<lambda>_ _. True) h"
proof -
  have refused: "ensures (thereafter m (response_refused c)) Q (\<lambda>_ _. True) h" for m :: "('a pf_host, unit) act" and c h
    unfolding act_rules by (rule ensures_True)
  have "ensures (rollback_pf P (ps_token s)) (\<lambda>ok. ensures (thereafter (m ok) (response_refused c)) Q (\<lambda>_ _. True)) (\<lambda>_ _. True) h"
    for m :: "bool \<Rightarrow> ('a pf_host, unit) act" and c
    by (rule ensures_mono [OF ensures_True]) (simp_all add: refused)
  then show ?thesis unfolding undo_isolation_def by (cases "response_code e") (simp_all add: act_rules ensures_True)
qed

lemma find_token_ok: "find_token out = Some t \<Longrightarrow> pf_token_ok t"
proof -
  have "token_after b s = Some t \<Longrightarrow> pf_token_ok t" for b s
    by (induction b s rule: token_after.induct)
      (auto simp: token_here_def Let_def split: if_splits option.splits)
  then show "find_token out = Some t \<Longrightarrow> pf_token_ok t" by (simp add: find_token_def)
qed

lemma apply_containment_safe:
  assumes laws: "pf_laws P tokens anchor"
  shows "ensures (apply_containment P A e xs)
    (\<lambda>x h'. \<exists>s. x = Now_Isolated (length xs) e \<and> ps_expires s = e \<and> ps_addresses s = xs \<and> in_containment P A tokens anchor s h')
    (\<lambda>_ _. True) h"
  unfolding apply_containment_def enable_pf_def Let_def act_rules
  by (rule ensures_run_pf)
    (auto simp: act_rules in_containment_def split: option.split
      intro!: ensures_run_pf ensures_write_state undo_isolation_fails find_token_ok dest!: pf_law_Enable [OF laws] pf_law_Load [OF laws])

lemma ensures_normalized:
  assumes "\<And>ys. 1 \<le> length ys \<Longrightarrow> length ys \<le> 16 \<Longrightarrow> Q ys s" and "X (Response_Error ''management_resolution_failed'') s" and "X e s"
  shows "ensures (normalized_addresses P e xs) Q X s"
  unfolding normalized_addresses_def act_rules using assms(1) [of "address_set P xs"] assms(2,3)
  by (auto simp: Suc_le_eq)

lemma ensures_fixed_host:
  assumes "\<And>ys x. 1 \<le> length ys \<Longrightarrow> length ys \<le> 16 \<Longrightarrow> Q ys (h\<lparr>ph_external := x\<rparr>)" and "\<And>e x. X e (h\<lparr>ph_external := x\<rparr>)"
  shows "ensures (fixed_host_resolve P A) Q X h"
proof -
  obtain r x where r: "px_resolve P (pa_host A) (pa_port A) (ph_external h) = (r, x)" by fastforce
  show ?thesis unfolding fixed_host_resolve_def ensures_chain
    using assms r by (cases r) (auto simp: ensures_def [where s = h] intro!: ensures_normalized)
qed

definition isolated_until :: "'x pf_platform \<Rightarrow> pf_adapter \<Rightarrow> ('x \<Rightarrow> string set) \<Rightarrow> ('x \<Rightarrow> string) \<Rightarrow> instant \<Rightarrow>
    containment_result \<Rightarrow> 'x pf_host \<Rightarrow> bool" where
  "isolated_until P A tokens anchor e x h' \<longleftrightarrow> (\<forall>n d. x = Now_Isolated n d \<longrightarrow> d = e \<and> 1 \<le> n \<and> n \<le> 16 \<and>
     (\<exists>s. ps_expires s = e \<and> length (ps_addresses s) = n \<and> in_containment P A tokens anchor s h'))"

lemma fresh_containment_safe:
  assumes laws: "pf_laws P tokens anchor"
  shows "ensures (chain (chain (fixed_host_resolve P A) (validated_management_ips P)) (apply_containment P A e))
    (isolated_until P A tokens anchor e) (\<lambda>_ _. True) h"
  unfolding ensures_chain validated_management_ips_def
  by (intro ensures_fixed_host ensures_normalized ensures_mono [OF apply_containment_safe [OF laws]] TrueI)
    (auto simp: isolated_until_def)

lemma isolate_safe:
  assumes laws: "pf_laws P tokens anchor"
  shows "ensures (isolate P A expires t) (isolated_until P A tokens anchor (min expires (t + max_containment))) (\<lambda>_ _. True) h"
proof -
  have "ensures (release_state P s) (\<lambda>_. Q) (\<lambda>_ _. True) h" if "\<And>h. Q h" for s Q h
    by (rule ensures_mono [OF ensures_True]) (simp_all add: that)
  note released = this [OF fresh_containment_safe [OF laws]]
  have unchanged: "isolated_until P A tokens anchor e Already_Isolated h" for e h
    by (simp add: isolated_until_def)
  show ?thesis unfolding isolate_def Let_def ensures_chain [of read_state]
    by (intro ensures_read_state)
      (simp_all add: ensures_thereafter ensures_give released unchanged fresh_containment_safe [OF laws])
qed

lemma execute_isolated:
  assumes laws: "pf_laws P tokens anchor"
    and run: "execute_action P A kind target expires now h = (Inr (Now_Isolated n e), h')"
  shows "kind = Isolate_Endpoint \<and> target = pa_device A \<and> pa_enabled A \<and> pa_darwin A \<and> pa_root A \<and> 1 \<le> n \<and> n \<le> 16 \<and>
    (\<exists>t s. now = Aware t \<and> t < e \<and> e \<le> expires \<and> e \<le> t + minutes 15 \<and> ps_expires s = e \<and>
      length (ps_addresses s) = n \<and> in_containment P A tokens anchor s h')"
proof -
  let ?Q = "\<lambda>x h'. \<forall>n e. x = Now_Isolated n e \<longrightarrow> kind = Isolate_Endpoint \<and> target = pa_device A \<and>
      pa_enabled A \<and> pa_darwin A \<and> pa_root A \<and> 1 \<le> n \<and> n \<le> 16 \<and>
      (\<exists>t s. now = Aware t \<and> t < e \<and> e \<le> expires \<and> e \<le> t + minutes 15 \<and> ps_expires s = e \<and>
        length (ps_addresses s) = n \<and> in_containment P A tokens anchor s h')"
  have released: "ensures (release P) (\<lambda>x _. \<forall>n e. x \<noteq> Now_Isolated n e) (\<lambda>_ _. True) h" for h :: "'a pf_host"
    unfolding release_def ensures_chain
    by (intro ensures_read_state) (simp_all add: act_rules ensures_mono [OF ensures_True])
  have "ensures (execute_action P A kind target expires now) ?Q (\<lambda>_ _. True) h"
  proof (cases now)
    case (Aware t)
    have "0 < minutes 15" by (simp add: minutes_def)
    then have "ensures (isolate P A expires t) ?Q (\<lambda>_ _. True) h"
      if "target = pa_device A" "t < expires" "kind = Isolate_Endpoint" "pa_enabled A" "pa_darwin A" "pa_root A" for h
      by (intro ensures_mono [OF isolate_safe [OF laws]])
        (auto simp: isolated_until_def max_containment_def Aware that min_def split: if_splits)
    then show ?thesis unfolding Aware execute_action_def adapter_clock_def require_environment_def
      by (cases kind) (simp_all add: act_rules released)
  qed (simp add: execute_action_def adapter_clock_def act_rules)
  then show ?thesis by (simp add: ensures_def run)
qed

text \<open>
  C1. Containment is authorized, real and bounded. When an action is answered with a fresh isolation, the
  adapter is enabled and runs as root on macOS, the action names this device and has not expired, the
  deadline is at most the action's and at most fifteen minutes away, the anchor holds the rules for the
  one to sixteen management addresses, and the state file holds the deadline, the addresses and a
  reference the packet filter really keeps, so that the containment can be released.
\<close>

theorem containment_authorized_and_bounded:
  assumes laws: "pf_laws P tokens anchor"
    and run: "execute_action P A kind target expires now h = (Inr (Now_Isolated n e), h')"
  shows "kind = Isolate_Endpoint \<and> target = pa_device A \<and> pa_enabled A \<and> pa_darwin A \<and> pa_root A \<and> 1 \<le> n \<and> n \<le> 16 \<and>
    (\<exists>t s. now = Aware t \<and> t < e \<and> e \<le> expires \<and> e \<le> t + minutes 15 \<and> ps_expires s = e \<and>
      length (ps_addresses s) = n \<and> in_containment P A tokens anchor s h')"
  by (rule execute_isolated [OF laws run])

lemma release_state_works:
  assumes laws: "pf_laws P tokens anchor" and works: "pf_works P" "\<forall>k. ph_outcomes h k"
    and s: "ph_node h = Node_State s" "pf_token_ok (ps_token s)"
  shows "ensures (release_state P s)
    (\<lambda>_ h'. ph_node h' = Node_Absent \<and> anchor (ph_external h') = [] \<and> ps_token s \<notin> tokens (ph_external h')) (\<lambda>_ _. False) h"
proof -
  have w: "px_run P c x \<noteq> (None, x')" for c x x' using works(1) unfolding pf_works_def by (metis fst_conv)
  show ?thesis unfolding release_state_def act_rules
    by (rule ensures_run_pf; (rule ensures_run_pf)?)
      (auto simp: ensures_delete_state act_rules s w works(2) Let_def pf_allowed_def
        dest!: pf_law_Flush [OF laws] pf_law_Disable [OF laws])
qed

text \<open>
  C1. Containment ends. After an isolation at time \<open>t\<close>, a reconciliation at least fifteen minutes later
  on the same host finds the state file the isolation wrote and, when the packet filter and the file
  system work, releases the endpoint: no rules are left in the anchor, the reference is given back, the
  state file is gone, and the expiry is reported; whether the adapter is still enabled does not matter.
\<close>

theorem containment_ends:
  assumes laws: "pf_laws P tokens anchor" and works: "pf_works P" "\<forall>k. ph_outcomes h2 k"
    and run: "execute_action P A kind target expires (Aware t) h = (Inr (Now_Isolated n e), h1)"
    and later: "ph_node h2 = ph_node h1" "t + minutes 15 \<le> t'" "pa_darwin A2" "pa_root A2"
  shows "\<exists>h3. reconcile P A2 (Aware t') h2 = (Inr (Some (t', Containment_Expired)), h3) \<and> ph_node h3 = Node_Absent \<and>
    anchor (ph_external h3) = [] \<and> (\<forall>s. ph_node h1 = Node_State s \<longrightarrow> ps_token s \<notin> tokens (ph_external h3))"
proof -
  obtain s where s: "ph_node h1 = Node_State s" "ps_expires s \<le> t + minutes 15" "pf_token_ok (ps_token s)"
    using execute_isolated [OF laws run] by (auto simp: in_containment_def)
  have "ensures (reconcile P A2 (Aware t')) (\<lambda>x h3. x = Some (t', Containment_Expired) \<and> ph_node h3 = Node_Absent \<and>
      anchor (ph_external h3) = [] \<and> ps_token s \<notin> tokens (ph_external h3)) (\<lambda>_ _. False) h2"
  proof -
    let ?h = "h2\<lparr>ph_calls := Suc (ph_calls h2)\<rparr>"
    have "ensures read_state Q X h2 = Q (Some s) ?h" for Q X
      using s(1) later(1) works(2) by (simp add: read_state_def node_metadata_def trusted_node_def act_rules)
    moreover have "ensures (release_state P s) (\<lambda>_ h'. ph_node h' = Node_Absent \<and> anchor (ph_external h') = [] \<and>
        ps_token s \<notin> tokens (ph_external h')) (\<lambda>_ _. False) ?h"
      using s(1,3) later(1) works by (intro release_state_works [OF laws]) simp_all
    ultimately show ?thesis
      using s(2) later unfolding reconcile_def adapter_clock_def on_response_error_def
      by (auto simp: act_rules require_environment_def elim: ensures_mono)
  qed
  then show ?thesis using s(1) unfolding ensures_def by (auto split: prod.splits sum.splits)
qed

section \<open>When an isolation fails\<close>

definition same_filter :: "'x pf_host \<Rightarrow> 'x pf_host \<Rightarrow> bool" where
  "same_filter h h' \<longleftrightarrow> ph_external h' = ph_external h"

lemma read_state_filter: "ensures read_state (\<lambda>_. same_filter h) (\<lambda>_. same_filter h) h"
  by (rule ensures_read_state) (simp_all add: same_filter_def)

lemma write_state_filter: "ensures (write_state s) (\<lambda>_. same_filter h) (\<lambda>_. same_filter h) h"
  by (rule ensures_write_state) (simp_all add: same_filter_def)

lemma delete_state_filter: "ensures delete_state (\<lambda>_. same_filter h) (\<lambda>_. same_filter h) h"
  unfolding delete_state_def node_metadata_def trusted_node_def
  by (auto simp: same_filter_def act_rules split: state_node.split)

lemma same_filter_refl [simp]: "same_filter h h"
  by (simp add: same_filter_def)

lemma same_filterD: "same_filter h h' \<Longrightarrow> ph_external h' = ph_external h"
  by (simp add: same_filter_def)

definition pf_undo_works :: "'x pf_platform \<Rightarrow> ('x \<Rightarrow> string) \<Rightarrow> bool" where
  "pf_undo_works P anchor \<longleftrightarrow> (\<forall>x. fst (px_run P Pf_Flush x) \<noteq> None) \<and> (\<forall>t x. fst (px_run P (Pf_Disable t) x) \<noteq> None) \<and>
     (\<forall>x x'. px_run P Pf_Enable x = (None, x') \<longrightarrow> anchor x' = anchor x)"

definition unblocked :: "('x \<Rightarrow> string) \<Rightarrow> agent_error \<Rightarrow> 'x pf_host \<Rightarrow> bool" where
  "unblocked anchor e h \<longleftrightarrow> (\<forall>r. e = Response_Error r \<longrightarrow> anchor (ph_external h) = [])"

lemma unblocked_rules [simp]:
  "unblocked anchor (Response_Error r) h \<longleftrightarrow> anchor (ph_external h) = []"
  "unblocked anchor (Value_Error v) h" "unblocked anchor Other_Error h" "unblocked anchor Pfctl_Error h"
  by (simp_all add: unblocked_def)

lemma unblockedI: "anchor (ph_external h) = [] \<Longrightarrow> unblocked anchor e h"
  by (simp add: unblocked_def)

lemma rollback_unblocks:
  assumes laws: "pf_laws P tokens anchor" and works: "pf_undo_works P anchor"
  shows "ensures (rollback_pf P t) (\<lambda>ok h'. anchor (ph_external h') = []) (unblocked anchor) h"
proof -
  have w: "px_run P Pf_Flush x \<noteq> (None, x')" "px_run P (Pf_Disable t) x \<noteq> (None, x')" for t x x'
    using works unfolding pf_undo_works_def by (metis fst_conv)+
  show ?thesis unfolding rollback_pf_def try_pf_def act_rules
    by (rule ensures_run_pf; (rule ensures_run_pf)?)
      (auto simp: act_rules w dest!: pf_law_Flush [OF laws] pf_law_Disable [OF laws] intro!: ensures_run_pf)
qed

lemma undo_isolation_unblocks:
  assumes laws: "pf_laws P tokens anchor" and works: "pf_undo_works P anchor"
  shows "ensures (undo_isolation P s e) Q (unblocked anchor) h"
proof (cases "response_code e")
  case (Some r)
  have keep: "ensures m (\<lambda>_ h'. anchor (ph_external h') = []) (unblocked anchor) h"
    if "ensures m (\<lambda>_. same_filter h) (\<lambda>_. same_filter h) h" "anchor (ph_external h) = []" for m :: "('a pf_host, 'b) act" and h
    by (rule ensures_mono [OF that(1)]) (simp_all add: unblocked_def same_filter_def that(2))
  have quiet: "ensures (quietly m) (\<lambda>_ h'. anchor (ph_external h') = []) (unblocked anchor) h"
    if "ensures m (\<lambda>_ h'. anchor (ph_external h') = []) (unblocked anchor) h" for m :: "('a pf_host, unit) act" and h
    unfolding quietly_def act_rules
    by (rule ensures_mono [OF that]) (auto simp: act_rules split: agent_error.split)
  have reads: "ensures (chain read_state f) (\<lambda>_ h'. anchor (ph_external h') = []) (unblocked anchor) h"
    if "anchor (ph_external h) = []" "\<And>x h. ensures (f x) (\<lambda>_. same_filter h) (\<lambda>_. same_filter h) h"
    for f :: "pf_state option \<Rightarrow> ('a pf_host, unit) act" and h
    unfolding ensures_chain
    by (rule ensures_mono [OF read_state_filter])
      (auto simp: unblocked_def that(1) dest: same_filterD intro!: keep that(2))
  have discard: "ensures (discard_failed_state t) (\<lambda>_ h'. anchor (ph_external h') = []) (unblocked anchor) h"
    if "anchor (ph_external h) = []" for t h
    unfolding discard_failed_state_def
    by (rule quiet [OF reads [OF that]]) (auto simp: act_rules delete_state_filter split: option.split)
  have preserve: "ensures (preserve_failed_rollback s) (\<lambda>_ h'. anchor (ph_external h') = []) (unblocked anchor) h"
    if "anchor (ph_external h) = []" for h
    unfolding preserve_failed_rollback_def
    by (rule quiet [OF reads [OF that]]) (simp add: act_rules write_state_filter)
  show ?thesis unfolding undo_isolation_def Some option.case act_rules
    by (intro ensures_mono [OF rollback_unblocks [OF laws works]])
      (auto simp: act_rules intro: ensures_mono [OF discard] ensures_mono [OF preserve])
qed (simp add: undo_isolation_def act_rules unblocked_def response_code_def split: agent_error.splits)

text \<open>
  C1. A failed isolation does not cut the endpoint off. If flushing the anchor and giving back a
  reference work, and nothing was loaded before, then an action that is refused with a response error
  leaves no rules in the anchor, whichever step failed.
\<close>

theorem failed_isolation_unblocks:
  assumes laws: "pf_laws P tokens anchor" and works: "pf_undo_works P anchor"
    and before: "anchor (ph_external h) = []"
    and run: "execute_action P A kind target expires now h = (Inl (Response_Error r), h')"
  shows "anchor (ph_external h') = []"
proof -
  let ?Q = "\<lambda>_ _. True" and ?K = "\<lambda>_ h'. anchor (ph_external h') = []"
  have kept: "ensures m ?K (unblocked anchor) h" if "ensures m (\<lambda>_. same_filter h) (\<lambda>_. same_filter h) h" "anchor (ph_external h) = []"
    for m :: "('a pf_host, 'b) act" and h
    by (rule ensures_mono [OF that(1)]) (simp_all add: unblocked_def same_filter_def that(2))
  have w: "px_run P Pf_Flush x \<noteq> (None, x')" "px_run P (Pf_Disable t) x \<noteq> (None, x')" for t x x'
    using works unfolding pf_undo_works_def by (metis fst_conv)+
  have released: "ensures (release_state P s) ?K (unblocked anchor) h" if "anchor (ph_external h) = []" for s h
    unfolding release_state_def act_rules using that
    by (intro ensures_run_pf)
      (auto simp: act_rules same_filter_def w intro!: unblockedI ensures_run_pf ensures_mono [OF delete_state_filter]
        split: agent_error.split dest!: pf_law_Flush [OF laws] pf_law_Disable [OF laws])
  have enable: "anchor x' = anchor x" if "px_run P Pf_Enable x = (o', x')" for x o' x'
    using that works pf_law_Enable [OF laws] unfolding pf_undo_works_def by (cases o') auto
  have applied: "ensures (apply_containment P A e xs) ?Q (unblocked anchor) h" if "anchor (ph_external h) = []" for e xs h
    unfolding apply_containment_def enable_pf_def Let_def act_rules using that
    by (intro ensures_run_pf)
      (auto simp: act_rules intro!: unblockedI ensures_mono [OF undo_isolation_unblocks [OF laws works]] ensures_run_pf ensures_write_state
        split: option.split dest!: enable)
  have fresh: "ensures (chain (chain (fixed_host_resolve P A) (validated_management_ips P)) (apply_containment P A e)) ?Q (unblocked anchor) h"
    if "anchor (ph_external h) = []" for e h
  proof -
    obtain o' x where r: "px_resolve P (pa_host A) (pa_port A) (ph_external h) = (o', x)" by fastforce
    have "anchor x = []" using pf_law_resolve [OF laws r] that by simp
    then show ?thesis unfolding fixed_host_resolve_def validated_management_ips_def ensures_chain
      using r by (cases o') (auto simp: ensures_def [where s = h] intro!: unblockedI ensures_normalized applied)
  qed
  have isolated: "ensures (isolate P A expires t) ?Q (unblocked anchor) h" for t
    unfolding isolate_def Let_def ensures_chain [of read_state]
    using before by (intro ensures_read_state)
      (auto simp: ensures_thereafter ensures_give intro!: unblockedI fresh ensures_mono [OF released])
  have left: "ensures (release P) ?Q (unblocked anchor) h"
    unfolding release_def ensures_chain
    using before by (intro ensures_read_state) (auto simp: act_rules intro!: unblockedI ensures_mono [OF released])
  have "ensures (execute_action P A kind target expires now) ?Q (unblocked anchor) h"
    unfolding execute_action_def adapter_clock_def require_environment_def
    using before by (cases now; cases kind) (simp_all add: act_rules isolated left)
  then show ?thesis by (simp add: ensures_def run)
qed

definition addresses_ok :: "'x pf_platform \<Rightarrow> string list \<Rightarrow> bool" where
  "addresses_ok P xs \<longleftrightarrow> (\<forall>a \<in> set xs. px_address P a \<noteq> None) \<and> address_set P xs \<noteq> [] \<and> length (address_set P xs) \<le> 16"

lemma normalized_addresses_ok: "addresses_ok P xs \<Longrightarrow> normalized_addresses P e xs s = (Inr (address_set P xs), s)"
  by (auto simp: addresses_ok_def normalized_addresses_def thereafter_def chain_def refuse_if_def give_def)

lemma ensures_normalized_ok:
  assumes "addresses_ok P xs \<Longrightarrow> Q (address_set P xs) s"
  shows "ensures (normalized_addresses P e xs) Q (\<lambda>_ _. True) s"
  using assms unfolding normalized_addresses_def act_rules by (auto simp: addresses_ok_def)

lemma fresh_containment_run:
  "ensures (chain (chain (fixed_host_resolve P A) (validated_management_ips P)) (apply_containment P A e))
     (\<lambda>_ h'. \<exists>zs x ys out x1 tok out2. px_resolve P (pa_host A) (pa_port A) (ph_external h) = (Some zs, x) \<and>
        addresses_ok P zs \<and> addresses_ok P (address_set P zs) \<and> ys = address_set P (address_set P zs) \<and>
        px_run P Pf_Enable x = (Some out, x1) \<and> find_token (take 1024 out) = Some tok \<and>
        px_run P (Pf_Load (pf_rules P (pa_port A) ys)) x1 = (Some out2, ph_external h')) (\<lambda>_ _. True) h"
proof -
  obtain r x where r: "px_resolve P (pa_host A) (pa_port A) (ph_external h) = (r, x)" by fastforce
  have "ensures (apply_containment P A e ys) (\<lambda>_ h'. \<exists>out x1 tok out2. px_run P Pf_Enable (ph_external h) = (Some out, x1) \<and>
      find_token (take 1024 out) = Some tok \<and> px_run P (Pf_Load (pf_rules P (pa_port A) ys)) x1 = (Some out2, ph_external h'))
      (\<lambda>_ _. True) h" for ys h
    unfolding apply_containment_def enable_pf_def Let_def act_rules
    by (intro ensures_run_pf)
      (auto simp: act_rules split: option.split intro!: ensures_run_pf ensures_write_state undo_isolation_fails)
  note applied = ensures_mono [OF this]
  show ?thesis unfolding fixed_host_resolve_def validated_management_ips_def ensures_chain
    using r by (cases r) (auto simp: ensures_def [where s = h] intro!: ensures_normalized_ok applied)
qed

lemma write_state_no_temporary:
  "ph_parent h = Parent_Trusted \<Longrightarrow> ph_node h = Node_Absent \<Longrightarrow> \<not> ph_temporary h \<Longrightarrow> write_state s h = (Inl Other_Error, h)"
  by (simp add: write_state_def prepare_parent_def node_metadata_def trusted_node_def thereafter_def chain_def look_def
      give_def refuse_if_def refuse_def)

lemma pf_rules_not_empty: "pf_rules P port ys \<noteq> []"
  by (simp add: pf_rules_def)

lemma apply_containment_no_temporary:
  assumes "ph_parent h = Parent_Trusted" "ph_node h = Node_Absent" "\<not> ph_temporary h"
    and "px_run P Pf_Enable (ph_external h) = (Some out, x1)" "find_token (take 1024 out) = Some tok"
    and "px_run P (Pf_Load (pf_rules P (pa_port A) ys)) x1 = (Some out2, x2)"
  shows "apply_containment P A e ys h = (Inl Other_Error, h\<lparr>ph_external := x2\<rparr>)"
proof -
  have run: "run_pf P c g = (Inr (take 1024 o'), g\<lparr>ph_external := x'\<rparr>)"
    if "pf_allowed c" "px_run P c (ph_external g) = (Some o', x')" for c g o' x'
    using that by (simp add: run_pf_def thereafter_def chain_def refuse_if_def give_def)
  have allowed: "pf_allowed Pf_Enable" "pf_allowed (Pf_Load (pf_rules P (pa_port A) ys))"
    by (simp_all add: pf_allowed_def pf_rules_not_empty)
  have "enable_pf P h = (Inr tok, h\<lparr>ph_external := x1\<rparr>)"
    using run [OF allowed(1) assms(4)] assms(5) by (simp add: enable_pf_def chain_def attempt_def give_def)
  moreover have "run_pf P (Pf_Load (pf_rules P (pa_port A) ys)) (h\<lparr>ph_external := x1\<rparr>) = (Inr (take 1024 out2), h\<lparr>ph_external := x2\<rparr>)"
    using run [OF allowed(2), of "h\<lparr>ph_external := x1\<rparr>"] assms(6) by simp
  ultimately show ?thesis
    using assms(1-3) by (simp add: apply_containment_def Let_def chain_def thereafter_def attempt_def write_state_no_temporary
      undo_isolation_def response_code_def refuse_def)
qed

lemma read_state_absent: "ph_node h = Node_Absent \<Longrightarrow> read_state h = (Inr None, h)"
  by (simp add: read_state_def node_metadata_def chain_def look_def give_def)

lemma isolate_absent:
  "ph_node h = Node_Absent \<Longrightarrow> isolate P A expires t h =
    chain (chain (fixed_host_resolve P A) (validated_management_ips P)) (apply_containment P A (min expires (t + max_containment))) h"
  by (simp add: isolate_def Let_def chain_def [of read_state] read_state_absent)

text \<open>
  C1. Without a temporary file a containment is orphaned. If the same action would isolate a host that
  holds no state, but the temporary file of the state cannot be created, then the rules that cut the
  endpoint off are loaded and stay loaded, the reference is not given back, no state file is written,
  and no later reconciliation ever does anything: the fifteen-minute deadline does not exist. The error is
  not one the rollback of \<open>_isolate\<close> catches.
\<close>

theorem containment_orphaned:
  assumes run: "execute_action P A kind target expires now (h\<lparr>ph_temporary := True\<rparr>) = (Inr (Now_Isolated n e), h1)"
    and host: "ph_node h = Node_Absent" "ph_parent h = Parent_Trusted" "\<not> ph_temporary h"
  shows "\<exists>h2. execute_action P A kind target expires now h = (Inl Other_Error, h2) \<and> ph_external h2 = ph_external h1 \<and>
    ph_node h2 = Node_Absent \<and> (\<forall>A2 t. reconcile P A2 (Aware t) h2 = (Inr None, h2))"
proof -
  let ?h = "h\<lparr>ph_temporary := True\<rparr>"
  have "ensures (execute_action P A kind target expires now)
      (\<lambda>x h'. \<forall>n e. x = Now_Isolated n e \<longrightarrow> kind = Isolate_Endpoint \<and> target = pa_device A \<and>
        pa_enabled A \<and> pa_darwin A \<and> pa_root A \<and> (\<exists>t. now = Aware t \<and> t < expires)) (\<lambda>_ _. True) ?h"
    using host unfolding execute_action_def adapter_clock_def require_environment_def release_def
    by (cases now; cases kind) (simp_all add: act_rules ensures_def [of read_state] read_state_absent ensures_mono [OF ensures_True])
  then obtain t where g: "kind = Isolate_Endpoint" "target = pa_device A" "pa_enabled A" "pa_darwin A" "pa_root A"
      "now = Aware t" "t < expires"
    by (auto simp: ensures_def run)
  have guards: "execute_action P A kind target expires now g = isolate P A expires t g" for g :: "'a pf_host"
    using g by (simp add: execute_action_def adapter_clock_def require_environment_def chain_def thereafter_def refuse_if_def give_def)
  obtain zs x ys out x1 tok out2 where r:
      "px_resolve P (pa_host A) (pa_port A) (ph_external h) = (Some zs, x)" "addresses_ok P zs" "addresses_ok P (address_set P zs)"
      "ys = address_set P (address_set P zs)" "px_run P Pf_Enable x = (Some out, x1)" "find_token (take 1024 out) = Some tok"
      "px_run P (Pf_Load (pf_rules P (pa_port A) ys)) x1 = (Some out2, ph_external h1)"
    using run fresh_containment_run [of P A "min expires (t + max_containment)" ?h] host
    unfolding guards by (simp add: isolate_absent ensures_def) blast
  let ?h2 = "h\<lparr>ph_external := ph_external h1\<rparr>"
  have "execute_action P A kind target expires now h = (Inl Other_Error, ?h2)"
    using host r apply_containment_no_temporary [where h = "h\<lparr>ph_external := x\<rparr>" and P = P and A = A, OF _ _ _ _ r(6) r(7)]
    unfolding guards isolate_absent [OF host(1)] chain_def [of "chain _ _"] fixed_host_resolve_def validated_management_ips_def
    by (simp add: chain_def normalized_addresses_ok)
  moreover have "reconcile P A2 (Aware t) ?h2 = (Inr None, ?h2)" for A2 t
    using host(1) by (simp add: reconcile_def adapter_clock_def on_response_error_def chain_def attempt_def give_def read_state_absent)
  ultimately show ?thesis using host(1) by simp
qed

definition sample_platform :: "(string list \<times> string) pf_platform" where
  "sample_platform = \<lparr>px_run = (\<lambda>c (ts, a). case c of
       Pf_Enable \<Rightarrow> (Some ''Token : 7'', ''7'' # ts, a)
     | Pf_Load r \<Rightarrow> (Some [], ts, r)
     | Pf_Flush \<Rightarrow> (Some [], ts, [])
     | Pf_Disable t \<Rightarrow> (Some [], filter (\<lambda>u. u \<noteq> t) ts, a)),
     px_resolve = (\<lambda>_ _ x. (Some [''192.0.2.1''], x)), px_address = Some, px_version4 = (\<lambda>_. True)\<rparr>"

definition sample_pf_host :: "(string list \<times> string) pf_host" where
  "sample_pf_host = \<lparr>ph_parent = Parent_Trusted, ph_node = Node_Absent, ph_temporary = True, ph_outcomes = (\<lambda>_. True), ph_calls = 0,
     ph_external = ([], [])\<rparr>"

definition sample_adapter :: pf_adapter where
  "sample_adapter = \<lparr>pa_enabled = True, pa_device = ''mac-1'', pa_host = ''localhost'', pa_port = 8443, pa_darwin = True, pa_root = True\<rparr>"


definition full_disk :: "(string list \<times> string) pf_host" where
  "full_disk = sample_pf_host\<lparr>ph_outcomes := (\<lambda>k. k \<noteq> 0)\<rparr>"

lemma sample_token: "find_token ''Token : 7'' = Some ''7''"
  by code_simp

lemma sample_addresses: "sorted_set [''192.0.2.1''] = [''192.0.2.1'']"
  by code_simp

lemma sample_commands:
  "px_run sample_platform Pf_Enable ([], []) = (Some ''Token : 7'', [''7''], [])"
  "px_run sample_platform (Pf_Load r) ([''7''], a) = (Some [], [''7''], r)"
  "px_run sample_platform Pf_Flush (ts, a) = (Some [], ts, [])"
  "px_run sample_platform (Pf_Disable t) (ts, a) = (Some [], filter (\<lambda>u. u \<noteq> t) ts, a)"
  "px_address sample_platform = Some" "px_resolve sample_platform h p x = (Some [''192.0.2.1''], x)"
  by (simp_all add: sample_platform_def)

lemmas adapter_defs = execute_action_def adapter_clock_def require_environment_def isolate_def read_state_def node_metadata_def
  trusted_node_def fixed_host_resolve_def validated_management_ips_def normalized_addresses_def address_set_def
  apply_containment_def enable_pf_def run_pf_def write_state_def prepare_parent_def set_node_def system_call_def
  chain_def thereafter_def attempt_def look_def change_def give_def refuse_if_def refuse_def response_refused_def Let_def
  pf_allowed_def pf_token_ok_def pf_rules_not_empty undo_isolation_def response_code_def rollback_pf_def try_pf_def
  discard_failed_state_def quietly_def

lemma sample_isolated:
  "execute_action sample_platform sample_adapter Isolate_Endpoint ''mac-1'' 100 (Aware 0) sample_pf_host =
    (Inr (Now_Isolated 1 100), sample_pf_host\<lparr>ph_node := Node_State \<lparr>ps_token = ''7'', ps_expires = 100, ps_addresses = [''192.0.2.1'']\<rparr>,
       ph_calls := 2, ph_external := ([''7''], pf_rules sample_platform 8443 [''192.0.2.1''])\<rparr>)"
  by (simp add: adapter_defs sample_adapter_def sample_pf_host_def sample_token sample_addresses sample_commands
    max_containment_def minutes_def)

lemma sample_refused:
  "fst (execute_action sample_platform sample_adapter Isolate_Endpoint ''mac-1'' 100 (Aware 0) full_disk) =
    Inl (Response_Error ''state_persistence_failed'')"
  by (simp add: adapter_defs sample_adapter_def sample_pf_host_def full_disk_def sample_token sample_addresses sample_commands
    max_containment_def minutes_def is_digit_def code_def)

lemma sample_laws: "pf_laws sample_platform (set \<circ> fst) snd"
  unfolding pf_laws_def sample_platform_def by (auto simp: sample_token)

lemma sample_works: "pf_works sample_platform" "pf_undo_works sample_platform snd"
  by (auto simp: pf_works_def pf_undo_works_def sample_platform_def split: pf_command.split)

theorem containment_authorized_and_bounded_witness:
  "\<exists>h'. execute_action sample_platform sample_adapter Isolate_Endpoint ''mac-1'' 100 (Aware 0) sample_pf_host = (Inr (Now_Isolated 1 100), h') \<and>
    (\<exists>s. in_containment sample_platform sample_adapter (set \<circ> fst) snd s h')"
  using containment_authorized_and_bounded [OF sample_laws sample_isolated] sample_isolated by blast

definition later_host :: "(string list \<times> string) pf_host" where
  "later_host = sample_pf_host\<lparr>ph_node := Node_State \<lparr>ps_token = ''7'', ps_expires = 100, ps_addresses = [''192.0.2.1'']\<rparr>,
     ph_external := ([''7''], pf_rules sample_platform 8443 [''192.0.2.1''])\<rparr>"

theorem containment_ends_witness:
  "\<exists>h3. reconcile sample_platform sample_adapter (Aware 900000000) later_host =
    (Inr (Some (900000000, Containment_Expired)), h3) \<and> ph_node h3 = Node_Absent \<and> snd (ph_external h3) = []"
proof -
  have c: "\<forall>k. ph_outcomes later_host k" "pa_darwin sample_adapter" "pa_root sample_adapter" "(0 :: instant) + minutes 15 \<le> 900000000"
    by (simp_all add: later_host_def sample_pf_host_def sample_adapter_def minutes_def)
  show ?thesis
    using containment_ends [OF sample_laws sample_works(1) c(1) sample_isolated _ c(4,2,3)] by (auto simp: later_host_def)
qed

theorem containment_kept_or_released_witness:
  "ph_node (snd (reconcile sample_platform sample_adapter (Aware 50) later_host)) =
    Node_State \<lparr>ps_token = ''7'', ps_expires = 100, ps_addresses = [''192.0.2.1'']\<rparr>"
proof -
  have s: "ph_node later_host = Node_State \<lparr>ps_token = ''7'', ps_expires = 100, ps_addresses = [''192.0.2.1'']\<rparr>"
    by (simp add: later_host_def)
  show ?thesis
    using containment_kept_or_released [OF sample_laws s, of sample_adapter 50 "fst (reconcile sample_platform sample_adapter (Aware 50) later_host)"
      "snd (reconcile sample_platform sample_adapter (Aware 50) later_host)"] by simp
qed

theorem failed_isolation_unblocks_witness:
  "\<exists>h'. execute_action sample_platform sample_adapter Isolate_Endpoint ''mac-1'' 100 (Aware 0) full_disk =
      (Inl (Response_Error ''state_persistence_failed''), h') \<and> snd (ph_external h') = []"
proof -
  obtain h' where h: "execute_action sample_platform sample_adapter Isolate_Endpoint ''mac-1'' 100 (Aware 0) full_disk =
      (Inl (Response_Error ''state_persistence_failed''), h')"
    using sample_refused by (metis prod.collapse)
  have "snd (ph_external full_disk) = []" by (simp add: full_disk_def sample_pf_host_def)
  from failed_isolation_unblocks [OF sample_laws sample_works(2) this h] h show ?thesis by blast
qed

theorem containment_orphaned_witness:
  "\<exists>h2. execute_action sample_platform sample_adapter Isolate_Endpoint ''mac-1'' 100 (Aware 0) (sample_pf_host\<lparr>ph_temporary := False\<rparr>) =
      (Inl Other_Error, h2) \<and> snd (ph_external h2) \<noteq> [] \<and>
    reconcile sample_platform sample_adapter (Aware 900000000) h2 = (Inr None, h2)"
proof -
  let ?h = "sample_pf_host\<lparr>ph_temporary := False\<rparr>"
  have r: "ph_node ?h = Node_Absent" "ph_parent ?h = Parent_Trusted" "\<not> ph_temporary ?h" "?h\<lparr>ph_temporary := True\<rparr> = sample_pf_host"
    by (simp_all add: sample_pf_host_def)
  from containment_orphaned [where h = ?h, unfolded r(4), OF sample_isolated r(1-3)] show ?thesis
    using pf_rules_not_empty by fastforce
qed

end
