(* ===== verification/Spec2Isabelle.thy ===== *)
theory Spec2Isabelle
  imports Lifecycle Worker Retention Rate_Limit Detections Rotation Agent_Client Controls Santa Pf_Adapter
begin

text \<open>
  A verification of the ControlForge standalone appliance.
\<close>

section \<open>The appliance's calls\<close>

text \<open>
  One constructor per call that reaches the services: the dashboard's human operations, the collectors'
  requests, the background worker and the administrative operations.
\<close>

datatype appliance_call =
    OnCase principal string case_op
  | OnResponse response_call
  | OnStore pipeline rule_book string store_op
  | RunWorker pipeline worker string string int
  | CollectorIngest pipeline nat collector_request
  | ApplyRetention principal
  | SetRetention principal int
  | OnEnrollment enrollment_call
  | OnRotation rotation_lib rotation_call
  | OnIdentity identity_call
  | OnAccount password_lib account_call
  | OnManagement managed_call
  | Team principal
  | RevokeInvite principal string

definition run_call :: "env \<Rightarrow> appliance_call \<Rightarrow> datetime \<Rightarrow> unit prog" where
  "run_call E call now = (case call of
     OnCase p cid oper \<Rightarrow> run_case_op E p cid oper now
   | OnResponse c \<Rightarrow> run_response E c now
   | OnStore L B tenant oper \<Rightarrow> run_store E L B tenant oper now
   | RunWorker L W tenant owner limit \<Rightarrow> andthen (run_once E L W tenant owner now limit) (ret ())
   | CollectorIngest L max_body R \<Rightarrow> andthen (collector_ingest E L max_body R now) (ret ())
   | ApplyRetention p \<Rightarrow> andthen (apply_retention E p now) (ret ())
   | SetRetention p n \<Rightarrow> andthen (set_policy E p n now) (ret ())
   | OnEnrollment c \<Rightarrow> run_enrollment E c now
   | OnRotation L c \<Rightarrow> run_rotation E L c now
   | OnIdentity c \<Rightarrow> run_identity E c now
   | OnAccount P c \<Rightarrow> run_account E P c now
   | OnManagement c \<Rightarrow> andthen (run_managed E c now) (ret ())
   | Team p \<Rightarrow> andthen (team p now) (ret ())
   | RevokeInvite p invite \<Rightarrow> revoke_invite E p invite now)"

fun run_calls :: "env \<Rightarrow> (appliance_call \<times> datetime) list \<Rightarrow> world \<Rightarrow> world" where
  "run_calls E [] w = w"
| "run_calls E ((call, now) # calls) w = run_calls E calls (after (run_call E call now) w)"

section \<open>The services that do not write the audit log\<close>

lemma commits_audit_store:
  "commits (audit_inv E) (ingest_on_connection F L tenant received e)"
  "commits (audit_inv E) (persist_alert F B tenant ev t a)"
  "commits (audit_inv E) (lease_one tenant owner t expires job)"
  unfolding ingest_on_connection_def insert_event_def insert_job_def persist_alert_def insert_alert_def attach_case_def insert_case_def
    insert_case_alert_def lease_one_def
  by (intro commits_rules; simp)+

lemma keeps_audit_store:
  "keeps (audit_inv E) (ingest_event F L tenant e now)"
  "keeps (audit_inv E) (ingest_events F L tenant es now)"
  "keeps (audit_inv E) (lease_jobs tenant owner limit now secs)"
  "keeps (audit_inv E) (persist_alerts_and_complete_job F B tenant job owner as now)"
  "keeps (audit_inv E) (transition_owned_job tenant job owner now ok err most delay)"
  unfolding ingest_event_def ingest_events_def lease_jobs_def lease_of_def persist_alerts_and_complete_job_def transition_owned_job_def
  by (intro keeps_rules commits_rules commits_audit_store; simp)+

lemma keeps_audit_run_store: "keeps (audit_inv E) (run_store F L B tenant oper now)"
  unfolding run_store_def complete_job_def fail_job_def
  by (auto split: store_op.split intro!: keeps_rules keeps_audit_store)

lemma keeps_audit_worker: "keeps (audit_inv E) (run_once F L W tenant owner now limit)"
  unfolding run_once_def process_job_def attempt_job_def fail_job_def
  by (intro keeps_rules keeps_audit_store reads_event reads_decide)

lemma keeps_audit_collector: "keeps (audit_inv E) (collector_ingest F L max_body R now)"
proof -
  have "keeps (audit_inv E) (authenticate F R now)"
    by (rule wp_keepsI, rule wp_mono [OF authenticate_frame]) (auto simp: consume_request_def)
  then show ?thesis
    unfolding collector_ingest_def ingest_bound_events_def by (intro keeps_rules keeps_audit_store) (auto split: sum.split intro!: keeps_rules keeps_audit_store)
qed

lemma commits_audit_devices:
  "commits (audit_inv E) (claim_transaction F token dev name platform t expires cid secret encrypted)"
  "commits (audit_inv E) (initiate_transaction tenant dev u t expires delivery_expires rotation_id replacement encrypted)"
  "commits (audit_inv E) (cancel_row r t)"
  "commits (audit_inv E) (poll_rotation F L p dev t)"
  "commits (audit_inv E) (acknowledge_rotation p t)"
  unfolding claim_transaction_def initiate_transaction_def cancel_row_def poll_rotation_def first_delivery_def acknowledge_rotation_def
    insert_device_def insert_credential_def insert_rotation_def enrollment_updates Let_def
  by (intro commits_rules keeps_resume_grant [THEN keeps_commits] keeps_require_account_grant [THEN keeps_commits]
      keeps_cipher [THEN keeps_commits] access_envelopes [THEN keeps_commits]; simp)+

lemma keeps_audit_authenticates: "keeps (audit_inv E) (authenticate F R now)"
  by (rule wp_keepsI, rule wp_mono [OF authenticate_frame]) (auto simp: consume_request_def)

lemma keeps_audit_enrollment: "keeps (audit_inv E) (run_enrollment F call now)"
proof -
  have "keeps (audit_inv E) (issue_grant F tenant u now ttl expected)" for tenant u ttl expected
    unfolding issue_grant_def insert_enrollment_def by (intro keeps_rules; simp)
  moreover have "keeps (audit_inv E) (claim_grant F token dev name platform now life)" for token dev name platform life
    unfolding claim_grant_def by (intro keeps_rules commits_audit_devices)
  moreover have "keeps (audit_inv E) (revoke_grant tenant token_id now)" for tenant token_id
    unfolding revoke_grant_def enrollment_updates by (intro keeps_rules; simp)
  moreover have "keeps (audit_inv E) (revoke_credential tenant dev cid now)" for tenant dev cid
    unfolding revoke_credential_def enrollment_updates by (intro keeps_rules commits_rules; simp)
  moreover have "keeps (audit_inv E) (revoke_device tenant dev now)" for tenant dev
    unfolding revoke_device_def enrollment_updates by (intro keeps_rules commits_rules; simp)
  ultimately show ?thesis
    by (cases call) (simp_all add: run_enrollment_def keeps_andthen keeps_ret keeps_audit_authenticates)
qed

lemma keeps_audit_rotation: "keeps (audit_inv E) (run_rotation F L call now)"
proof -
  have "keeps (audit_inv E) (initiate F tenant dev u now life window)" for tenant dev u life window
    unfolding initiate_def by (intro keeps_rules commits_audit_devices)
  moreover have "keeps (audit_inv E) (poll F L R dev now)" for R dev
    unfolding poll_def by (intro keeps_rules keeps_audit_authenticates commits_audit_devices)
  moreover have "keeps (audit_inv E) (acknowledge F R now)" for R
    unfolding acknowledge_def by (intro keeps_rules keeps_audit_authenticates commits_audit_devices)
  moreover have "keeps (audit_inv E) (cancel_rotation tenant rotation_id now)" for tenant rotation_id
    unfolding cancel_rotation_def by (intro keeps_rules commits_rules commits_audit_devices)
  moreover have "keeps (audit_inv E) (revoke_credential tenant dev cid now)" for tenant dev cid
    unfolding revoke_credential_def enrollment_updates by (intro keeps_rules commits_rules; simp)
  ultimately show ?thesis by (cases call) (simp_all add: run_rotation_def keeps_andthen keeps_ret)
qed

section \<open>Networks, accounts and their management\<close>

lemma keeps_audit_networks:
  "keeps (audit_inv E) (create_network E base p slug name now)"
  "keeps (audit_inv E) (designate E (ret ()) operator tenant user confirmation now)"
proof -
  have "keeps (audit_inv E) (normalize_domain v)" for v
    unfolding normalize_domain_def Let_def by (intro keeps_rules)
  moreover have "commits (audit_inv E) (create_network_transaction E p slug n domain tenant now)" for n domain tenant
    unfolding create_network_transaction_def require_admin_in_def insert_namespace_def insert_membership_def
    by (intro commits_rules commits_audit_append identity_commits; simp)
  ultimately show "keeps (audit_inv E) (create_network E base p slug name now)"
    unfolding create_network_def Let_def by (intro keeps_rules)
  have "commits (audit_inv E) (designate_transaction E tenant user operator t targets)" for t targets
    unfolding designate_transaction_def project_owner_def insert_membership_def
    by (auto split: list.split intro!: commits_rules commits_audit_append identity_commits)
  moreover have "keeps (audit_inv E) (audit_verify E t)" for t
    unfolding audit_verify_def by (intro keeps_rules)
  ultimately show "keeps (audit_inv E) (designate E (ret ()) operator tenant user confirmation now)"
    unfolding designate_def designate_locked_def by (auto split: datetime.splits intro!: keeps_rules)
qed

lemma keeps_audit_identities: "keeps (audit_inv E) (run_identity E call now)"
  by (cases call) (simp_all add: run_identity_def keeps_andthen keeps_ret keeps_audit_identity keeps_audit_ceremonies keeps_audit_networks)

lemma keeps_audit_account_parts:
  "keeps (audit_inv E) (username u)" "keeps (audit_inv E) (require_admin p)" "keeps (audit_inv E) (endpoint_session P token now r)"
  "keeps (audit_inv E) (issue_endpoint_session P a t)" "keeps (audit_inv E) (replace_password a encoded t c)"
  "keeps (audit_inv E) (insert_reset_or_ignore q)" "keeps (audit_inv E) (revoke_unused_grants tenant account t)"
  unfolding username_def require_admin_def endpoint_session_def issue_endpoint_session_def replace_password_def Let_def
    insert_reset_or_ignore_def revoke_unused_grants_def update_accounts_def delete_endpoint_sessions_def insert_endpoint_session_def update_tokens_def
  by (intro keeps_rules; simp)+

lemmas commits_audit_account_parts = keeps_audit_account_parts [THEN keeps_commits]

lemma commits_account_audit: "commits (audit_inv E) (account_audit E tenant action actor_id resource_id now)"
  unfolding account_audit_def by (rule commits_audit_append) simp

lemma commits_audit_accounts:
  "commits (audit_inv E) (create_account_transaction E p alias name encoded account now)"
  "commits (audit_inv E) (login_transaction P a now)"
  "commits (audit_inv E) (change_transaction E P token encoded now)"
  "commits (audit_inv E) (reset_transaction E p request_id encoded now)"
  "commits (audit_inv E) (account_grant_transaction E P token dev grant grant_id now)"
  unfolding create_account_transaction_def login_transaction_def change_transaction_def reset_transaction_def account_grant_transaction_def
    require_admin_in_def insert_account_def insert_enrollment_def insert_account_grant_def
  by (intro commits_rules commits_account_audit commits_audit_account_parts; simp)+

lemma keeps_audit_accounts: "keeps (audit_inv E) (run_account E P call now)"
proof -
  have "keeps (audit_inv E) (create_account E P p acct name now)" for p acct name
    unfolding create_account_def Let_def by (intro keeps_rules keeps_audit_account_parts commits_audit_accounts)
  moreover have "keeps (audit_inv E) (login P uname password now)" for uname password
    unfolding login_def by (intro keeps_rules keeps_audit_account_parts commits_audit_accounts)
  moreover have "keeps (audit_inv E) (change_password E P token password now)" for token password
    unfolding change_password_def by (intro keeps_rules keeps_audit_account_parts commits_audit_accounts)
  moreover have "keeps (audit_inv E) (reset_password E P p request_id now)" for p request_id
    unfolding reset_password_def by (intro keeps_rules keeps_audit_account_parts commits_audit_accounts)
  moreover have "keeps (audit_inv E) (account_enrollment_grant E P token dev now)" for token dev
    unfolding account_enrollment_grant_def by (intro keeps_rules commits_audit_accounts)
  moreover have "keeps (audit_inv E) (request_reset E uname now)" for uname
    unfolding request_reset_def by (intro keeps_rules commits_rules keeps_audit_account_parts commits_audit_account_parts commits_account_audit)
  moreover have "keeps (audit_inv E) (list_accounts p)" "keeps (audit_inv E) (reset_requests p)" "keeps (audit_inv E) (me P token now)"
    "keeps (audit_inv E) (logout P token)" for p token
    unfolding list_accounts_def reset_requests_def me_def logout_def delete_endpoint_sessions_def
    by (intro keeps_rules keeps_audit_account_parts; simp)+
  ultimately show ?thesis by (cases call) (simp_all add: run_account_def keeps_andthen keeps_ret)
qed

lemma commits_audit_management:
  "commits (audit_inv E) (require_owner p now)"
  "commits (audit_inv E) (require_admin_in p now)"
  "commits (audit_inv E) (require_network tenant revision)"
  "commits (audit_inv E) (require_identity_revision tenant kind x revision)"
  "commits (audit_inv E) (bump tenant revision)"
  "commits (audit_inv E) (bump_identity tenant kind x revision)"
  "commits (audit_inv E) (upsert_route tenant enabled t)"
  "commits (audit_inv E) (expire_undelivered_actions tenant u t)"
  "commits (audit_inv E) (update_accounts P f)"
  "commits (audit_inv E) (switch_account tenant account status user t)"
  unfolding require_owner_def require_admin_in_def require_network_def require_identity_revision_def bump_def bump_identity_def upsert_route_def
    expire_undelivered_actions_def switch_account_def delete_endpoint_sessions_def update_tokens_def update_accounts_def
  by (auto split: option.split intro!: commits_rules identity_commits)

lemma wp_suspension_counts:
  fixes w :: world
  assumes "audit_inv E (tables w)"
  shows "wp (suspend_network tenant t) (\<lambda>r w'. json_ok (JObj r) \<and> audit_inv E (tables w')) (\<lambda>_ _. True) w"
  unfolding suspend_network_def delete_endpoint_sessions_def update_tokens_def expire_undelivered_actions_def
  using assms by (simp add: wp_rules count_json_def)

lemma commits_audit_rewrite_network: "commits (audit_inv E) (rewrite_network E p previous tenant name status revision now)"
proof (rule commitsI)
  fix w :: world assume inv: "audit_inv E (tables w)"
  have tail: "commits (audit_inv E) (andthen (update_rows tenants tenants_update no_trigger P f) (bind (bump tenant revision) (\<lambda>updated.
      let payload = JObj [(''previous_status'', JStr (tenant_status_name (t_status previous))), (''status'', JStr (tenant_status_name status)),
        (''previous_name'', JStr (t_name previous)), (''display_name'', JStr name), (''revision'', JInt updated), (''revoked'', JObj revoked)] in
      andthen (audit_append E tenant ''network.updated'' ''platform_owner'' (pr_user p) ''network'' tenant payload now)
      (andthen (if pr_tenant p = tenant then ret ()
          else andthen (audit_append E (pr_tenant p) ''network.updated'' ''platform_owner'' (pr_user p) ''network'' tenant payload now) (ret ()))
      (ret (x updated))))))" if "json_ok (JObj revoked)" for revoked P f and x :: "int \<Rightarrow> network_update"
    unfolding Let_def by (intro commits_rules commits_audit_management commits_audit_append) (use that in simp_all)
  have counts: "wp (if b then suspend_network tenant t else ret []) (\<lambda>r w'. json_ok (JObj r) \<and> audit_inv E (tables w')) (\<lambda>_ _. True) w" for b t
    using inv wp_suspension_counts [OF inv, of tenant t] by (simp add: wp_ret)
  show "wp (rewrite_network E p previous tenant name status revision now) (\<lambda>_ w'. audit_inv E (tables w')) (\<lambda>_ _. True) w"
  proof (cases now)
    case (Aware t)
    show ?thesis
      unfolding rewrite_network_def Aware utc_text_def datetime.case bind_ret wp_bind [of "if b then m else k" for b m k]
      by (rule wp_mono [OF counts]) (elim conjE, rule commitsD [OF tail [unfolded Aware]], assumption+)
  qed (simp add: rewrite_network_def wp_rules)
qed

lemma commits_audit_rewrites:
  "commits (audit_inv E) (rewrite_member E p user r st er es revision now)"
  "commits (audit_inv E) (rewrite_account E p target account name status' revision now)"
  "commits (audit_inv E) (switch_route E p tenant domain enabled revision now)"
  unfolding rewrite_member_def rewrite_account_def switch_route_def update_tokens_def
  by (intro commits_rules commits_audit_management commits_audit_append commits_for_each; simp add: count_json_def split: option.split)+

lemma keeps_audit_managed: "keeps (audit_inv E) (run_managed E call now)"
proof -
  have "keeps (audit_inv E) (normalize_domain v)" for v
    unfolding normalize_domain_def Let_def by (intro keeps_rules)
  moreover have "commits (audit_inv E) (update_network_transaction E p tenant name st revision now)"
      "commits (audit_inv E) (adopt_transaction E p tenant domain revision now)"
      "commits (audit_inv E) (update_member_transaction E p user r us er es revision now)"
      "commits (audit_inv E) (update_account_transaction E p account name ast revision now)"
      "commits (audit_inv E) (configure_transaction E base host p tenant enabled revision now)"
    for p tenant name st revision domain user r us er es account ast base host enabled
    unfolding update_network_transaction_def adopt_transaction_def update_member_transaction_def update_account_transaction_def
      configure_transaction_def insert_namespace_def
    by (auto split: option.split prod.split intro!: commits_rules commits_audit_management commits_audit_append commits_audit_rewrite_network
        commits_audit_rewrites)
  ultimately show ?thesis
    by (cases call) (auto simp: run_managed_def update_network_def adopt_namespace_def update_member_def update_account_def configure_route_def
        Let_def split: option.split intro!: keeps_rules)
qed

lemma keeps_audit_team: "keeps (audit_inv E) (team p now)"
  unfolding team_def require_admin_in_def by (intro keeps_rules identity_keeps)

lemma keeps_audit_revoke_invite: "keeps (audit_inv E) (revoke_invite E p invite now)"
  unfolding revoke_invite_def by (intro keeps_rules commits_rules commits_audit_management commits_audit_append; simp)

lemma keeps_audit_call: "keeps (audit_inv E) (run_call E call now)"
proof -
  have "keeps (audit_inv E) (run_case_op E p cid oper now)" for p cid oper
    by (cases oper) (simp_all add: run_case_op_def keeps_andthen keeps_ret keeps_audit_cases)
  then show ?thesis
    by (cases call) (simp_all add: run_call_def keeps_andthen keeps_ret keeps_audit_responses keeps_audit_run_store keeps_audit_worker
        keeps_audit_collector keeps_audit_retention keeps_audit_enrollment keeps_audit_rotation keeps_audit_identities
        keeps_audit_accounts keeps_audit_managed keeps_audit_team keeps_audit_revoke_invite)
qed

section \<open>The audit trail of the whole appliance\<close>

text \<open>
  C35. The audit trail survives everything the appliance does. Start from any state whose audit log is a
  well-formed chain (the empty one of a new appliance is) and make any sequence of calls to any of the
  services, at any times, successful or refused: human operations on cases and responses, collector
  requests, the detection worker, retention, enrollment, credential rotation, sign-in and invitations.
  Afterwards verification of every network's audit log succeeds.
\<close>

theorem audit_trail_survives:
  assumes "audit_inv E (tables w)"
  shows "vf_valid (verify_log E tenant (tables (run_calls E calls w)))"
proof -
  have "audit_inv E (tables (run_calls E calls w))"
    using assms
  proof (induction E calls w rule: run_calls.induct)
    case (2 E call now calls w)
    then show ?case using keeps_audit_call [of E call now] by (simp add: keeps_def after_def)
  qed simp
  then show ?thesis by (simp add: audit_inv_verifies)
qed

theorem audit_trail_survives_witness:
  "vf_valid (verify_log sample_env ''t1'' (tables (run_calls sample_env
     [(SetRetention (sample_principal ''s1'' ''adm'' Admin) 90, Aware 5), (OnEnrollment (RevokeDevice ''t1'' ''dev1''), Aware 6)]
     (world_at sample_db))))"
  by (rule audit_trail_survives) (simp add: audit_inv_sample)

end
